(* ===== verification/F64.thy ===== *)
theory F64
  imports Complex_Main "HOL-Library.Log_Nat"
begin

text \<open>
  Rust's \<open>f64\<close>: IEEE 754 binary64 with round-to-nearest-even. A finite value is the rational
  number it denotes; every arithmetic operation computes the exact rational result and rounds
  it once, \<open>mul_add\<close> included. Results of magnitude \<open>2 ^ 1024\<close> or more after rounding are the
  infinities, and gradual underflow is kept (the exponent is bounded below by -1022).
  Not kept: the sign of zero (both zeros are \<open>FFin 0\<close>) and the payload and sign of NaN.
  The transcendental functions of the standard library (\<open>ln\<close>, \<open>sqrt\<close>, \<open>cos\<close>, \<open>powf\<close>) have a
  platform-dependent precision and are arguments of the definitions that use them.
\<close>

section \<open>Rounding\<close>

definition rne :: "rat \<Rightarrow> int" where
  "rne q = (let f = \<lfloor>q\<rfloor>; r = q - of_int f in
     if r < 1 / 2 then f else if 1 / 2 < r then f + 1 else if even f then f else f + 1)"

lemma rne_of_int [simp]: "rne (of_int n) = n"
  by (simp add: rne_def)

lemma rne_bounds: "\<lfloor>q\<rfloor> \<le> rne q \<and> rne q \<le> \<lfloor>q\<rfloor> + 1"
  by (simp add: rne_def Let_def)

lemma rne_mono:
  assumes "p \<le> q"
  shows "rne p \<le> rne q"
proof (cases "\<lfloor>p\<rfloor> = \<lfloor>q\<rfloor>")
  case True
  with assms show ?thesis by (simp add: rne_def Let_def)
next
  case False
  with floor_mono[OF assms] have "\<lfloor>p\<rfloor> + 1 \<le> \<lfloor>q\<rfloor>" by simp
  with rne_bounds[of p] rne_bounds[of q] show ?thesis by linarith
qed

text \<open>The binary exponent of a positive rational: \<open>2 powi e \<le> q < 2 powi (e + 1)\<close>.\<close>

definition ilog2 :: "rat \<Rightarrow> int" where
  "ilog2 q = (let (a, b) = quotient_of q; k = bitlen a - bitlen b in
     if 2 powi k \<le> q then k else k - 1)"

lemma bitlen_powi:
  assumes "0 < n"
  shows "2 powi (bitlen n - 1) \<le> (of_int n :: rat)" and "(of_int n :: rat) < 2 powi bitlen n"
proof -
  have pos: "0 < bitlen n" using assms by (simp add: bitlen_alt_def)
  have b: "2 ^ nat (bitlen n - 1) \<le> n \<and> n < 2 ^ nat (bitlen n)"
    using assms by (rule bitlen_bounds)
  have "(of_int (2 ^ nat (bitlen n - 1)) :: rat) \<le> of_int n" using b by (simp only: of_int_le_iff)
  then show "2 powi (bitlen n - 1) \<le> (of_int n :: rat)" using pos by (simp add: power_int_def)
  have "(of_int n :: rat) < of_int (2 ^ nat (bitlen n))" using b by (simp only: of_int_less_iff)
  then show "(of_int n :: rat) < 2 powi bitlen n" using pos by (simp add: power_int_def)
qed

lemma ilog2_bounds:
  assumes "0 < q"
  shows "2 powi ilog2 q \<le> q" and "q < 2 powi (ilog2 q + 1)"
proof -
  obtain a b where ab: "quotient_of q = (a, b)" by (cases "quotient_of q")
  have b0: "0 < b" using ab by (rule quotient_of_denom_pos)
  have q: "q = of_int a / of_int b" using ab by (rule quotient_of_div)
  have a0: "0 < a" using assms b0 by (simp add: q zero_less_divide_iff)
  note A = bitlen_powi[OF a0] and B = bitlen_powi[OF b0]
  let ?k = "bitlen a - bitlen b"
  have pb: "0 < (of_int b :: rat)" using b0 by simp
  have "q < 2 powi bitlen a / of_int b"
    unfolding q using A(2) pb by (rule divide_strict_right_mono)
  also have "\<dots> \<le> 2 powi bitlen a / 2 powi (bitlen b - 1)"
    using B(1) by (intro divide_left_mono) (simp_all add: b0)
  also have "\<dots> = 2 powi (?k + 1)"
    by (simp add: power_int_diff [symmetric] algebra_simps)
  finally have up: "q < 2 powi (?k + 1)" .
  have "2 powi (?k - 1) = (2 powi (bitlen a - 1) / 2 powi bitlen b :: rat)"
    by (simp add: power_int_diff [symmetric] algebra_simps)
  also have "\<dots> \<le> 2 powi (bitlen a - 1) / of_int b"
    using B(2) by (intro divide_left_mono) (simp_all add: b0)
  also have "\<dots> \<le> q" unfolding q using A(1) pb by (simp add: divide_right_mono)
  finally have lo: "2 powi (?k - 1) \<le> q" .
  show "2 powi ilog2 q \<le> q" and "q < 2 powi (ilog2 q + 1)"
    using up lo by (auto simp: ilog2_def ab Let_def)
qed

lemma powi_less_iff: "(2 powi a :: rat) < 2 powi b \<longleftrightarrow> a < b"
  using power_int_strict_increasing[of a b "2::rat"] power_int_increasing[of b a "2::rat"]
  by (auto simp: not_less [symmetric])

lemma ilog2_mono:
  assumes "0 < p" and "p \<le> q"
  shows "ilog2 p \<le> ilog2 q"
proof -
  have "(2 powi ilog2 p :: rat) < 2 powi (ilog2 q + 1)"
    using ilog2_bounds(1)[OF assms(1)] ilog2_bounds(2)[of q] assms by linarith
  then show ?thesis by (simp add: powi_less_iff)
qed

definition ulp_exp :: "rat \<Rightarrow> int" where
  "ulp_exp q = max (ilog2 q) (- 1022) - 52"

definition round_pos :: "rat \<Rightarrow> rat" where
  "round_pos q = (let u = 2 powi ulp_exp q in of_int (rne (q / u)) * u)"

lemma round_pos_grid:
  assumes "p \<le> of_int n * 2 powi ulp_exp p"
  shows "round_pos p \<le> of_int n * 2 powi ulp_exp p"
proof -
  have "p / 2 powi ulp_exp p \<le> of_int n" using assms by (simp add: pos_divide_le_eq)
  then have "rne (p / 2 powi ulp_exp p) \<le> n" using rne_mono rne_of_int by metis
  then show ?thesis by (simp add: round_pos_def Let_def)
qed

lemma grid_round_pos:
  assumes "of_int n * 2 powi ulp_exp p \<le> p"
  shows "of_int n * 2 powi ulp_exp p \<le> round_pos p"
proof -
  have "of_int n \<le> p / 2 powi ulp_exp p" using assms by (simp add: pos_le_divide_eq)
  then have "n \<le> rne (p / 2 powi ulp_exp p)" using rne_mono rne_of_int by metis
  then show ?thesis by (simp add: round_pos_def Let_def)
qed

lemma round_pos_nonneg: "0 \<le> q \<Longrightarrow> 0 \<le> round_pos q"
  using grid_round_pos[of 0 q] by simp

text \<open>A power of two above (below) the argument and on its grid bounds the rounded value.\<close>

lemma powi_on_grid:
  assumes "e \<le> k"
  shows "\<exists>n. (2 powi k :: rat) = of_int n * 2 powi e"
proof -
  have "(2 powi k :: rat) = 2 powi (k - e) * 2 powi e"
    by (simp add: power_int_add [symmetric])
  also have "(2 powi (k - e) :: rat) = of_int (2 ^ nat (k - e))"
    using assms by (simp add: power_int_def)
  finally show ?thesis by blast
qed

lemma round_pos_le_powi:
  assumes "0 < q" and "q \<le> 2 powi k" and "- 1074 \<le> k"
  shows "round_pos q \<le> 2 powi k"
proof -
  have "(2 powi ilog2 q :: rat) \<le> 2 powi k" using ilog2_bounds(1)[OF assms(1)] assms(2) by linarith
  then have "ilog2 q \<le> k" using powi_less_iff[of k "ilog2 q"] by linarith
  with assms(3) have "ulp_exp q \<le> k" by (simp add: ulp_exp_def max_def)
  then obtain n where "(2 powi k :: rat) = of_int n * 2 powi ulp_exp q" using powi_on_grid by blast
  with assms(2) show ?thesis using round_pos_grid[of q n] by simp
qed

lemma powi_le_round_pos:
  assumes "0 < q" and "2 powi k \<le> q" and "- 1074 \<le> k" and "k \<le> ilog2 q" and "ulp_exp q \<le> k"
  shows "2 powi k \<le> round_pos q"
proof -
  obtain n where "(2 powi k :: rat) = of_int n * 2 powi ulp_exp q"
    using powi_on_grid assms(5) by blast
  with assms(2) show ?thesis using grid_round_pos[of n q] by simp
qed

lemma round_pos_mono:
  assumes "0 < p" and "p \<le> q"
  shows "round_pos p \<le> round_pos q"
proof (cases "ulp_exp p = ulp_exp q")
  case True
  have "p / 2 powi ulp_exp q \<le> q / 2 powi ulp_exp q"
    using assms(2) by (simp add: divide_right_mono)
  then have "rne (p / 2 powi ulp_exp q) \<le> rne (q / 2 powi ulp_exp q)" by (rule rne_mono)
  with True show ?thesis by (simp add: round_pos_def Let_def)
next
  case False
  have q0: "0 < q" using assms by linarith
  have l: "ilog2 p \<le> ilog2 q" using assms by (rule ilog2_mono)
  with False have big: "- 1022 < ilog2 q" and lt: "ilog2 p < ilog2 q"
    by (auto simp: ulp_exp_def)
  have "p \<le> 2 powi (ilog2 p + 1)" using ilog2_bounds(2)[OF assms(1)] by simp
  also have "\<dots> \<le> 2 powi ilog2 q" using lt by (intro power_int_increasing) simp_all
  finally have "round_pos p \<le> 2 powi ilog2 q"
    using assms(1) big by (intro round_pos_le_powi) simp_all
  also have "\<dots> \<le> round_pos q"
    using q0 ilog2_bounds(1)[OF q0] big by (intro powi_le_round_pos) (simp_all add: ulp_exp_def)
  finally show ?thesis .
qed

definition rnd :: "rat \<Rightarrow> rat" where
  "rnd q = (if q = 0 then 0 else if 0 < q then round_pos q else - round_pos (- q))"

lemma rnd_0 [simp]: "rnd 0 = 0"
  by (simp add: rnd_def)

lemma rnd_uminus: "rnd (- q) = - rnd q"
  by (simp add: rnd_def)

lemma rnd_nonneg: "0 \<le> q \<Longrightarrow> 0 \<le> rnd q"
  by (simp add: rnd_def round_pos_nonneg)

lemma rnd_mono:
  assumes "p \<le> q"
  shows "rnd p \<le> rnd q"
proof -
  consider "0 < p" | "p \<le> 0" "0 \<le> q" | "q < 0" using assms by linarith
  then show ?thesis
  proof cases
    case 1
    with assms show ?thesis by (simp add: rnd_def round_pos_mono)
  next
    case 2
    have "0 \<le> rnd (- p)" using 2 by (simp add: rnd_nonneg)
    with rnd_nonneg[OF 2(2)] show ?thesis by (simp add: rnd_uminus)
  next
    case 3
    with assms show ?thesis by (simp add: rnd_def round_pos_mono)
  qed
qed

text \<open>Values that are on the grid already are kept; in particular all small integers.\<close>

lemma rnd_exact:
  assumes "q = of_int n * 2 powi ulp_exp q" and "0 < q"
  shows "rnd q = q"
  using assms round_pos_grid[of q n] grid_round_pos[of n q] by (simp add: rnd_def antisym)

lemma ilog2_le:
  assumes "0 < q" and "q < 2 powi (k + 1)"
  shows "ilog2 q \<le> k"
proof -
  have "(2 powi ilog2 q :: rat) < 2 powi (k + 1)" using ilog2_bounds(1)[OF assms(1)] assms(2) by linarith
  then show ?thesis by (simp add: powi_less_iff)
qed

lemma rnd_scaled:
  assumes "0 < n" and "n < 2 ^ 53" and "- 1074 \<le> k"
  shows "rnd (of_int n * 2 powi k) = of_int n * 2 powi k"
proof -
  let ?q = "of_int n * 2 powi k :: rat"
  have q0: "0 < ?q" using assms(1) by simp
  have "(of_int n :: rat) < of_int (2 ^ 53)" using assms(2) by (simp only: of_int_less_iff)
  then have "?q < 2 ^ 53 * 2 powi k" by (simp add: mult_strict_right_mono)
  also have "(2 ^ 53 * 2 powi k :: rat) = 2 powi (k + 52 + 1)"
    using power_int_add[of "2::rat" 53 k] by (simp add: algebra_simps)
  finally have "ilog2 ?q \<le> k + 52" using q0 by (intro ilog2_le)
  with assms(3) have u: "ulp_exp ?q \<le> k" by (simp add: ulp_exp_def)
  obtain m where "(2 powi k :: rat) = of_int m * 2 powi ulp_exp ?q" using powi_on_grid[OF u] by blast
  then have "?q = of_int (n * m) * 2 powi ulp_exp ?q" by simp
  then show ?thesis using q0 by (rule rnd_exact)
qed

lemma rnd_scaled_le:
  assumes "0 \<le> n" and "n \<le> 2 ^ 53" and "- 1074 \<le> k"
  shows "rnd (of_int n * 2 powi k) = of_int n * 2 powi k"
proof -
  consider "n = 0" | "0 < n" "n < 2 ^ 53" | "n = 2 ^ 53" using assms by linarith
  then show ?thesis
  proof cases
    case 3
    have "of_int n * 2 powi k = (2 powi (53 + k) :: rat)"
      using 3 by (simp add: power_int_add)
    then show ?thesis using rnd_scaled[of 1 "53 + k"] assms(3) by simp
  qed (simp_all add: rnd_scaled assms)
qed

text \<open>Rounding is idempotent: its results are the representable numbers.\<close>

lemma rnd_idem: "rnd (rnd q) = rnd q"
proof -
  have pos: "rnd (round_pos q) = round_pos q" if q0: "0 < q" for q
  proof -
    let ?k = "ulp_exp q" and ?n = "rne (q / 2 powi ulp_exp q)"
    have "q < 2 powi (?k + 53)"
      using ilog2_bounds(2)[OF q0] power_int_increasing[of "ilog2 q + 1" "?k + 53" "2::rat"]
      by (simp add: ulp_exp_def)
    then have "q / 2 powi ?k \<le> of_int (2 ^ 53)"
      by (simp add: power_int_add pos_divide_le_eq)
    then have "?n \<le> 2 ^ 53" using rne_mono rne_of_int by metis
    moreover have "0 \<le> ?n" using rne_mono[of 0 "q / 2 powi ?k"] rne_of_int[of 0] q0 by simp
    moreover have "- 1074 \<le> ?k" by (simp add: ulp_exp_def)
    ultimately show ?thesis using rnd_scaled_le by (simp add: round_pos_def Let_def)
  qed
  consider "q = 0" | "0 < q" | "0 < - q" by linarith
  then show ?thesis
  proof cases
    case 2
    then have "rnd q = round_pos q" by (simp add: rnd_def)
    then show ?thesis using pos[OF 2] by simp
  next
    case 3
    then have "rnd q = - round_pos (- q)" by (simp add: rnd_def)
    then show ?thesis using pos[OF 3] by (simp add: rnd_uminus)
  qed simp
qed

lemma rnd_of_int:
  assumes "\<bar>n\<bar> < 2 ^ 53"
  shows "rnd (of_int n) = of_int n"
proof -
  consider "n = 0" | "0 < n" | "0 < - n" by linarith
  then show ?thesis
  proof cases
    case 2
    with assms show ?thesis using rnd_scaled[of n 0] by simp
  next
    case 3
    with assms show ?thesis using rnd_scaled[of "- n" 0] rnd_uminus[of "of_int n"] by simp
  qed simp
qed

lemma rnd_1 [simp]: "rnd 1 = 1"
  using rnd_of_int[of 1] by simp

lemma rnd_numeral:
  assumes "(numeral w :: int) < 2 ^ 53"
  shows "rnd (numeral w) = numeral w"
  using rnd_of_int[of "numeral w"] assms by simp

text \<open>
  A certificate for a rounded value: \<open>n * 2 powi k\<close> with a 53-bit \<open>n\<close> at a distance of less
  than half a unit in the last place. Concrete evaluations use it instead of computing exponents.
\<close>

lemma ilog2_unique:
  assumes "2 powi e \<le> q" and "q < 2 powi (e + 1)"
  shows "ilog2 q = e"
proof -
  have q0: "0 < q" using assms(1) zero_less_power_int[of "2::rat" e] by linarith
  have "(2 powi e :: rat) < 2 powi (ilog2 q + 1)" using assms(1) ilog2_bounds(2)[OF q0] by linarith
  then show ?thesis using ilog2_le[OF q0 assms(2)] by (simp add: powi_less_iff)
qed

lemma rne_nearest:
  assumes "\<bar>q - of_int n\<bar> < 1 / 2"
  shows "rne q = n"
proof (cases "of_int n \<le> q")
  case True
  with assms have "\<lfloor>q\<rfloor> = n" by (intro floor_unique) (simp_all add: abs_if split: if_splits)
  with assms True show ?thesis by (simp add: rne_def)
next
  case False
  with assms have f: "\<lfloor>q\<rfloor> = n - 1"
    by (intro floor_unique) (simp_all add: abs_if split: if_splits)
  with assms False show ?thesis by (simp add: rne_def Let_def)
qed

lemma rnd_nearest:
  assumes "2 powi (k + 52) \<le> q" and "q < 2 powi (k + 53)" and "- 1074 \<le> k"
    and "\<bar>q - of_int n * 2 powi k\<bar> < 2 powi k / 2"
  shows "rnd q = of_int n * 2 powi k"
proof -
  have "ilog2 q = k + 52" using assms(1,2) by (intro ilog2_unique) (simp_all add: add.assoc)
  with assms(3) have u: "ulp_exp q = k" by (simp add: ulp_exp_def)
  have "\<bar>q / 2 powi k - of_int n\<bar> = \<bar>q - of_int n * 2 powi k\<bar> / 2 powi k"
    by (simp add: diff_divide_distrib [symmetric] abs_divide field_simps)
  also have "\<dots> < 1 / 2" using assms(4) by (simp add: divide_less_eq)
  finally have "rne (q / 2 powi k) = n" by (rule rne_nearest)
  moreover have "0 < q" using assms(1) zero_less_power_int[of "2::rat" "k + 52"] by linarith
  ultimately show ?thesis by (simp add: rnd_def round_pos_def u)
qed

lemma rnd_unit: "0 \<le> q \<Longrightarrow> q \<le> 1 \<Longrightarrow> 0 \<le> rnd q \<and> rnd q \<le> 1"
  using rnd_mono[of q 1] by (simp add: rnd_nonneg)

section \<open>Values and operations\<close>

datatype f64 = FFin rat | FPInf | FNInf | FNaN

definition f64_of :: "rat \<Rightarrow> f64" where
  "f64_of q = (let r = rnd q in
     if 2 ^ 1024 \<le> r then FPInf else if r \<le> - (2 ^ 1024) then FNInf else FFin r)"

text \<open>\<open>f64_of q\<close> is also the literal \<open>q\<close>; \<open>f64_int n\<close> is the cast \<open>n as f64\<close>.\<close>

abbreviation f64_int :: "int \<Rightarrow> f64" where "f64_int n \<equiv> f64_of (of_int n)"
abbreviation f64_nat :: "nat \<Rightarrow> f64" where "f64_nat n \<equiv> f64_of (of_nat n)"
abbreviation f64_0 :: f64 where "f64_0 \<equiv> FFin 0"
abbreviation f64_1 :: f64 where "f64_1 \<equiv> FFin 1"

definition f64_max_value :: f64 where
  "f64_max_value = FFin ((2 ^ 53 - 1) * 2 ^ 971)"

fun fneg :: "f64 \<Rightarrow> f64" where
  "fneg (FFin a) = FFin (- a)"
| "fneg FPInf = FNInf"
| "fneg FNInf = FPInf"
| "fneg FNaN = FNaN"

fun fadd :: "f64 \<Rightarrow> f64 \<Rightarrow> f64" where
  "fadd FNaN y = FNaN"
| "fadd x FNaN = FNaN"
| "fadd FPInf FNInf = FNaN"
| "fadd FNInf FPInf = FNaN"
| "fadd FPInf y = FPInf"
| "fadd FNInf y = FNInf"
| "fadd x FPInf = FPInf"
| "fadd x FNInf = FNInf"
| "fadd (FFin a) (FFin b) = f64_of (a + b)"

definition fsub :: "f64 \<Rightarrow> f64 \<Rightarrow> f64" where
  "fsub x y = fadd x (fneg y)"

text \<open>The exact product, before rounding; \<open>fmul\<close> rounds it and \<open>fma\<close> rounds after adding.\<close>

definition inf_of_sign :: "rat \<Rightarrow> f64" where
  "inf_of_sign s = (if s = 0 then FNaN else if 0 < s then FPInf else FNInf)"

fun fprod :: "f64 \<Rightarrow> f64 \<Rightarrow> f64" where
  "fprod FNaN y = FNaN"
| "fprod x FNaN = FNaN"
| "fprod (FFin a) (FFin b) = FFin (a * b)"
| "fprod (FFin a) FPInf = inf_of_sign a"
| "fprod (FFin a) FNInf = inf_of_sign (- a)"
| "fprod FPInf (FFin b) = inf_of_sign b"
| "fprod FNInf (FFin b) = inf_of_sign (- b)"
| "fprod FPInf FPInf = FPInf"
| "fprod FNInf FNInf = FPInf"
| "fprod FPInf FNInf = FNInf"
| "fprod FNInf FPInf = FNInf"

definition fmul :: "f64 \<Rightarrow> f64 \<Rightarrow> f64" where
  "fmul x y = (case fprod x y of FFin q \<Rightarrow> f64_of q | z \<Rightarrow> z)"

text \<open>\<open>x.mul_add(y, z)\<close>\<close>

definition fma :: "f64 \<Rightarrow> f64 \<Rightarrow> f64 \<Rightarrow> f64" where
  "fma x y z = fadd (fprod x y) z"

fun fdiv :: "f64 \<Rightarrow> f64 \<Rightarrow> f64" where
  "fdiv FNaN y = FNaN"
| "fdiv x FNaN = FNaN"
| "fdiv (FFin a) (FFin b) = (if b = 0 then inf_of_sign a else f64_of (a / b))"
| "fdiv (FFin a) y = FFin 0"
| "fdiv FPInf (FFin b) = (if 0 \<le> b then FPInf else FNInf)"
| "fdiv FNInf (FFin b) = (if 0 \<le> b then FNInf else FPInf)"
| "fdiv x y = FNaN"

fun fabs :: "f64 \<Rightarrow> f64" where
  "fabs (FFin a) = FFin \<bar>a\<bar>"
| "fabs FNaN = FNaN"
| "fabs x = FPInf"

definition is_finite :: "f64 \<Rightarrow> bool" where
  "is_finite x = (case x of FFin _ \<Rightarrow> True | _ \<Rightarrow> False)"

text \<open>
  The IEEE comparisons: every comparison with NaN is false. They are the \<open>\<le>\<close> and \<open><\<close> of the
  type; \<open>feq\<close> is Rust's \<open>==\<close> (false on NaN, unlike the equality of HOL).
\<close>

instantiation f64 :: ord
begin

fun less_eq_f64 :: "f64 \<Rightarrow> f64 \<Rightarrow> bool" where
  "less_eq_f64 FNaN y = False"
| "less_eq_f64 x FNaN = False"
| "less_eq_f64 FNInf y = True"
| "less_eq_f64 x FPInf = True"
| "less_eq_f64 (FFin a) (FFin b) = (a \<le> b)"
| "less_eq_f64 (FFin a) FNInf = False"
| "less_eq_f64 FPInf y = False"

definition less_f64 :: "f64 \<Rightarrow> f64 \<Rightarrow> bool" where
  "less_f64 x y = (x \<le> y \<and> \<not> y \<le> x)"

instance ..

end

definition feq :: "f64 \<Rightarrow> f64 \<Rightarrow> bool" where
  "feq x y = (x \<noteq> FNaN \<and> x = y)"

text \<open>\<open>f64::max\<close> and \<open>f64::min\<close> return the other operand when one is NaN; \<open>clamp\<close> keeps NaN.\<close>

definition fmax :: "f64 \<Rightarrow> f64 \<Rightarrow> f64" where
  "fmax x y = (if x = FNaN then y else if y = FNaN then x else if x \<le> y then y else x)"

definition fmin :: "f64 \<Rightarrow> f64 \<Rightarrow> f64" where
  "fmin x y = (if x = FNaN then y else if y = FNaN then x else if x \<le> y then x else y)"

definition fclamp :: "f64 \<Rightarrow> f64 \<Rightarrow> f64 \<Rightarrow> f64" where
  "fclamp x lo hi = (if x < lo then lo else if hi < x then hi else x)"

text \<open>\<open>partial_cmp(..).unwrap_or(Equal)\<close> as used in sorts: \<open>cmp_less x y\<close> is \<open>Less\<close>.\<close>

datatype ordering = Less | Equal | Greater

definition fcmp_or_equal :: "f64 \<Rightarrow> f64 \<Rightarrow> ordering" where
  "fcmp_or_equal x y = (if x < y then Less else if y < x then Greater else Equal)"

text \<open>\<open>total_cmp\<close> as a sort key: NaN above everything.\<close>

definition total_key :: "f64 \<Rightarrow> nat \<times> rat" where
  "total_key x = (case x of FNInf \<Rightarrow> (0, 0) | FFin q \<Rightarrow> (1, q) | FPInf \<Rightarrow> (2, 0) | FNaN \<Rightarrow> (3, 0))"

text \<open>The saturating cast of a ceiling, \<open>x.ceil() as uN\<close> with \<open>bound = 2 ^ N - 1\<close> (NaN gives 0).\<close>

definition fceil_as :: "int \<Rightarrow> f64 \<Rightarrow> int" where
  "fceil_as bound x = (case x of FFin q \<Rightarrow> max 0 (min bound \<lceil>q\<rceil>) | FPInf \<Rightarrow> bound | FNInf \<Rightarrow> 0 | FNaN \<Rightarrow> 0)"

text \<open>The saturating cast \<open>x as uN\<close>, which truncates; below zero it saturates at 0.\<close>

definition ftrunc_as :: "int \<Rightarrow> f64 \<Rightarrow> int" where
  "ftrunc_as bound x = (case x of FFin q \<Rightarrow> max 0 (min bound \<lfloor>q\<rfloor>) | FPInf \<Rightarrow> bound | FNInf \<Rightarrow> 0 | FNaN \<Rightarrow> 0)"

section \<open>Order facts\<close>

lemma f64_le_refl: "x \<noteq> FNaN \<Longrightarrow> x \<le> (x :: f64)"
  by (cases x) auto

lemma f64_le_trans: "x \<le> y \<Longrightarrow> y \<le> z \<Longrightarrow> x \<le> (z :: f64)"
  by (cases x; cases y; cases z) auto

lemma f64_le_antisym: "x \<le> y \<Longrightarrow> y \<le> x \<Longrightarrow> x = (y :: f64)"
  by (cases x; cases y) auto

lemma f64_le_linear: "x \<noteq> FNaN \<Longrightarrow> y \<noteq> FNaN \<Longrightarrow> x \<le> y \<or> y \<le> (x :: f64)"
  by (cases x; cases y) auto

lemma f64_less_FFin [simp]: "FFin a < FFin b \<longleftrightarrow> a < b"
  by (auto simp: less_f64_def)

lemma f64_le_not_NaN: "x \<le> y \<Longrightarrow> x \<noteq> FNaN \<and> y \<noteq> (FNaN :: f64)"
  by (cases x; cases y) auto

lemma f64_less_not_NaN: "x < y \<Longrightarrow> x \<noteq> FNaN \<and> y \<noteq> (FNaN :: f64)"
  by (auto simp: less_f64_def dest: f64_le_not_NaN)

lemma f64_not_le: "x \<noteq> FNaN \<Longrightarrow> y \<noteq> FNaN \<Longrightarrow> \<not> x \<le> y \<longleftrightarrow> y < (x :: f64)"
  using f64_le_linear[of x y] by (auto simp: less_f64_def)

lemma f64_not_less: "x \<noteq> FNaN \<Longrightarrow> y \<noteq> FNaN \<Longrightarrow> \<not> x < y \<longleftrightarrow> y \<le> (x :: f64)"
  using f64_le_linear[of x y] by (auto simp: less_f64_def)

lemma f64_less_le: "x < y \<Longrightarrow> x \<le> (y :: f64)"
  by (simp add: less_f64_def)

lemma f64_less_simps [simp]:
  "\<not> FNaN < x" "\<not> x < FNaN" "\<not> x < FNInf" "\<not> FPInf < x"
  "FFin a < FPInf" "FNInf < FFin a" "FNInf < FPInf"
  by (cases x; simp add: less_f64_def)+

lemma f64_le_simps [simp]:
  "\<not> x \<le> FNaN" "FPInf \<le> x \<longleftrightarrow> x = FPInf" "x \<le> FNInf \<longleftrightarrow> x = FNInf"
  "x \<le> FPInf \<longleftrightarrow> x \<noteq> FNaN" "FNInf \<le> x \<longleftrightarrow> x \<noteq> FNaN"
  by (cases x; simp)+

section \<open>The unit interval and non-negative values\<close>

definition unit_f64 :: "f64 \<Rightarrow> bool" where
  "unit_f64 x = (f64_0 \<le> x \<and> x \<le> f64_1)"

lemma unit_f64_iff: "unit_f64 x \<longleftrightarrow> (\<exists>q. x = FFin q \<and> 0 \<le> q \<and> q \<le> 1)"
  by (cases x) (auto simp: unit_f64_def)

lemma unit_f64E:
  assumes "unit_f64 x"
  obtains q where "x = FFin q" and "0 \<le> q" and "q \<le> 1"
  using assms by (auto simp: unit_f64_iff)

lemma f64_of_unit: "0 \<le> q \<Longrightarrow> q \<le> 1 \<Longrightarrow> f64_of q = FFin (rnd q)"
  using rnd_unit[of q] by (simp add: f64_of_def)

lemma unit_f64_of: "0 \<le> q \<Longrightarrow> q \<le> 1 \<Longrightarrow> unit_f64 (f64_of q)"
  using rnd_unit[of q] by (simp add: f64_of_unit unit_f64_iff)

lemma f64_of_not_NaN [simp]: "f64_of q \<noteq> FNaN"
  by (simp add: f64_of_def Let_def)

lemma f64_of_mono: "p \<le> q \<Longrightarrow> f64_of p \<le> f64_of q"
  using rnd_mono[of p q] by (simp add: f64_of_def Let_def)

lemma f64_of_nonneg: "0 \<le> q \<Longrightarrow> f64_0 \<le> f64_of q"
  using rnd_nonneg[of q] by (simp add: f64_of_def Let_def)

lemma f64_of_0 [simp]: "f64_of 0 = f64_0" and f64_of_1 [simp]: "f64_of 1 = f64_1"
  by (simp_all add: f64_of_def)

lemma unit_f64_0 [simp]: "unit_f64 f64_0" and unit_f64_1 [simp]: "unit_f64 f64_1"
  by (simp_all add: unit_f64_def)

lemma unit_fclamp: "x \<noteq> FNaN \<Longrightarrow> unit_f64 (fclamp x f64_0 f64_1)"
  by (cases x) (auto simp: fclamp_def unit_f64_def)

lemma fclamp_unit_id: "unit_f64 x \<Longrightarrow> fclamp x f64_0 f64_1 = x"
  by (auto simp: fclamp_def elim!: unit_f64E)

lemma unit_fmul: "unit_f64 x \<Longrightarrow> unit_f64 y \<Longrightarrow> unit_f64 (fmul x y)"
  by (auto simp: fmul_def unit_f64_of mult_le_one elim!: unit_f64E)

lemma unit_fsub_1: "unit_f64 x \<Longrightarrow> unit_f64 (fsub f64_1 x)"
  by (auto simp: fsub_def unit_f64_of elim!: unit_f64E)

lemma f64_of_finite:
  assumes "0 \<le> q" and "q \<le> 2 ^ 53"
  shows "f64_of q = FFin (rnd q) \<and> 0 \<le> rnd q \<and> rnd q \<le> 2 ^ 53"
proof -
  have "rnd (2 ^ 53) = (2 ^ 53 :: rat)" using rnd_scaled_le[of "2 ^ 53" 0] by simp
  with rnd_mono[OF assms(2)] have le: "rnd q \<le> 2 ^ 53" by simp
  moreover have "(2 ^ 53 :: rat) < 2 ^ 1024" by (rule power_strict_increasing) simp_all
  ultimately have "\<not> 2 ^ 1024 \<le> rnd q" by linarith
  moreover have "\<not> rnd q \<le> - (2 ^ 1024)" using rnd_nonneg[OF assms(1)]
    by (meson less_le_trans neg_less_0_iff_less not_le zero_less_numeral zero_less_power)
  ultimately show ?thesis using le rnd_nonneg[OF assms(1)] by (simp only: f64_of_def Let_def if_False)
qed

lemma f64_of_abs_finite:
  assumes "\<bar>q\<bar> \<le> 2 ^ 53"
  shows "is_finite (f64_of q)"
proof (cases "0 \<le> q")
  case True
  with assms f64_of_finite[of q] show ?thesis by (simp add: is_finite_def)
next
  case False
  with assms f64_of_finite[of "- q"] have "0 \<le> rnd (- q)" "rnd (- q) \<le> 2 ^ 53" by simp_all
  moreover have "(2 ^ 53 :: rat) < 2 ^ 1024" by (rule power_strict_increasing) simp_all
  ultimately have "\<not> 2 ^ 1024 \<le> rnd q" "\<not> rnd q \<le> - (2 ^ 1024)"
    unfolding rnd_uminus by linarith+
  then show ?thesis by (simp only: f64_of_def Let_def if_False is_finite_def f64.case)
qed

lemma is_finiteE:
  assumes "is_finite x"
  obtains q where "x = FFin q"
  using assms by (cases x) (auto simp: is_finite_def)

lemma fmul_0_finite: "is_finite x \<Longrightarrow> fmul f64_0 x = f64_0"
  by (erule is_finiteE) (simp add: fmul_def)

lemma fmul_FFin: "fmul (FFin a) (FFin b) = f64_of (a * b)"
  by (simp add: fmul_def)

lemma f64_nat_exact:
  assumes "n \<le> 2 ^ 53"
  shows "f64_nat n = FFin (of_nat n)"
proof -
  have "int n \<le> 2 ^ 53" using assms by (metis of_nat_le_iff of_nat_numeral of_nat_power)
  then have "rnd (of_nat n) = of_nat n" using rnd_scaled_le[of "int n" 0] by simp
  moreover have "(of_nat n :: rat) \<le> 2 ^ 53" using assms by (metis of_nat_le_iff of_nat_numeral of_nat_power)
  ultimately show ?thesis using f64_of_finite[of "of_nat n"] by simp
qed

lemma fmax_0_nonneg: "f64_0 \<le> fmax x f64_0"
  by (cases x) (auto simp: fmax_def)

lemma fmax_0_not_NaN: "fmax x f64_0 \<noteq> FNaN"
  by (cases x) (auto simp: fmax_def)

lemma fmul_nonneg:
  assumes "f64_0 \<le> x" and "f64_0 \<le> y" and "fmul x y \<noteq> FNaN"
  shows "f64_0 \<le> fmul x y"
  using assms by (cases x; cases y) (auto simp: fmul_def f64_of_nonneg inf_of_sign_def)

lemma fadd_nonneg: "f64_0 \<le> x \<Longrightarrow> f64_0 \<le> y \<Longrightarrow> f64_0 \<le> fadd x y"
  by (cases x; cases y) (auto simp: f64_of_nonneg)

lemma fadd_mono: "x \<le> y \<Longrightarrow> is_finite z \<Longrightarrow> fadd x z \<le> fadd y z"
  by (cases x; cases y; cases z) (auto simp: is_finite_def f64_of_mono)

lemma ordering_cases: "fcmp_or_equal x y = Greater \<longleftrightarrow> y < x"
  by (auto simp: fcmp_or_equal_def less_f64_def)

section \<open>Representable values\<close>

text \<open>
  Every \<open>f64\<close> of a running program is representable: literals, casts and results of operations
  are rounded. Lemmas that need it (a sum is not below its summands) state it as \<open>f64_ok\<close>.
\<close>

definition f64_ok :: "f64 \<Rightarrow> bool" where
  "f64_ok x = (case x of FFin q \<Rightarrow> f64_of q = FFin q | _ \<Rightarrow> True)"

lemma f64_ok_of [simp]: "f64_ok (f64_of q)"
  by (auto simp: f64_ok_def f64_of_def Let_def rnd_idem not_le split: f64.split)

lemma f64_ok_fadd: "f64_ok x \<Longrightarrow> f64_ok y \<Longrightarrow> f64_ok (fadd x y)"
  by (cases x; cases y) (simp_all add: f64_ok_of [unfolded f64_ok_def] f64_ok_def)

lemma fadd_commute: "fadd x y = fadd y x"
  by (cases x; cases y) (simp_all add: add.commute)

lemma fadd_ge_left:
  assumes "f64_ok x" and "x \<noteq> FNaN" and "f64_0 \<le> y" and "f64_0 \<le> x"
  shows "x \<le> fadd x y"
proof (cases x)
  case (FFin p)
  show ?thesis
  proof (cases y)
    case (FFin q)
    then have "f64_of p \<le> f64_of (p + q)" using assms(3) by (intro f64_of_mono) simp
    with FFin \<open>x = FFin p\<close> assms(1) show ?thesis by (simp add: f64_ok_def)
  qed (use FFin assms in auto)
qed (use assms in \<open>cases y; auto\<close>)+

lemma fadd_ge_right:
  assumes "f64_ok y" and "f64_0 \<le> y" and "f64_0 \<le> x"
  shows "y \<le> fadd x y"
  using fadd_ge_left[of y x] assms by (auto simp: fadd_commute dest: f64_le_not_NaN)

lemma fdiv_unit:
  assumes "f64_0 \<le> x" and "x \<le> y" and "f64_0 < y" and "is_finite y"
  shows "unit_f64 (fdiv x y)"
  using assms by (cases x; cases y) (auto simp: is_finite_def intro!: unit_f64_of)

text \<open>Sums of bounded values stay finite.\<close>

lemma fadd_bounded:
  assumes "f64_0 \<le> x" and "x \<le> f64_int m" and "f64_0 \<le> y" and "y \<le> f64_int n"
    and "0 \<le> m" and "0 \<le> n" and "m + n < 2 ^ 53"
  shows "f64_0 \<le> fadd x y \<and> fadd x y \<le> f64_int (m + n)"
proof -
  have fin: "f64_int k = FFin (of_int k)" if "0 \<le> k" "k \<le> m + n" for k :: int
    using that assms(7) rnd_of_int[of k] by (simp add: f64_of_def)
  have m: "f64_int m = FFin (of_int m)" and n: "f64_int n = FFin (of_int n)"
    using fin assms by simp_all
  from assms(1-4) obtain p q where "x = FFin p" "y = FFin q" "0 \<le> p" "0 \<le> q"
      "p \<le> of_int m" "q \<le> of_int n"
    by (cases x; cases y) (auto simp: m n)
  then show ?thesis
    by (auto intro!: f64_of_mono f64_of_nonneg)
qed

section \<open>Ranges\<close>

text \<open>\<open>in_range k x\<close>: \<open>x\<close> is a number from 0 to \<open>k\<close>; rounding does not leave such a range.\<close>

definition in_range :: "nat \<Rightarrow> f64 \<Rightarrow> bool" where
  "in_range k x \<longleftrightarrow> f64_0 \<le> x \<and> x \<le> FFin (of_nat k)"

lemma rangeE:
  assumes "in_range k x"
  obtains q where "x = FFin q" and "0 \<le> q" and "q \<le> of_nat k"
  using assms by (cases x) (auto simp: in_range_def)

lemma range_1 [simp]: "in_range (Suc 0) x = unit_f64 x"
  by (simp add: in_range_def unit_f64_def)

lemma range_of: "0 \<le> q \<Longrightarrow> q \<le> of_nat k \<Longrightarrow> k \<le> 2 ^ 53 \<Longrightarrow> in_range k (f64_of q)"
  using f64_of_mono[of 0 q] f64_of_mono[of q "of_nat k"] f64_nat_exact[of k] by (simp add: in_range_def)

lemma range_fma:
  assumes "in_range a s" and "unit_f64 w" and "in_range b x" and "a + b \<le> 2 ^ 53"
  shows "in_range (a + b) (fma s w x)"
proof -
  obtain p q r where v: "s = FFin p" "0 \<le> p" "p \<le> of_nat a" "w = FFin q" "0 \<le> q" "q \<le> 1"
    "x = FFin r" "0 \<le> r" "r \<le> of_nat b"
    using assms(1-3) by (auto elim!: rangeE unit_f64E)
  have "p * q \<le> of_nat a * 1" using v by (intro mult_mono) auto
  then have "p * q + r \<le> of_nat (a + b)" using v by simp
  moreover have "0 \<le> p * q + r" using v by simp
  ultimately show ?thesis using assms(4) by (simp add: fma_def v range_of)
qed

lemma range_fmul: "in_range a s \<Longrightarrow> unit_f64 w \<Longrightarrow> a \<le> 2 ^ 53 \<Longrightarrow> in_range a (fmul s w)"
proof (elim rangeE unit_f64E)
  fix p q :: rat
  assume v: "0 \<le> p" "p \<le> of_nat a" "0 \<le> q" "q \<le> 1" "s = FFin p" "w = FFin q" "a \<le> 2 ^ 53"
  have "p * q \<le> of_nat a * 1" using v by (intro mult_mono) auto
  then show ?thesis using v by (simp add: fmul_FFin range_of)
qed

lemma range_fadd: "in_range a s \<Longrightarrow> in_range b x \<Longrightarrow> a + b \<le> 2 ^ 53 \<Longrightarrow> in_range (a + b) (fadd s x)"
  by (elim rangeE) (simp add: range_of add_mono)

lemma range_mono: "in_range a x \<Longrightarrow> a \<le> b \<Longrightarrow> in_range b x"
  by (erule rangeE) (simp add: in_range_def order.trans[of _ "of_nat a"])

lemma range_fmax: "in_range a w \<Longrightarrow> in_range a (fmax w f64_0)"
  by (erule rangeE) (auto simp: fmax_def in_range_def)

text \<open>Powers of two are exact, and a number between two finite ones is finite.\<close>

lemma f64_of_powi:
  assumes "- 1074 \<le> k" and "k \<le> 0"
  shows "f64_of (2 powi k) = FFin (2 powi k)"
proof -
  have "(2 :: rat) powi k \<le> 1" using assms(2) by (simp add: power_int_def field_simps)
  moreover have "rnd (2 powi k) = 2 powi k" using rnd_scaled_le[of 1 k] assms(1) by simp
  ultimately show ?thesis using f64_of_unit[of "2 powi k"] by simp
qed

lemma f64_of_sixteenth: "f64_of (1 / 16) = FFin (1 / 16)" and f64_of_half: "f64_of (1 / 2) = FFin (1 / 2)"
  using f64_of_powi[of "- 4"] f64_of_powi[of "- 1"] by (simp_all add: power_int_def power4_eq_xxxx)

lemma f64_between: "FFin p \<le> z \<Longrightarrow> z \<le> FFin q \<Longrightarrow> \<exists>r. z = FFin r \<and> p \<le> r \<and> r \<le> q"
  by (cases z) auto

end
