(* ===== verification/Prelude.thy ===== *)
theory Prelude
  imports F64 "HOL-Library.AList" "HOL-Library.Product_Lexorder" "HOL-Library.List_Lexorder"
    "HOL-Library.Char_ord" "HOL-Library.Sublist" "HOL-Library.Multiset"
begin

text \<open>
  What the components share: the machine integers of the code as \<open>int\<close> with their saturation or
  wrap-around written out, the string operations of the standard library, the hash maps of the
  code as association lists with distinct keys, and the eviction of the oldest entries that three
  managers perform, with the interfaces (locales) their lemmas are proved against.

  A hash map's list order stands for the unspecified iteration order of Rust's \<open>HashMap\<close>: every
  theorem is about an arbitrary list, hence about every iteration order.
  Time (\<open>DateTime<Utc>\<close>, \<open>Duration\<close>) is in nanoseconds; an operation takes one argument per call
  of \<open>Utc::now()\<close> it makes.
\<close>

named_theorems store_simps \<open>lookup and size of association-list stores\<close>

section \<open>Machine integers\<close>

type_synonym i32 = int
type_synonym i64 = int
type_synonym u64 = nat
type_synonym time = int

definition i32_max :: int where "i32_max = 2 ^ 31 - 1"
definition i64_max :: int where "i64_max = 2 ^ 63 - 1"
definition u32_max :: nat where "u32_max = 2 ^ 32 - 1"
definition u64_max :: nat where "u64_max = 2 ^ 64 - 1"

text \<open>\<open>i32::saturating_add(1)\<close>, \<open>u32\<close>/\<open>u64::saturating_add\<close>, and \<open>i64\<close> addition of 1 that wraps.\<close>

definition sat_inc_i32 :: "i32 \<Rightarrow> i32" where "sat_inc_i32 a = min i32_max (a + 1)"
definition sat_add_u32 :: "nat \<Rightarrow> nat \<Rightarrow> nat" where "sat_add_u32 a b = min u32_max (a + b)"
definition sat_inc_u64 :: "u64 \<Rightarrow> u64" where "sat_inc_u64 a = min u64_max (a + 1)"
definition wrap_inc_i64 :: "i64 \<Rightarrow> i64" where
  "wrap_inc_i64 a = (if a = i64_max then - (2 ^ 63) else a + 1)"
definition wrap_inc_i32 :: "i32 \<Rightarrow> i32" where
  "wrap_inc_i32 a = (if a = i32_max then - (2 ^ 31) else a + 1)"
definition wrap_inc_u64 :: "u64 \<Rightarrow> u64" where "wrap_inc_u64 a = (a + 1) mod 2 ^ 64"
definition wrap_add_u64 :: "u64 \<Rightarrow> u64 \<Rightarrow> u64" where "wrap_add_u64 a b = (a + b) mod 2 ^ 64"

definition wrap_i32 :: "int \<Rightarrow> i32" where "wrap_i32 a = (a + 2 ^ 31) mod 2 ^ 32 - 2 ^ 31"

definition nanos_per_second :: int where "nanos_per_second = 1000000000"
definition seconds :: "i64 \<Rightarrow> int" where "seconds s = s * nanos_per_second"

lemma sat_inc_i32_pos: "0 \<le> a \<Longrightarrow> 0 < sat_inc_i32 a"
  by (simp add: sat_inc_i32_def i32_max_def)

lemma sat_inc_i32_le: "sat_inc_i32 a \<le> i32_max"
  by (simp add: sat_inc_i32_def)

lemma wrap_inc_i64_small: "a < i64_max \<Longrightarrow> wrap_inc_i64 a = a + 1"
  by (simp add: wrap_inc_i64_def)

section \<open>Exponentially weighted averages\<close>

text \<open>\<open>alpha.mul_add(x, (1.0 - alpha) * avg)\<close>, the smoothing of two collectors.\<close>

definition ewma :: "f64 \<Rightarrow> f64 \<Rightarrow> f64 \<Rightarrow> f64" where
  "ewma alpha x avg = fma alpha x (fmul (fsub f64_1 alpha) avg)"

section \<open>Strings\<close>

text \<open>
  A Rust string is the list of its bytes. \<open>to_lowercase\<close> is modelled on ASCII, which is what the
  identifiers it is applied to (credential and model names) are made of.
\<close>

definition char_lower :: "char \<Rightarrow> char" where
  "char_lower c = (if CHR ''A'' \<le> c \<and> c \<le> CHR ''Z'' then char_of (of_char c + (32 :: nat)) else c)"

definition to_lowercase :: "string \<Rightarrow> string" where
  "to_lowercase s = map char_lower s"

fun str_contains :: "string \<Rightarrow> string \<Rightarrow> bool" where
  "str_contains [] pat = (pat = [])"
| "str_contains (c # cs) pat = (prefix pat (c # cs) \<or> str_contains cs pat)"

abbreviation starts_with :: "string \<Rightarrow> string \<Rightarrow> bool" where "starts_with s pat \<equiv> prefix pat s"
abbreviation ends_with :: "string \<Rightarrow> string \<Rightarrow> bool" where "ends_with s pat \<equiv> suffix pat s"

lemma str_contains_sublist: "str_contains s pat \<longleftrightarrow> sublist pat s"
  by (induction s) (auto simp: sublist_Cons_right)

text \<open>Decimal notation, as \<open>format!\<close> prints integers.\<close>

fun show_nat :: "nat \<Rightarrow> string" where
  "show_nat n = (if n < 10 then [char_of (48 + n)] else show_nat (n div 10) @ [char_of (48 + n mod 10)])"

declare show_nat.simps [simp del]

definition show_int :: "int \<Rightarrow> string" where
  "show_int n = (if n < 0 then CHR ''-'' # show_nat (nat (- n)) else show_nat (nat n))"

text \<open>\<open>str::parse::<i64>\<close>: an optional sign and at least one digit, \<open>None\<close> outside the range.\<close>

definition digit_val :: "char \<Rightarrow> nat option" where
  "digit_val c = (let n = of_char c :: nat in if 48 \<le> n \<and> n \<le> 57 then Some (n - 48) else None)"

fun parse_digits :: "nat \<Rightarrow> string \<Rightarrow> nat option" where
  "parse_digits acc [] = Some acc"
| "parse_digits acc (c # cs) = (case digit_val c of None \<Rightarrow> None | Some d \<Rightarrow> parse_digits (10 * acc + d) cs)"

definition parse_nat :: "string \<Rightarrow> nat option" where
  "parse_nat s = (if s = [] then None else parse_digits 0 s)"

definition parse_i64 :: "string \<Rightarrow> i64 option" where
  "parse_i64 s =
     (let v = (case s of
          c # cs \<Rightarrow> (if c = CHR ''-'' then map_option (\<lambda>n. - int n) (parse_nat cs)
                     else if c = CHR ''+'' then map_option int (parse_nat cs)
                     else map_option int (parse_nat s))
        | [] \<Rightarrow> None)
      in case v of Some i \<Rightarrow> (if - (2 ^ 63) \<le> i \<and> i \<le> i64_max then Some i else None) | None \<Rightarrow> None)"

lemma digit_val_digit: "n < 10 \<Longrightarrow> digit_val (char_of (48 + n)) = Some n"
  by (simp add: digit_val_def Let_def)

lemma parse_digits_append:
  "parse_digits acc (s @ t) = (case parse_digits acc s of None \<Rightarrow> None | Some n \<Rightarrow> parse_digits n t)"
  by (induction s arbitrary: acc) (auto split: option.split)

lemma parse_digits_show: "parse_digits 0 (show_nat n) = Some n"
proof (induction n rule: show_nat.induct)
  case (1 n)
  then show ?case
    by (subst show_nat.simps) (auto simp: parse_digits_append digit_val_digit)
qed

lemma show_nat_digit: "\<exists>c cs. show_nat n = c # cs \<and> digit_val c \<noteq> None"
proof (induction n rule: show_nat.induct)
  case (1 n)
  show ?case
  proof (cases "n < 10")
    case True
    then show ?thesis by (subst show_nat.simps) (simp add: digit_val_digit)
  next
    case False
    then show ?thesis using 1 by (subst show_nat.simps) auto
  qed
qed

lemma parse_nat_show [simp]: "parse_nat (show_nat n) = Some n"
  using show_nat_digit[of n] by (auto simp: parse_nat_def parse_digits_show)

lemma parse_i64_show:
  assumes "- (2 ^ 63) \<le> i" and "i \<le> i64_max"
  shows "parse_i64 (show_int i) = Some i"
proof (cases "i < 0")
  case True
  then show ?thesis using assms by (simp add: parse_i64_def show_int_def Let_def)
next
  case False
  obtain c cs where c: "show_nat (nat i) = c # cs" "digit_val c \<noteq> None" using show_nat_digit by blast
  then have "c \<noteq> CHR ''-''" "c \<noteq> CHR ''+''" by (auto simp: digit_val_def Let_def)
  then show ?thesis using False assms parse_nat_show[of "nat i"]
    by (simp add: parse_i64_def show_int_def Let_def c(1))
qed

text \<open>\<open>str::split\<close> at a character, \<open>splitn(2, c)\<close>, and \<open>trim\<close> on ASCII white space.\<close>

fun split_on :: "char \<Rightarrow> string \<Rightarrow> string list" where
  "split_on sep [] = [[]]"
| "split_on sep (c # cs) = (if c = sep then [] # split_on sep cs
     else (case split_on sep cs of p # ps \<Rightarrow> (c # p) # ps | [] \<Rightarrow> [[c]]))"

fun splitn2 :: "char \<Rightarrow> string \<Rightarrow> string list" where
  "splitn2 sep [] = [[]]"
| "splitn2 sep (c # cs) = (if c = sep then [[], cs]
     else (case splitn2 sep cs of p # ps \<Rightarrow> (c # p) # ps | [] \<Rightarrow> [[c]]))"

definition is_white :: "char \<Rightarrow> bool" where
  "is_white c = (let n = of_char c :: nat in n = 32 \<or> 9 \<le> n \<and> n \<le> 13)"

definition trim :: "string \<Rightarrow> string" where
  "trim s = rev (dropWhile is_white (rev (dropWhile is_white s)))"

section \<open>Stable sorting by a comparison\<close>

text \<open>
  \<open>slice::sort_by\<close>, which is stable: \<open>before a b\<close> says that the comparison of \<open>a\<close> with \<open>b\<close> is
  \<open>Less\<close>. It is determined where the comparison is a total preorder (the interface below); for other
  comparisons std leaves the order unspecified, and no theorem here is about them.
\<close>

fun insert_by :: "('a \<Rightarrow> 'a \<Rightarrow> bool) \<Rightarrow> 'a \<Rightarrow> 'a list \<Rightarrow> 'a list" where
  "insert_by before x [] = [x]"
| "insert_by before x (y # ys) = (if before y x then y # insert_by before x ys else x # y # ys)"

definition sort_by :: "('a \<Rightarrow> 'a \<Rightarrow> bool) \<Rightarrow> 'a list \<Rightarrow> 'a list" where
  "sort_by before xs = foldr (insert_by before) xs []"

lemma sort_by_Nil [simp]: "sort_by before [] = []"
  by (simp add: sort_by_def)

lemma mset_insert_by [simp]: "mset (insert_by before x xs) = add_mset x (mset xs)"
  by (induction xs) auto

lemma mset_sort_by [simp]: "mset (sort_by before xs) = mset xs"
  by (induction xs) (auto simp: sort_by_def)

lemma set_sort_by [simp]: "set (sort_by before xs) = set xs"
  by (rule mset_eq_setD) simp

lemma length_sort_by [simp]: "length (sort_by before xs) = length xs"
  by (rule mset_eq_length) simp

lemma sort_by_Nil_iff [simp]: "sort_by before xs = [] \<longleftrightarrow> xs = []"
  by (metis length_0_conv length_sort_by)

lemma those_map_Some [simp]: "those (map Some xs) = Some xs"
  by (induction xs) simp_all

lemma those_Some: "those xs = Some ys \<longleftrightarrow> xs = map Some ys"
  by (induction xs arbitrary: ys) (auto split: option.split simp: Cons_eq_map_conv)

text \<open>A list that is in order already is left alone.\<close>

lemma sort_by_sorted: "sorted_wrt (\<lambda>a b. \<not> before b a) xs \<Longrightarrow> sort_by before xs = xs"
proof (induction xs)
  case (Cons x xs)
  then have "foldr (insert_by before) xs [] = xs" by (simp add: sort_by_def)
  then show ?case using Cons.prems by (cases xs) (simp_all add: sort_by_def)
qed simp

text \<open>The comparisons that sorting is specified for, on the values \<open>ok\<close> admits (no NaN, say).\<close>

locale sort_order =
  fixes before :: "'a \<Rightarrow> 'a \<Rightarrow> bool"
    and ok :: "'a \<Rightarrow> bool"
  assumes asym: "ok a \<Longrightarrow> ok b \<Longrightarrow> before a b \<Longrightarrow> \<not> before b a"
    and neg_trans: "ok a \<Longrightarrow> ok b \<Longrightarrow> ok c \<Longrightarrow> \<not> before a b \<Longrightarrow> \<not> before b c \<Longrightarrow> \<not> before a c"
begin

lemma sorted_insert_by:
  assumes "\<forall>y\<in>set (x # ys). ok y" and "sorted_wrt (\<lambda>a b. \<not> before b a) ys"
  shows "sorted_wrt (\<lambda>a b. \<not> before b a) (insert_by before x ys)"
  using assms
proof (induction ys)
  case (Cons y ys)
  have set_ins: "set (insert_by before x ys) = insert x (set ys)"
    by (metis mset_insert_by set_mset_add_mset_insert set_mset_mset)
  show ?case
  proof (cases "before y x")
    case True
    then have "\<not> before x y" using Cons.prems(1) asym by auto
    with True Cons set_ins show ?thesis by auto
  next
    case False
    then have "\<not> before z x" if "z \<in> set ys" for z
      using that Cons.prems neg_trans[of z y x] by auto
    with False Cons.prems show ?thesis by auto
  qed
qed simp

lemma sorted_sort_by:
  assumes "\<forall>x\<in>set xs. ok x"
  shows "sorted_wrt (\<lambda>a b. \<not> before b a) (sort_by before xs)"
  using assms
proof (induction xs)
  case (Cons x xs)
  have "set (foldr (insert_by before) xs []) = set xs" using set_sort_by[of before xs] by (simp add: sort_by_def)
  with Cons show ?case by (simp add: sort_by_def sorted_insert_by)
qed (simp add: sort_by_def)

lemma hd_sort_by:
  assumes "\<forall>x\<in>set xs. ok x" and "sort_by before xs = y # ys" and "x \<in> set xs"
  shows "\<not> before x y"
proof -
  have "x \<in> set (y # ys)" using assms(2,3) set_sort_by[of before xs] by simp
  moreover have "y \<in> set xs" using assms(2) set_sort_by[of before xs] by (metis list.set_intros(1))
  then have "\<not> before y y" using assms(1) asym by blast
  ultimately show ?thesis using sorted_sort_by[OF assms(1)] assms(2) by auto
qed

end

text \<open>
  \<open>Iterator::max_by\<close>: the accumulator survives a comparison only when it is \<open>Greater\<close> than the next
  element, so of equal elements the last one wins.
\<close>

fun max_by :: "('a \<Rightarrow> 'a \<Rightarrow> bool) \<Rightarrow> 'a list \<Rightarrow> 'a option" where
  "max_by gt [] = None"
| "max_by gt (x # xs) = Some (fold (\<lambda>y m. if gt m y then m else y) xs x)"

lemma fold_max_in: "fold (\<lambda>y m. if gt m y then m else y) xs x \<in> set (x # xs)"
  by (induction xs arbitrary: x) auto

lemma max_by_in: "max_by gt xs = Some y \<Longrightarrow> y \<in> set xs"
  using fold_max_in by (cases xs) fastforce+

lemma max_by_None_iff [simp]: "max_by gt xs = None \<longleftrightarrow> xs = []"
  by (cases xs) auto

text \<open>With the order of a key, the result is maximal.\<close>

lemma fold_max_greatest:
  fixes key :: "'a \<Rightarrow> 'k::linorder"
  assumes "\<And>a b. a \<in> set (x # xs) \<Longrightarrow> b \<in> set (x # xs) \<Longrightarrow> gt a b \<longleftrightarrow> key b < key a" and "y \<in> set (x # xs)"
  shows "key y \<le> key (fold (\<lambda>y m. if gt m y then m else y) xs x)"
  using assms
proof (induction xs arbitrary: x y)
  case (Cons z xs)
  let ?m = "if gt x z then x else z"
  have m: "?m \<in> set (x # z # xs)" "key x \<le> key ?m" "key z \<le> key ?m"
    using Cons.prems(1)[of x z] by auto
  have hyp: "gt a b \<longleftrightarrow> key b < key a" if "a \<in> set (?m # xs)" "b \<in> set (?m # xs)" for a b
    using that m(1) by (intro Cons.prems(1)) auto
  have "key ?m \<le> key (fold (\<lambda>y m. if gt m y then m else y) xs ?m)"
    by (rule Cons.IH[OF hyp]) auto
  moreover have "key y \<le> key (fold (\<lambda>y m. if gt m y then m else y) xs ?m)" if "y \<in> set xs"
    by (rule Cons.IH[OF hyp]) (use that in auto)
  ultimately show ?case using Cons.prems(2) m by (auto intro: order_trans)
qed simp

section \<open>Hash maps\<close>

type_synonym 'v hmap = "(string \<times> 'v) list"

definition hm_ok :: "('k \<times> 'v) list \<Rightarrow> bool" where "hm_ok m = distinct (map fst m)"

abbreviation hm_get :: "('k \<times> 'v) list \<Rightarrow> 'k \<Rightarrow> 'v option" where "hm_get m k \<equiv> map_of m k"
abbreviation hm_insert :: "'k \<Rightarrow> 'v \<Rightarrow> ('k \<times> 'v) list \<Rightarrow> ('k \<times> 'v) list" where
  "hm_insert k v m \<equiv> AList.update k v m"
abbreviation hm_remove :: "'k \<Rightarrow> ('k \<times> 'v) list \<Rightarrow> ('k \<times> 'v) list" where
  "hm_remove k m \<equiv> AList.delete k m"

text \<open>\<open>HashMap::retain\<close> on the values.\<close>

definition hm_retain :: "('v \<Rightarrow> bool) \<Rightarrow> ('k \<times> 'v) list \<Rightarrow> ('k \<times> 'v) list" where
  "hm_retain P m = filter (\<lambda>(k, v). P v) m"

lemma hm_get_insert [store_simps]:
  "hm_get (hm_insert k v m) k' = (if k' = k then Some v else hm_get m k')"
  by (simp add: update_conv)

lemma hm_get_remove [store_simps]:
  "hm_get (hm_remove k m) k' = (if k' = k then None else hm_get m k')"
  by (simp add: delete_conv)

lemma hm_ok_insert [simp]: "hm_ok m \<Longrightarrow> hm_ok (hm_insert k v m)"
  by (simp add: hm_ok_def distinct_update)

lemma hm_ok_remove [simp]: "hm_ok m \<Longrightarrow> hm_ok (hm_remove k m)"
  by (simp add: hm_ok_def distinct_delete)

lemma hm_ok_Nil [simp]: "hm_ok []"
  by (simp add: hm_ok_def)

lemma hm_ok_filter: "hm_ok m \<Longrightarrow> hm_ok (filter P m)"
  by (induction m) (auto simp: hm_ok_def)

lemma hm_get_retain:
  "hm_ok m \<Longrightarrow> hm_get (hm_retain P m) k = (case hm_get m k of Some v \<Rightarrow> if P v then Some v else None | None \<Rightarrow> None)"
  by (induction m) (auto simp: hm_ok_def hm_retain_def map_of_eq_None_iff[symmetric] split: option.splits)

lemma hm_ok_retain: "hm_ok m \<Longrightarrow> hm_ok (hm_retain P m)"
  by (simp add: hm_retain_def hm_ok_filter)

lemma length_hm_insert [store_simps]:
  "length (hm_insert k v m) = (if k \<in> fst ` set m then length m else Suc (length m))"
  by (induction m) auto

lemma length_hm_insert_le: "length (hm_insert k v m) \<le> Suc (length m)"
  by (simp add: length_hm_insert)

lemma hm_get_in_set: "hm_ok m \<Longrightarrow> hm_get m k = Some v \<longleftrightarrow> (k, v) \<in> set m"
  by (simp add: hm_ok_def)

lemma hm_in_insert:
  "hm_ok m \<Longrightarrow> (k', v') \<in> set (hm_insert k v m) \<longleftrightarrow> (if k' = k then v' = v else (k', v') \<in> set m)"
  by (auto simp: hm_get_in_set [symmetric] store_simps split: if_splits)

section \<open>Evicting the oldest entries\<close>

text \<open>
  The cleanup loop of the managers: collect the keys with their time stamps, sort them, and remove
  as many of the first ones as the map is over its limit. \<open>skey\<close> is the sort key, on (key, stamp).
\<close>

definition evict_oldest ::
  "('v \<Rightarrow> time) \<Rightarrow> (string \<times> time \<Rightarrow> 't::linorder) \<Rightarrow> nat \<Rightarrow> 'v hmap \<Rightarrow> 'v hmap" where
  "evict_oldest stamp skey limit m =
     (let entries = sort_key skey (map (\<lambda>(k, v). (k, stamp v)) m);
          remove_count = length entries - limit
      in fold (\<lambda>(k, _) m. hm_remove k m) (take remove_count entries) m)"

lemma fold_remove:
  "fold (\<lambda>(k, _) m. hm_remove k m) es m = filter (\<lambda>(k, v). k \<notin> fst ` set es) m"
proof (induction es arbitrary: m)
  case (Cons e es)
  obtain k t where e: "e = (k, t)" by (cases e)
  have "fold (\<lambda>(k, _) m. hm_remove k m) (e # es) m
      = filter (\<lambda>(k, v). k \<notin> fst ` set es) (hm_remove k m)"
    by (simp only: fold_simps e case_prod_conv Cons.IH)
  also have "\<dots> = filter (\<lambda>(a, v). a \<notin> fst ` set (e # es)) m"
    by (auto simp: e AList.delete_eq filter_filter intro!: filter_cong)
  finally show ?case .
qed (auto simp: filter_True)

lemma length_filter_keys:
  assumes "hm_ok m" and "K \<subseteq> fst ` set m"
  shows "length (filter (\<lambda>(k, v). k \<notin> K) m) = length m - card K"
proof -
  have fin: "finite K" using assms(2) by (rule finite_subset) simp
  have "length (filter (\<lambda>(k, v). k \<notin> K) m) = length (filter (\<lambda>k. k \<notin> K) (map fst m))"
    by (simp add: filter_map o_def case_prod_unfold)
  also have "\<dots> = card (fst ` set m - K)"
    using assms(1) unfolding hm_ok_def
    by (subst distinct_length_filter) (auto intro: arg_cong[where f = card])
  also have "\<dots> = length m - card K"
    using assms fin by (simp add: card_Diff_subset hm_ok_def distinct_card flip: set_map)
  finally show ?thesis .
qed

lemma evict_oldest_filter:
  "evict_oldest stamp skey limit m = filter (\<lambda>(k, v). k \<notin> fst ` set (take (length m - limit)
     (sort_key skey (map (\<lambda>(k, v). (k, stamp v)) m)))) m"
  by (simp add: evict_oldest_def Let_def fold_remove)

lemma evict_oldest_subset: "set (evict_oldest stamp skey limit m) \<subseteq> set m"
  by (auto simp: evict_oldest_filter)

lemma hm_ok_evict: "hm_ok m \<Longrightarrow> hm_ok (evict_oldest stamp skey limit m)"
  by (simp add: evict_oldest_filter hm_ok_filter)

lemma evict_oldest_small: "length m \<le> limit \<Longrightarrow> evict_oldest stamp skey limit m = m"
  by (simp add: evict_oldest_def)

lemma length_evict_oldest:
  assumes "hm_ok m"
  shows "length (evict_oldest stamp skey limit m) = min (length m) limit"
proof -
  let ?es = "sort_key skey (map (\<lambda>(k, v). (k, stamp v)) m)"
  let ?K = "fst ` set (take (length m - limit) ?es)"
  have keys: "mset (map fst ?es) = mset (map fst m)"
    by (simp add: case_prod_unfold multiset.map_comp o_def)
  have d: "distinct (map fst ?es)"
    using assms mset_eq_imp_distinct_iff[OF keys] by (simp add: hm_ok_def)
  have "?K \<subseteq> fst ` set ?es" by (intro image_mono) (rule set_take_subset)
  also have "\<dots> = fst ` set m" using mset_eq_setD[OF keys] by (simp only: set_map)
  finally have sub: "?K \<subseteq> fst ` set m" .
  have "?K = set (take (length m - limit) (map fst ?es))" by (simp add: take_map)
  then have "card ?K = length (take (length m - limit) (map fst ?es))"
    using d by (simp only: distinct_card distinct_take)
  then have "card ?K = length m - limit" by simp
  with length_filter_keys[OF assms sub] show ?thesis
    by (simp add: evict_oldest_filter)
qed

lemma sort_key_take_drop:
  assumes "x \<in> set (take n (sort_key f xs))" and "y \<in> set (drop n (sort_key f xs))"
  shows "f x \<le> f y"
proof -
  have "sorted (map f (take n (sort_key f xs)) @ map f (drop n (sort_key f xs)))"
    using sorted_sort_key[of f xs] by (metis append_take_drop_id map_append)
  with assms show ?thesis by (auto simp: sorted_append)
qed

lemma evict_oldest_order:
  assumes "hm_ok m" and "(k, v) \<in> set m" and "(k, v) \<notin> set (evict_oldest stamp skey limit m)"
    and "(k', v') \<in> set (evict_oldest stamp skey limit m)"
  shows "skey (k, stamp v) \<le> skey (k', stamp v')"
proof -
  let ?es = "sort_key skey (map (\<lambda>(k, v). (k, stamp v)) m)"
  let ?n = "length m - limit"
  have uniq: "\<And>a s s'. (a, s) \<in> set ?es \<Longrightarrow> (a, s') \<in> set ?es \<Longrightarrow> s = s'"
    using assms(1) by (auto simp: hm_ok_def dest: eq_key_imp_eq_value)
  have "k \<in> fst ` set (take ?n ?es)" using assms(2,3) by (auto simp: evict_oldest_filter)
  then obtain s where "(k, s) \<in> set (take ?n ?es)" by force
  moreover have "(k, stamp v) \<in> set ?es" using assms(2) by force
  ultimately have old: "(k, stamp v) \<in> set (take ?n ?es)"
    using uniq by (metis in_set_takeD)
  have "(k', v') \<in> set m" and "k' \<notin> fst ` set (take ?n ?es)"
    using assms(4) by (auto simp: evict_oldest_filter)
  then have "(k', stamp v') \<in> set (drop ?n ?es)"
    by (metis (no_types, lifting) Un_iff append_take_drop_id case_prod_conv fst_conv imageI
        image_set set_append set_sort)
  with old show ?thesis by (rule sort_key_take_drop)
qed

end
