(* ===== verification/ModelInfo.thy ===== *)
theory ModelInfo
  imports Prelude
begin

text \<open>
  Model metadata and its classification (src/registry/info.rs, src/registry/categories.rs): the
  model record with cost and token estimates and its validation, and the capability, tier, cost,
  context window and provider categories that the policies filter on.
\<close>

section \<open>Model records\<close>

record model_capabilities =
  cap_streaming :: bool
  cap_tools :: bool
  cap_vision :: bool
  cap_thinking :: bool

record rate_limits =
  requests_per_minute :: nat
  tokens_per_minute :: nat

datatype data_source = StaticSource | ModelsDev | LiteLLM | LocalSource

fun data_source_display :: "data_source \<Rightarrow> string" where
  "data_source_display StaticSource = ''static''"
| "data_source_display ModelsDev = ''models.dev''"
| "data_source_display LiteLLM = ''litellm''"
| "data_source_display LocalSource = ''local''"

record model_info =
  mi_id :: string
  mi_name :: string
  mi_provider :: string
  context_window :: nat
  max_output_tokens :: nat
  input_price_per_million :: f64
  output_price_per_million :: f64
  mi_capabilities :: model_capabilities
  mi_rate_limits :: rate_limits
  mi_source :: data_source

datatype model_info_error =
    EmptyId
  | InvalidContextWindow string nat
  | InvalidInputPrice string f64
  | InvalidOutputPrice string f64
  | InvalidRequestRateLimit string nat
  | InvalidTokenRateLimit string nat

definition supports_capability :: "model_info \<Rightarrow> string \<Rightarrow> bool" where
  "supports_capability m capability =
     (if capability = ''streaming'' then cap_streaming (mi_capabilities m)
      else if capability = ''tools'' then cap_tools (mi_capabilities m)
      else if capability = ''vision'' then cap_vision (mi_capabilities m)
      else if capability = ''thinking'' then cap_thinking (mi_capabilities m)
      else False)"

definition estimate_cost :: "model_info \<Rightarrow> nat \<Rightarrow> nat \<Rightarrow> f64" where
  "estimate_cost m input_tokens output_tokens =
     (let input_cost = fmul (fdiv (f64_nat input_tokens) (f64_nat 1000000)) (input_price_per_million m);
          output_cost = fmul (fdiv (f64_nat output_tokens) (f64_nat 1000000)) (output_price_per_million m)
      in fadd input_cost output_cost)"

definition can_fit_context :: "model_info \<Rightarrow> nat \<Rightarrow> bool" where
  "can_fit_context m tokens \<longleftrightarrow> 0 < tokens \<and> tokens \<le> context_window m"

definition get_max_tokens :: "model_info \<Rightarrow> nat" where
  "get_max_tokens m =
     (if 0 < max_output_tokens m \<and> max_output_tokens m < context_window m then max_output_tokens m
      else nat (ftrunc_as (int u64_max) (fmul (f64_nat (context_window m)) (f64_of (75 / 100)))))"

definition model_validate :: "model_info \<Rightarrow> model_info_error + unit" where
  "model_validate m =
     (if mi_id m = [] then Inl EmptyId
      else if context_window m = 0 then Inl (InvalidContextWindow (mi_id m) (context_window m))
      else if input_price_per_million m < f64_0
        then Inl (InvalidInputPrice (mi_id m) (input_price_per_million m))
      else if output_price_per_million m < f64_0
        then Inl (InvalidOutputPrice (mi_id m) (output_price_per_million m))
      else Inr ())"

definition estimate_request_tokens :: "string \<Rightarrow> nat" where
  "estimate_request_tokens text = nat (fceil_as (int u64_max) (fdiv (f64_nat (length text)) (f64_nat 4)))"

section \<open>Categories\<close>

datatype capability_category = Vision | Tools | Streaming | Thinking

fun capability_str :: "capability_category \<Rightarrow> string" where
  "capability_str Vision = ''vision''"
| "capability_str Tools = ''tools''"
| "capability_str Streaming = ''streaming''"
| "capability_str Thinking = ''thinking''"

datatype tier_category = Flagship | StandardTier | Fast

fun tier_str :: "tier_category \<Rightarrow> string" where
  "tier_str Flagship = ''flagship''"
| "tier_str StandardTier = ''standard''"
| "tier_str Fast = ''fast''"

datatype cost_category = UltraPremium | Premium | StandardCost | Economy

fun cost_str :: "cost_category \<Rightarrow> string" where
  "cost_str UltraPremium = ''ultra_premium''"
| "cost_str Premium = ''premium''"
| "cost_str StandardCost = ''standard''"
| "cost_str Economy = ''economy''"

datatype context_window_category = Small | Medium | Large | Ultra

fun context_str :: "context_window_category \<Rightarrow> string" where
  "context_str Small = ''small''"
| "context_str Medium = ''medium''"
| "context_str Large = ''large''"
| "context_str Ultra = ''ultra''"

datatype provider_category =
    Anthropic | OpenAI | Google | XAI | DeepSeek | Mistral
  | Cohere | Perplexity | Alibaba | Zhipu | Baidu | Moonshot
  | ByteDance | Meta | MetaLlama | Databricks | Stability | Amazon
  | Azure | VertexAI | OtherProvider

fun provider_str :: "provider_category \<Rightarrow> string" where
  "provider_str Anthropic = ''anthropic''"
| "provider_str OpenAI = ''openai''"
| "provider_str Google = ''google''"
| "provider_str XAI = ''xai''"
| "provider_str DeepSeek = ''deepseek''"
| "provider_str Mistral = ''mistral''"
| "provider_str Cohere = ''cohere''"
| "provider_str Perplexity = ''perplexity''"
| "provider_str Alibaba = ''alibaba''"
| "provider_str Zhipu = ''zhipu''"
| "provider_str Baidu = ''baidu''"
| "provider_str Moonshot = ''moonshot''"
| "provider_str ByteDance = ''bytedance''"
| "provider_str Meta = ''meta''"
| "provider_str MetaLlama = ''meta-llama''"
| "provider_str Databricks = ''databricks''"
| "provider_str Stability = ''stability''"
| "provider_str Amazon = ''amazon''"
| "provider_str Azure = ''azure''"
| "provider_str VertexAI = ''vertexai''"
| "provider_str OtherProvider = ''other''"

text \<open>The table of the \<open>match\<close> in \<open>ProviderCategory::parse\<close>, in its order.\<close>

definition provider_aliases :: "(string \<times> provider_category) list" where
  "provider_aliases = [
     (''anthropic'', Anthropic),
     (''openai'', OpenAI),
     (''google'', Google), (''gemini'', Google),
     (''xai'', XAI), (''x-ai'', XAI), (''grok'', XAI),
     (''deepseek'', DeepSeek),
     (''mistral'', Mistral), (''mistralai'', Mistral),
     (''cohere'', Cohere),
     (''perplexity'', Perplexity),
     (''alibaba'', Alibaba), (''qwen'', Alibaba), (''tongyi'', Alibaba),
     (''zhipu'', Zhipu), (''glm'', Zhipu), (''chatglm'', Zhipu),
     (''baidu'', Baidu), (''ernie'', Baidu), (''wenxin'', Baidu),
     (''moonshot'', Moonshot), (''kimi'', Moonshot),
     (''bytedance'', ByteDance), (''doubao'', ByteDance),
     (''meta'', Meta),
     (''meta-llama'', MetaLlama), (''llama'', MetaLlama),
     (''databricks'', Databricks),
     (''stability'', Stability),
     (''amazon'', Amazon), (''bedrock'', Amazon), (''aws'', Amazon),
     (''azure'', Azure),
     (''vertexai'', VertexAI), (''vertex'', VertexAI)]"

definition provider_parse :: "string \<Rightarrow> provider_category option" where
  "provider_parse s = (case map_of provider_aliases (to_lowercase s) of
       Some p \<Rightarrow> Some p | None \<Rightarrow> Some OtherProvider)"

definition is_chinese_provider :: "provider_category \<Rightarrow> bool" where
  "is_chinese_provider p = (p \<in> {Alibaba, Zhipu, Baidu, Moonshot, ByteDance, DeepSeek})"

definition is_cloud_platform :: "provider_category \<Rightarrow> bool" where
  "is_cloud_platform p = (p \<in> {Amazon, Azure, VertexAI})"

fun display_name :: "provider_category \<Rightarrow> string" where
  "display_name Anthropic = ''Anthropic''"
| "display_name OpenAI = ''OpenAI''"
| "display_name Google = ''Google''"
| "display_name XAI = ''xAI''"
| "display_name DeepSeek = ''DeepSeek''"
| "display_name Mistral = ''Mistral AI''"
| "display_name Cohere = ''Cohere''"
| "display_name Perplexity = ''Perplexity''"
| "display_name Alibaba = ''Alibaba (Qwen)''"
| "display_name Zhipu = ''Zhipu AI (GLM)''"
| "display_name Baidu = ''Baidu (ERNIE)''"
| "display_name Moonshot = ''Moonshot (Kimi)''"
| "display_name ByteDance = ''ByteDance (Doubao)''"
| "display_name Meta = ''Meta''"
| "display_name MetaLlama = ''Meta (Llama)''"
| "display_name Databricks = ''Databricks''"
| "display_name Stability = ''Stability AI''"
| "display_name Amazon = ''Amazon Bedrock''"
| "display_name Azure = ''Azure OpenAI''"
| "display_name VertexAI = ''Google Vertex AI''"
| "display_name OtherProvider = ''Other''"

section \<open>Classification of a model\<close>

record model_category_set =
  mcs_capabilities :: "capability_category list"
  mcs_tier :: tier_category
  mcs_cost :: cost_category
  mcs_context :: context_window_category
  mcs_provider :: provider_category

fun has_capability :: "model_info \<Rightarrow> capability_category \<Rightarrow> bool" where
  "has_capability m Vision = cap_vision (mi_capabilities m)"
| "has_capability m Tools = cap_tools (mi_capabilities m)"
| "has_capability m Streaming = cap_streaming (mi_capabilities m)"
| "has_capability m Thinking = cap_thinking (mi_capabilities m)"

definition get_capability_categories :: "model_info \<Rightarrow> capability_category list" where
  "get_capability_categories m =
     (let c = mi_capabilities m
      in (if cap_vision c then [Vision] else []) @ (if cap_tools c then [Tools] else [])
         @ (if cap_streaming c then [Streaming] else []) @ (if cap_thinking c then [Thinking] else []))"

definition flagship_models :: "string set" where
  "flagship_models = {''claude-opus-4'', ''claude-opus-4-20250514'', ''gpt-4'', ''gpt-4-turbo'',
     ''gpt-4-0314'', ''gemini-2.5-pro''}"

definition fast_models :: "string set" where
  "fast_models = {''claude-haiku-4'', ''claude-haiku-4-20250514'', ''gpt-4o-mini'',
     ''gpt-4o-mini-2024-07-18'', ''gemini-2.0-flash-exp'', ''gemini-2.5-flash'',
     ''gemini-2.5-flash-exp'', ''gemini-1.5-flash'', ''gemini-1.5-flash-8b'', ''gemini-1.5-flash-exp''}"

definition get_tier :: "model_info \<Rightarrow> tier_category" where
  "get_tier m =
     (if mi_id m \<in> flagship_models \<or> f64_nat 15 \<le> input_price_per_million m then Flagship
      else if mi_id m \<in> fast_models
        \<or> f64_0 < input_price_per_million m \<and> input_price_per_million m \<le> f64_1 then Fast
      else StandardTier)"

definition get_cost_category :: "model_info \<Rightarrow> cost_category" where
  "get_cost_category m =
     (let p = input_price_per_million m
      in if f64_nat 50 \<le> p then UltraPremium else if f64_nat 10 \<le> p then Premium
         else if f64_1 \<le> p then StandardCost else Economy)"

definition get_context_category :: "model_info \<Rightarrow> context_window_category" where
  "get_context_category m =
     (let w = context_window m
      in if 500000 \<le> w then Ultra else if 128000 \<le> w then Large
         else if 32000 \<le> w then Medium else Small)"

definition get_provider_category :: "model_info \<Rightarrow> provider_category" where
  "get_provider_category m = (case provider_parse (mi_provider m) of Some p \<Rightarrow> p | None \<Rightarrow> OtherProvider)"

definition get_categories :: "model_info \<Rightarrow> model_category_set" where
  "get_categories m = \<lparr>mcs_capabilities = get_capability_categories m, mcs_tier = get_tier m,
     mcs_cost = get_cost_category m, mcs_context = get_context_category m,
     mcs_provider = get_provider_category m\<rparr>"

definition has_all_capabilities :: "model_info \<Rightarrow> capability_category list \<Rightarrow> bool" where
  "has_all_capabilities m caps = list_all (has_capability m) caps"

definition has_any_capability :: "model_info \<Rightarrow> capability_category list \<Rightarrow> bool" where
  "has_any_capability m caps = list_ex (has_capability m) caps"

definition is_in_tier :: "model_info \<Rightarrow> tier_category \<Rightarrow> bool" where
  "is_in_tier m tier = (get_tier m = tier)"

definition is_in_cost_range :: "model_info \<Rightarrow> cost_category \<Rightarrow> bool" where
  "is_in_cost_range m cost = (get_cost_category m = cost)"

definition is_in_context_range :: "model_info \<Rightarrow> context_window_category \<Rightarrow> bool" where
  "is_in_context_range m context = (get_context_category m = context)"

definition is_from_provider :: "model_info \<Rightarrow> provider_category \<Rightarrow> bool" where
  "is_from_provider m provider = (get_provider_category m = provider)"

section \<open>Properties\<close>

lemma char_lower_idem: "char_lower (char_lower c) = char_lower c"
proof (cases "CHR ''A'' \<le> c \<and> c \<le> CHR ''Z''")
  case True
  then have "65 \<le> (of_char c :: nat)" "(of_char c :: nat) \<le> 90"
    by (simp_all add: less_eq_char_def)
  then have "\<not> char_lower c \<le> CHR ''Z''" using True by (simp add: char_lower_def less_eq_char_def)
  then show ?thesis by (simp add: char_lower_def[of "char_lower c"])
qed (simp only: char_lower_def if_False)

lemma to_lowercase_idem: "to_lowercase (to_lowercase s) = to_lowercase s"
  by (simp add: to_lowercase_def char_lower_idem)

text \<open>Provider names round-trip: parsing a category's own string gives the category back; parsing
  is total and does not depend on upper or lower case.\<close>

theorem provider_parse_roundtrip:
  "provider_parse (provider_str p) = Some p
   \<and> provider_parse s \<noteq> None \<and> provider_parse (to_lowercase s) = provider_parse s"
proof -
  have "provider_parse (provider_str p) = Some p"
    by (induction p) code_simp+
  then show ?thesis by (simp add: provider_parse_def to_lowercase_idem split: option.split)
qed

lemma ex_capability: "(\<exists>c. P c) \<longleftrightarrow> P Vision \<or> P Tools \<or> P Streaming \<or> P Thinking"
  by (metis capability_category.exhaust)

lemma supports_capability_iff:
  "supports_capability m name \<longleftrightarrow> (\<exists>c. name = capability_str c \<and> has_capability m c)"
  unfolding ex_capability supports_capability_def
  by (cases "name = ''streaming''"; cases "name = ''tools''"; cases "name = ''vision''";
      cases "name = ''thinking''"; simp)

text \<open>The views of a model's capabilities agree: the list of categories has no duplicates and holds
  exactly the capabilities the model has by name, \<open>has_all\<close> and \<open>has_any\<close> are its inclusion and its
  intersection with the requested ones, and a name that is no category is never supported.\<close>

theorem capability_views_agree:
  "distinct (get_capability_categories m)
   \<and> supports_capability m name = (name \<in> capability_str ` set (get_capability_categories m))
   \<and> has_all_capabilities m caps = (set caps \<subseteq> set (get_capability_categories m))
   \<and> has_any_capability m caps = (set caps \<inter> set (get_capability_categories m) \<noteq> {})"
proof -
  have mem: "c \<in> set (get_capability_categories m) \<longleftrightarrow> has_capability m c" for c
    by (cases c) (auto simp: get_capability_categories_def Let_def)
  have "distinct (get_capability_categories m)" by (simp add: get_capability_categories_def Let_def)
  moreover have "supports_capability m name = (name \<in> capability_str ` set (get_capability_categories m))"
    by (simp add: supports_capability_iff image_iff mem conj_commute Bex_def)
  ultimately show ?thesis
    by (auto simp: has_all_capabilities_def has_any_capability_def list_all_iff list_ex_iff mem)
qed

lemma three_quarters: "f64_of (75 / 100) = FFin (3 / 4)"
proof -
  have "rnd (3 / 4) = 3 / 4" using rnd_scaled[of 3 "- 2"] by (simp add: power_int_minus)
  with f64_of_finite[of "3 / 4"] show ?thesis by simp
qed

lemma three_quarters_of:
  assumes "w \<le> 2 ^ 53"
  shows "\<exists>q. fmul (f64_nat w) (f64_of (75 / 100)) = FFin q \<and> q \<le> of_nat w \<and> (2 \<le> w \<longrightarrow> 1 \<le> q)"
proof -
  let ?q = "of_nat w * (3 / 4) :: rat"
  have w: "(of_nat w :: rat) \<le> 2 ^ 53" using assms by (metis of_nat_le_iff of_nat_numeral of_nat_power)
  then have fin: "f64_of ?q = FFin (rnd ?q)" using f64_of_finite[of ?q] by simp
  have "rnd (of_nat w) = (of_nat w :: rat)" using f64_nat_exact[OF assms] w f64_of_finite[of "of_nat w"] by simp
  then have "rnd ?q \<le> of_nat w" using rnd_mono[of ?q "of_nat w"] by simp
  moreover have "1 \<le> rnd ?q" if "2 \<le> w" using rnd_mono[of 1 ?q] that by simp
  ultimately show ?thesis
    by (simp only: f64_nat_exact[OF assms] three_quarters fmul_FFin fin) blast
qed

text \<open>The output limit of a model is at most its context window (the binary64 rounding of the 75%
  estimate included), it is positive for every window of at least two tokens, and it is the
  configured limit when that is set below the window.\<close>

theorem max_tokens_within_window:
  assumes "context_window m \<le> 2 ^ 53" and "2 \<le> context_window m"
  shows "0 < get_max_tokens m \<and> get_max_tokens m \<le> context_window m
    \<and> (0 < max_output_tokens m \<and> max_output_tokens m < context_window m
       \<longrightarrow> get_max_tokens m = max_output_tokens m)"
proof -
  obtain q where q: "fmul (f64_nat (context_window m)) (f64_of (75 / 100)) = FFin q"
    "q \<le> of_nat (context_window m)" "1 \<le> q"
    using three_quarters_of[OF assms(1)] assms(2) by blast
  have "\<lfloor>q\<rfloor> \<le> int (context_window m)" using q(2) by (simp add: floor_le_iff)
  moreover have "1 \<le> \<lfloor>q\<rfloor>" using q(3) by (simp add: le_floor_iff)
  ultimately have "0 < nat (ftrunc_as (int u64_max) (FFin q))"
    "nat (ftrunc_as (int u64_max) (FFin q)) \<le> context_window m"
    by (simp_all add: ftrunc_as_def u64_max_def)
  then show ?thesis unfolding get_max_tokens_def q(1) by auto
qed

theorem max_tokens_within_window_witness:
  "get_max_tokens \<lparr>mi_id = ''m'', mi_name = ''m'', mi_provider = ''p'', context_window = 200000,
     max_output_tokens = 0, input_price_per_million = f64_1, output_price_per_million = f64_1,
     mi_capabilities = \<lparr>cap_streaming = True, cap_tools = True, cap_vision = False, cap_thinking = False\<rparr>,
     mi_rate_limits = \<lparr>requests_per_minute = 0, tokens_per_minute = 0\<rparr>, mi_source = StaticSource\<rparr> \<le> 200000"
  using max_tokens_within_window[of "\<lparr>mi_id = ''m'', mi_name = ''m'', mi_provider = ''p'', context_window = 200000,
     max_output_tokens = 0, input_price_per_million = f64_1, output_price_per_million = f64_1,
     mi_capabilities = \<lparr>cap_streaming = True, cap_tools = True, cap_vision = False, cap_thinking = False\<rparr>,
     mi_rate_limits = \<lparr>requests_per_minute = 0, tokens_per_minute = 0\<rparr>, mi_source = StaticSource\<rparr>"]
  by simp

text \<open>A price that is not a number is not negative, so the validation lets it pass.\<close>

lemma nan_price_is_valid:
  "mi_id m \<noteq> [] \<Longrightarrow> context_window m \<noteq> 0 \<Longrightarrow> model_validate (m\<lparr>input_price_per_million := FNaN, output_price_per_million := FNaN\<rparr>) = Inr ()"
  by (simp add: model_validate_def less_f64_def)

end
