(* ===== verification/Policy.thy ===== *)
theory Policy
  imports ModelInfo
begin

text \<open>
  Routing policies (src/registry/policy/types.rs, registry.rs, matcher.rs): policies with dimension
  filters and conditions, the registry that keeps them by priority, and the matcher that evaluates
  a model against them. Reading files, parsing JSON and checking the schema are parameters.
\<close>

section \<open>Policies\<close>

datatype modality_category = Text | Image | Audio | Video | Embedding | Code

fun modality_str :: "modality_category \<Rightarrow> string" where
  "modality_str Text = ''text''"
| "modality_str Image = ''image''"
| "modality_str Audio = ''audio''"
| "modality_str Video = ''video''"
| "modality_str Embedding = ''embedding''"
| "modality_str Code = ''code''"

definition modality_parse :: "string \<Rightarrow> modality_category option" where
  "modality_parse s =
     (if s = ''text'' then Some Text else if s = ''image'' then Some Image
      else if s = ''audio'' then Some Audio else if s = ''video'' then Some Video
      else if s = ''embedding'' then Some Embedding else if s = ''code'' then Some Code else None)"

record capability_filter =
  cf_capability :: capability_category
  cf_mode :: string

record policy_filters =
  pf_capabilities :: "capability_filter list"
  pf_tiers :: "tier_category list"
  pf_costs :: "cost_category list"
  pf_context_windows :: "context_window_category list"
  pf_providers :: "provider_category list"
  pf_modalities :: "modality_category list"

record policy_action =
  pa_action_type :: string
  pa_weight_factor :: f64
  pa_preferred_providers :: "provider_category list"
  pa_preferred_models :: "string list"
  pa_avoid :: "string list"
  pa_max_cost_per_million :: "f64 option"
  pa_min_context_window :: "nat option"

datatype policy_condition_type = TimeOfDay | DayOfWeekCond | TokenCount | TenantId | ModelFamily | Custom

record policy_condition =
  pc_condition_type :: policy_condition_type
  pc_value :: string
  pc_operator :: string

record routing_policy =
  rp_id :: string
  rp_name :: string
  rp_priority :: i32
  rp_enabled :: bool
  rp_filters :: policy_filters
  rp_action :: policy_action
  rp_conditions :: "policy_condition list"

record policy_context =
  hour_of_day :: "i32 option"
  day_of_week :: "i32 option"
  token_count :: "nat option"
  tenant_id :: "string option"
  model_family :: "string option"
  metadata :: "string hmap"

record policy_match =
  pm_policy :: routing_policy
  pm_score :: f64
  pm_conditions_met :: bool

definition default_filters :: policy_filters where
  "default_filters = \<lparr>pf_capabilities = [], pf_tiers = [], pf_costs = [], pf_context_windows = [],
     pf_providers = [], pf_modalities = []\<rparr>"

definition default_action :: policy_action where
  "default_action = \<lparr>pa_action_type = ''prefer'', pa_weight_factor = f64_1, pa_preferred_providers = [],
     pa_preferred_models = [], pa_avoid = [], pa_max_cost_per_million = None, pa_min_context_window = None\<rparr>"

definition policy_new :: "string \<Rightarrow> string \<Rightarrow> routing_policy" where
  "policy_new pid name = \<lparr>rp_id = pid, rp_name = name, rp_priority = 0, rp_enabled = True,
     rp_filters = default_filters, rp_action = default_action, rp_conditions = []\<rparr>"

definition with_priority :: "i32 \<Rightarrow> routing_policy \<Rightarrow> routing_policy" where
  "with_priority p r = r\<lparr>rp_priority := p\<rparr>"

definition with_capability :: "capability_category \<Rightarrow> string \<Rightarrow> routing_policy \<Rightarrow> routing_policy" where
  "with_capability c mode r = r\<lparr>rp_filters := (rp_filters r)\<lparr>pf_capabilities :=
     pf_capabilities (rp_filters r) @ [\<lparr>cf_capability = c, cf_mode = mode\<rparr>]\<rparr>\<rparr>"

definition with_tier :: "tier_category \<Rightarrow> routing_policy \<Rightarrow> routing_policy" where
  "with_tier t r = (if t \<in> set (pf_tiers (rp_filters r)) then r
     else r\<lparr>rp_filters := (rp_filters r)\<lparr>pf_tiers := pf_tiers (rp_filters r) @ [t]\<rparr>\<rparr>)"

definition with_provider :: "provider_category \<Rightarrow> routing_policy \<Rightarrow> routing_policy" where
  "with_provider p r = (if p \<in> set (pf_providers (rp_filters r)) then r
     else r\<lparr>rp_filters := (rp_filters r)\<lparr>pf_providers := pf_providers (rp_filters r) @ [p]\<rparr>\<rparr>)"

definition with_action :: "string \<Rightarrow> routing_policy \<Rightarrow> routing_policy" where
  "with_action t r = r\<lparr>rp_action := (rp_action r)\<lparr>pa_action_type := t\<rparr>\<rparr>"

definition with_weight_factor :: "f64 \<Rightarrow> routing_policy \<Rightarrow> routing_policy" where
  "with_weight_factor f r = r\<lparr>rp_action := (rp_action r)\<lparr>pa_weight_factor := f\<rparr>\<rparr>"

section \<open>Conditions\<close>

text \<open>The value a condition is compared with; \<open>usize\<close> and \<open>i32\<close> are printed in decimal.\<close>

definition actual_value :: "policy_condition \<Rightarrow> policy_context \<Rightarrow> string option" where
  "actual_value c ctx = (case pc_condition_type c of
       TimeOfDay \<Rightarrow> map_option show_int (hour_of_day ctx)
     | DayOfWeekCond \<Rightarrow> map_option show_int (day_of_week ctx)
     | TokenCount \<Rightarrow> map_option show_nat (token_count ctx)
     | TenantId \<Rightarrow> tenant_id ctx
     | ModelFamily \<Rightarrow> model_family ctx
     | Custom \<Rightarrow> (let parts = splitn2 CHR '':'' (pc_value c)
         in if length parts = 2
            then (let key = parts ! 0; value = parts ! 1
                  in if key = [] \<or> value = [] then None else hm_get (metadata ctx) key)
            else None))"

text \<open>The comparison operators, on any type with an order.\<close>

definition compare_op :: "string \<Rightarrow> 'a::linorder \<Rightarrow> 'a \<Rightarrow> bool option" where
  "compare_op op a b =
     (if op = ''eq'' \<or> op = ''=='' then Some (a = b)
      else if op = ''ne'' \<or> op = ''!='' then Some (a \<noteq> b)
      else if op = ''gt'' \<or> op = ''>'' then Some (b < a)
      else if op = ''gte'' \<or> op = ''>='' then Some (b \<le> a)
      else if op = ''lt'' \<or> op = ''<'' then Some (a < b)
      else if op = ''lte'' \<or> op = ''<='' then Some (a \<le> b)
      else None)"

definition compare_numbers :: "string \<Rightarrow> i64 \<Rightarrow> i64 \<Rightarrow> bool" where
  "compare_numbers op a b = (case compare_op op a b of Some r \<Rightarrow> r | None \<Rightarrow> False)"

definition compare_strings :: "string \<Rightarrow> string \<Rightarrow> string \<Rightarrow> bool" where
  "compare_strings op a b = (case compare_op op a b of Some r \<Rightarrow> r
     | None \<Rightarrow> (if op = ''contains'' then str_contains a b
                else if op = ''in'' then list_ex (\<lambda>v. trim v = a) (split_on CHR '','' b)
                else False))"

definition evaluate_condition :: "policy_condition \<Rightarrow> policy_context \<Rightarrow> bool" where
  "evaluate_condition c ctx = (case actual_value c ctx of
       None \<Rightarrow> False
     | Some actual \<Rightarrow>
         (if pc_condition_type c = TokenCount
          then compare_numbers (pc_operator c)
                 (case parse_i64 actual of Some n \<Rightarrow> n | None \<Rightarrow> 0)
                 (case parse_i64 (pc_value c) of Some n \<Rightarrow> n | None \<Rightarrow> 0)
          else compare_strings (pc_operator c) actual (pc_value c)))"

definition policy_matches :: "routing_policy \<Rightarrow> policy_context \<Rightarrow> bool" where
  "policy_matches p ctx = (rp_enabled p \<and> list_all (\<lambda>c. evaluate_condition c ctx) (rp_conditions p))"

section \<open>The registry\<close>

record policy_registry =
  pr_policies :: "routing_policy list"

definition registry_empty :: policy_registry where
  "registry_empty = \<lparr>pr_policies = []\<rparr>"

definition sort_by_priority :: "routing_policy list \<Rightarrow> routing_policy list" where
  "sort_by_priority ps = sort_by (\<lambda>a b. rp_priority b < rp_priority a) ps"

definition registry_add :: "routing_policy \<Rightarrow> policy_registry \<Rightarrow> policy_registry" where
  "registry_add p r =
     (let ps = (if list_ex (\<lambda>q. rp_id q = rp_id p) (pr_policies r)
                then filter (\<lambda>q. rp_id q \<noteq> rp_id p) (pr_policies r) else pr_policies r)
      in r\<lparr>pr_policies := sort_by_priority (ps @ [p])\<rparr>)"

definition registry_remove :: "string \<Rightarrow> policy_registry \<Rightarrow> bool \<times> policy_registry" where
  "registry_remove pid r =
     (let ps = filter (\<lambda>q. rp_id q \<noteq> pid) (pr_policies r)
      in (length ps \<noteq> length (pr_policies r), r\<lparr>pr_policies := ps\<rparr>))"

definition registry_get :: "policy_registry \<Rightarrow> string \<Rightarrow> routing_policy option" where
  "registry_get r pid = List.find (\<lambda>p. rp_id p = pid) (pr_policies r)"

definition find_matches :: "policy_registry \<Rightarrow> policy_context \<Rightarrow> routing_policy list" where
  "find_matches r ctx = filter (\<lambda>p. policy_matches p ctx) (pr_policies r)"

text \<open>Loading: serde, the file system and the JSON schema validator are the fields of \<open>policy_io\<close>.\<close>

datatype policy_load_error = Io string | Parse string | Schema string

record ('json, 'validator) policy_io =
  io_read :: "string \<Rightarrow> string + string"
  io_parse_value :: "string \<Rightarrow> string + 'json"
  io_parse_policies :: "string \<Rightarrow> string + routing_policy list"
  io_policies_of :: "'json \<Rightarrow> string + routing_policy list"
  io_validator_for :: "'json \<Rightarrow> string + 'validator"
  io_is_valid :: "'validator \<Rightarrow> 'json \<Rightarrow> bool"
  io_errors :: "'validator \<Rightarrow> 'json \<Rightarrow> string list option"

definition registry_from_json :: "('j, 'v) policy_io \<Rightarrow> string \<Rightarrow> string + policy_registry" where
  "registry_from_json lib json = (case io_parse_policies lib json of
       Inl e \<Rightarrow> Inl e
     | Inr ps \<Rightarrow> Inr \<lparr>pr_policies = sort_by_priority ps\<rparr>)"

text \<open>All policies, and their JSON as serde prints it; the schema is embedded in the program.\<close>

definition all_policies :: "policy_registry \<Rightarrow> routing_policy list" where "all_policies r = pr_policies r"

definition registry_to_json :: "(routing_policy list \<Rightarrow> string + string) \<Rightarrow> policy_registry \<Rightarrow> string + string" where
  "registry_to_json print_policies r = print_policies (pr_policies r)"

definition load_schema :: "('j, 'v) policy_io \<Rightarrow> string \<Rightarrow> 'j option" where
  "load_schema lib embedded = (case io_parse_value lib embedded of Inl _ \<Rightarrow> None | Inr v \<Rightarrow> Some v)"

definition no_errors_message :: string where
  "no_errors_message = ''validation failed but no errors produced''"

text \<open>\<open>io_errors\<close> is what \<open>Validator::validate\<close> returns: \<open>None\<close> for \<open>Ok(())\<close>, else the messages.\<close>

definition join_lines :: "string list \<Rightarrow> string" where
  "join_lines ls = (case ls of [] \<Rightarrow> [] | l # ls \<Rightarrow> l @ concat (map (\<lambda>s. CHR 0x0A # s) ls))"

definition validate_against_schema ::
  "('j, 'v) policy_io \<Rightarrow> string \<Rightarrow> 'j \<Rightarrow> policy_load_error + 'j" where
  "validate_against_schema lib json schema = (case io_parse_value lib json of
       Inl e \<Rightarrow> Inl (Parse e)
     | Inr inst \<Rightarrow> (case io_validator_for lib schema of
         Inl e \<Rightarrow> Inl (Schema e)
       | Inr validator \<Rightarrow>
           (if io_is_valid lib validator inst then Inr inst
            else (case io_errors lib validator inst of
                None \<Rightarrow> Inl (Schema no_errors_message)
              | Some errs \<Rightarrow>
                  (if errs = [] then Inl (Schema no_errors_message)
                   else Inl (Schema (''Schema validation failed:'' @ [CHR 0x0A] @
                     join_lines (sort (map (\<lambda>e. ''  - '' @ e) errs)))))))))"

definition registry_from_file ::
  "('j, 'v) policy_io \<Rightarrow> 'j \<Rightarrow> string \<Rightarrow> policy_load_error + policy_registry" where
  "registry_from_file lib schema path = (case io_read lib path of
       Inl e \<Rightarrow> Inl (Io e)
     | Inr content \<Rightarrow> (case validate_against_schema lib content schema of
         Inl e \<Rightarrow> Inl e
       | Inr v \<Rightarrow> (case io_policies_of lib v of
           Inl e \<Rightarrow> Inl (Parse e)
         | Inr ps \<Rightarrow> Inr \<lparr>pr_policies = sort_by_priority ps\<rparr>)))"

section \<open>The matcher\<close>

definition check_modality_match :: "model_info \<Rightarrow> modality_category \<Rightarrow> bool" where
  "check_modality_match m modality = (case modality of
       Image \<Rightarrow> cap_vision (mi_capabilities m)
     | Video \<Rightarrow> cap_vision (mi_capabilities m)
     | Audio \<Rightarrow> False
     | Embedding \<Rightarrow> False
     | Text \<Rightarrow> True
     | Code \<Rightarrow> True)"

definition capability_filter_ok :: "model_info \<Rightarrow> capability_filter \<Rightarrow> bool" where
  "capability_filter_ok m f =
     (if cf_mode f = ''require'' then has_capability m (cf_capability f)
      else if cf_mode f = ''exclude'' then \<not> has_capability m (cf_capability f)
      else True)"

definition matches_model :: "routing_policy \<Rightarrow> model_info \<Rightarrow> bool" where
  "matches_model p m =
     (let f = rp_filters p; a = rp_action p in
      if \<not> list_all (capability_filter_ok m) (pf_capabilities f) then False
      else if pf_tiers f \<noteq> [] \<and> get_tier m \<notin> set (pf_tiers f) then False
      else if pf_costs f \<noteq> [] \<and> get_cost_category m \<notin> set (pf_costs f) then False
      else if pf_context_windows f \<noteq> [] \<and> get_context_category m \<notin> set (pf_context_windows f) then False
      else if pf_providers f \<noteq> [] \<and> get_provider_category m \<notin> set (pf_providers f) then False
      else if \<not> list_all (check_modality_match m) (pf_modalities f) then False
      else if (case pa_max_cost_per_million a of Some c \<Rightarrow> c < input_price_per_million m | None \<Rightarrow> False) then False
      else if (case pa_min_context_window a of Some w \<Rightarrow> context_window m < w | None \<Rightarrow> False) then False
      else if list_ex (\<lambda>s. str_contains (mi_id m) s \<or> str_contains (mi_provider m) s)
                (filter (\<lambda>s. s \<noteq> []) (pa_avoid a)) then False
      else True)"

definition action_base_score :: "policy_action \<Rightarrow> f64" where
  "action_base_score a =
     (let t = pa_action_type a
      in if t = ''prefer'' then f64_of (15 / 10) else if t = ''avoid'' then f64_of (5 / 10)
         else if t = ''block'' then f64_0 else if t = ''weight'' then pa_weight_factor a else f64_1)"

definition calculate_score :: "routing_policy \<Rightarrow> model_info \<Rightarrow> policy_context \<Rightarrow> f64" where
  "calculate_score p m ctx =
     (let score = action_base_score (rp_action p);
          score = (if get_provider_category m \<in> set (pa_preferred_providers (rp_action p))
                   then fmul score (f64_of (12 / 10)) else score);
          score = (if list_ex (\<lambda>s. str_contains (mi_id m) s)
                        (filter (\<lambda>s. s \<noteq> []) (pa_preferred_models (rp_action p)))
                   then fmul score (f64_of (13 / 10)) else score);
          score = fold (\<lambda>f s. if cf_mode f = ''prefer'' then
                      if has_capability m (cf_capability f) then fmul s (f64_of (11 / 10)) else s
                    else s) (pf_capabilities (rp_filters p)) score
      in fmul score (fma (f64_int (rp_priority p)) (f64_of (1 / 100)) f64_1))"

definition evaluate :: "policy_registry \<Rightarrow> model_info \<Rightarrow> policy_context \<Rightarrow> policy_match list" where
  "evaluate r m ctx =
     map (\<lambda>p. \<lparr>pm_policy = p, pm_score = calculate_score p m ctx, pm_conditions_met = True\<rparr>)
       (filter (\<lambda>p. matches_model p m)
         (filter (\<lambda>p. rp_enabled p \<and> policy_matches p ctx) (pr_policies r)))"

text \<open>The comparison of \<open>evaluate_best\<close>: priority, then score, both descending; NaN scores tie.\<close>

definition match_before :: "policy_match \<Rightarrow> policy_match \<Rightarrow> bool" where
  "match_before a b \<longleftrightarrow> rp_priority (pm_policy b) < rp_priority (pm_policy a)
     \<or> rp_priority (pm_policy b) = rp_priority (pm_policy a) \<and> pm_score b < pm_score a"

definition evaluate_best :: "policy_registry \<Rightarrow> model_info \<Rightarrow> policy_context \<Rightarrow> policy_match option" where
  "evaluate_best r m ctx = (case sort_by match_before (evaluate r m ctx) of [] \<Rightarrow> None | x # _ \<Rightarrow> Some x)"

definition calculate_weight_factor :: "policy_registry \<Rightarrow> model_info \<Rightarrow> policy_context \<Rightarrow> f64" where
  "calculate_weight_factor r m ctx =
     (let ms = evaluate r m ctx
      in if ms = [] then f64_1
         else
           let (total_weight, total_priority) = fold (\<lambda>x (w, p).
                 (let priority_weight = fma (f64_int (rp_priority (pm_policy x))) (f64_of (1 / 10)) f64_1
                  in (fadd w (fmul (pm_score x) priority_weight), wrap_i32 (p + rp_priority (pm_policy x)))))
                 ms (f64_0, 0)
           in if total_priority = 0 then f64_1
              else fclamp (fdiv total_weight (f64_nat (length ms))) (f64_of (1 / 10)) (f64_nat 10))"

definition is_blocked :: "policy_registry \<Rightarrow> model_info \<Rightarrow> policy_context \<Rightarrow> bool" where
  "is_blocked r m ctx = list_ex (\<lambda>p. rp_enabled p \<and> policy_matches p ctx
     \<and> pa_action_type (rp_action p) = ''block'' \<and> matches_model p m) (pr_policies r)"

section \<open>The registry as a map\<close>

interpretation priority_order: sort_order "\<lambda>a b. rp_priority b < rp_priority a" "\<lambda>_. True"
  by unfold_locales auto

interpretation match_order: sort_order match_before "\<lambda>x. pm_score x \<noteq> FNaN"
proof
  fix a b c
  show "match_before a b \<Longrightarrow> \<not> match_before b a"
    by (auto simp: match_before_def dest: f64_less_le) (metis f64_less_not_NaN f64_not_less f64_less_le)
  assume nan: "pm_score a \<noteq> FNaN" "pm_score b \<noteq> FNaN" "pm_score c \<noteq> FNaN"
    and "\<not> match_before a b" "\<not> match_before b c"
  then show "\<not> match_before a c"
    by (auto simp: match_before_def f64_not_less dest: f64_le_trans)
qed

definition registry_inv :: "policy_registry \<Rightarrow> bool" where
  "registry_inv r \<longleftrightarrow> distinct (map rp_id (pr_policies r))
     \<and> sorted_wrt (\<lambda>a b. rp_priority b \<le> rp_priority a) (pr_policies r)"

datatype registry_call = Add routing_policy | Remove string

fun registry_step :: "registry_call \<Rightarrow> policy_registry \<Rightarrow> policy_registry" where
  "registry_step (Add p) r = registry_add p r"
| "registry_step (Remove pid) r = snd (registry_remove pid r)"

fun registry_abs_step :: "registry_call \<Rightarrow> (string \<rightharpoonup> routing_policy) \<Rightarrow> (string \<rightharpoonup> routing_policy)" where
  "registry_abs_step (Add p) f = f(rp_id p \<mapsto> p)"
| "registry_abs_step (Remove pid) f = f(pid := None)"

lemma sorted_by_priority:
  "sorted_wrt (\<lambda>a b. rp_priority b \<le> rp_priority a) (sort_by_priority ps)"
  using priority_order.sorted_sort_by[of ps] by (simp add: sort_by_priority_def not_less)

lemma distinct_by_mset: "mset xs = mset ys \<Longrightarrow> distinct (map f xs) = distinct (map f ys)"
  by (metis mset_eq_imp_distinct_iff mset_map)

lemma distinct_sort_by_priority: "distinct (map f (sort_by_priority ps)) = distinct (map f ps)"
  by (rule distinct_by_mset) (simp add: sort_by_priority_def)

lemma find_by_id_iff:
  "distinct (map rp_id ps) \<Longrightarrow> List.find (\<lambda>p. rp_id p = pid) ps = Some p \<longleftrightarrow> p \<in> set ps \<and> rp_id p = pid"
  by (induction ps) (auto simp: image_iff)

lemma registry_get_iff:
  "distinct (map rp_id (pr_policies r)) \<Longrightarrow>
     registry_get r pid = Some p \<longleftrightarrow> p \<in> set (pr_policies r) \<and> rp_id p = pid"
  by (simp add: registry_get_def find_by_id_iff)

lemma registry_get_absI:
  assumes "distinct (map rp_id (pr_policies r))"
    and "\<And>p. p \<in> set (pr_policies r) \<longleftrightarrow> f (rp_id p) = Some p" and "\<And>k p. f k = Some p \<Longrightarrow> rp_id p = k"
  shows "registry_get r = f"
proof
  fix k
  have "registry_get r k = Some p \<longleftrightarrow> f k = Some p" for p
    unfolding registry_get_iff[OF assms(1)] assms(2) using assms(3)[of k p] by auto
  then show "registry_get r k = f k" by (metis not_None_eq)
qed

lemma registry_step_inv:
  assumes "registry_inv r"
  shows "registry_inv (registry_step c r)"
    and "registry_get (registry_step c r) = registry_abs_step c (registry_get r)"
proof -
  have d: "distinct (map rp_id (pr_policies r))" using assms by (simp add: registry_inv_def)
  have keep: "(if list_ex (\<lambda>q. rp_id q = i) ps then filter (\<lambda>q. rp_id q \<noteq> i) ps else ps)
      = filter (\<lambda>q. rp_id q \<noteq> i) ps" for i and ps :: "routing_policy list"
    by (auto simp: list_ex_iff intro!: filter_True[symmetric])
  have d': "distinct (map rp_id (filter (\<lambda>q. rp_id q \<noteq> i) (pr_policies r)))" for i
    using d by (rule distinct_map_filter)
  show inv: "registry_inv (registry_step c r)"
    using assms d' by (cases c) (auto simp: registry_inv_def registry_add_def registry_remove_def keep
        sorted_by_priority distinct_sort_by_priority sorted_wrt_filter Let_def)
  show "registry_get (registry_step c r) = registry_abs_step c (registry_get r)"
  proof (rule registry_get_absI)
    show "distinct (map rp_id (pr_policies (registry_step c r)))" using inv by (simp add: registry_inv_def)
    show "p \<in> set (pr_policies (registry_step c r)) \<longleftrightarrow> registry_abs_step c (registry_get r) (rp_id p) = Some p" for p
      using registry_get_iff[OF d]
      by (cases c) (auto simp: registry_add_def registry_remove_def keep sort_by_priority_def Let_def)
    show "rp_id p = k" if "registry_abs_step c (registry_get r) k = Some p" for k p
      using that registry_get_iff[OF d] by (cases c) (auto split: if_splits)
  qed
qed

lemma registry_run:
  "registry_inv r \<Longrightarrow> registry_inv (fold registry_step cs r)
     \<and> registry_get (fold registry_step cs r) = fold registry_abs_step cs (registry_get r)"
  by (induction cs arbitrary: r) (simp_all add: registry_step_inv)

section \<open>Properties\<close>

text \<open>A printed registry is read back as it was, in the same order, if serde reads what it prints.\<close>

lemma registry_json_roundtrip:
  assumes "registry_inv r" and "registry_to_json print_policies r = Inr json"
    and "\<And>ps s. print_policies ps = Inr s \<Longrightarrow> io_parse_policies lib s = Inr ps"
  shows "registry_from_json lib json = Inr r"
proof -
  have "io_parse_policies lib json = Inr (pr_policies r)" using assms(2,3) by (simp add: registry_to_json_def)
  moreover have "sort_by_priority (pr_policies r) = pr_policies r"
    using assms(1) by (simp add: sort_by_priority_def sort_by_sorted registry_inv_def not_less)
  ultimately show ?thesis by (simp add: registry_from_json_def)
qed

text \<open>C37. The registry refines a finite map: after any additions and removals on an empty registry,
  lookups by identifier are those of the map (an addition replaces the policy of the same identifier),
  no identifier occurs twice, and the policies are in descending order of priority.\<close>

theorem registry_refines_map:
  "registry_inv (fold registry_step cs registry_empty)
   \<and> registry_get (fold registry_step cs registry_empty) = fold registry_abs_step cs Map.empty"
proof -
  have "registry_inv registry_empty" by (simp add: registry_inv_def registry_empty_def)
  moreover have "registry_get registry_empty = Map.empty"
    by (simp add: fun_eq_iff registry_get_def registry_empty_def)
  ultimately show ?thesis using registry_run by metis
qed

lemma evaluate_iff:
  "x \<in> set (evaluate r m ctx) \<longleftrightarrow> (\<exists>p\<in>set (pr_policies r). policy_matches p ctx \<and> matches_model p m
     \<and> x = \<lparr>pm_policy = p, pm_score = calculate_score p m ctx, pm_conditions_met = True\<rparr>)"
  by (auto simp: evaluate_def policy_matches_def)

lemma evaluateI:
  "p \<in> set (pr_policies r) \<Longrightarrow> policy_matches p ctx \<Longrightarrow> matches_model p m \<Longrightarrow>
     \<lparr>pm_policy = p, pm_score = calculate_score p m ctx, pm_conditions_met = True\<rparr> \<in> set (evaluate r m ctx)"
  by (auto simp: evaluate_iff)

text \<open>The best match: it is one of the registry's enabled policies whose conditions hold and whose
  filters accept the model, none of those has a higher priority, and none of the same priority a higher
  score; there is none exactly when no policy applies.\<close>

theorem evaluate_best_spec:
  assumes "\<forall>x\<in>set (evaluate r m ctx). pm_score x \<noteq> FNaN"
  shows "case evaluate_best r m ctx of
      None \<Rightarrow> list_all (\<lambda>p. \<not> (policy_matches p ctx \<and> matches_model p m)) (pr_policies r)
    | Some b \<Rightarrow> pm_policy b \<in> set (pr_policies r) \<and> policy_matches (pm_policy b) ctx
        \<and> matches_model (pm_policy b) m \<and> pm_score b = calculate_score (pm_policy b) m ctx
        \<and> list_all (\<lambda>p. policy_matches p ctx \<and> matches_model p m
            \<longrightarrow> rp_priority p \<le> rp_priority (pm_policy b)
              \<and> (rp_priority p = rp_priority (pm_policy b) \<longrightarrow> calculate_score p m ctx \<le> pm_score b))
            (pr_policies r)"
proof (cases "sort_by match_before (evaluate r m ctx)")
  case Nil
  then have "evaluate r m ctx = []" by simp
  then have "list_all (\<lambda>p. \<not> (policy_matches p ctx \<and> matches_model p m)) (pr_policies r)"
    using evaluate_iff[of _ r m ctx] by (auto simp: list_all_iff)
  with Nil show ?thesis by (simp add: evaluate_best_def)
next
  case (Cons b bs)
  have b: "b \<in> set (evaluate r m ctx)"
    using Cons set_sort_by[of match_before "evaluate r m ctx"] by (metis list.set_intros(1))
  have "\<not> match_before x b" if "x \<in> set (evaluate r m ctx)" for x
    using that assms Cons by (intro match_order.hd_sort_by)
  then have "\<not> match_before \<lparr>pm_policy = p, pm_score = calculate_score p m ctx, pm_conditions_met = True\<rparr> b"
    if "p \<in> set (pr_policies r)" "policy_matches p ctx" "matches_model p m" for p
    using that by (auto simp: evaluate_iff)
  moreover have "calculate_score p m ctx \<noteq> FNaN"
    if "p \<in> set (pr_policies r)" "policy_matches p ctx" "matches_model p m" for p
    using assms evaluateI[OF that] by fastforce
  moreover have "pm_score b \<noteq> FNaN" using assms b by blast
  ultimately have "list_all (\<lambda>p. policy_matches p ctx \<and> matches_model p m
      \<longrightarrow> rp_priority p \<le> rp_priority (pm_policy b)
        \<and> (rp_priority p = rp_priority (pm_policy b) \<longrightarrow> calculate_score p m ctx \<le> pm_score b)) (pr_policies r)"
    by (auto simp: match_before_def f64_not_less list_all_iff not_less)
  moreover have "pm_policy b \<in> set (pr_policies r) \<and> policy_matches (pm_policy b) ctx
        \<and> matches_model (pm_policy b) m \<and> pm_score b = calculate_score (pm_policy b) m ctx"
    using b by (auto simp: evaluate_iff)
  ultimately show ?thesis using Cons by (simp add: evaluate_best_def)
qed

text \<open>A model and a context for the witnesses.\<close>

definition sample_model :: model_info where
  "sample_model = \<lparr>mi_id = ''gpt-4'', mi_name = ''GPT-4'', mi_provider = ''openai'', context_window = 8192,
     max_output_tokens = 4096, input_price_per_million = FFin 30, output_price_per_million = FFin 60,
     mi_capabilities = \<lparr>cap_streaming = True, cap_tools = True, cap_vision = False, cap_thinking = False\<rparr>,
     mi_rate_limits = \<lparr>requests_per_minute = 0, tokens_per_minute = 0\<rparr>, mi_source = StaticSource\<rparr>"

definition sample_context :: policy_context where
  "sample_context = \<lparr>hour_of_day = Some 9, day_of_week = Some 1, token_count = Some 1000,
     tenant_id = None, model_family = None, metadata = [(''env'', ''prod'')]\<rparr>"

lemma evaluate_plain_policy:
  assumes "rp_conditions p = []" "rp_enabled p" "rp_filters p = default_filters"
    "rp_action p = default_action\<lparr>pa_action_type := t\<rparr>"
  shows "evaluate \<lparr>pr_policies = [p]\<rparr> m ctx
    = [\<lparr>pm_policy = p, pm_score = calculate_score p m ctx, pm_conditions_met = True\<rparr>]"
  using assms by (simp add: evaluate_def policy_matches_def matches_model_def default_filters_def default_action_def)

theorem evaluate_best_spec_witness:
  "\<exists>b. evaluate_best (registry_add (policy_new ''p'' ''n'') registry_empty) sample_model sample_context = Some b
     \<and> policy_matches (pm_policy b) sample_context"
proof -
  let ?p = "policy_new ''p'' ''n''"
  let ?r = "registry_add ?p registry_empty"
  have r: "?r = \<lparr>pr_policies = [?p]\<rparr>"
    by (simp add: registry_add_def registry_empty_def sort_by_priority_def sort_by_def)
  obtain a where a: "f64_of (3 / 2) = FFin a" using f64_of_finite[of "3 / 2"] by auto
  obtain c where c: "f64_of (1 / 100) = FFin c" using f64_of_finite[of "1 / 100"] by auto
  have ev: "evaluate ?r sample_model sample_context = [\<lparr>pm_policy = ?p,
      pm_score = calculate_score ?p sample_model sample_context, pm_conditions_met = True\<rparr>]"
    unfolding r by (rule evaluate_plain_policy[where t = "''prefer''"]) (simp_all add: policy_new_def default_action_def)
  have "calculate_score ?p sample_model sample_context \<noteq> FNaN"
    by (simp add: calculate_score_def policy_new_def default_action_def default_filters_def
        action_base_score_def a c fma_def fmul_FFin Let_def)
  moreover obtain b where "evaluate_best ?r sample_model sample_context = Some b"
    using ev by (simp add: evaluate_best_def sort_by_def)
  ultimately show ?thesis using evaluate_best_spec[of ?r sample_model sample_context] ev by simp
qed

text \<open>A token-count condition compares numbers: the count and the bound go through their decimal
  notation and back without loss, so every operator means the comparison of the integers.\<close>

theorem token_count_condition_numeric:
  assumes "int t \<le> i64_max" and "- (2 ^ 63) \<le> v" and "v \<le> i64_max"
  shows "evaluate_condition \<lparr>pc_condition_type = TokenCount, pc_value = show_int v, pc_operator = op\<rparr>
      (ctx\<lparr>token_count := Some t\<rparr>) = compare_numbers op (int t) v"
proof -
  have "parse_i64 (show_nat t) = Some (int t)"
    using parse_i64_show[of "int t"] assms(1) by (simp add: show_int_def)
  with parse_i64_show[OF assms(2,3)] show ?thesis
    by (simp add: evaluate_condition_def actual_value_def)
qed

theorem token_count_condition_numeric_witness:
  "evaluate_condition \<lparr>pc_condition_type = TokenCount, pc_value = show_int 1000, pc_operator = ''lt''\<rparr>
     (sample_context\<lparr>token_count := Some 999\<rparr>)"
  using token_count_condition_numeric[of 999 1000 "''lt''" sample_context]
  by (simp add: i64_max_def compare_numbers_def compare_op_def)

lemma splitn2_at: "sep \<notin> set key \<Longrightarrow> splitn2 sep (key @ sep # value) = [key, value]"
  by (induction key) auto

text \<open>A custom condition \<open>key:value\<close> with operator \<open>eq\<close> never holds when the metadata maps the key to
  the value, and \<open>ne\<close> always does: the metadata is compared with the whole \<open>key:value\<close> string.\<close>

theorem custom_condition_never_equal:
  assumes "CHR '':'' \<notin> set key" and "key \<noteq> []" and "value \<noteq> []"
    and "hm_get (metadata ctx) key = Some value"
  shows "\<not> evaluate_condition \<lparr>pc_condition_type = Custom, pc_value = key @ CHR '':'' # value,
        pc_operator = ''eq''\<rparr> ctx
    \<and> evaluate_condition \<lparr>pc_condition_type = Custom, pc_value = key @ CHR '':'' # value,
        pc_operator = ''ne''\<rparr> ctx"
proof -
  have "value \<noteq> key @ CHR '':'' # value" by (metis append_Cons append_self_conv2 list.distinct(1) append_assoc)
  then show ?thesis
    using assms by (simp add: evaluate_condition_def actual_value_def splitn2_at compare_strings_def
        compare_op_def Let_def)
qed

theorem custom_condition_never_equal_witness:
  "\<not> evaluate_condition \<lparr>pc_condition_type = Custom, pc_value = ''env'' @ CHR '':'' # ''prod'',
     pc_operator = ''eq''\<rparr> sample_context"
  by (rule custom_condition_never_equal[THEN conjunct1]) (simp_all add: sample_context_def)

text \<open>Hours are compared as strings, so nine o'clock is not before 21.\<close>

theorem hour_condition_is_lexicographic:
  "\<not> evaluate_condition \<lparr>pc_condition_type = TimeOfDay, pc_value = ''21'', pc_operator = ''lt''\<rparr>
     (ctx\<lparr>hour_of_day := Some 9\<rparr>)"
proof -
  have "show_int 9 = ''9''" by code_simp
  then show ?thesis
    by (simp add: evaluate_condition_def actual_value_def compare_strings_def compare_op_def less_char_def)
qed

section \<open>Weights and blocking\<close>

lemma fclamp_range:
  assumes "x \<noteq> FNaN" and "lo \<le> hi"
  shows "lo \<le> fclamp x lo hi \<and> fclamp x lo hi \<le> hi"
  using assms f64_le_not_NaN[OF assms(2)]
  by (auto simp: fclamp_def f64_not_less f64_le_refl dest: f64_less_le)

lemma fclamp_NaN: "fclamp FNaN lo hi = FNaN"
  by (simp add: fclamp_def)

lemma tenth_le_ten: "f64_of (1 / 10) \<le> f64_of 10"
  by (rule f64_of_mono) simp

lemma tenth_le_1: "f64_of (1 / 10) \<le> f64_1"
  using f64_of_mono[of "1 / 10" 1] by simp

lemma one_le_ten: "f64_1 \<le> f64_of 10"
  using f64_of_mono[of 1 10] by simp

text \<open>The combined weight factor of all matching policies is within the documented range from 0.1 to
  10 whenever it is a number, and it is exactly 1 when no policy matches.\<close>

theorem weight_factor_range:
  "case evaluate r m ctx of
     [] \<Rightarrow> calculate_weight_factor r m ctx = f64_1
   | _ # _ \<Rightarrow> calculate_weight_factor r m ctx = FNaN
       \<or> f64_of (1 / 10) \<le> calculate_weight_factor r m ctx \<and> calculate_weight_factor r m ctx \<le> f64_nat 10"
proof -
  have "fclamp x (f64_of (1 / 10)) (f64_of 10) = FNaN \<or> f64_of (1 / 10) \<le> fclamp x (f64_of (1 / 10)) (f64_of 10)
      \<and> fclamp x (f64_of (1 / 10)) (f64_of 10) \<le> f64_of 10" for x
    using fclamp_range[OF _ tenth_le_ten, of x] fclamp_NaN by (cases "x = FNaN") auto
  then show ?thesis
    by (auto simp: calculate_weight_factor_def Let_def tenth_le_1 one_le_ten split: prod.split list.split)
qed

lemma rnd_tenths: "0 \<le> q \<Longrightarrow> q \<le> 1 \<Longrightarrow> \<exists>c. f64_of q = FFin c \<and> \<bar>c\<bar> \<le> 1"
  using rnd_unit[of q] by (auto simp: f64_of_unit)

lemma priority_factor_finite:
  assumes "\<bar>p\<bar> \<le> 2 ^ 31" and "0 \<le> q" and "q \<le> 1"
  shows "is_finite (fma (f64_int p) (f64_of q) f64_1)"
proof -
  obtain c where c: "f64_of q = FFin c" "\<bar>c\<bar> \<le> 1" using rnd_tenths[OF assms(2,3)] by blast
  have "rnd (of_int p) = of_int p" using assms(1) by (intro rnd_of_int) auto
  moreover have p: "\<bar>of_int p :: rat\<bar> \<le> 2 ^ 31"
    using assms(1) by (metis of_int_abs of_int_le_iff of_int_numeral of_int_power)
  have "f64_of (of_int p) \<noteq> FNaN" by simp
  have "is_finite (f64_of (of_int p))" by (rule f64_of_abs_finite) (use p in simp)
  ultimately have fp: "f64_of (of_int p) = FFin (of_int p)"
    by (auto simp: is_finite_def f64_of_def Let_def split: if_splits)
  have "\<bar>of_int p * c\<bar> \<le> 2 ^ 31 * 1" unfolding abs_mult using p c(2) by (intro mult_mono) auto
  then have "\<bar>of_int p * c + 1\<bar> \<le> 2 ^ 53" by simp
  then have "is_finite (f64_of (of_int p * c + 1))" by (rule f64_of_abs_finite)
  then show ?thesis by (simp add: fma_def fp c(1))
qed

definition i32_range :: "int \<Rightarrow> bool" where
  "i32_range p \<longleftrightarrow> - (2 ^ 31) \<le> p \<and> p < 2 ^ 31"

lemma block_score:
  assumes "pa_action_type (rp_action p) = ''block''" and "i32_range (rp_priority p)"
  shows "calculate_score p m ctx = f64_0"
proof -
  have fin: "is_finite (f64_of q)" if "0 \<le> q" "q \<le> 2" for q :: rat
    using that by (intro f64_of_abs_finite) simp
  have fold0: "fold (\<lambda>f s. if cf_mode f = ''prefer'' then
        if has_capability m (cf_capability f) then fmul s (f64_of (11 / 10)) else s else s) fs f64_0 = f64_0" for fs
    by (induction fs) (simp_all add: fmul_0_finite fin)
  have "is_finite (fma (f64_int (rp_priority p)) (f64_of (1 / 100)) f64_1)"
    using assms(2) by (intro priority_factor_finite) (auto simp: i32_range_def)
  then show ?thesis
    using assms(1) fmul_0_finite[OF fin, of "12 / 10"] fmul_0_finite[OF fin, of "13 / 10"]
    by (simp add: calculate_score_def action_base_score_def Let_def fold0 fmul_0_finite)
qed

lemma block_total:
  assumes "\<forall>x\<in>set ms. pm_score x = f64_0 \<and> i32_range (rp_priority (pm_policy x))"
  shows "fst (fold (\<lambda>x (w, p). (let priority_weight = fma (f64_int (rp_priority (pm_policy x))) (f64_of (1 / 10)) f64_1
      in (fadd w (fmul (pm_score x) priority_weight), wrap_i32 (p + rp_priority (pm_policy x))))) ms (f64_0, p)) = f64_0"
  using assms
proof (induction ms arbitrary: p)
  case (Cons x ms)
  have "is_finite (fma (f64_int (rp_priority (pm_policy x))) (f64_of (1 / 10)) f64_1)"
    using Cons.prems by (intro priority_factor_finite) (auto simp: i32_range_def)
  with Cons show ?case by (simp add: fmul_0_finite)
qed simp

lemma fdiv_0: "0 < n \<Longrightarrow> n \<le> 2 ^ 53 \<Longrightarrow> fdiv f64_0 (f64_nat n) = f64_0"
  by (simp add: f64_nat_exact)

lemma evaluate_score: "x \<in> set (evaluate r m ctx) \<Longrightarrow> pm_score x = calculate_score (pm_policy x) m ctx"
  by (auto simp: evaluate_iff)

text \<open>Blocking is a separate question from the weight: even when every policy that applies to a model
  blocks it, the combined weight factor is still positive (0.1, or 1 when the priorities add up to zero),
  so a caller that only multiplies by the factor keeps the blocked model selectable.\<close>

theorem blocked_model_keeps_weight:
  assumes "evaluate r m ctx \<noteq> []" and "length (evaluate r m ctx) \<le> 2 ^ 53"
    and "\<forall>x\<in>set (evaluate r m ctx). pa_action_type (rp_action (pm_policy x)) = ''block''
      \<and> i32_range (rp_priority (pm_policy x))"
  shows "is_blocked r m ctx \<and> calculate_weight_factor r m ctx \<in> {f64_of (1 / 10), f64_1}
    \<and> f64_0 < calculate_weight_factor r m ctx"
proof -
  let ?ms = "evaluate r m ctx"
  have scores: "\<forall>x\<in>set ?ms. pm_score x = f64_0 \<and> i32_range (rp_priority (pm_policy x))"
    using assms(3) evaluate_score block_score by metis
  obtain c where c: "f64_of (1 / 10) = FFin c" "\<bar>c\<bar> \<le> 1" using rnd_tenths[of "1 / 10"] by auto
  have "rnd (1 / 16) = (1 / 16 :: rat)" using rnd_scaled[of 1 "- 4"] by (simp add: power_int_minus)
  then have "(1 / 16 :: rat) \<le> rnd (1 / 10)" using rnd_mono[of "1 / 16" "1 / 10"] by simp
  then have pos: "0 < c" using c(1) f64_of_unit[of "1 / 10"] by simp
  have "f64_of 10 = FFin 10" using f64_nat_exact[of 10] by simp
  then have clamp: "fclamp f64_0 (f64_of (1 / 10)) (f64_of 10) = FFin c" using c pos by (simp add: fclamp_def)
  have "calculate_weight_factor r m ctx \<in> {f64_of (1 / 10), f64_1}"
    using block_total[OF scores, of 0] assms(1,2) clamp
    by (auto simp: calculate_weight_factor_def Let_def fdiv_0 c(1) split: prod.split)
  moreover from this have "f64_0 < calculate_weight_factor r m ctx" using c pos by auto
  moreover have "is_blocked r m ctx"
  proof -
    obtain x where x: "x \<in> set ?ms" using assms(1) list.set_intros(1) by (metis neq_Nil_conv)
    then have "pa_action_type (rp_action (pm_policy x)) = ''block''" using assms(3) by blast
    moreover have "pm_policy x \<in> set (pr_policies r)" "policy_matches (pm_policy x) ctx"
      "matches_model (pm_policy x) m" using x by (auto simp: evaluate_iff)
    ultimately show ?thesis by (auto simp: is_blocked_def list_ex_iff policy_matches_def)
  qed
  ultimately show ?thesis by blast
qed

theorem blocked_model_keeps_weight_witness:
  "is_blocked (registry_add (with_action ''block'' (with_priority 5 (policy_new ''p'' ''n''))) registry_empty)
     sample_model sample_context
   \<and> f64_0 < calculate_weight_factor
     (registry_add (with_action ''block'' (with_priority 5 (policy_new ''p'' ''n''))) registry_empty)
     sample_model sample_context"
proof -
  let ?p = "with_action ''block'' (with_priority 5 (policy_new ''p'' ''n''))"
  let ?r = "registry_add ?p registry_empty"
  have r: "?r = \<lparr>pr_policies = [?p]\<rparr>"
    by (simp add: registry_add_def registry_empty_def sort_by_priority_def sort_by_def)
  have "evaluate ?r sample_model sample_context = [\<lparr>pm_policy = ?p,
      pm_score = calculate_score ?p sample_model sample_context, pm_conditions_met = True\<rparr>]"
    unfolding r by (rule evaluate_plain_policy[where t = "''block''"])
      (simp_all add: policy_new_def with_priority_def with_action_def)
  with blocked_model_keeps_weight[of ?r sample_model sample_context] show ?thesis
    by (simp add: with_action_def with_priority_def policy_new_def i32_range_def)
qed

end
