(* ===== verification/RoutingConfig.thy ===== *)
theory RoutingConfig
  imports Policy
begin

text \<open>
  The routing configuration (src/routing/config): its records with their defaults, the
  normalisation of weights and thresholds, and the validation pass that resets out-of-range
  values. A warning is represented by the values its message is formatted from.
\<close>

section \<open>Data\<close>

record status_code_health_config =
  sc_healthy :: "i32 list"
  sc_degraded :: "i32 list"
  sc_unhealthy :: "i32 list"

record health_config =
  healthy_threshold :: i32
  unhealthy_threshold :: i32
  degraded_threshold :: f64
  cooldown_period_seconds :: i64
  status_codes :: status_code_health_config

record time_slot =
  start_hour :: i32
  end_hour :: i32
  days_of_week :: "i32 list"
  slot_factor :: f64

record time_aware_config =
  ta_enabled :: bool
  peak_hours :: "time_slot list"
  off_peak_factor :: f64
  preferred_auths_per_time_slot :: "string list hmap"

record quota_aware_config =
  qa_enabled :: bool
  quota_balance_strategy :: string
  reserve_ratio :: f64
  recovery_window_seconds :: i64

record weight_config =
  success_rate_weight :: f64
  latency_weight :: f64
  health_weight :: f64
  load_weight :: f64
  priority_weight :: f64
  unhealthy_penalty :: f64
  degraded_penalty :: f64
  quota_exceeded_penalty :: f64
  unavailable_penalty :: f64

record log_config =
  lg_enabled :: bool
  lg_level :: string

record policy_config =
  pg_enabled :: bool
  pg_config_path :: "string option"
  pg_inline_policies :: "routing_policy list"
  pg_cache_enabled :: bool

record smart_routing_config =
  src_enabled :: bool
  src_strategy :: string
  src_weight :: weight_config
  src_health :: health_config
  src_time_aware :: time_aware_config
  src_quota_aware :: quota_aware_config
  src_policy :: policy_config
  src_log :: log_config

abbreviation src_policy_enabled :: "smart_routing_config \<Rightarrow> bool" where
  "src_policy_enabled cfg \<equiv> pg_enabled (src_policy cfg)"

definition default_status_code_health_config :: status_code_health_config where
  "default_status_code_health_config = \<lparr>sc_healthy = [200, 201, 202, 204],
     sc_degraded = [429, 503], sc_unhealthy = [401, 402, 403, 500, 502, 504]\<rparr>"

definition default_health_config :: health_config where
  "default_health_config = \<lparr>healthy_threshold = 3, unhealthy_threshold = 5,
     degraded_threshold = f64_of (3 / 10), cooldown_period_seconds = 60,
     status_codes = default_status_code_health_config\<rparr>"

definition default_time_aware_config :: time_aware_config where
  "default_time_aware_config = \<lparr>ta_enabled = False, peak_hours = [],
     off_peak_factor = f64_of (12 / 10), preferred_auths_per_time_slot = []\<rparr>"

definition default_quota_aware_config :: quota_aware_config where
  "default_quota_aware_config = \<lparr>qa_enabled = False, quota_balance_strategy = ''adaptive'',
     reserve_ratio = f64_of (2 / 10), recovery_window_seconds = 3600\<rparr>"

definition default_success_rate_weight :: f64 where "default_success_rate_weight = f64_of (35 / 100)"
definition default_latency_weight :: f64 where "default_latency_weight = f64_of (25 / 100)"
definition default_health_weight :: f64 where "default_health_weight = f64_of (20 / 100)"
definition default_load_weight :: f64 where "default_load_weight = f64_of (15 / 100)"
definition default_priority_weight :: f64 where "default_priority_weight = f64_of (5 / 100)"

definition default_weight_config :: weight_config where
  "default_weight_config = \<lparr>success_rate_weight = default_success_rate_weight,
     latency_weight = default_latency_weight, health_weight = default_health_weight,
     load_weight = default_load_weight, priority_weight = default_priority_weight,
     unhealthy_penalty = f64_of (1 / 100), degraded_penalty = f64_of (1 / 2),
     quota_exceeded_penalty = f64_of (1 / 10), unavailable_penalty = f64_of (1 / 100)\<rparr>"

definition default_log_config :: log_config where
  "default_log_config = \<lparr>lg_enabled = False, lg_level = ''info''\<rparr>"

definition default_cache_enabled :: bool where "default_cache_enabled = True"

definition default_policy_config :: policy_config where
  "default_policy_config = \<lparr>pg_enabled = False, pg_config_path = None, pg_inline_policies = [], pg_cache_enabled = True\<rparr>"

definition default_smart_routing_config :: smart_routing_config where
  "default_smart_routing_config = \<lparr>src_enabled = True, src_strategy = ''weighted'',
     src_weight = default_weight_config, src_health = default_health_config,
     src_time_aware = default_time_aware_config, src_quota_aware = default_quota_aware_config,
     src_policy = default_policy_config, src_log = default_log_config\<rparr>"

text \<open>The deep copy, field by field as it is written.\<close>

definition clone_config :: "smart_routing_config \<Rightarrow> smart_routing_config" where
  "clone_config c = \<lparr>src_enabled = src_enabled c, src_strategy = src_strategy c, src_weight = src_weight c, src_health = src_health c,
     src_time_aware = \<lparr>ta_enabled = ta_enabled (src_time_aware c), peak_hours = peak_hours (src_time_aware c),
       off_peak_factor = off_peak_factor (src_time_aware c),
       preferred_auths_per_time_slot = preferred_auths_per_time_slot (src_time_aware c)\<rparr>,
     src_quota_aware = src_quota_aware c, src_policy = src_policy c, src_log = src_log c\<rparr>"

lemma clone_config_id [simp]: "clone_config c = c"
  by (simp add: clone_config_def)

section \<open>Normalisation\<close>

definition f64_epsilon :: f64 where "f64_epsilon = FFin (2 powi (- 52))"

definition total_weight :: "weight_config \<Rightarrow> f64" where
  "total_weight w = fadd (fadd (fadd (fadd (success_rate_weight w) (latency_weight w))
     (health_weight w)) (load_weight w)) (priority_weight w)"

definition normalize_weights :: "weight_config \<Rightarrow> weight_config" where
  "normalize_weights w = (let t = total_weight w in
     if f64_epsilon < fabs (fsub t f64_1) then
       w\<lparr>success_rate_weight := fdiv (success_rate_weight w) t,
         latency_weight := fdiv (latency_weight w) t,
         health_weight := fdiv (health_weight w) t,
         load_weight := fdiv (load_weight w) t,
         priority_weight := fdiv (priority_weight w) t\<rparr>
     else w)"

definition normalize_health :: "health_config \<Rightarrow> health_config" where
  "normalize_health h = \<lparr>
     healthy_threshold = (if healthy_threshold h \<le> 0 then 3 else healthy_threshold h),
     unhealthy_threshold = (if unhealthy_threshold h \<le> 0 then 5 else unhealthy_threshold h),
     degraded_threshold = (if degraded_threshold h \<le> f64_0 \<or> f64_1 < degraded_threshold h
       then f64_of (3 / 10) else degraded_threshold h),
     cooldown_period_seconds = (if cooldown_period_seconds h \<le> 0 then 60 else cooldown_period_seconds h),
     status_codes = status_codes h\<rparr>"

definition normalize_quota :: "quota_aware_config \<Rightarrow> quota_aware_config" where
  "normalize_quota q = q\<lparr>
     reserve_ratio := (if reserve_ratio q < f64_0 \<or> f64_1 < reserve_ratio q
       then f64_of (2 / 10) else reserve_ratio q),
     recovery_window_seconds := (if recovery_window_seconds q \<le> 0 then 3600
       else recovery_window_seconds q)\<rparr>"

text \<open>\<open>SmartRoutingConfig::normalize\<close>: all-zero weights return before the thresholds are looked at.\<close>

definition normalize :: "smart_routing_config \<Rightarrow> smart_routing_config" where
  "normalize c =
     (if feq (total_weight (src_weight c)) f64_0 then c\<lparr>src_weight := default_weight_config\<rparr>
      else c\<lparr>src_weight := normalize_weights (src_weight c),
             src_health := normalize_health (src_health c),
             src_quota_aware := normalize_quota (src_quota_aware c)\<rparr>)"

section \<open>Validation\<close>

datatype config_warning =
    InvalidStrategy string
  | WeightOutOfRange string f64 f64
  | OffPeakNotPositive f64
  | InvalidQuotaStrategy string

definition validate_weight_range ::
  "string \<Rightarrow> f64 \<Rightarrow> f64 \<Rightarrow> config_warning list \<Rightarrow> f64 \<times> config_warning list" where
  "validate_weight_range name value dflt warnings =
     (if f64_0 \<le> value \<and> value \<le> f64_1 then (value, warnings)
      else (dflt, warnings @ [WeightOutOfRange name value dflt]))"

definition time_slot_validate :: "time_slot \<Rightarrow> time_slot" where
  "time_slot_validate s =
     (let sh = (if start_hour s < 0 \<or> 23 < start_hour s then 0 else start_hour s);
          eh = (if end_hour s < 0 \<or> 23 < end_hour s then 23 else end_hour s);
          (sh, eh) = (if eh < sh then (eh, sh) else (sh, eh))
      in s\<lparr>start_hour := sh, end_hour := eh,
           days_of_week := filter (\<lambda>d. 0 \<le> d \<and> d \<le> 6) (days_of_week s)\<rparr>)"

definition valid_strategies :: "string list" where
  "valid_strategies = [''weighted'', ''time_aware'', ''quota_aware'', ''adaptive'', ''policy_aware'']"

definition valid_quota_strategies :: "string list" where
  "valid_quota_strategies = [''least_used'', ''round_robin'', ''adaptive'']"

definition validate_weights ::
  "weight_config \<Rightarrow> config_warning list \<Rightarrow> weight_config \<times> config_warning list" where
  "validate_weights w ws =
     (let (sr, ws) = validate_weight_range ''success_rate_weight'' (success_rate_weight w) default_success_rate_weight ws;
          (la, ws) = validate_weight_range ''latency_weight'' (latency_weight w) default_latency_weight ws;
          (he, ws) = validate_weight_range ''health_weight'' (health_weight w) default_health_weight ws;
          (lo, ws) = validate_weight_range ''load_weight'' (load_weight w) default_load_weight ws;
          (pr, ws) = validate_weight_range ''priority_weight'' (priority_weight w) default_priority_weight ws
      in (w\<lparr>success_rate_weight := sr, latency_weight := la, health_weight := he,
            load_weight := lo, priority_weight := pr\<rparr>, ws))"

text \<open>\<open>SmartRoutingConfig::validate\<close>; it always returns \<open>Ok\<close> with the warnings.\<close>

definition validate :: "smart_routing_config \<Rightarrow> smart_routing_config \<times> (string + config_warning list)" where
  "validate c =
     (let (strategy, ws) = (if src_strategy c \<in> set valid_strategies then (src_strategy c, [])
            else (''weighted'', [InvalidStrategy (src_strategy c)]));
          (w, ws) = validate_weights (src_weight c) ws;
          ta = src_time_aware c;
          (factor, ws) = (if off_peak_factor ta \<le> f64_0
            then (f64_of (12 / 10), ws @ [OffPeakNotPositive (off_peak_factor ta)])
            else (off_peak_factor ta, ws));
          ta = ta\<lparr>off_peak_factor := factor, peak_hours := map time_slot_validate (peak_hours ta)\<rparr>;
          qa = src_quota_aware c;
          (qs, ws) = (if quota_balance_strategy qa \<in> set valid_quota_strategies
            then (quota_balance_strategy qa, ws)
            else (''adaptive'', ws @ [InvalidQuotaStrategy (quota_balance_strategy qa)]))
      in (normalize (c\<lparr>src_strategy := strategy, src_weight := w, src_time_aware := ta,
            src_quota_aware := qa\<lparr>quota_balance_strategy := qs\<rparr>\<rparr>), Inr ws))"

section \<open>What validation establishes\<close>

definition slot_valid :: "time_slot \<Rightarrow> bool" where
  "slot_valid s \<longleftrightarrow> 0 \<le> start_hour s \<and> start_hour s \<le> end_hour s \<and> end_hour s \<le> 23
     \<and> (\<forall>d \<in> set (days_of_week s). 0 \<le> d \<and> d \<le> 6)"

definition thresholds_valid :: "health_config \<Rightarrow> bool" where
  "thresholds_valid h \<longleftrightarrow> 0 < healthy_threshold h \<and> 0 < unhealthy_threshold h
     \<and> 0 < cooldown_period_seconds h"

definition weights_unit :: "weight_config \<Rightarrow> bool" where
  "weights_unit w \<longleftrightarrow> unit_f64 (success_rate_weight w) \<and> unit_f64 (latency_weight w)
     \<and> unit_f64 (health_weight w) \<and> unit_f64 (load_weight w) \<and> unit_f64 (priority_weight w)"

lemma time_slot_validate_valid: "slot_valid (time_slot_validate s)"
  by (auto simp: slot_valid_def time_slot_validate_def Let_def)

lemma time_slot_validate_id: "slot_valid s \<Longrightarrow> time_slot_validate s = s"
  by (auto simp: slot_valid_def time_slot_validate_def Let_def intro!: filter_True)

lemma validate_weight_range_unit:
  assumes "unit_f64 dflt"
  shows "unit_f64 (fst (validate_weight_range name v dflt ws))"
  using assms by (simp add: validate_weight_range_def unit_f64_def)

lemma default_weights_unit: "weights_unit default_weight_config"
  by (simp add: weights_unit_def default_weight_config_def unit_f64_of default_success_rate_weight_def
      default_latency_weight_def default_health_weight_def default_load_weight_def
      default_priority_weight_def)

lemma validate_weights_unit: "weights_unit (fst (validate_weights w ws))"
  by (auto simp: validate_weights_def weights_unit_def Let_def case_prod_unfold
      default_success_rate_weight_def default_latency_weight_def default_health_weight_def
      default_load_weight_def default_priority_weight_def unit_f64_of
      intro!: validate_weight_range_unit)

lemma normalize_health_valid: "thresholds_valid (normalize_health h)"
  by (simp add: thresholds_valid_def normalize_health_def)

lemma default_thresholds_valid: "thresholds_valid default_health_config"
  by (simp add: thresholds_valid_def default_health_config_def)

text \<open>The total of unit weights is finite, and above each of them.\<close>

definition weights_ok :: "weight_config \<Rightarrow> bool" where
  "weights_ok w \<longleftrightarrow> f64_ok (success_rate_weight w) \<and> f64_ok (latency_weight w)
     \<and> f64_ok (health_weight w) \<and> f64_ok (load_weight w) \<and> f64_ok (priority_weight w)"

lemma unit_le_int1: "unit_f64 x \<Longrightarrow> f64_0 \<le> x \<and> x \<le> f64_int 1"
  by (simp add: unit_f64_def)

lemma total_weight_bounds:
  assumes "weights_unit w"
  shows "f64_0 \<le> total_weight w \<and> total_weight w \<le> f64_int 5"
proof -
  note u = assms[unfolded weights_unit_def]
  have "f64_0 \<le> fadd (success_rate_weight w) (latency_weight w)
      \<and> fadd (success_rate_weight w) (latency_weight w) \<le> f64_int (1 + 1)"
    using u unit_le_int1 by (intro fadd_bounded) auto
  then have "f64_0 \<le> fadd (fadd (success_rate_weight w) (latency_weight w)) (health_weight w)
      \<and> fadd (fadd (success_rate_weight w) (latency_weight w)) (health_weight w) \<le> f64_int (1 + 1 + 1)"
    using u unit_le_int1 by (intro fadd_bounded) auto
  then have "f64_0 \<le> fadd (fadd (fadd (success_rate_weight w) (latency_weight w)) (health_weight w)) (load_weight w)
      \<and> fadd (fadd (fadd (success_rate_weight w) (latency_weight w)) (health_weight w)) (load_weight w)
        \<le> f64_int (1 + 1 + 1 + 1)"
    using u unit_le_int1 by (intro fadd_bounded) auto
  then have "f64_0 \<le> total_weight w \<and> total_weight w \<le> f64_int (1 + 1 + 1 + 1 + 1)"
    using u unit_le_int1 unfolding total_weight_def by (intro fadd_bounded) auto
  then show ?thesis by simp
qed

lemma total_weight_above:
  assumes "weights_unit w" and "weights_ok w"
  shows "success_rate_weight w \<le> total_weight w \<and> latency_weight w \<le> total_weight w
     \<and> health_weight w \<le> total_weight w \<and> load_weight w \<le> total_weight w
     \<and> priority_weight w \<le> total_weight w"
proof -
  note u = assms(1)[unfolded weights_unit_def unit_f64_def] and k = assms(2)[unfolded weights_ok_def]
  let ?a = "success_rate_weight w" and ?b = "latency_weight w" and ?c = "health_weight w"
    and ?d = "load_weight w" and ?e = "priority_weight w"
  have nn: "f64_0 \<le> fadd ?a ?b" "f64_0 \<le> fadd (fadd ?a ?b) ?c" "f64_0 \<le> fadd (fadd (fadd ?a ?b) ?c) ?d"
    using u by (simp_all add: fadd_nonneg)
  have ab: "?a \<le> fadd ?a ?b" "?b \<le> fadd ?a ?b"
    using u k by (auto intro: fadd_ge_left fadd_ge_right dest: f64_le_not_NaN)
  have abc: "fadd ?a ?b \<le> fadd (fadd ?a ?b) ?c" "?c \<le> fadd (fadd ?a ?b) ?c"
    using u k nn by (auto intro: fadd_ge_left fadd_ge_right f64_ok_fadd dest: f64_le_not_NaN)
  have abcd: "fadd (fadd ?a ?b) ?c \<le> fadd (fadd (fadd ?a ?b) ?c) ?d" "?d \<le> fadd (fadd (fadd ?a ?b) ?c) ?d"
    using u k nn by (auto intro: fadd_ge_left fadd_ge_right f64_ok_fadd dest: f64_le_not_NaN)
  have tot: "fadd (fadd (fadd ?a ?b) ?c) ?d \<le> total_weight w" "?e \<le> total_weight w"
    using u k nn unfolding total_weight_def
    by (auto intro: fadd_ge_left fadd_ge_right f64_ok_fadd dest: f64_le_not_NaN)
  from ab abc abcd tot show ?thesis by (metis f64_le_trans)
qed

lemma normalize_weights_unit:
  assumes u: "weights_unit w" and "weights_ok w" and pos: "\<not> feq (total_weight w) f64_0"
  shows "weights_unit (normalize_weights w)"
proof -
  note b = total_weight_bounds[OF u] and a = total_weight_above[OF assms(1,2)]
  have five: "f64_int 5 = FFin 5" using rnd_numeral[of "Num.num.Bit1 (Num.num.Bit0 num.One)"]
    by (simp add: f64_of_def)
  obtain t where t: "total_weight w = FFin t" and "0 \<le> t"
    using b five by (cases "total_weight w") auto
  with pos have p: "f64_0 < total_weight w" and f: "is_finite (total_weight w)"
    by (auto simp: feq_def is_finite_def)
  from u a p f show ?thesis
    by (auto simp: normalize_weights_def Let_def weights_unit_def unit_f64_def
        intro: fdiv_unit[unfolded unit_f64_def, THEN conjunct1] fdiv_unit[unfolded unit_f64_def, THEN conjunct2])
qed

lemma validate_weights_ok:
  assumes "weights_ok w"
  shows "weights_ok (fst (validate_weights w ws))"
  using assms by (auto simp: weights_ok_def validate_weights_def Let_def case_prod_unfold
      validate_weight_range_def default_success_rate_weight_def default_latency_weight_def
      default_health_weight_def default_load_weight_def default_priority_weight_def)

lemma normalize_weights_result:
  assumes "weights_unit (src_weight c)" and "weights_ok (src_weight c)"
  shows "weights_unit (src_weight (normalize c))"
  using assms by (simp add: normalize_def default_weights_unit normalize_weights_unit)

lemma normalize_thresholds:
  "thresholds_valid (src_health (normalize c)) \<or>
   (feq (total_weight (src_weight c)) f64_0 \<and> src_health (normalize c) = src_health c)"
  by (simp add: normalize_def normalize_health_valid)

lemma validate_eq_normalize:
  "\<exists>d. fst (validate c) = normalize d \<and> src_weight d = fst (validate_weights (src_weight c)
       (if src_strategy c \<in> set valid_strategies then [] else [InvalidStrategy (src_strategy c)]))
     \<and> src_strategy d \<in> set valid_strategies \<and> src_health d = src_health c
     \<and> list_all slot_valid (peak_hours (src_time_aware d))
     \<and> quota_balance_strategy (src_quota_aware d) \<in> set valid_quota_strategies"
  unfolding validate_def Let_def case_prod_unfold fst_conv
  by (rule exI, intro conjI, rule refl)
    (simp_all add: time_slot_validate_valid list_all_length valid_strategies_def valid_quota_strategies_def)

lemma normalize_frame:
  "src_strategy (normalize c) = src_strategy c" "src_time_aware (normalize c) = src_time_aware c"
  "quota_balance_strategy (src_quota_aware (normalize c)) = quota_balance_strategy (src_quota_aware c)"
  by (simp_all add: normalize_def normalize_quota_def)

definition zero_weights :: "weight_config \<Rightarrow> bool" where
  "zero_weights w \<longleftrightarrow> success_rate_weight w = f64_0 \<and> latency_weight w = f64_0
     \<and> health_weight w = f64_0 \<and> load_weight w = f64_0 \<and> priority_weight w = f64_0"

lemma zero_weights_validated: "zero_weights w \<Longrightarrow> fst (validate_weights w ws) = w"
  by (simp add: zero_weights_def validate_weights_def validate_weight_range_def)

lemma zero_weights_total: "zero_weights w \<Longrightarrow> total_weight w = f64_0"
  by (simp add: zero_weights_def total_weight_def)

text \<open>Whatever configuration is loaded, validation leaves the five routing weights in the unit
  interval (division by their rounded floating-point total included), a known strategy and quota
  strategy, and every peak slot within hours 0..23 and days 0..6 with start not after end; and
  unless the validated weights add up to zero it leaves positive health thresholds.\<close>

theorem validate_establishes_ranges:
  assumes "weights_ok (src_weight c)"
  shows "weights_unit (src_weight (fst (validate c)))
    \<and> src_strategy (fst (validate c)) \<in> set valid_strategies
    \<and> quota_balance_strategy (src_quota_aware (fst (validate c))) \<in> set valid_quota_strategies
    \<and> list_all slot_valid (peak_hours (src_time_aware (fst (validate c))))
    \<and> (thresholds_valid (src_health (fst (validate c)))
       \<or> feq (total_weight (fst (validate_weights (src_weight c) []))) f64_0)"
proof -
  obtain d where d: "fst (validate c) = normalize d" "src_weight d = fst (validate_weights (src_weight c)
       (if src_strategy c \<in> set valid_strategies then [] else [InvalidStrategy (src_strategy c)]))"
     "src_strategy d \<in> set valid_strategies" "list_all slot_valid (peak_hours (src_time_aware d))"
     "quota_balance_strategy (src_quota_aware d) \<in> set valid_quota_strategies"
    using validate_eq_normalize by blast
  have w: "src_weight d = fst (validate_weights (src_weight c) [])"
    unfolding d(2) by (simp add: validate_weights_def validate_weight_range_def Let_def case_prod_unfold)
  have "weights_unit (src_weight (normalize d))"
    using assms by (intro normalize_weights_result) (simp_all add: w validate_weights_unit validate_weights_ok)
  then show ?thesis
    using normalize_thresholds[of d] d(3-5) unfolding d(1) normalize_frame w by blast
qed

theorem validate_establishes_ranges_witness:
  "weights_unit (src_weight (fst (validate default_smart_routing_config)))"
proof -
  have "weights_ok (src_weight default_smart_routing_config)"
    by (simp add: weights_ok_def default_smart_routing_config_def default_weight_config_def
        default_success_rate_weight_def default_latency_weight_def default_health_weight_def
        default_load_weight_def default_priority_weight_def)
  from validate_establishes_ranges[OF this] show ?thesis by blast
qed

text \<open>When all five weights are zero, normalisation resets the weights and returns early: the
  health thresholds and the cooldown are kept as loaded, however invalid (zero or negative), although
  the code that would reset them follows.\<close>

theorem validate_zero_weights_skips_thresholds:
  assumes "zero_weights (src_weight c)"
  shows "src_weight (fst (validate c)) = default_weight_config
    \<and> src_health (fst (validate c)) = src_health c"
proof -
  obtain d where d: "fst (validate c) = normalize d" "src_weight d = fst (validate_weights (src_weight c)
       (if src_strategy c \<in> set valid_strategies then [] else [InvalidStrategy (src_strategy c)]))"
      "src_health d = src_health c"
    using validate_eq_normalize by blast
  then have "total_weight (src_weight d) = f64_0"
    using assms by (simp add: zero_weights_validated zero_weights_total)
  with d show ?thesis by (simp add: normalize_def feq_def)
qed

theorem validate_zero_weights_skips_thresholds_witness:
  "\<not> thresholds_valid (src_health (fst (validate (default_smart_routing_config
     \<lparr>src_weight := \<lparr>success_rate_weight = f64_0, latency_weight = f64_0, health_weight = f64_0,
        load_weight = f64_0, priority_weight = f64_0, unhealthy_penalty = f64_0,
        degraded_penalty = f64_0, quota_exceeded_penalty = f64_0, unavailable_penalty = f64_0\<rparr>,
      src_health := default_health_config\<lparr>unhealthy_threshold := 0\<rparr>\<rparr>))))"
  by (subst validate_zero_weights_skips_thresholds[THEN conjunct2])
    (simp_all add: zero_weights_def thresholds_valid_def default_health_config_def)

end
