(* ===== verification/Stores.thy ===== *)
theory Stores
  imports Prelude
begin

text \<open>
  The contracts that several components share, as interfaces: a keyed store whose cleanup evicts
  the oldest entries (health records, metrics, session affinities), a store that is swept every
  \<open>interval\<close> recorded operations, and a log that keeps the latest \<open>limit\<close> entries (outcomes, route
  attempts). The components interpret them on their own operations.
\<close>

section \<open>A store that evicts its oldest entries\<close>

locale bounded_store =
  fixes evict :: "nat \<Rightarrow> 'v hmap \<Rightarrow> 'v hmap"
    and stamp :: "'v \<Rightarrow> time"
  assumes evict_ok: "hm_ok m \<Longrightarrow> hm_ok (evict n m)"
    and evict_subset: "set (evict n m) \<subseteq> set m"
    and evict_bound: "hm_ok m \<Longrightarrow> length (evict n m) \<le> n"
    and evict_order: "hm_ok m \<Longrightarrow> (k, v) \<in> set m \<Longrightarrow> (k, v) \<notin> set (evict n m) \<Longrightarrow>
      (k', v') \<in> set (evict n m) \<Longrightarrow> stamp v \<le> stamp v'"
begin

lemma evict_get:
  assumes "hm_ok m" and "hm_get (evict n m) k = Some v"
  shows "hm_get m k = Some v"
  using assms evict_subset[of n m] evict_ok[OF assms(1), of n] by (auto simp: hm_get_in_set)

lemma newest_survives:
  assumes ok: "hm_ok m" and k: "hm_get m k = Some v"
    and newest: "\<And>k' v'. (k', v') \<in> set m \<Longrightarrow> k' \<noteq> k \<Longrightarrow> stamp v' < stamp v"
    and nonempty: "evict n m \<noteq> []"
  shows "hm_get (evict n m) k = Some v"
proof -
  obtain k' v' where kv': "(k', v') \<in> set (evict n m)"
    using nonempty by (metis list.set_intros(1) neq_Nil_conv prod.collapse)
  have "(k, v) \<in> set m" using ok k by (simp add: hm_get_in_set)
  moreover have "(k', v') \<in> set m" using kv' evict_subset by blast
  ultimately have "(k, v) \<in> set (evict n m)"
    using evict_order[OF ok _ _ kv'] newest ok k kv' by (metis hm_get_in_set leD option.inject)
  with evict_ok[OF ok] show ?thesis by (simp add: hm_get_in_set)
qed

end

text \<open>The store that removes no more than needed.\<close>

locale lazy_store = bounded_store +
  assumes evict_exact: "hm_ok m \<Longrightarrow> length (evict n m) = min (length m) n"
    and evict_small: "length m \<le> n \<Longrightarrow> evict n m = m"
begin

lemma newest_kept:
  assumes "hm_ok m" and "hm_get m k = Some v" and "0 < n"
    and "\<And>k' v'. (k', v') \<in> set m \<Longrightarrow> k' \<noteq> k \<Longrightarrow> stamp v' < stamp v"
  shows "hm_get (evict n m) k = Some v"
proof -
  have "m \<noteq> []" using assms(2) by auto
  with assms(3) have "evict n m \<noteq> []" using evict_exact[OF assms(1), of n]
    by (auto simp: min_def split: if_splits)
  with assms show ?thesis by (intro newest_survives)
qed

text \<open>The sweep before an insertion, as the managers perform it.\<close>

lemma sweep_bound:
  assumes "hm_ok m"
  shows "length (if n < length m then evict n m else m) \<le> n"
  using evict_bound[OF assms] by simp

lemma sweep_ok: "hm_ok m \<Longrightarrow> hm_ok (if n < length m then evict n m else m)"
  by (simp add: evict_ok)

end

lemma lazy_store_evict_oldest:
  assumes key: "\<And>k t k' t'. skey (k, t) \<le> skey (k', t') \<Longrightarrow> t \<le> t'"
  shows "lazy_store (evict_oldest stamp skey) stamp"
proof
  fix m n k v k' v'
  assume "hm_ok m" "(k, v) \<in> set m" "(k, v) \<notin> set (evict_oldest stamp skey n m)"
    "(k', v') \<in> set (evict_oldest stamp skey n m)"
  then have "skey (k, stamp v) \<le> skey (k', stamp v')" by (rule evict_oldest_order)
  then show "stamp v \<le> stamp v'" by (rule key)
qed (simp_all add: length_evict_oldest hm_ok_evict evict_oldest_small evict_oldest_subset)

section \<open>A store swept every \<open>interval\<close> operations\<close>

locale swept_store =
  fixes entries :: "'s \<Rightarrow> 'v hmap"
    and ops :: "'s \<Rightarrow> i64"
    and limit :: "'s \<Rightarrow> nat"
    and interval :: "'s \<Rightarrow> i64"
    and step :: "'e \<Rightarrow> 's \<Rightarrow> 's"
  assumes step_ok: "hm_ok (entries s) \<Longrightarrow> hm_ok (entries (step e s))"
    and step_fixed: "limit (step e s) = limit s" "interval (step e s) = interval s"
    and step_ops: "step e s = s \<or> ops (step e s) = wrap_inc_i64 (ops s)"
    and step_size: "hm_ok (entries s) \<Longrightarrow> 0 < limit s \<Longrightarrow> step e s = s \<or> length (entries (step e s)) \<le>
      (if ops s mod interval s = 0 then min (length (entries s)) (limit s) else length (entries s)) + 1"
begin

definition swept_inv :: "'s \<Rightarrow> bool" where
  "swept_inv s \<longleftrightarrow> hm_ok (entries s) \<and> 0 < limit s \<and> 0 < interval s \<and> 0 \<le> ops s
     \<and> (if ops s = 0 then length (entries s) \<le> limit s
        else int (length (entries s)) \<le> int (limit s) + (ops s - 1) mod interval s + 1)"

lemma step_swept_inv:
  assumes inv: "swept_inv s" and small: "ops s < i64_max"
  shows "swept_inv (step e s)"
proof (cases "step e s = s")
  case False
  have ok: "hm_ok (entries s)" and l: "0 < limit s" and i: "0 < interval s" and o: "0 \<le> ops s"
    using inv by (simp_all add: swept_inv_def)
  have ops': "ops (step e s) = ops s + 1"
    using False step_ops[of e s] small by (simp add: wrap_inc_i64_small)
  have size: "length (entries (step e s)) \<le>
      (if ops s mod interval s = 0 then min (length (entries s)) (limit s) else length (entries s)) + 1"
    using False step_size[OF ok l, of e] by blast
  have "int (length (entries (step e s))) \<le> int (limit s) + ops s mod interval s + 1"
  proof (cases "ops s mod interval s = 0")
    case False
    then have nz: "ops s \<noteq> 0" by auto
    have "(ops s - 1) mod interval s + 1 = ops s mod interval s"
      using False i pos_mod_bound[OF i, of "ops s"] pos_mod_sign[OF i, of "ops s"]
      by (subst mod_diff_eq [symmetric]) (cases "interval s = 1"; simp add: mod_pos_pos_trivial)
    with inv nz False size show ?thesis by (simp add: swept_inv_def)
  qed (use size in simp)
  with ok l i o ops' show ?thesis
    by (simp add: swept_inv_def step_ok step_fixed)
qed (use inv in simp)

lemma ops_run_le: "0 \<le> ops s \<Longrightarrow> ops s + int (length es) \<le> i64_max \<Longrightarrow>
    ops (fold step es s) \<le> ops s + int (length es) \<and> 0 \<le> ops (fold step es s)"
proof (induction es arbitrary: s)
  case (Cons e es)
  then have "ops (step e s) = ops s \<or> ops (step e s) = ops s + 1"
    using step_ops[of e s] wrap_inc_i64_small[of "ops s"] by auto
  with Cons.IH[of "step e s"] Cons.prems show ?case by auto
qed simp

lemma run_swept_inv: "swept_inv s \<Longrightarrow> ops s + int (length es) \<le> i64_max \<Longrightarrow> swept_inv (fold step es s)"
proof (induction es arbitrary: s)
  case (Cons e es)
  then have inv: "swept_inv (step e s)" by (intro step_swept_inv) auto
  have "ops (step e s) \<le> ops s + 1"
    using step_ops[of e s] wrap_inc_i64_small[of "ops s"] Cons.prems(2) by auto
  with Cons.IH[OF inv] Cons.prems show ?case by simp
qed simp

lemma run_fixed: "limit (fold step es s) = limit s \<and> interval (fold step es s) = interval s"
  by (induction es arbitrary: s) (simp_all add: step_fixed)

lemma swept_bound:
  assumes "swept_inv s" and "ops s + int (length es) \<le> i64_max"
  shows "int (length (entries (fold step es s))) \<le> int (limit s) + interval s"
proof -
  have i: "0 < interval s" using assms(1) by (simp add: swept_inv_def)
  let ?t = "fold step es s"
  have "int (length (entries ?t)) \<le> int (limit s) + (ops ?t - 1) mod interval s + 1
      \<or> length (entries ?t) \<le> limit s"
    using run_swept_inv[OF assms] run_fixed[of es s] by (auto simp: swept_inv_def split: if_splits)
  with pos_mod_bound[OF i, of "ops ?t - 1"] i show ?thesis by linarith
qed

end

section \<open>A log of the latest entries\<close>

locale bounded_log =
  fixes items :: "'s \<Rightarrow> 'a list"
    and limit :: "'s \<Rightarrow> nat"
    and push :: "'a \<Rightarrow> 's \<Rightarrow> 's"
  assumes push_items: "0 < limit s \<Longrightarrow>
      items (push a s) = drop (length (items s) + 1 - limit s) (items s @ [a])"
    and push_limit: "limit (push a s) = limit s"
begin

lemma push_bound: "0 < limit s \<Longrightarrow> length (items (push a s)) \<le> limit s"
  by (simp add: push_items)

lemma run_limit: "limit (fold push as s) = limit s"
  by (induction as arbitrary: s) (simp_all add: push_limit)

lemma run_items:
  assumes "length (items s) \<le> limit s" and "0 < limit s"
  shows "items (fold push as s) = drop (length (items s) + length as - limit s) (items s @ as)"
  using assms
proof (induction as arbitrary: s)
  case (Cons a as)
  let ?d = "length (items s) + 1 - limit s"
  have "items (fold push as (push a s))
      = drop (length (items (push a s)) + length as - limit s) (items (push a s) @ as)"
    using Cons.IH[of "push a s"] push_bound[of s a] Cons.prems by (simp add: push_limit)
  moreover have "items (push a s) @ as = drop ?d (items s @ a # as)"
    using Cons.prems by (cases "limit s") (simp_all add: push_items)
  moreover have "length (items (push a s)) + length as - limit s + ?d
      = length (items s) + length (a # as) - limit s"
    using Cons.prems by (simp add: push_items)
  then have "drop (length (items (push a s)) + length as - limit s) (drop ?d (items s @ a # as))
      = drop (length (items s) + length (a # as) - limit s) (items s @ a # as)"
    by (simp only: drop_drop)
  ultimately show ?case by simp
qed simp

lemma run_bound:
  "length (items s) \<le> limit s \<Longrightarrow> 0 < limit s \<Longrightarrow> length (items (fold push as s)) \<le> limit s"
  by (simp add: run_items)

text \<open>The latest entries, in order, are the ones kept; nothing is lost while there is room.\<close>

lemma run_suffix:
  "length (items s) \<le> limit s \<Longrightarrow> 0 < limit s \<Longrightarrow> suffix (items (fold push as s)) (items s @ as)"
  by (simp only: run_items suffix_drop)

lemma run_all:
  "length (items s) + length as \<le> limit s \<Longrightarrow> 0 < limit s \<Longrightarrow> items (fold push as s) = items s @ as"
  by (simp add: run_items)

end

end
