(* ===== verification/Health.thy ===== *)
theory Health
  imports Stores RoutingConfig
begin

text \<open>
  The health manager (src/routing/health): one record per credential, updated from the outcome of
  every request, with status-code rules, consecutive counters, a cooldown, and a sweep that evicts
  the least recently checked records. The state is the shared map with the shared operation
  counter; an operation is one call, made while it holds the write lock.
\<close>

section \<open>State\<close>

datatype health_status = Healthy | Degraded | Unhealthy

record auth_health =
  ah_status :: health_status
  ah_consecutive_successes :: i32
  ah_consecutive_failures :: i32
  last_status_change :: time
  last_check_time :: time
  unavailable_until :: "time option"
  error_counts :: "(i32 \<times> i32) list"

record health_manager =
  hm_health :: "auth_health hmap"
  hm_config :: health_config
  hm_max_entries :: nat
  hm_cleanup_interval :: i64
  hm_op_count :: i64

definition health_new :: "health_config \<Rightarrow> health_manager" where
  "health_new config = \<lparr>hm_health = [], hm_config = config, hm_max_entries = 10000,
     hm_cleanup_interval = 100, hm_op_count = 0\<rparr>"

definition health_with_limit :: "health_config \<Rightarrow> nat \<Rightarrow> health_manager" where
  "health_with_limit config max_entries = \<lparr>hm_health = [], hm_config = config,
     hm_max_entries = (if 0 < max_entries then max_entries else 10000),
     hm_cleanup_interval = 100, hm_op_count = 0\<rparr>"

definition fresh_health :: "time \<Rightarrow> time \<Rightarrow> auth_health" where
  "fresh_health change check = \<lparr>ah_status = Healthy, ah_consecutive_successes = 0,
     ah_consecutive_failures = 0, last_status_change = change, last_check_time = check,
     unavailable_until = None, error_counts = []\<rparr>"

section \<open>Operations\<close>

definition get_status :: "health_manager \<Rightarrow> string \<Rightarrow> health_status" where
  "get_status s auth_id = (if auth_id = [] then Unhealthy
     else case hm_get (hm_health s) auth_id of None \<Rightarrow> Healthy | Some h \<Rightarrow> ah_status h)"

definition get_health :: "health_manager \<Rightarrow> string \<Rightarrow> auth_health option" where
  "get_health s auth_id = (if auth_id = [] then None else hm_get (hm_health s) auth_id)"

definition calculate_health_status :: "health_config \<Rightarrow> auth_health \<Rightarrow> i32 \<Rightarrow> health_status" where
  "calculate_health_status config health status_code =
     (if status_code \<in> set (sc_unhealthy (status_codes config)) then Unhealthy
      else if status_code \<in> set (sc_degraded (status_codes config)) then Degraded
      else if unhealthy_threshold config \<le> ah_consecutive_failures health then Unhealthy
      else if healthy_threshold config \<le> ah_consecutive_successes health then Healthy
      else ah_status health)"

definition health_cleanup :: "nat \<Rightarrow> auth_health hmap \<Rightarrow> auth_health hmap" where
  "health_cleanup max_entries m = (if max_entries = 0 then m
     else evict_oldest last_check_time (\<lambda>(k, t). (t, k)) max_entries m)"

text \<open>The steps of \<open>update_from_result\<close> on one record, in the order the code has them.\<close>

definition count_error :: "i32 \<Rightarrow> auth_health \<Rightarrow> auth_health" where
  "count_error status_code h =
     (if 0 < status_code then
        h\<lparr>error_counts := hm_insert status_code
           (sat_inc_i32 (case hm_get (error_counts h) status_code of None \<Rightarrow> 0 | Some c \<Rightarrow> c)) (error_counts h)\<rparr>
      else h)"

definition count_outcome :: "bool \<Rightarrow> auth_health \<Rightarrow> auth_health" where
  "count_outcome success h =
     (if success then h\<lparr>ah_consecutive_successes := sat_inc_i32 (ah_consecutive_successes h),
                        ah_consecutive_failures := 0\<rparr>
      else h\<lparr>ah_consecutive_failures := sat_inc_i32 (ah_consecutive_failures h),
             ah_consecutive_successes := 0\<rparr>)"

definition set_status :: "time \<Rightarrow> health_status \<Rightarrow> auth_health \<Rightarrow> auth_health" where
  "set_status now new_status h =
     (if new_status \<noteq> ah_status h then h\<lparr>ah_status := new_status, last_status_change := now\<rparr> else h)"

definition max_cooldown_seconds :: int where "max_cooldown_seconds = 3600"

definition set_cooldown :: "health_config \<Rightarrow> time \<Rightarrow> auth_health \<Rightarrow> auth_health" where
  "set_cooldown config now h =
     (if ah_status h = Unhealthy \<and> unhealthy_threshold config \<le> ah_consecutive_failures h then
        h\<lparr>unavailable_until := Some (now + seconds (max 0 (min max_cooldown_seconds (cooldown_period_seconds config))))\<rparr>
      else h)"

definition update_entry :: "health_config \<Rightarrow> time \<Rightarrow> bool \<Rightarrow> i32 \<Rightarrow> auth_health \<Rightarrow> auth_health" where
  "update_entry config now success status_code h =
     (let h = count_outcome success (count_error status_code (h\<lparr>last_check_time := now\<rparr>));
          h = set_status now (calculate_health_status config h status_code) h
      in set_cooldown config now h)"

definition update_from_result ::
  "time \<Rightarrow> string \<Rightarrow> bool \<Rightarrow> i32 \<Rightarrow> health_manager \<Rightarrow> health_manager" where
  "update_from_result now auth_id success status_code s =
     (if auth_id = [] then s
      else
        let op_count = hm_op_count s;
            m = (if op_count mod hm_cleanup_interval s = 0 then
                   if hm_max_entries s < length (hm_health s)
                   then health_cleanup (hm_max_entries s) (hm_health s) else hm_health s
                 else hm_health s);
            entry = (case hm_get m auth_id of Some h \<Rightarrow> h | None \<Rightarrow> fresh_health now now)
        in s\<lparr>hm_op_count := wrap_inc_i64 op_count,
             hm_health := hm_insert auth_id (update_entry (hm_config s) now success status_code entry) m\<rparr>)"

definition is_healthy :: "health_manager \<Rightarrow> string \<Rightarrow> bool" where
  "is_healthy s auth_id = (get_status s auth_id = Healthy \<or> get_status s auth_id = Degraded)"

definition is_available :: "time \<Rightarrow> health_manager \<Rightarrow> string \<Rightarrow> bool" where
  "is_available now s auth_id =
     (if auth_id = [] then False
      else case hm_get (hm_health s) auth_id of
        None \<Rightarrow> True
      | Some h \<Rightarrow> (case unavailable_until h of
            Some t \<Rightarrow> if now < t then False else ah_status h \<noteq> Unhealthy
          | None \<Rightarrow> ah_status h \<noteq> Unhealthy))"

text \<open>\<open>mark_unavailable\<close> reads the clock for a new record, for the deadline and for the change.
  \<open>Duration::num_seconds\<close> truncates towards zero.\<close>

definition num_seconds :: "int \<Rightarrow> int" where
  "num_seconds d = sgn d * (\<bar>d\<bar> div nanos_per_second)"

definition mark_unavailable ::
  "time \<Rightarrow> time \<Rightarrow> time \<Rightarrow> string \<Rightarrow> int \<Rightarrow> health_manager \<Rightarrow> health_manager" where
  "mark_unavailable t_new t_until t_change auth_id duration s =
     (if auth_id = [] \<or> num_seconds duration \<le> 0 then s
      else
        let entry = (case hm_get (hm_health s) auth_id of Some h \<Rightarrow> h | None \<Rightarrow> fresh_health t_new t_new)
        in s\<lparr>hm_health := hm_insert auth_id
              (entry\<lparr>unavailable_until := Some (t_until + duration), ah_status := Unhealthy,
                     last_status_change := t_change\<rparr>) (hm_health s)\<rparr>)"

definition health_reset :: "time \<Rightarrow> time \<Rightarrow> string \<Rightarrow> health_manager \<Rightarrow> health_manager" where
  "health_reset t_change t_check auth_id s =
     (if auth_id = [] then s
      else s\<lparr>hm_health := hm_insert auth_id (fresh_health t_change t_check) (hm_health s)\<rparr>)"

fun get_healthy_count :: "health_manager \<Rightarrow> string list \<Rightarrow> i32 \<Rightarrow> i32" where
  "get_healthy_count s [] n = n"
| "get_healthy_count s (i # ids) n =
     get_healthy_count s ids (if is_healthy s i then sat_inc_i32 n else n)"

text \<open>Every availability check of the loop reads the clock: one reading per identifier.\<close>

fun get_available_count :: "health_manager \<Rightarrow> (time \<times> string) list \<Rightarrow> i32 \<Rightarrow> i32" where
  "get_available_count s [] n = n"
| "get_available_count s ((now, i) # ids) n =
     get_available_count s ids (if is_available now s i then sat_inc_i32 n else n)"

definition health_set_config :: "health_config \<Rightarrow> health_manager \<Rightarrow> health_manager" where
  "health_set_config config s = s\<lparr>hm_config := config\<rparr>"

section \<open>The state machine of one credential\<close>

text \<open>
  The abstract machine: status and the two consecutive counters. One rule per branch of
  \<open>calculate_health_status\<close>, with the branch's guard; the counters are bumped first.
\<close>

type_synonym health_view = "health_status \<times> i32 \<times> i32"

definition bump :: "bool \<Rightarrow> i32 \<Rightarrow> i32 \<Rightarrow> i32 \<times> i32" where
  "bump success ok ko = (if success then (sat_inc_i32 ok, 0) else (0, sat_inc_i32 ko))"

inductive health_trans :: "health_config \<Rightarrow> health_view \<Rightarrow> bool \<times> i32 \<Rightarrow> health_view \<Rightarrow> bool"
  for c :: health_config where
  unhealthy_code: "bump success ok ko = (ok', ko') \<Longrightarrow> code \<in> set (sc_unhealthy (status_codes c)) \<Longrightarrow>
    health_trans c (st, ok, ko) (success, code) (Unhealthy, ok', ko')"
| degraded_code: "bump success ok ko = (ok', ko') \<Longrightarrow> code \<notin> set (sc_unhealthy (status_codes c)) \<Longrightarrow>
    code \<in> set (sc_degraded (status_codes c)) \<Longrightarrow>
    health_trans c (st, ok, ko) (success, code) (Degraded, ok', ko')"
| too_many_failures: "bump success ok ko = (ok', ko') \<Longrightarrow> code \<notin> set (sc_unhealthy (status_codes c)) \<Longrightarrow>
    code \<notin> set (sc_degraded (status_codes c)) \<Longrightarrow> unhealthy_threshold c \<le> ko' \<Longrightarrow>
    health_trans c (st, ok, ko) (success, code) (Unhealthy, ok', ko')"
| recovered: "bump success ok ko = (ok', ko') \<Longrightarrow> code \<notin> set (sc_unhealthy (status_codes c)) \<Longrightarrow>
    code \<notin> set (sc_degraded (status_codes c)) \<Longrightarrow> ko' < unhealthy_threshold c \<Longrightarrow>
    healthy_threshold c \<le> ok' \<Longrightarrow> health_trans c (st, ok, ko) (success, code) (Healthy, ok', ko')"
| unchanged: "bump success ok ko = (ok', ko') \<Longrightarrow> code \<notin> set (sc_unhealthy (status_codes c)) \<Longrightarrow>
    code \<notin> set (sc_degraded (status_codes c)) \<Longrightarrow> ko' < unhealthy_threshold c \<Longrightarrow>
    ok' < healthy_threshold c \<Longrightarrow> health_trans c (st, ok, ko) (success, code) (st, ok', ko')"

inductive_cases health_transE: "health_trans c v e v'"
inductive_simps health_trans_simps: "health_trans c (st, ok, ko) (success, code) v'"

definition view_of :: "auth_health \<Rightarrow> health_view" where
  "view_of h = (ah_status h, ah_consecutive_successes h, ah_consecutive_failures h)"

definition health_view :: "health_manager \<Rightarrow> string \<Rightarrow> health_view" where
  "health_view s auth_id = (case hm_get (hm_health s) auth_id of
     None \<Rightarrow> (Healthy, 0, 0) | Some h \<Rightarrow> view_of h)"

lemma health_trans_deterministic: "health_trans c v e v' \<Longrightarrow> health_trans c v e v'' \<Longrightarrow> v' = v''"
  by (elim health_transE) auto

lemma health_trans_total: "\<exists>v'. health_trans c v e v'"
proof -
  obtain st ok ko where v: "v = (st, ok, ko)" by (cases v)
  obtain success code where e: "e = (success, code)" by (cases e)
  obtain ok' ko' where b: "bump success ok ko = (ok', ko')" by (cases "bump success ok ko")
  show ?thesis unfolding v e health_trans_simps using b by (metis not_le)
qed

lemmas entry_defs = update_entry_def count_error_def count_outcome_def set_status_def set_cooldown_def
  Let_def

lemma update_entry_counters:
  "(ah_consecutive_successes (update_entry c now success code h), ah_consecutive_failures (update_entry c now success code h))
     = bump success (ah_consecutive_successes h) (ah_consecutive_failures h)"
  by (simp add: entry_defs bump_def)

lemma update_entry_status:
  "ah_status (update_entry c now success code h) =
     calculate_health_status c (count_outcome success (count_error code (h\<lparr>last_check_time := now\<rparr>))) code"
  by (simp add: update_entry_def set_status_def set_cooldown_def Let_def)

lemma update_entry_trans: "health_trans c (view_of h) (success, code) (view_of (update_entry c now success code h))"
proof -
  obtain ok' ko' where b: "bump success (ah_consecutive_successes h) (ah_consecutive_failures h) = (ok', ko')"
    by (cases "bump success (ah_consecutive_successes h) (ah_consecutive_failures h)")
  then have counters: "ah_consecutive_successes (update_entry c now success code h) = ok'"
      "ah_consecutive_failures (update_entry c now success code h) = ko'"
    using update_entry_counters[of c now success code h] by simp_all
  have "ah_status (update_entry c now success code h) =
     (if code \<in> set (sc_unhealthy (status_codes c)) then Unhealthy
      else if code \<in> set (sc_degraded (status_codes c)) then Degraded
      else if unhealthy_threshold c \<le> ko' then Unhealthy
      else if healthy_threshold c \<le> ok' then Healthy else ah_status h)"
    using b unfolding update_entry_status calculate_health_status_def
    by (auto simp: count_outcome_def count_error_def bump_def split: if_splits)
  with b show ?thesis
    unfolding view_of_def health_trans_simps counters by (auto simp: not_le)
qed

section \<open>The manager refines one machine per credential\<close>

definition swept :: "health_manager \<Rightarrow> auth_health hmap" where
  "swept s = (if hm_op_count s mod hm_cleanup_interval s = 0 then
      if hm_max_entries s < length (hm_health s)
      then health_cleanup (hm_max_entries s) (hm_health s) else hm_health s
    else hm_health s)"

lemma update_from_result_eq:
  "auth_id \<noteq> [] \<Longrightarrow> update_from_result now auth_id success code s =
     s\<lparr>hm_op_count := wrap_inc_i64 (hm_op_count s),
       hm_health := hm_insert auth_id (update_entry (hm_config s) now success code
         (case hm_get (swept s) auth_id of Some h \<Rightarrow> h | None \<Rightarrow> fresh_health now now)) (swept s)\<rparr>"
  by (simp add: update_from_result_def swept_def Let_def)

lemma get_after_update:
  "auth_id \<noteq> [] \<Longrightarrow> hm_get (hm_health (update_from_result now auth_id success code s)) k =
     (if k = auth_id then Some (update_entry (hm_config s) now success code
         (case hm_get (swept s) auth_id of Some h \<Rightarrow> h | None \<Rightarrow> fresh_health now now))
      else hm_get (swept s) k)"
  by (simp add: update_from_result_eq store_simps)

lemma view_fresh: "view_of (fresh_health t t') = (Healthy, 0, 0)"
  by (simp add: view_of_def fresh_health_def)

interpretation hstore: lazy_store "evict_oldest last_check_time (\<lambda>(k, t). (t, k))" last_check_time
  by (rule lazy_store_evict_oldest) auto

lemma health_cleanup_eq:
  "0 < n \<Longrightarrow> health_cleanup n m = evict_oldest last_check_time (\<lambda>(k, t). (t, k)) n m"
  by (simp add: health_cleanup_def)

lemma length_health_cleanup: "hm_ok m \<Longrightarrow> 0 < n \<Longrightarrow> length (health_cleanup n m) = min (length m) n"
  by (simp add: health_cleanup_eq hstore.evict_exact)

lemma swept_ok: "hm_ok (hm_health s) \<Longrightarrow> hm_ok (swept s)"
  by (simp add: swept_def health_cleanup_def hstore.evict_ok)

lemma swept_get: "hm_ok (hm_health s) \<Longrightarrow> hm_get (swept s) k = Some h \<Longrightarrow> hm_get (hm_health s) k = Some h"
  by (auto simp: swept_def health_cleanup_def dest: hstore.evict_get split: if_splits)

lemma swept_no_sweep: "length (hm_health s) \<le> hm_max_entries s \<Longrightarrow> swept s = hm_health s"
  by (simp add: swept_def)

lemma swept_size:
  assumes "hm_ok (hm_health s)" and "0 < hm_max_entries s"
  shows "length (swept s) \<le> (if hm_op_count s mod hm_cleanup_interval s = 0
    then min (length (hm_health s)) (hm_max_entries s) else length (hm_health s))"
  using assms by (simp add: swept_def length_health_cleanup)

type_synonym health_call = "time \<times> string \<times> bool \<times> i32"

fun health_call :: "health_call \<Rightarrow> health_manager \<Rightarrow> health_manager" where
  "health_call (now, auth_id, success, code) s = update_from_result now auth_id success code s"

lemma health_call_fixed:
  "hm_max_entries (health_call e s) = hm_max_entries s"
  "hm_cleanup_interval (health_call e s) = hm_cleanup_interval s"
  "hm_config (health_call e s) = hm_config s"
  by (cases e; simp add: update_from_result_def Let_def)+

lemma health_call_ok: "hm_ok (hm_health s) \<Longrightarrow> hm_ok (hm_health (health_call e s))"
proof (cases e)
  case (fields now auth_id success code)
  assume "hm_ok (hm_health s)"
  with fields show ?thesis
    by (cases "auth_id = []") (simp_all add: update_from_result_eq swept_ok update_from_result_def[where auth_id = "[]"])
qed

interpretation health_sweep: swept_store hm_health hm_op_count hm_max_entries hm_cleanup_interval health_call
proof
  fix e :: health_call and s
  obtain now auth_id success code where e: "e = (now, auth_id, success, code)" by (cases e)
  show "hm_ok (hm_health s) \<Longrightarrow> hm_ok (hm_health (health_call e s))" by (rule health_call_ok)
  show "hm_max_entries (health_call e s) = hm_max_entries s"
    "hm_cleanup_interval (health_call e s) = hm_cleanup_interval s" by (rule health_call_fixed)+
  show "health_call e s = s \<or> hm_op_count (health_call e s) = wrap_inc_i64 (hm_op_count s)"
    by (simp add: e update_from_result_def Let_def)
  show "health_call e s = s \<or> length (hm_health (health_call e s)) \<le>
      (if hm_op_count s mod hm_cleanup_interval s = 0
       then min (length (hm_health s)) (hm_max_entries s) else length (hm_health s)) + 1"
    if "hm_ok (hm_health s)" and "0 < hm_max_entries s"
  proof (cases "auth_id = []")
    case False
    then have "length (hm_health (health_call e s)) \<le> Suc (length (swept s))"
      by (simp add: e update_from_result_eq length_hm_insert_le)
    with swept_size[OF that] show ?thesis by simp
  qed (simp add: e update_from_result_def)
qed

section \<open>Runs of calls for one credential\<close>

text \<open>With room in the map no call sweeps, and the record of a credential is the fold of its updates.\<close>

lemma run_one_credential:
  assumes "auth_id \<noteq> []" and "length (hm_health s) < hm_max_entries s"
    and "hm_get (hm_health s) auth_id = Some h"
  shows "hm_get (hm_health (fold (\<lambda>(now, success, code). update_from_result now auth_id success code) es s)) auth_id
      = Some (fold (\<lambda>(now, success, code). update_entry (hm_config s) now success code) es h)"
  using assms(2,3)
proof (induction es arbitrary: s h)
  case (Cons e es)
  obtain now success code where e: "e = (now, success, code)" by (cases e)
  let ?s = "update_from_result now auth_id success code s"
  have "swept s = hm_health s" using Cons.prems(1) by (simp add: swept_no_sweep)
  with Cons.prems have "hm_get (hm_health ?s) auth_id = Some (update_entry (hm_config s) now success code h)"
    and "length (hm_health ?s) < hm_max_entries ?s" and "hm_config ?s = hm_config s"
    using assms(1) map_of_SomeD[OF Cons.prems(2)]
    by (force simp: update_from_result_eq get_after_update store_simps)+
  with Cons.IH[of ?s] show ?case by (simp add: e)
qed simp




lemma degraded_run:
  assumes "es \<noteq> []" and "list_all (\<lambda>(now, success, code). code \<in> set (sc_degraded (status_codes c))
      \<and> code \<notin> set (sc_unhealthy (status_codes c))) es"
  shows "ah_status (fold (\<lambda>(now, success, code). update_entry c now success code) es h) = Degraded"
proof -
  obtain es' now success code where es: "es = es' @ [(now, success, code)]"
    using assms(1) by (metis rev_exhaust prod_cases3)
  show ?thesis
    using assms(2) update_entry_trans[of c "fold (\<lambda>(now, success, code). update_entry c now success code) es' h" success code now]
    by (auto simp: es view_of_def health_trans_simps)
qed

section \<open>Properties\<close>

text \<open>C25. Each call of \<open>update_from_result\<close> moves the machine of the credential it names by exactly
  one transition of the abstract health state machine (status-code lists first, then the failure
  threshold, then recovery, else unchanged) and leaves the machine of every other credential where
  it was, as long as the map is not over its limit.\<close>

theorem health_update_refines:
  assumes "auth_id \<noteq> []" and "length (hm_health s) \<le> hm_max_entries s"
  shows "health_trans (hm_config s) (health_view s auth_id) (success, code)
      (health_view (update_from_result now auth_id success code s) auth_id)
    \<and> (\<forall>k. k = auth_id \<or> health_view (update_from_result now auth_id success code s) k = health_view s k)"
proof -
  let ?h = "case hm_get (hm_health s) auth_id of Some h \<Rightarrow> h | None \<Rightarrow> fresh_health now now"
  have "view_of ?h = health_view s auth_id"
    by (simp add: health_view_def view_fresh split: option.split)
  with update_entry_trans[of "hm_config s" ?h success code now] assms show ?thesis
    by (simp add: health_view_def get_after_update swept_no_sweep)
qed

theorem health_update_refines_witness:
  "health_trans default_health_config (Healthy, 0, 0) (False, 429)
     (health_view (update_from_result 7 ''cred-1'' False 429 (health_new default_health_config)) ''cred-1'')"
  using health_update_refines[of "''cred-1''" "health_new default_health_config" False 429 7]
  by (simp add: health_new_def health_view_def)

text \<open>The cooldown: when an update leaves a credential unhealthy with its failure count at the
  threshold, the credential gets a deadline of the configured period clamped to 0..3600 seconds,
  and is not available until a later update changes its status.\<close>

theorem health_cooldown:
  assumes "auth_id \<noteq> []"
    and "get_health (update_from_result now auth_id success code s) auth_id = Some h"
    and "ah_status h = Unhealthy" and "unhealthy_threshold (hm_config s) \<le> ah_consecutive_failures h"
  shows "unavailable_until h = Some (now + seconds (max 0 (min 3600 (cooldown_period_seconds (hm_config s)))))
    \<and> (\<forall>t. \<not> is_available t (update_from_result now auth_id success code s) auth_id)
    \<and> (\<exists>u. unavailable_until h = Some u \<and> now \<le> u \<and> u \<le> now + seconds 3600)"
proof (intro conjI)
  have "h = update_entry (hm_config s) now success code
      (case hm_get (swept s) auth_id of Some h \<Rightarrow> h | None \<Rightarrow> fresh_health now now)"
    using assms(1,2) by (simp add: get_health_def get_after_update)
  then obtain h0 where h: "h = set_cooldown (hm_config s) now h0" by (auto simp: update_entry_def Let_def)
  then have until: "unavailable_until h
      = Some (now + seconds (max 0 (min 3600 (cooldown_period_seconds (hm_config s)))))"
    using assms(3,4) by (auto simp: set_cooldown_def max_cooldown_seconds_def split: if_splits)
  then show "unavailable_until h
      = Some (now + seconds (max 0 (min 3600 (cooldown_period_seconds (hm_config s)))))" .
  show "\<forall>t. \<not> is_available t (update_from_result now auth_id success code s) auth_id"
    using assms(1-3) by (auto simp: is_available_def get_health_def split: option.splits)
  show "\<exists>u. unavailable_until h = Some u \<and> now \<le> u \<and> u \<le> now + seconds 3600"
    using until by (auto simp: seconds_def nanos_per_second_def)
qed

theorem health_cooldown_witness:
  "unavailable_until (the (get_health (update_from_result 7 ''c'' False 500
      (health_new (default_health_config\<lparr>unhealthy_threshold := 1\<rparr>))) ''c'')) = Some 60000000007"
  by (subst health_cooldown[where auth_id = "''c''" and success = False and code = 500 and now = 7
        and s = "health_new (default_health_config\<lparr>unhealthy_threshold := 1\<rparr>)", THEN conjunct1])
    (auto simp: get_health_def health_new_def default_health_config_def default_status_code_health_config_def
      get_after_update swept_def entry_defs calculate_health_status_def fresh_health_def sat_inc_i32_def
      i32_max_def seconds_def nanos_per_second_def)

text \<open>An unhealthy credential is never available, at any time: the end of its cooldown does not
  make it available again, only a later status change does. In particular \<open>mark_unavailable\<close> for a
  given duration takes the credential out for good unless some later outcome is recorded for it.\<close>

theorem mark_unavailable_outlasts_deadline:
  assumes "num_seconds duration > 0"
  shows "\<not> is_available t (mark_unavailable t_new t_until t_change auth_id duration s) auth_id"
proof (cases "auth_id = []")
  case False
  with assms show ?thesis by (simp add: is_available_def mark_unavailable_def store_simps Let_def)
qed (simp add: is_available_def)

theorem mark_unavailable_outlasts_deadline_witness:
  "\<not> is_available 1000000000000 (mark_unavailable 0 0 0 ''c'' 2000000000 (health_new default_health_config)) ''c''"
  by (rule mark_unavailable_outlasts_deadline) (simp add: num_seconds_def nanos_per_second_def)



text \<open>Responses whose code is on the degraded list (429 and 503 by default) decide the status
  alone: after any non-empty run of them a known credential is degraded, however long the run of
  failures and whatever its status before, unhealthy included.\<close>

theorem health_degraded_codes_never_unhealthy:
  assumes "auth_id \<noteq> []" and "length (hm_health s) < hm_max_entries s"
    and "hm_get (hm_health s) auth_id = Some h" and "es \<noteq> []"
    and "list_all (\<lambda>(now, success, code). code \<in> set (sc_degraded (status_codes (hm_config s)))
      \<and> code \<notin> set (sc_unhealthy (status_codes (hm_config s)))) es"
  shows "get_status (fold (\<lambda>(now, success, code). update_from_result now auth_id success code) es s) auth_id = Degraded"
  using run_one_credential[OF assms(1-3), of es] degraded_run[OF assms(4,5), of h] assms(1)
  by (simp add: get_status_def)

theorem health_degraded_codes_never_unhealthy_witness:
  "get_status (fold (\<lambda>(now, success, code). update_from_result now ''c'' success code)
      [(1, False, 429), (2, False, 429), (3, False, 429), (4, False, 429), (5, False, 429), (6, False, 429)]
     (update_from_result 0 ''c'' False 500 (health_new default_health_config))) ''c'' = Degraded"
  by (rule health_degraded_codes_never_unhealthy[where h = "update_entry default_health_config 0 False 500 (fresh_health 0 0)"])
    (auto simp: update_from_result_eq health_new_def swept_def store_simps entry_defs
      fresh_health_def default_health_config_def default_status_code_health_config_def)

text \<open>Memory bound: whatever outcomes are recorded for whatever credentials, the number of health
  records never exceeds the limit by more than the cleanup interval of 100 operations.\<close>

theorem health_records_bounded:
  assumes "0 < n" and "int (length es) \<le> i64_max"
  shows "length (hm_health (fold health_call es (health_with_limit config n))) \<le> n + 100"
proof -
  have "health_sweep.swept_inv (health_with_limit config n)"
    using assms(1) by (simp add: health_sweep.swept_inv_def health_with_limit_def)
  from health_sweep.swept_bound[OF this, of es] assms show ?thesis
    by (simp add: health_with_limit_def)
qed

theorem health_records_bounded_witness:
  "length (hm_health (fold health_call [(0, ''a'', False, 500), (1, ''b'', True, 200)]
     (health_with_limit default_health_config 1))) \<le> 1 + 100"
  by (rule health_records_bounded) (simp_all add: i64_max_def)

end
