(* ===== verification/Session.thy ===== *)
theory Session
  imports Stores
begin

text \<open>
  Session affinity (src/routing/session.rs): which provider a conversation used last. The state is
  the shared map of affinity records; every insertion that leaves the map over its limit drops the
  expired sessions and then the oldest ones. Chrono's panic on a time-to-live beyond its range is
  not modelled.
\<close>

section \<open>State and operations\<close>

record session_affinity =
  session_id :: string
  preferred_provider :: string
  last_access :: time
  request_count :: u64

record session_manager =
  sessions :: "session_affinity hmap"
  max_sessions :: nat
  session_ttl_seconds :: i64

definition default_ttl_seconds :: i64 where "default_ttl_seconds = 24 * 60 * 60"

definition session_new :: session_manager where
  "session_new = \<lparr>sessions = [], max_sessions = 10000, session_ttl_seconds = default_ttl_seconds\<rparr>"

definition session_with_limits :: "nat \<Rightarrow> i64 \<Rightarrow> session_manager" where
  "session_with_limits limit ttl = \<lparr>sessions = [],
     max_sessions = (if 0 < limit then limit else 10000),
     session_ttl_seconds = (if 0 < ttl then ttl else default_ttl_seconds)\<rparr>"

definition get_preferred_provider :: "session_manager \<Rightarrow> string \<Rightarrow> string option" where
  "get_preferred_provider s sid = (if sid = [] then None
     else map_option preferred_provider (hm_get (sessions s) sid))"

definition session_expired :: "time \<Rightarrow> i64 \<Rightarrow> session_affinity \<Rightarrow> bool" where
  "session_expired now ttl a \<longleftrightarrow> \<not> now - last_access a \<le> seconds ttl"

definition cleanup_expired :: "time \<Rightarrow> i64 \<Rightarrow> nat \<Rightarrow> session_affinity hmap \<Rightarrow> session_affinity hmap" where
  "cleanup_expired now ttl limit m =
     (let live = hm_retain (\<lambda>a. \<not> session_expired now ttl a) m
      in if limit < length live then evict_oldest last_access snd limit live else live)"

text \<open>\<open>set_provider\<close>: \<open>t_access\<close> is the time stored in the record, \<open>t_clean\<close> the clock of the cleanup.\<close>

datatype session_error = EmptySessionId | EmptyProvider

definition touch_session :: "time \<Rightarrow> string \<Rightarrow> string \<Rightarrow> session_affinity hmap \<Rightarrow> session_affinity hmap" where
  "touch_session t_access sid provider m =
     hm_insert sid (case hm_get m sid of
        Some a \<Rightarrow> a\<lparr>preferred_provider := provider, last_access := t_access,
                    request_count := wrap_inc_u64 (request_count a)\<rparr>
      | None \<Rightarrow> \<lparr>session_id = sid, preferred_provider = provider, last_access = t_access,
                 request_count = 1\<rparr>) m"

definition set_provider ::
  "time \<Rightarrow> time \<Rightarrow> string \<Rightarrow> string \<Rightarrow> session_manager \<Rightarrow> (session_error + unit) \<times> session_manager" where
  "set_provider t_access t_clean sid provider s =
     (if sid = [] then (Inl EmptySessionId, s)
      else if provider = [] then (Inl EmptyProvider, s)
      else
        let m = touch_session t_access sid provider (sessions s);
            m = (if max_sessions s < length m
                 then cleanup_expired t_clean (session_ttl_seconds s) (max_sessions s) m else m)
        in (Inr (), s\<lparr>sessions := m\<rparr>))"

definition has_affinity :: "session_manager \<Rightarrow> string \<Rightarrow> bool" where
  "has_affinity s sid = (sid \<noteq> [] \<and> sid \<in> fst ` set (sessions s))"

definition get_affinity :: "session_manager \<Rightarrow> string \<Rightarrow> session_affinity option" where
  "get_affinity s sid = (if sid = [] then None else hm_get (sessions s) sid)"

definition remove_session :: "string \<Rightarrow> session_manager \<Rightarrow> bool \<times> session_manager" where
  "remove_session sid s = (if sid = [] then (False, s)
     else (hm_get (sessions s) sid \<noteq> None, s\<lparr>sessions := hm_remove sid (sessions s)\<rparr>))"

definition clear_all :: "session_manager \<Rightarrow> session_manager" where
  "clear_all s = s\<lparr>sessions := []\<rparr>"

definition session_count :: "session_manager \<Rightarrow> nat" where
  "session_count s = length (sessions s)"

definition session_cleanup :: "time \<Rightarrow> session_manager \<Rightarrow> session_manager" where
  "session_cleanup now s = s\<lparr>sessions :=
     cleanup_expired now (session_ttl_seconds s) (max_sessions s) (sessions s)\<rparr>"

definition list_sessions :: "session_manager \<Rightarrow> string list" where
  "list_sessions s = map fst (sessions s)"

record session_stats =
  total_sessions :: nat
  ss_total_requests :: u64
  avg_requests_per_session :: f64
  unique_providers :: nat
  providers_distribution :: "nat hmap"

definition provider_counts :: "session_affinity hmap \<Rightarrow> nat hmap" where
  "provider_counts m = fold (\<lambda>(_, a) counts. hm_insert (preferred_provider a)
     ((case hm_get counts (preferred_provider a) of None \<Rightarrow> 0 | Some n \<Rightarrow> n) + 1) counts) m []"

definition session_get_stats :: "session_manager \<Rightarrow> session_stats" where
  "session_get_stats s =
     (let total = fold (\<lambda>(_, a) n. wrap_add_u64 n (request_count a)) (sessions s) 0;
          counts = provider_counts (sessions s)
      in \<lparr>total_sessions = length (sessions s), ss_total_requests = total,
          avg_requests_per_session = (if sessions s = [] then f64_0
            else fdiv (f64_nat total) (f64_nat (length (sessions s)))),
          unique_providers = length counts, providers_distribution = counts\<rparr>)"

section \<open>The cleanup as a bounded store\<close>

lemma cleanup_expired_cases:
  "cleanup_expired now ttl limit m = evict_oldest last_access snd limit (hm_retain (\<lambda>a. \<not> session_expired now ttl a) m)"
  by (simp add: cleanup_expired_def Let_def evict_oldest_small)

interpretation sstore: lazy_store "evict_oldest last_access snd" last_access
  by (rule lazy_store_evict_oldest) simp

interpretation scleanup: bounded_store "cleanup_expired now ttl" last_access for now ttl
proof
  fix m :: "session_affinity hmap" and n k v k' v'
  let ?live = "hm_retain (\<lambda>a. \<not> session_expired now ttl a) m"
  have sub: "set ?live \<subseteq> set m" by (auto simp: hm_retain_def)
  have ok: "hm_ok ?live" if "hm_ok m" using that by (simp add: hm_retain_def hm_ok_filter)
  show "hm_ok m \<Longrightarrow> hm_ok (cleanup_expired now ttl n m)"
    using ok by (simp add: cleanup_expired_cases hm_ok_evict)
  show "set (cleanup_expired now ttl n m) \<subseteq> set m"
    using sub evict_oldest_subset[of last_access snd n ?live] by (simp add: cleanup_expired_cases)
  show "hm_ok m \<Longrightarrow> length (cleanup_expired now ttl n m) \<le> n"
    using ok by (simp add: cleanup_expired_cases sstore.evict_bound)
  assume m: "hm_ok m" "(k, v) \<in> set m" "(k, v) \<notin> set (cleanup_expired now ttl n m)"
    and kept: "(k', v') \<in> set (cleanup_expired now ttl n m)"
  have live': "\<not> session_expired now ttl v'"
    using kept evict_oldest_subset[of last_access snd n ?live] by (auto simp: cleanup_expired_cases hm_retain_def)
  show "last_access v \<le> last_access v'"
  proof (cases "session_expired now ttl v")
    case True
    with live' show ?thesis by (simp add: session_expired_def)
  next
    case False
    with m(2) have "(k, v) \<in> set ?live" by (simp add: hm_retain_def)
    with m kept ok show ?thesis by (auto simp: cleanup_expired_cases intro: sstore.evict_order)
  qed
qed

lemma touch_ok: "hm_ok m \<Longrightarrow> hm_ok (touch_session t sid p m)"
  by (simp add: touch_session_def)

lemma touch_get:
  "hm_get (touch_session t sid p m) k = (if k = sid then Some (case hm_get m sid of
        Some a \<Rightarrow> a\<lparr>preferred_provider := p, last_access := t, request_count := wrap_inc_u64 (request_count a)\<rparr>
      | None \<Rightarrow> \<lparr>session_id = sid, preferred_provider = p, last_access = t, request_count = 1\<rparr>)
    else hm_get m k)"
  by (simp add: touch_session_def store_simps)

lemma touched_record:
  obtains a where "hm_get (touch_session t sid p m) sid = Some a"
    "preferred_provider a = p" "last_access a = t"
  by (auto simp: touch_get split: option.splits)

section \<open>Invariant and properties\<close>

definition session_inv :: "session_manager \<Rightarrow> bool" where
  "session_inv s \<longleftrightarrow> hm_ok (sessions s) \<and> 0 < max_sessions s \<and> length (sessions s) \<le> max_sessions s
     \<and> (\<forall>k a. hm_get (sessions s) k = Some a \<longrightarrow> k \<noteq> [] \<and> session_id a = k \<and> preferred_provider a \<noteq> [])"

lemma session_inv_set_provider:
  assumes "session_inv s"
  shows "session_inv (snd (set_provider t_access t_clean sid provider s))"
proof (cases "sid = [] \<or> provider = []")
  case True
  with assms show ?thesis by (auto simp: set_provider_def)
next
  case False
  let ?m = "touch_session t_access sid provider (sessions s)"
  let ?c = "cleanup_expired t_clean (session_ttl_seconds s) (max_sessions s) ?m"
  have ok: "hm_ok ?m" using assms by (simp add: session_inv_def touch_ok)
  have rec: "k \<noteq> [] \<and> session_id a = k \<and> preferred_provider a \<noteq> []" if "hm_get ?m k = Some a" for k a
    using that assms False by (auto simp: touch_get session_inv_def split: if_splits option.splits)
  let ?m' = "if max_sessions s < length ?m then ?c else ?m"
  have "hm_get ?m k = Some a" if "hm_get ?m' k = Some a" for k a
    using that scleanup.evict_get[OF ok] by (auto split: if_splits)
  then have "k \<noteq> [] \<and> session_id a = k \<and> preferred_provider a \<noteq> []" if "hm_get ?m' k = Some a" for k a
    using that rec by blast
  moreover have "hm_ok ?m'" and "length ?m' \<le> max_sessions s"
    using ok by (simp_all add: scleanup.evict_ok scleanup.evict_bound)
  moreover have "snd (set_provider t_access t_clean sid provider s) = s\<lparr>sessions := ?m'\<rparr>"
    using False by (simp add: set_provider_def)
  ultimately show ?thesis using assms unfolding session_inv_def by simp
qed

lemma session_inv_cleanup: "session_inv s \<Longrightarrow> session_inv (session_cleanup now s)"
  by (auto simp: session_inv_def session_cleanup_def scleanup.evict_ok scleanup.evict_bound
      dest: scleanup.evict_get)

lemma session_inv_remove: "session_inv s \<Longrightarrow> session_inv (snd (remove_session sid s))"
  using length_delete_le[of sid "sessions s"]
  by (auto simp: session_inv_def remove_session_def store_simps split: if_splits)

lemma session_inv_new: "session_inv session_new" "session_inv (session_with_limits n ttl)"
  by (simp_all add: session_inv_def session_new_def session_with_limits_def)

text \<open>The calls that change the map, and runs of them.\<close>

datatype session_call =
    SetProvider time time string string
  | RemoveSession string
  | Cleanup time
  | ClearAll

fun session_step :: "session_call \<Rightarrow> session_manager \<Rightarrow> session_manager" where
  "session_step (SetProvider t t' sid p) s = snd (set_provider t t' sid p s)"
| "session_step (RemoveSession sid) s = snd (remove_session sid s)"
| "session_step (Cleanup now) s = session_cleanup now s"
| "session_step ClearAll s = clear_all s"

lemma session_inv_clear: "session_inv s \<Longrightarrow> session_inv (clear_all s)"
  by (simp add: session_inv_def clear_all_def)

lemma session_step_inv: "session_inv s \<Longrightarrow> session_inv (session_step c s)"
  by (cases c) (simp_all add: session_inv_set_provider session_inv_remove session_inv_cleanup
      session_inv_clear)

lemma session_run_inv: "session_inv s \<Longrightarrow> session_inv (fold session_step cs s)"
  by (induction cs arbitrary: s) (simp_all add: session_step_inv)

text \<open>Whatever calls are made on a fresh manager, the number of sessions never exceeds the
  limit, no record has an empty identifier or provider, and every record is stored under its own
  session identifier.\<close>

theorem session_store_invariant:
  "session_inv (fold session_step cs (session_with_limits n ttl))"
  by (rule session_run_inv) (rule session_inv_new)

text \<open>Affinity is kept: after a successful \<open>set_provider\<close> the session's preferred provider is the
  one just set, even when the insertion overflows the map and the cleanup drops other sessions,
  provided the clock advanced past the other records and the cleanup runs within the time to live.\<close>

lemma set_provider_then_get:
  assumes "session_inv s" and "sid \<noteq> []" and "provider \<noteq> []"
    and newest: "\<forall>k a. hm_get (sessions s) k = Some a \<longrightarrow> last_access a < t_access"
    and ttl: "t_clean - t_access \<le> seconds (session_ttl_seconds s)"
  shows "fst (set_provider t_access t_clean sid provider s) = Inr ()
    \<and> get_preferred_provider (snd (set_provider t_access t_clean sid provider s)) sid = Some provider"
proof -
  let ?m = "touch_session t_access sid provider (sessions s)"
  let ?live = "hm_retain (\<lambda>a. \<not> session_expired t_clean (session_ttl_seconds s) a) ?m"
  have ok: "hm_ok ?m" using assms(1) by (simp add: session_inv_def touch_ok)
  obtain a where a: "hm_get ?m sid = Some a" "preferred_provider a = provider" "last_access a = t_access"
    by (rule touched_record)
  have others: "last_access a' < last_access a" if "(k, a') \<in> set ?m" "k \<noteq> sid" for k a'
    using that newest a(3) ok by (simp add: hm_get_in_set [symmetric] touch_get)
  have "(sid, a) \<in> set ?live"
    using a ok ttl by (simp add: hm_retain_def hm_get_in_set session_expired_def)
  moreover have okl: "hm_ok ?live" using ok by (simp add: hm_retain_def hm_ok_filter)
  ultimately have "hm_get ?live sid = Some a" by (simp add: hm_get_in_set)
  then have "hm_get (cleanup_expired t_clean (session_ttl_seconds s) (max_sessions s) ?m) sid = Some a"
    unfolding cleanup_expired_cases using okl assms(1) others
    by (intro sstore.newest_kept) (auto simp: session_inv_def hm_retain_def)
  with a assms(2,3) show ?thesis
    by (simp add: set_provider_def get_preferred_provider_def Let_def)
qed

text \<open>An expired session keeps its provider until a cleanup happens to run, and a cleanup runs only when an insertion
  overflows the map or somebody asks for it.\<close>

lemma expired_session_answers:
  assumes "sid \<noteq> []" and "hm_get (sessions s) sid = Some a" and "session_expired now (session_ttl_seconds s) a"
    and "length (sessions s) \<le> max_sessions s" and "sid' \<in> fst ` set (sessions s)"
  shows "get_preferred_provider (snd (set_provider now now sid' p s)) sid \<noteq> None"
proof (cases "sid' = [] \<or> p = []")
  case False
  have "length (touch_session now sid' p (sessions s)) = length (sessions s)"
    using assms(5) by (simp add: touch_session_def store_simps)
  then show ?thesis
    using False assms(1,2,4) by (simp add: set_provider_def get_preferred_provider_def touch_get Let_def)
qed (use assms in \<open>auto simp: set_provider_def get_preferred_provider_def\<close>)

text \<open>A cleanup keeps only sessions that have not expired; it keeps all of them when they fit in
  the limit and exactly the limit otherwise, and no session it drops was used after one it keeps.\<close>

theorem cleanup_expired_spec:
  assumes "hm_ok m"
  shows "set (cleanup_expired now ttl limit m) \<subseteq> {(k, a). (k, a) \<in> set m \<and> \<not> session_expired now ttl a}
    \<and> length (cleanup_expired now ttl limit m)
        = min (length (filter (\<lambda>(k, a). \<not> session_expired now ttl a) m)) limit
    \<and> (\<forall>k a k' a'. (k, a) \<in> set m \<and> (k, a) \<notin> set (cleanup_expired now ttl limit m)
          \<and> (k', a') \<in> set (cleanup_expired now ttl limit m) \<longrightarrow> last_access a \<le> last_access a')"
proof (intro conjI allI impI)
  let ?live = "hm_retain (\<lambda>a. \<not> session_expired now ttl a) m"
  have ok: "hm_ok ?live" using assms by (simp add: hm_retain_def hm_ok_filter)
  show "set (cleanup_expired now ttl limit m) \<subseteq> {(k, a). (k, a) \<in> set m \<and> \<not> session_expired now ttl a}"
    using evict_oldest_subset[of last_access snd limit ?live]
    by (auto simp: cleanup_expired_cases hm_retain_def)
  show "length (cleanup_expired now ttl limit m)
      = min (length (filter (\<lambda>(k, a). \<not> session_expired now ttl a) m)) limit"
    using sstore.evict_exact[OF ok, of limit] by (simp add: cleanup_expired_cases hm_retain_def)
qed (blast intro: scleanup.evict_order[OF assms])

theorem cleanup_expired_spec_witness:
  "length (cleanup_expired 70 60 1 (touch_session 1 ''a'' ''p'' (touch_session 2 ''b'' ''q'' []))) = 1"
  using cleanup_expired_spec[of "touch_session 1 ''a'' ''p'' (touch_session 2 ''b'' ''q'' [])" 70 60 1]
  by (simp add: touch_ok) (simp add: touch_session_def session_expired_def seconds_def nanos_per_second_def)

end
