(* ===== verification/Metrics.thy ===== *)
theory Metrics
  imports Stores
begin

text \<open>
  The metrics collector (src/routing/metrics.rs): request counters, exponentially weighted averages
  of latency and success rate in binary64, and the same sweep of old records as the health manager.
\<close>

section \<open>State and operations\<close>

record auth_metrics =
  total_requests :: i64
  success_count :: i64
  failure_count :: i64
  avg_latency_ms :: f64
  min_latency_ms :: f64
  max_latency_ms :: f64
  success_rate :: f64
  error_rate :: f64
  m_consecutive_successes :: i32
  m_consecutive_failures :: i32
  last_request_time :: time
  last_success_time :: "time option"
  last_failure_time :: "time option"

record metrics_collector =
  mc_metrics :: "auth_metrics hmap"
  mc_max_entries :: nat
  mc_cleanup_interval :: i64
  mc_op_count :: i64

definition ewma_alpha :: f64 where "ewma_alpha = f64_of (3 / 10)"

definition metrics_new :: metrics_collector where
  "metrics_new = \<lparr>mc_metrics = [], mc_max_entries = 10000, mc_cleanup_interval = 100, mc_op_count = 0\<rparr>"

definition metrics_with_limit :: "nat \<Rightarrow> metrics_collector" where
  "metrics_with_limit n = \<lparr>mc_metrics = [], mc_max_entries = (if 0 < n then n else 10000),
     mc_cleanup_interval = 100, mc_op_count = 0\<rparr>"

definition fresh_metrics :: "time \<Rightarrow> auth_metrics" where
  "fresh_metrics now = \<lparr>total_requests = 0, success_count = 0, failure_count = 0,
     avg_latency_ms = f64_0, min_latency_ms = f64_max_value, max_latency_ms = f64_0,
     success_rate = f64_1, error_rate = f64_0, m_consecutive_successes = 0,
     m_consecutive_failures = 0, last_request_time = now, last_success_time = None,
     last_failure_time = None\<rparr>"

definition metrics_cleanup :: "nat \<Rightarrow> auth_metrics hmap \<Rightarrow> auth_metrics hmap" where
  "metrics_cleanup max_entries m = (if max_entries = 0 then m else if length m \<le> max_entries then m
     else evict_oldest last_request_time snd max_entries m)"

definition initialize_auth :: "time \<Rightarrow> string \<Rightarrow> metrics_collector \<Rightarrow> metrics_collector" where
  "initialize_auth now auth_id s = (if auth_id = [] then s
     else let m = hm_insert auth_id (fresh_metrics now) (mc_metrics s)
       in s\<lparr>mc_metrics := (if mc_max_entries s < length m then metrics_cleanup (mc_max_entries s) m else m)\<rparr>)"

text \<open>The update of one record: counters, latency, rates; \<open>t_out\<close> is the clock of the outcome.\<close>

definition record_counts :: "time \<Rightarrow> time \<Rightarrow> bool \<Rightarrow> auth_metrics \<Rightarrow> auth_metrics" where
  "record_counts t_req t_out success m =
     (let m = m\<lparr>total_requests := wrap_inc_i64 (total_requests m), last_request_time := t_req\<rparr>
      in if success then
           m\<lparr>success_count := wrap_inc_i64 (success_count m),
             m_consecutive_successes := wrap_inc_i32 (m_consecutive_successes m),
             m_consecutive_failures := 0, last_success_time := Some t_out\<rparr>
         else
           m\<lparr>failure_count := wrap_inc_i64 (failure_count m),
             m_consecutive_failures := wrap_inc_i32 (m_consecutive_failures m),
             m_consecutive_successes := 0, last_failure_time := Some t_out\<rparr>)"

definition record_latency :: "f64 \<Rightarrow> auth_metrics \<Rightarrow> auth_metrics" where
  "record_latency latency_ms m =
     (if f64_0 < latency_ms then
        m\<lparr>avg_latency_ms := (if feq (avg_latency_ms m) f64_0 then latency_ms
             else ewma ewma_alpha latency_ms (avg_latency_ms m)),
          min_latency_ms := (if latency_ms < min_latency_ms m then latency_ms else min_latency_ms m),
          max_latency_ms := (if max_latency_ms m < latency_ms then latency_ms else max_latency_ms m)\<rparr>
      else m)"

definition record_rates :: "bool \<Rightarrow> auth_metrics \<Rightarrow> auth_metrics" where
  "record_rates success m =
     (let rate = ewma ewma_alpha (if success then f64_1 else f64_0) (success_rate m)
      in m\<lparr>success_rate := rate, error_rate := fsub f64_1 rate\<rparr>)"

definition record_entry :: "time \<Rightarrow> time \<Rightarrow> bool \<Rightarrow> f64 \<Rightarrow> auth_metrics \<Rightarrow> auth_metrics" where
  "record_entry t_req t_out success latency_ms m =
     record_rates success (record_latency latency_ms (record_counts t_req t_out success m))"

definition mc_swept :: "metrics_collector \<Rightarrow> auth_metrics hmap" where
  "mc_swept s = (if mc_op_count s mod mc_cleanup_interval s = 0 then
      if mc_max_entries s < length (mc_metrics s)
      then metrics_cleanup (mc_max_entries s) (mc_metrics s) else mc_metrics s
    else mc_metrics s)"

text \<open>\<open>MetricsCollector::record_result\<close>; the status code is not used by the code.\<close>

definition metrics_record_result ::
  "time \<Rightarrow> time \<Rightarrow> time \<Rightarrow> string \<Rightarrow> bool \<Rightarrow> f64 \<Rightarrow> i32 \<Rightarrow> metrics_collector \<Rightarrow> metrics_collector" where
  "metrics_record_result t_new t_req t_out auth_id success latency_ms status_code s =
     (if auth_id = [] then s
      else
        let m = mc_swept s;
            entry = (case hm_get m auth_id of Some e \<Rightarrow> e | None \<Rightarrow> fresh_metrics t_new)
        in s\<lparr>mc_op_count := wrap_inc_i64 (mc_op_count s),
             mc_metrics := hm_insert auth_id (record_entry t_req t_out success latency_ms entry) m\<rparr>)"

definition get_metrics :: "metrics_collector \<Rightarrow> string \<Rightarrow> auth_metrics option" where
  "get_metrics s auth_id = (if auth_id = [] then None else hm_get (mc_metrics s) auth_id)"

definition get_all_metrics :: "metrics_collector \<Rightarrow> auth_metrics hmap" where
  "get_all_metrics s = mc_metrics s"

definition metrics_reset :: "time \<Rightarrow> string \<Rightarrow> metrics_collector \<Rightarrow> metrics_collector" where
  "metrics_reset now auth_id s = (if auth_id = [] then s
     else s\<lparr>mc_metrics := hm_insert auth_id (fresh_metrics now) (mc_metrics s)\<rparr>)"

definition metrics_reset_all :: "metrics_collector \<Rightarrow> metrics_collector" where
  "metrics_reset_all s = s\<lparr>mc_metrics := []\<rparr>"

section \<open>The sweep\<close>

interpretation mstore: lazy_store "evict_oldest last_request_time snd" last_request_time
  by (rule lazy_store_evict_oldest) simp

lemma metrics_cleanup_eq: "0 < n \<Longrightarrow> metrics_cleanup n m = evict_oldest last_request_time snd n m"
  by (simp add: metrics_cleanup_def evict_oldest_small)

lemma mc_swept_ok: "hm_ok (mc_metrics s) \<Longrightarrow> hm_ok (mc_swept s)"
  by (simp add: mc_swept_def metrics_cleanup_def mstore.evict_ok)

lemma mc_swept_get: "hm_ok (mc_metrics s) \<Longrightarrow> hm_get (mc_swept s) k = Some m \<Longrightarrow> hm_get (mc_metrics s) k = Some m"
  by (auto simp: mc_swept_def metrics_cleanup_def dest: mstore.evict_get split: if_splits)

lemma mc_no_sweep: "length (mc_metrics s) \<le> mc_max_entries s \<Longrightarrow> mc_swept s = mc_metrics s"
  by (simp add: mc_swept_def)

lemma mc_swept_size:
  assumes "hm_ok (mc_metrics s)" and "0 < mc_max_entries s"
  shows "length (mc_swept s) \<le> (if mc_op_count s mod mc_cleanup_interval s = 0
    then min (length (mc_metrics s)) (mc_max_entries s) else length (mc_metrics s))"
  using assms by (simp add: mc_swept_def metrics_cleanup_eq mstore.evict_exact)

type_synonym metrics_call = "time \<times> time \<times> time \<times> string \<times> bool \<times> f64 \<times> i32"

fun metrics_call :: "metrics_call \<Rightarrow> metrics_collector \<Rightarrow> metrics_collector" where
  "metrics_call (t_new, t_req, t_out, auth_id, success, latency_ms, status_code) s =
     metrics_record_result t_new t_req t_out auth_id success latency_ms status_code s"

interpretation metrics_sweep: swept_store mc_metrics mc_op_count mc_max_entries mc_cleanup_interval metrics_call
proof
  fix e :: metrics_call and s
  obtain t1 t2 t3 auth_id ok lat code where e: "e = (t1, t2, t3, auth_id, ok, lat, code)" by (cases e)
  show "hm_ok (mc_metrics s) \<Longrightarrow> hm_ok (mc_metrics (metrics_call e s))"
    by (simp add: e metrics_record_result_def mc_swept_ok Let_def)
  show "mc_max_entries (metrics_call e s) = mc_max_entries s"
    "mc_cleanup_interval (metrics_call e s) = mc_cleanup_interval s"
    by (simp_all add: e metrics_record_result_def Let_def)
  show "metrics_call e s = s \<or> mc_op_count (metrics_call e s) = wrap_inc_i64 (mc_op_count s)"
    by (simp add: e metrics_record_result_def Let_def)
  show "metrics_call e s = s \<or> length (mc_metrics (metrics_call e s)) \<le>
      (if mc_op_count s mod mc_cleanup_interval s = 0
       then min (length (mc_metrics s)) (mc_max_entries s) else length (mc_metrics s)) + 1"
    if "hm_ok (mc_metrics s)" and "0 < mc_max_entries s"
  proof (cases "auth_id = []")
    case False
    then have "length (mc_metrics (metrics_call e s)) \<le> Suc (length (mc_swept s))"
      by (simp add: e metrics_record_result_def length_hm_insert_le Let_def)
    with mc_swept_size[OF that] show ?thesis by simp
  qed (simp add: e metrics_record_result_def)
qed

text \<open>While the map is within its limit nothing is swept, and a call touches one record.\<close>

lemma record_result_unswept:
  assumes "length (mc_metrics s) \<le> mc_max_entries s" and "auth_id \<noteq> []"
  shows "mc_metrics (metrics_record_result t t' t'' auth_id ok lat code s) = hm_insert auth_id
    (record_entry t' t'' ok lat (case hm_get (mc_metrics s) auth_id of Some e \<Rightarrow> e | None \<Rightarrow> fresh_metrics t)) (mc_metrics s)"
  using assms by (simp add: metrics_record_result_def mc_no_sweep Let_def)

lemma record_result_size:
  assumes "length (mc_metrics s) \<le> mc_max_entries s"
  shows "length (mc_metrics (metrics_record_result t t' t'' auth_id ok lat code s)) \<le> Suc (length (mc_metrics s))"
proof (cases "auth_id = []")
  case False
  then show ?thesis by (simp only: record_result_unswept[OF assms False] length_hm_insert_le)
qed (simp add: metrics_record_result_def)

lemma record_result_other:
  assumes "length (mc_metrics s) \<le> mc_max_entries s" and "auth_id \<noteq> k"
  shows "hm_get (mc_metrics (metrics_record_result t t' t'' auth_id ok lat code s)) k = hm_get (mc_metrics s) k"
proof (cases "auth_id = []")
  case False
  with assms(2) show ?thesis by (simp add: record_result_unswept[OF assms(1) False] store_simps)
qed (simp add: metrics_record_result_def)

lemma record_result_limit:
  "mc_max_entries (metrics_record_result t t' t'' auth_id ok lat code s) = mc_max_entries s"
  by (simp add: metrics_record_result_def Let_def)

section \<open>Averages stay in the unit interval\<close>

lemma ewma_alpha_val: "ewma_alpha = FFin (5404319552844595 / 18014398509481984)"
  using rnd_nearest[of "-54" "3 / 10" 5404319552844595] by (simp add: ewma_alpha_def f64_of_def)

lemma one_minus_alpha_val: "fsub f64_1 ewma_alpha = FFin (6305039478318694 / 9007199254740992)"
proof -
  have "\<lfloor>12610078956637389 / 2 :: rat\<rfloor> = 6305039478318694" by (rule floor_unique) simp_all
  then have "rne (12610078956637389 / 2) = 6305039478318694" by (simp add: rne_def)
  moreover have "ulp_exp (12610078956637389 / 18014398509481984) = - 53"
    using ilog2_unique[of "-1" "12610078956637389 / 18014398509481984"] by (simp add: ulp_exp_def)
  ultimately show ?thesis
    by (simp add: ewma_alpha_val fsub_def f64_of_def rnd_def round_pos_def)
qed

text \<open>The rounded weights of the average add up to less than one.\<close>

lemma ewma_unit:
  assumes "unit_f64 x" and "unit_f64 avg"
  shows "unit_f64 (ewma ewma_alpha x avg)"
proof -
  let ?a = "5404319552844595 / 18014398509481984 :: rat" and ?b = "6305039478318694 / 9007199254740992 :: rat"
  obtain p q where x: "x = FFin p" "0 \<le> p" "p \<le> 1" and avg: "avg = FFin q" "0 \<le> q" "q \<le> 1"
    using assms by (elim unit_f64E)
  have b: "rnd ?b = ?b" using rnd_scaled[of 6305039478318694 "-53"] by simp
  have bq: "0 \<le> ?b * q" "?b * q \<le> ?b" using avg by (simp_all add: mult_left_le)
  have r: "0 \<le> rnd (?b * q)" "rnd (?b * q) \<le> ?b"
    using rnd_nonneg[OF bq(1)] rnd_mono[OF bq(2)] b by simp_all
  have ap: "0 \<le> ?a * p" "?a * p \<le> ?a" using x by (simp_all add: mult_left_le)
  have "ewma ewma_alpha x avg = f64_of (?a * p + rnd (?b * q))"
    unfolding ewma_def one_minus_alpha_val
    unfolding fma_def fmul_def ewma_alpha_val x avg fprod.simps f64.case
    using bq f64_of_unit[of "?b * q"] by simp
  also have "unit_f64 \<dots>" using ap r by (intro unit_f64_of) simp_all
  finally show ?thesis .
qed

section \<open>Invariants\<close>

definition metrics_ok :: "auth_metrics \<Rightarrow> bool" where
  "metrics_ok m \<longleftrightarrow> unit_f64 (success_rate m) \<and> unit_f64 (error_rate m)
     \<and> 0 \<le> success_count m \<and> 0 \<le> failure_count m
     \<and> success_count m + failure_count m = total_requests m"

lemma fresh_metrics_ok: "metrics_ok (fresh_metrics now)"
  by (simp add: metrics_ok_def fresh_metrics_def)

lemma record_entry_fields:
  "total_requests (record_entry t t' ok lat m) = wrap_inc_i64 (total_requests m)"
  "success_count (record_entry t t' ok lat m) = (if ok then wrap_inc_i64 (success_count m) else success_count m)"
  "failure_count (record_entry t t' ok lat m) = (if ok then failure_count m else wrap_inc_i64 (failure_count m))"
  "success_rate (record_entry t t' ok lat m) = ewma ewma_alpha (if ok then f64_1 else f64_0) (success_rate m)"
  "error_rate (record_entry t t' ok lat m) = fsub f64_1 (success_rate (record_entry t t' ok lat m))"
  by (simp_all add: record_entry_def record_rates_def record_latency_def record_counts_def Let_def)

lemma record_entry_ok:
  assumes "metrics_ok m" and "total_requests m < i64_max"
  shows "metrics_ok (record_entry t t' ok lat m)"
  using assms by (simp add: metrics_ok_def record_entry_fields wrap_inc_i64_small ewma_unit unit_fsub_1)

definition collector_inv :: "int \<Rightarrow> metrics_collector \<Rightarrow> bool" where
  "collector_inv n s \<longleftrightarrow> hm_ok (mc_metrics s)
     \<and> (\<forall>k m. hm_get (mc_metrics s) k = Some m \<longrightarrow> metrics_ok m \<and> total_requests m \<le> n)"

lemma metrics_call_inv:
  assumes "collector_inv n s" and "n < i64_max" and "0 \<le> n"
  shows "collector_inv (n + 1) (metrics_call e s)"
proof -
  obtain t1 t2 t3 auth_id ok lat code where e: "e = (t1, t2, t3, auth_id, ok, lat, code)" by (cases e)
  have okm: "hm_ok (mc_metrics s)" using assms(1) by (simp add: collector_inv_def)
  have rec: "metrics_ok m \<and> total_requests m \<le> n" if "hm_get (mc_swept s) k = Some m" for k m
    using that assms(1) mc_swept_get[OF okm] by (auto simp: collector_inv_def)
  show ?thesis
  proof (cases "auth_id = []")
    case True
    with assms(1) show ?thesis by (force simp: e metrics_record_result_def collector_inv_def)
  next
    case False
    let ?entry = "case hm_get (mc_swept s) auth_id of Some e \<Rightarrow> e | None \<Rightarrow> fresh_metrics t1"
    have entry: "metrics_ok ?entry \<and> total_requests ?entry \<le> n"
      using rec assms(3) fresh_metrics_ok by (auto simp: fresh_metrics_def split: option.split)
    then have "metrics_ok (record_entry t2 t3 ok lat ?entry)
        \<and> total_requests (record_entry t2 t3 ok lat ?entry) \<le> n + 1"
      using assms(2) by (simp add: record_entry_ok record_entry_fields(1) wrap_inc_i64_small)
    with False rec okm show ?thesis
      by (auto simp: e metrics_record_result_def collector_inv_def store_simps mc_swept_ok Let_def
          split: if_splits) (meson add_increasing2 order_trans zle_add1_eq_le zless_add1_eq)+
  qed
qed

lemma metrics_run_inv:
  "collector_inv n s \<Longrightarrow> 0 \<le> n \<Longrightarrow> n + int (length es) \<le> i64_max \<Longrightarrow>
   collector_inv (n + int (length es)) (fold metrics_call es s)"
proof (induction es arbitrary: n s)
  case (Cons e es)
  then have "collector_inv (n + 1) (metrics_call e s)" by (intro metrics_call_inv) simp_all
  with Cons.IH[of "n + 1"] Cons.prems show ?case by (simp add: add.assoc)
qed simp

lemma collector_inv_new: "collector_inv 0 metrics_new" "collector_inv 0 (metrics_with_limit n)"
  by (simp_all add: collector_inv_def metrics_new_def metrics_with_limit_def)

section \<open>The latency envelope\<close>

lemma record_entry_latency:
  "min_latency_ms (record_entry t t' ok lat m) =
     (if f64_0 < lat \<and> lat < min_latency_ms m then lat else min_latency_ms m)"
  "max_latency_ms (record_entry t t' ok lat m) =
     (if f64_0 < lat \<and> max_latency_ms m < lat then lat else max_latency_ms m)"
  by (simp_all add: record_entry_def record_rates_def record_latency_def record_counts_def Let_def)

definition envelope :: "auth_metrics \<Rightarrow> f64 \<Rightarrow> bool" where
  "envelope m lat \<longleftrightarrow> min_latency_ms m \<le> lat \<and> lat \<le> max_latency_ms m"

lemma record_entry_envelope:
  assumes "min_latency_ms m \<noteq> FNaN" and "max_latency_ms m \<noteq> FNaN"
  shows "f64_0 < lat \<Longrightarrow> envelope (record_entry t t' ok lat m) lat"
    and "envelope m lat' \<Longrightarrow> envelope (record_entry t t' ok lat m) lat'"
    and "min_latency_ms (record_entry t t' ok lat m) \<noteq> FNaN"
    and "max_latency_ms (record_entry t t' ok lat m) \<noteq> FNaN"
  using assms
  by (auto simp: envelope_def record_entry_latency f64_not_less f64_le_refl
      dest: f64_less_not_NaN f64_less_le intro: f64_le_trans)

lemma run_envelope:
  assumes "min_latency_ms m \<noteq> FNaN" and "max_latency_ms m \<noteq> FNaN"
    and "lat \<in> (snd \<circ> snd \<circ> snd) ` set es \<and> f64_0 < lat \<or> envelope m lat"
  shows "envelope (fold (\<lambda>(t, t', ok, l). record_entry t t' ok l) es m) lat"
  using assms
proof (induction es arbitrary: m)
  case (Cons e es)
  obtain t t' ok l where e: "e = (t, t', ok, l)" by (cases e)
  note step = record_entry_envelope[OF Cons.prems(1,2)]
  have "lat \<in> (snd \<circ> snd \<circ> snd) ` set es \<and> f64_0 < lat \<or> envelope (record_entry t t' ok l m) lat"
    using Cons.prems(3) step(1,2) by (cases "l = lat") (auto simp: e)
  then show ?case using Cons.IH[OF step(3,4)] by (simp add: e)
qed simp

lemma metrics_run_one:
  assumes "auth_id \<noteq> []" and "length (mc_metrics s) < mc_max_entries s"
    and "hm_get (mc_metrics s) auth_id = Some m"
  shows "hm_get (mc_metrics (fold (\<lambda>(t, t', ok, l). metrics_record_result t t t' auth_id ok l 0) es s)) auth_id
      = Some (fold (\<lambda>(t, t', ok, l). record_entry t t' ok l) es m)"
  using assms(2,3)
proof (induction es arbitrary: s m)
  case (Cons e es)
  obtain t t' ok l where e: "e = (t, t', ok, l)" by (cases e)
  let ?s = "metrics_record_result t t t' auth_id ok l 0 s"
  have "mc_swept s = mc_metrics s" using Cons.prems(1) by (simp add: mc_no_sweep)
  with Cons.prems have "hm_get (mc_metrics ?s) auth_id = Some (record_entry t t' ok l m)"
    and "length (mc_metrics ?s) < mc_max_entries ?s"
    using assms(1) map_of_SomeD[OF Cons.prems(2)]
    by (force simp: metrics_record_result_def store_simps)+
  with Cons.IH[of ?s] show ?case by (simp add: e)
qed simp

section \<open>Properties\<close>

text \<open>After any sequence of recorded results on a fresh collector, every credential's success and
  error rates are in the unit interval (the binary64 rounding of the averages included) and its
  success and failure counts add up to its total, which is at most the number of calls.\<close>

theorem metrics_counts_and_rates:
  assumes "int (length es) \<le> i64_max"
    and "get_metrics (fold metrics_call es (metrics_with_limit n)) auth_id = Some m"
  shows "metrics_ok m \<and> total_requests m \<le> int (length es)"
proof -
  have "collector_inv (int (length es)) (fold metrics_call es (metrics_with_limit n))"
    using metrics_run_inv[OF collector_inv_new(2), of es n] assms(1) by simp
  with assms(2) show ?thesis by (auto simp: collector_inv_def get_metrics_def split: if_splits)
qed

theorem metrics_counts_and_rates_witness:
  "\<exists>m. get_metrics (fold metrics_call [(0, 0, 0, ''a'', True, f64_1, 200), (1, 1, 1, ''a'', False, f64_0, 500)]
       (metrics_with_limit 5)) ''a'' = Some m \<and> metrics_ok m \<and> total_requests m \<le> 2"
proof -
  let ?es = "[(0, 0, 0, ''a'', True, f64_1, 200), (1, 1, 1, ''a'', False, f64_0, 500)]"
  obtain m where m: "get_metrics (fold metrics_call ?es (metrics_with_limit 5)) ''a'' = Some m"
    by (simp add: get_metrics_def metrics_record_result_def store_simps Let_def)
  with metrics_counts_and_rates[OF _ m] show ?thesis by (simp add: i64_max_def)
qed

text \<open>Latency envelope: with room in the map, once results have been recorded for a known
  credential, every positive latency among them lies between its recorded minimum and maximum.\<close>

theorem metrics_latency_envelope:
  assumes "auth_id \<noteq> []" and "length (mc_metrics s) < mc_max_entries s"
    and "hm_get (mc_metrics s) auth_id = Some m0"
    and "min_latency_ms m0 \<noteq> FNaN" and "max_latency_ms m0 \<noteq> FNaN"
    and "(t, t', ok, lat) \<in> set es" and "f64_0 < lat"
  shows "\<exists>m. get_metrics (fold (\<lambda>(t, t', ok, l). metrics_record_result t t t' auth_id ok l 0) es s) auth_id = Some m
    \<and> min_latency_ms m \<le> lat \<and> lat \<le> max_latency_ms m"
proof -
  have "lat \<in> (snd \<circ> snd \<circ> snd) ` set es" using assms(6) by force
  with run_envelope[OF assms(4,5), of lat es] metrics_run_one[OF assms(1-3), of es] assms(1,7)
  show ?thesis by (simp add: get_metrics_def envelope_def)
qed

theorem metrics_latency_envelope_witness:
  "\<exists>m. get_metrics (fold (\<lambda>(t, t', ok, l). metrics_record_result t t t' ''a'' ok l 0)
       [(1, 1, True, FFin 3), (2, 2, False, FFin 5)] (initialize_auth 0 ''a'' metrics_new)) ''a'' = Some m
     \<and> min_latency_ms m \<le> FFin 5 \<and> FFin 5 \<le> max_latency_ms m"
  by (rule metrics_latency_envelope[where t = 2 and t' = 2 and ok = False and ?m0.0 = "fresh_metrics 0"])
    (simp_all add: initialize_auth_def metrics_new_def fresh_metrics_def f64_max_value_def Let_def)

text \<open>Memory bound: for any sequence of recorded results the number of metrics records stays
  within the limit plus the 100 operations between two sweeps.\<close>

theorem metrics_records_bounded:
  assumes "0 < n" and "int (length es) \<le> i64_max"
  shows "length (mc_metrics (fold metrics_call es (metrics_with_limit n))) \<le> n + 100"
proof -
  have "metrics_sweep.swept_inv (metrics_with_limit n)"
    using assms(1) by (simp add: metrics_sweep.swept_inv_def metrics_with_limit_def)
  from metrics_sweep.swept_bound[OF this, of es] assms show ?thesis by (simp add: metrics_with_limit_def)
qed

theorem metrics_records_bounded_witness:
  "length (mc_metrics (fold metrics_call [(0, 0, 0, ''a'', True, f64_1, 200)] (metrics_with_limit 1))) \<le> 1 + 100"
  by (rule metrics_records_bounded) (simp_all add: i64_max_def)

end
