(* ===== verification/Outcome.thy ===== *)
theory Outcome
  imports Stores
begin

text \<open>
  Execution outcomes (src/routing/outcome.rs): the classification of HTTP status codes into error
  classes, the outcome record with its constructors, and the recorder that keeps the latest ones.
\<close>

section \<open>Error classes\<close>

datatype error_class = Auth | RateLimit | ServerError | Timeout | Network | ClientError | Other

definition from_status_code :: "i32 \<Rightarrow> error_class option" where
  "from_status_code status_code =
     (if status_code = 401 \<or> status_code = 403 then Some Auth
      else if status_code = 429 then Some RateLimit
      else if status_code \<in> {500, 502, 503, 504} then Some ServerError
      else if status_code = 408 then Some Timeout
      else if status_code \<in> {400, 404, 413, 422} then Some ClientError
      else if 400 \<le> status_code then Some Other
      else None)"

fun ec_is_retryable :: "error_class \<Rightarrow> bool" where
  "ec_is_retryable RateLimit = True"
| "ec_is_retryable ServerError = True"
| "ec_is_retryable Timeout = True"
| "ec_is_retryable Network = True"
| "ec_is_retryable _ = False"

definition is_credential_error :: "error_class \<Rightarrow> bool" where
  "is_credential_error e = (e = Auth)"

section \<open>Outcomes\<close>

record execution_outcome =
  o_route_id :: string
  o_success :: bool
  o_latency_ms :: f64
  prompt_tokens :: nat
  completion_tokens :: nat
  total_tokens :: nat
  o_error_class :: "error_class option"
  o_status_code :: "i32 option"
  o_timestamp :: time
  o_used_fallback :: bool
  original_route_id :: "string option"

definition outcome_success :: "time \<Rightarrow> string \<Rightarrow> f64 \<Rightarrow> nat \<Rightarrow> nat \<Rightarrow> i32 \<Rightarrow> execution_outcome" where
  "outcome_success now route_id latency prompt completion status = \<lparr>o_route_id = route_id,
     o_success = True, o_latency_ms = latency, prompt_tokens = prompt, completion_tokens = completion,
     total_tokens = sat_add_u32 prompt completion, o_error_class = None, o_status_code = Some status,
     o_timestamp = now, o_used_fallback = False, original_route_id = None\<rparr>"

definition outcome_failure ::
  "time \<Rightarrow> string \<Rightarrow> f64 \<Rightarrow> i32 \<Rightarrow> bool \<Rightarrow> string option \<Rightarrow> execution_outcome" where
  "outcome_failure now route_id latency status used_fallback original = \<lparr>o_route_id = route_id,
     o_success = False, o_latency_ms = latency, prompt_tokens = 0, completion_tokens = 0,
     total_tokens = 0, o_error_class = from_status_code status, o_status_code = Some status,
     o_timestamp = now, o_used_fallback = used_fallback, original_route_id = original\<rparr>"

definition outcome_timeout :: "time \<Rightarrow> string \<Rightarrow> f64 \<Rightarrow> execution_outcome" where
  "outcome_timeout now route_id latency = \<lparr>o_route_id = route_id, o_success = False,
     o_latency_ms = latency, prompt_tokens = 0, completion_tokens = 0, total_tokens = 0,
     o_error_class = Some Timeout, o_status_code = Some 408, o_timestamp = now,
     o_used_fallback = False, original_route_id = None\<rparr>"

definition outcome_network_error :: "time \<Rightarrow> string \<Rightarrow> f64 \<Rightarrow> execution_outcome" where
  "outcome_network_error now route_id latency = \<lparr>o_route_id = route_id, o_success = False,
     o_latency_ms = latency, prompt_tokens = 0, completion_tokens = 0, total_tokens = 0,
     o_error_class = Some Network, o_status_code = None, o_timestamp = now,
     o_used_fallback = False, original_route_id = None\<rparr>"

definition effective_route :: "execution_outcome \<Rightarrow> string" where
  "effective_route o1 = (if o_used_fallback o1
     then (case original_route_id o1 of Some r \<Rightarrow> r | None \<Rightarrow> o_route_id o1) else o_route_id o1)"

section \<open>The recorder\<close>

record outcome_recorder =
  outcomes :: "execution_outcome list"
  max_outcomes :: nat

definition recorder_new :: outcome_recorder where
  "recorder_new = \<lparr>outcomes = [], max_outcomes = 10000\<rparr>"

definition recorder_with_limit :: "nat \<Rightarrow> outcome_recorder" where
  "recorder_with_limit n = \<lparr>outcomes = [], max_outcomes = (if 0 < n then n else 10000)\<rparr>"

definition record_outcome :: "execution_outcome \<Rightarrow> outcome_recorder \<Rightarrow> outcome_recorder" where
  "record_outcome x r =
     (let os = outcomes r @ [x]
      in r\<lparr>outcomes := (if max_outcomes r < length os then drop (length os - max_outcomes r) os else os)\<rparr>)"

definition record_success :: "time \<Rightarrow> string \<Rightarrow> f64 \<Rightarrow> nat \<Rightarrow> nat \<Rightarrow> i32 \<Rightarrow> outcome_recorder \<Rightarrow> outcome_recorder" where
  "record_success now route_id latency prompt completion status =
     record_outcome (outcome_success now route_id latency prompt completion status)"

definition record_failure ::
  "time \<Rightarrow> string \<Rightarrow> f64 \<Rightarrow> i32 \<Rightarrow> bool \<Rightarrow> string option \<Rightarrow> outcome_recorder \<Rightarrow> outcome_recorder" where
  "record_failure now route_id latency status used_fallback original =
     record_outcome (outcome_failure now route_id latency status used_fallback original)"

definition record_timeout :: "time \<Rightarrow> string \<Rightarrow> f64 \<Rightarrow> outcome_recorder \<Rightarrow> outcome_recorder" where
  "record_timeout now route_id latency = record_outcome (outcome_timeout now route_id latency)"

definition record_network_error :: "time \<Rightarrow> string \<Rightarrow> f64 \<Rightarrow> outcome_recorder \<Rightarrow> outcome_recorder" where
  "record_network_error now route_id latency = record_outcome (outcome_network_error now route_id latency)"

definition get_outcomes_for_route :: "outcome_recorder \<Rightarrow> string \<Rightarrow> execution_outcome list" where
  "get_outcomes_for_route r route_id = filter (\<lambda>x. effective_route x = route_id) (outcomes r)"

definition get_recent_outcomes :: "outcome_recorder \<Rightarrow> nat \<Rightarrow> execution_outcome list" where
  "get_recent_outcomes r n =
     (let start = (if n < length (outcomes r) then length (outcomes r) - n else 0)
      in drop start (outcomes r))"

definition get_all_outcomes :: "outcome_recorder \<Rightarrow> execution_outcome list" where
  "get_all_outcomes r = outcomes r"

definition recorder_clear :: "outcome_recorder \<Rightarrow> outcome_recorder" where
  "recorder_clear r = r\<lparr>outcomes := []\<rparr>"

definition recorder_len :: "outcome_recorder \<Rightarrow> nat" where
  "recorder_len r = length (outcomes r)"

definition recorder_is_empty :: "outcome_recorder \<Rightarrow> bool" where
  "recorder_is_empty r = (outcomes r = [])"

interpretation outcome_log: bounded_log outcomes max_outcomes record_outcome
  by unfold_locales (simp_all add: record_outcome_def Let_def)

section \<open>Properties\<close>

lemma from_status_code_None: "from_status_code c = None \<longleftrightarrow> c < 400"
  by (auto simp: from_status_code_def)

lemma get_recent_bound: "length (get_recent_outcomes r n) = min n (length (outcomes r))"
  by (simp add: get_recent_outcomes_def Let_def)

text \<open>The recorder is a sliding window: after any sequence of outcomes on a fresh recorder with a
  positive limit it holds exactly the latest ones, in the order recorded, and as many of them as the
  limit allows; \<open>get_recent_outcomes n\<close> returns the last \<open>n\<close> of those.\<close>

theorem recorder_keeps_latest:
  assumes "0 < n"
  shows "outcomes (fold record_outcome os (recorder_with_limit n)) = drop (length os - n) os
    \<and> get_recent_outcomes (fold record_outcome os (recorder_with_limit n)) k = drop (length os - min n k) os"
proof -
  have "outcomes (fold record_outcome os (recorder_with_limit n)) = drop (length os - n) os"
    using outcome_log.run_items[of "recorder_with_limit n" os] assms
    by (simp add: recorder_with_limit_def)
  then show ?thesis
    by (auto simp: get_recent_outcomes_def Let_def min_def intro!: arg_cong2[where f = drop])
qed

theorem recorder_keeps_latest_witness:
  "get_recent_outcomes (fold record_outcome [outcome_timeout 0 ''r'' f64_0, outcome_timeout 1 ''r'' f64_0,
      outcome_timeout 2 ''r'' f64_0] (recorder_with_limit 2)) 1 = [outcome_timeout 2 ''r'' f64_0]"
  using recorder_keeps_latest[of 2 "[outcome_timeout 0 ''r'' f64_0, outcome_timeout 1 ''r'' f64_0,
      outcome_timeout 2 ''r'' f64_0]" 1] by simp

text \<open>The classification of status codes: codes below 400 have no class, every other code has one;
  exactly 429, 408, 500, 502, 503 and 504 are retryable and exactly 401 and 403 are credential errors.
  In particular 501, 505 and every other code from 505 up are not retryable here.\<close>

theorem status_code_classification:
  "(from_status_code c = None \<longleftrightarrow> c < 400)
   \<and> ((\<exists>e. from_status_code c = Some e \<and> ec_is_retryable e) \<longleftrightarrow> c \<in> {408, 429, 500, 502, 503, 504})
   \<and> ((\<exists>e. from_status_code c = Some e \<and> is_credential_error e) \<longleftrightarrow> c \<in> {401, 403})"
  unfolding from_status_code_def is_credential_error_def by (cases "c < 400") auto

end
