(* ===== verification/Statistics.thy ===== *)
theory Statistics
  imports Outcome
begin

text \<open>
  Route statistics (src/routing/statistics.rs): per-route counters and averages, overall and per
  time bucket, cold-start priors and the aggregator keyed by the effective route of an outcome.
  The hour and the weekday of a timestamp are chrono's; they are parameters (\<open>calendar\<close>).
\<close>

section \<open>Time buckets\<close>

record calendar =
  cal_hour :: "time \<Rightarrow> nat"
  cal_weekday :: "time \<Rightarrow> nat"

datatype time_bucket =
    Peak | OffPeak | Weekday | Weekend
  | WeekdayPeak | WeekdayOffPeak | WeekendPeak | WeekendOffPeak
  | Hour nat | DayOfWeek nat

definition peak_hour_start :: nat where "peak_hour_start = 9"
definition peak_hour_end :: nat where "peak_hour_end = 21"

definition from_timestamp :: "calendar \<Rightarrow> time \<Rightarrow> time_bucket list" where
  "from_timestamp cal t =
     (let hour = cal_hour cal t;
          weekday = cal_weekday cal t mod 256;
          is_peak = (peak_hour_start \<le> hour \<and> hour < peak_hour_end);
          is_weekend = (weekday = 0 \<or> weekday = 6)
      in [if is_peak then Peak else OffPeak,
          if is_weekend then Weekend else Weekday,
          (case (is_weekend, is_peak) of
             (False, True) \<Rightarrow> WeekdayPeak
           | (False, False) \<Rightarrow> WeekdayOffPeak
           | (True, True) \<Rightarrow> WeekendPeak
           | (True, False) \<Rightarrow> WeekendOffPeak),
          Hour (hour mod 256), DayOfWeek weekday])"

definition peak_off_peak :: "calendar \<Rightarrow> time \<Rightarrow> time_bucket" where
  "peak_off_peak cal t = (let hour = cal_hour cal t
     in if peak_hour_start \<le> hour \<and> hour < peak_hour_end then Peak else OffPeak)"

definition weekday_weekend :: "calendar \<Rightarrow> time \<Rightarrow> time_bucket" where
  "weekday_weekend cal t = (let weekday = cal_weekday cal t
     in if weekday = 0 \<or> weekday = 6 then Weekend else Weekday)"

section \<open>Bucket statistics\<close>

record bucket_statistics =
  bs_total_requests :: u64
  bs_success_count :: u64
  bs_failure_count :: u64
  bs_success_rate :: f64
  bs_avg_latency_ms :: f64
  bs_p50_latency_ms :: f64
  bs_p95_latency_ms :: f64
  bs_p99_latency_ms :: f64
  bs_min_latency_ms :: f64
  bs_max_latency_ms :: f64
  bs_total_tokens :: u64
  bs_avg_tokens :: f64
  bs_error_counts :: "(error_class \<times> u64) list"
  bs_fallback_count :: u64
  bs_last_updated :: time

definition default_bucket :: "time \<Rightarrow> bucket_statistics" where
  "default_bucket now = \<lparr>bs_total_requests = 0, bs_success_count = 0, bs_failure_count = 0,
     bs_success_rate = f64_1, bs_avg_latency_ms = f64_0, bs_p50_latency_ms = f64_0,
     bs_p95_latency_ms = f64_0, bs_p99_latency_ms = f64_0, bs_min_latency_ms = f64_max_value,
     bs_max_latency_ms = f64_0, bs_total_tokens = 0, bs_avg_tokens = f64_0, bs_error_counts = [],
     bs_fallback_count = 0, bs_last_updated = now\<rparr>"

definition stats_ewma_alpha :: f64 where "stats_ewma_alpha = f64_of (2 / 10)"

text \<open>The steps of \<open>update_bucket_stats\<close>, in the order of the code.\<close>

definition bucket_count_request :: "time \<Rightarrow> bucket_statistics \<Rightarrow> bucket_statistics" where
  "bucket_count_request now s = s\<lparr>bs_total_requests := wrap_inc_u64 (bs_total_requests s),
     bs_last_updated := now\<rparr>"

definition bucket_count_result :: "execution_outcome \<Rightarrow> bucket_statistics \<Rightarrow> bucket_statistics" where
  "bucket_count_result x s =
     (if o_success x then s\<lparr>bs_success_count := wrap_inc_u64 (bs_success_count s)\<rparr>
      else
        let s = s\<lparr>bs_failure_count := wrap_inc_u64 (bs_failure_count s)\<rparr>
        in case o_error_class x of
             None \<Rightarrow> s
           | Some c \<Rightarrow> s\<lparr>bs_error_counts := hm_insert c
               (wrap_inc_u64 (case hm_get (bs_error_counts s) c of None \<Rightarrow> 0 | Some n \<Rightarrow> n))
               (bs_error_counts s)\<rparr>)"

definition bucket_count_fallback :: "execution_outcome \<Rightarrow> bucket_statistics \<Rightarrow> bucket_statistics" where
  "bucket_count_fallback x s = (if o_used_fallback x
     then s\<lparr>bs_fallback_count := wrap_inc_u64 (bs_fallback_count s)\<rparr> else s)"

definition bucket_success_rate :: "bucket_statistics \<Rightarrow> bucket_statistics" where
  "bucket_success_rate s = (if 0 < bs_total_requests s
     then s\<lparr>bs_success_rate := fdiv (f64_nat (bs_success_count s)) (f64_nat (bs_total_requests s))\<rparr> else s)"

definition bucket_latency :: "f64 \<Rightarrow> bucket_statistics \<Rightarrow> bucket_statistics" where
  "bucket_latency latency s =
     (if f64_0 < latency then
        s\<lparr>bs_avg_latency_ms := (if feq (bs_avg_latency_ms s) f64_0 then latency
             else ewma stats_ewma_alpha latency (bs_avg_latency_ms s)),
          bs_min_latency_ms := (if latency < bs_min_latency_ms s then latency else bs_min_latency_ms s),
          bs_max_latency_ms := (if bs_max_latency_ms s < latency then latency else bs_max_latency_ms s)\<rparr>
      else s)"

definition bucket_tokens :: "nat \<Rightarrow> bucket_statistics \<Rightarrow> bucket_statistics" where
  "bucket_tokens tokens s =
     (let s = s\<lparr>bs_total_tokens := wrap_add_u64 (bs_total_tokens s) tokens\<rparr>
      in if 0 < bs_total_requests s
         then s\<lparr>bs_avg_tokens := fdiv (f64_nat (bs_total_tokens s)) (f64_nat (bs_total_requests s))\<rparr> else s)"

definition update_bucket_stats :: "time \<Rightarrow> execution_outcome \<Rightarrow> bucket_statistics \<Rightarrow> bucket_statistics" where
  "update_bucket_stats now x s =
     bucket_tokens (total_tokens x) (bucket_latency (o_latency_ms x) (bucket_success_rate
       (bucket_count_fallback x (bucket_count_result x (bucket_count_request now s)))))"

section \<open>Route statistics\<close>

record route_statistics =
  rs_route_id :: string
  rs_overall :: bucket_statistics
  rs_time_buckets :: "(time_bucket \<times> bucket_statistics) list"
  rs_created_at :: time
  rs_updated_at :: time

text \<open>
  The clock readings of one recorded outcome: the creation of the route's record (when it is new),
  the update of the overall statistics, of each bucket, and the final time stamp. The reading of a
  bucket's default is overwritten by the update that follows it.
\<close>

record stats_clock =
  clk_default :: time
  clk_created :: time
  clk_overall :: time
  clk_bucket :: "time_bucket \<Rightarrow> time"
  clk_updated :: time

definition route_statistics_new :: "time \<Rightarrow> time \<Rightarrow> string \<Rightarrow> route_statistics" where
  "route_statistics_new t_default now route_id = \<lparr>rs_route_id = route_id,
     rs_overall = default_bucket t_default, rs_time_buckets = [], rs_created_at = now, rs_updated_at = now\<rparr>"

definition bump_bucket :: "(time_bucket \<Rightarrow> time) \<Rightarrow> execution_outcome \<Rightarrow> time_bucket \<Rightarrow>
    (time_bucket \<times> bucket_statistics) list \<Rightarrow> (time_bucket \<times> bucket_statistics) list" where
  "bump_bucket clk x b m = hm_insert b (update_bucket_stats (clk b) x
     (case hm_get m b of Some s \<Rightarrow> s | None \<Rightarrow> default_bucket (clk b))) m"

definition route_statistics_update ::
  "calendar \<Rightarrow> stats_clock \<Rightarrow> execution_outcome \<Rightarrow> route_statistics \<Rightarrow> route_statistics" where
  "route_statistics_update cal clk x r =
     r\<lparr>rs_overall := update_bucket_stats (clk_overall clk) x (rs_overall r),
       rs_time_buckets := fold (bump_bucket (clk_bucket clk) x) (from_timestamp cal (o_timestamp x)) (rs_time_buckets r),
       rs_updated_at := clk_updated clk\<rparr>"

definition get_bucket_stats :: "route_statistics \<Rightarrow> time_bucket \<Rightarrow> bucket_statistics option" where
  "get_bucket_stats r b = hm_get (rs_time_buckets r) b"

definition get_all_buckets :: "route_statistics \<Rightarrow> (time_bucket \<times> bucket_statistics) list" where
  "get_all_buckets r = rs_time_buckets r"

section \<open>Cold-start priors\<close>

record cold_start_priors =
  provider_priors :: "bucket_statistics hmap"
  tier_priors :: "bucket_statistics hmap"
  neutral_prior :: bucket_statistics

definition default_priors :: "time \<Rightarrow> cold_start_priors" where
  "default_priors now = \<lparr>provider_priors = [], tier_priors = [], neutral_prior = \<lparr>
     bs_total_requests = 10, bs_success_count = 9, bs_failure_count = 1,
     bs_success_rate = f64_of (9 / 10), bs_avg_latency_ms = f64_nat 500, bs_p50_latency_ms = f64_nat 400,
     bs_p95_latency_ms = f64_nat 800, bs_p99_latency_ms = f64_nat 1200, bs_min_latency_ms = f64_nat 100,
     bs_max_latency_ms = f64_nat 2000, bs_total_tokens = 5000, bs_avg_tokens = f64_nat 500,
     bs_error_counts = [], bs_fallback_count = 0, bs_last_updated = now\<rparr>\<rparr>"

definition set_provider_prior :: "string \<Rightarrow> bucket_statistics \<Rightarrow> cold_start_priors \<Rightarrow> cold_start_priors" where
  "set_provider_prior provider prior p = p\<lparr>provider_priors := hm_insert provider prior (provider_priors p)\<rparr>"

definition set_tier_prior :: "string \<Rightarrow> bucket_statistics \<Rightarrow> cold_start_priors \<Rightarrow> cold_start_priors" where
  "set_tier_prior tier prior p = p\<lparr>tier_priors := hm_insert tier prior (tier_priors p)\<rparr>"

definition get_prior :: "cold_start_priors \<Rightarrow> string option \<Rightarrow> string option \<Rightarrow> bucket_statistics" where
  "get_prior p provider tier =
     (case Option.bind provider (hm_get (provider_priors p)) of
        Some prior \<Rightarrow> prior
      | None \<Rightarrow> (case Option.bind tier (hm_get (tier_priors p)) of
          Some prior \<Rightarrow> prior
        | None \<Rightarrow> neutral_prior p))"

definition priors_initialize_route ::
  "time \<Rightarrow> time \<Rightarrow> cold_start_priors \<Rightarrow> string \<Rightarrow> string option \<Rightarrow> string option \<Rightarrow> route_statistics" where
  "priors_initialize_route t_default now p route_id provider tier =
     (route_statistics_new t_default now route_id)\<lparr>rs_overall := get_prior p provider tier\<rparr>"

section \<open>The aggregator\<close>

record statistics_aggregator =
  sa_route_stats :: "route_statistics hmap"
  sa_priors :: cold_start_priors
  sa_max_age_days :: i64

definition aggregator_with_priors :: "cold_start_priors \<Rightarrow> statistics_aggregator" where
  "aggregator_with_priors p = \<lparr>sa_route_stats = [], sa_priors = p, sa_max_age_days = 30\<rparr>"

definition aggregator_new :: "time \<Rightarrow> statistics_aggregator" where
  "aggregator_new now = \<lparr>sa_route_stats = [], sa_priors = default_priors now, sa_max_age_days = 30\<rparr>"

definition aggregator_record ::
  "calendar \<Rightarrow> stats_clock \<Rightarrow> execution_outcome \<Rightarrow> statistics_aggregator \<Rightarrow> statistics_aggregator" where
  "aggregator_record cal clk x a =
     (let route_id = effective_route x;
          r = (case hm_get (sa_route_stats a) route_id of Some r \<Rightarrow> r
               | None \<Rightarrow> route_statistics_new (clk_default clk) (clk_created clk) route_id)
      in a\<lparr>sa_route_stats := hm_insert route_id (route_statistics_update cal clk x r) (sa_route_stats a)\<rparr>)"

definition get_stats :: "statistics_aggregator \<Rightarrow> string \<Rightarrow> route_statistics option" where
  "get_stats a route_id = hm_get (sa_route_stats a) route_id"

definition get_all_stats :: "statistics_aggregator \<Rightarrow> route_statistics hmap" where
  "get_all_stats a = sa_route_stats a"

definition initialize_route ::
  "time \<Rightarrow> time \<Rightarrow> string \<Rightarrow> string option \<Rightarrow> string option \<Rightarrow> statistics_aggregator \<Rightarrow> statistics_aggregator" where
  "initialize_route t_default now route_id provider tier a =
     (if hm_get (sa_route_stats a) route_id = None
      then a\<lparr>sa_route_stats := hm_insert route_id
             (priors_initialize_route t_default now (sa_priors a) route_id provider tier) (sa_route_stats a)\<rparr>
      else a)"

definition cleanup_old :: "time \<Rightarrow> statistics_aggregator \<Rightarrow> statistics_aggregator" where
  "cleanup_old now a =
     (let cutoff = now - seconds (sa_max_age_days a * 86400)
      in a\<lparr>sa_route_stats := hm_retain (\<lambda>r. cutoff < rs_updated_at r) (sa_route_stats a)\<rparr>)"

definition reset_route :: "string \<Rightarrow> statistics_aggregator \<Rightarrow> statistics_aggregator" where
  "reset_route route_id a = a\<lparr>sa_route_stats := hm_remove route_id (sa_route_stats a)\<rparr>"

definition aggregator_reset_all :: "statistics_aggregator \<Rightarrow> statistics_aggregator" where
  "aggregator_reset_all a = a\<lparr>sa_route_stats := []\<rparr>"

section \<open>What the statistics summarise\<close>

text \<open>
  \<open>bucket_summary xs s\<close>: the counters of \<open>s\<close> count the outcomes \<open>xs\<close> (modulo the 64 bits they have),
  the two averages are the quotients of the counters, and the percentiles have their initial value.
\<close>

definition times :: "('a \<Rightarrow> bool) \<Rightarrow> 'a list \<Rightarrow> u64" where
  "times P xs = length (filter P xs) mod 2 ^ 64"

definition bucket_summary :: "execution_outcome list \<Rightarrow> bucket_statistics \<Rightarrow> bool" where
  "bucket_summary xs s \<longleftrightarrow>
     bs_total_requests s = length xs mod 2 ^ 64
     \<and> bs_success_count s = times o_success xs
     \<and> bs_failure_count s = times (Not \<circ> o_success) xs
     \<and> bs_fallback_count s = times o_used_fallback xs
     \<and> (\<forall>c. (case hm_get (bs_error_counts s) c of None \<Rightarrow> 0 | Some n \<Rightarrow> n)
            = times (\<lambda>x. \<not> o_success x \<and> o_error_class x = Some c) xs)
     \<and> bs_total_tokens s = sum_list (map total_tokens xs) mod 2 ^ 64
     \<and> (0 < bs_total_requests s \<longrightarrow>
          bs_success_rate s = fdiv (f64_nat (bs_success_count s)) (f64_nat (bs_total_requests s))
          \<and> bs_avg_tokens s = fdiv (f64_nat (bs_total_tokens s)) (f64_nat (bs_total_requests s)))
     \<and> bs_p50_latency_ms s = f64_0 \<and> bs_p95_latency_ms s = f64_0 \<and> bs_p99_latency_ms s = f64_0"

lemma times_Nil [simp]: "times P [] = 0"
  by (simp add: times_def)

lemma times_snoc [simp]: "times P (xs @ [x]) = (if P x then wrap_inc_u64 (times P xs) else times P xs)"
  by (simp add: times_def wrap_inc_u64_def mod_Suc_eq)

lemma bucket_summary_default [simp]: "bucket_summary [] (default_bucket now)"
  by (simp add: bucket_summary_def default_bucket_def)

lemmas bucket_steps = bucket_tokens_def bucket_latency_def bucket_success_rate_def
  bucket_count_fallback_def bucket_count_request_def

lemma bucket_count_result_fields [simp]:
  "bs_total_requests (bucket_count_result x s) = bs_total_requests s"
  "bs_success_count (bucket_count_result x s) =
     (if o_success x then wrap_inc_u64 (bs_success_count s) else bs_success_count s)"
  "bs_failure_count (bucket_count_result x s) =
     (if o_success x then bs_failure_count s else wrap_inc_u64 (bs_failure_count s))"
  "bs_fallback_count (bucket_count_result x s) = bs_fallback_count s"
  "bs_total_tokens (bucket_count_result x s) = bs_total_tokens s"
  "bs_p50_latency_ms (bucket_count_result x s) = bs_p50_latency_ms s"
  "bs_p95_latency_ms (bucket_count_result x s) = bs_p95_latency_ms s"
  "bs_p99_latency_ms (bucket_count_result x s) = bs_p99_latency_ms s"
  "(case hm_get (bs_error_counts (bucket_count_result x s)) c of None \<Rightarrow> 0 | Some n \<Rightarrow> n) =
     (if \<not> o_success x \<and> o_error_class x = Some c
      then wrap_inc_u64 (case hm_get (bs_error_counts s) c of None \<Rightarrow> 0 | Some n \<Rightarrow> n)
      else (case hm_get (bs_error_counts s) c of None \<Rightarrow> 0 | Some n \<Rightarrow> n))"
  by (auto simp: bucket_count_result_def Let_def store_simps split: option.split)

lemma update_bucket_counters:
  fixes now x s
  defines "u \<equiv> update_bucket_stats now x s"
  shows "bs_total_requests u = wrap_inc_u64 (bs_total_requests s)"
    "bs_success_count u = (if o_success x then wrap_inc_u64 (bs_success_count s) else bs_success_count s)"
    "bs_failure_count u = (if o_success x then bs_failure_count s else wrap_inc_u64 (bs_failure_count s))"
    "bs_fallback_count u = (if o_used_fallback x then wrap_inc_u64 (bs_fallback_count s) else bs_fallback_count s)"
    "bs_error_counts u = bs_error_counts (bucket_count_result x s)"
    "bs_total_tokens u = wrap_add_u64 (bs_total_tokens s) (total_tokens x)"
    "bs_p50_latency_ms u = bs_p50_latency_ms s" "bs_p95_latency_ms u = bs_p95_latency_ms s"
    "bs_p99_latency_ms u = bs_p99_latency_ms s"
  unfolding u_def update_bucket_stats_def
  by (simp_all add: bucket_steps bucket_count_result_def Let_def split: option.split)

lemma bucket_rate_fields:
  "bs_total_requests (bucket_tokens n s) = bs_total_requests s"
  "bs_success_count (bucket_tokens n s) = bs_success_count s"
  "bs_success_rate (bucket_tokens n s) = bs_success_rate s"
  "bs_avg_tokens (bucket_tokens n s) = (if 0 < bs_total_requests s
     then fdiv (f64_nat (bs_total_tokens (bucket_tokens n s))) (f64_nat (bs_total_requests s)) else bs_avg_tokens s)"
  "bs_total_requests (bucket_latency l s) = bs_total_requests s"
  "bs_success_count (bucket_latency l s) = bs_success_count s"
  "bs_success_rate (bucket_latency l s) = bs_success_rate s"
  "bs_total_requests (bucket_success_rate s) = bs_total_requests s"
  "bs_success_count (bucket_success_rate s) = bs_success_count s"
  "bs_success_rate (bucket_success_rate s) = (if 0 < bs_total_requests s
     then fdiv (f64_nat (bs_success_count s)) (f64_nat (bs_total_requests s)) else bs_success_rate s)"
  by (simp_all add: bucket_tokens_def bucket_latency_def bucket_success_rate_def Let_def)

lemma update_bucket_rates:
  fixes now x s
  defines "u \<equiv> update_bucket_stats now x s"
  assumes "0 < bs_total_requests u"
  shows "bs_success_rate u = fdiv (f64_nat (bs_success_count u)) (f64_nat (bs_total_requests u))"
    and "bs_avg_tokens u = fdiv (f64_nat (bs_total_tokens u)) (f64_nat (bs_total_requests u))"
  using assms(2) unfolding u_def update_bucket_stats_def
  by (simp_all add: bucket_rate_fields)

lemma bucket_summary_update:
  assumes s: "bucket_summary xs s"
  shows "bucket_summary (xs @ [x]) (update_bucket_stats now x s)"
proof -
  have "bs_total_requests (update_bucket_stats now x s) = length (xs @ [x]) mod 2 ^ 64"
    using s by (simp only: update_bucket_counters bucket_summary_def wrap_inc_u64_def)
      (simp only: mod_add_left_eq length_append list.size One_nat_def add_0 mod_Suc_eq add_Suc_right add_0_right)
  moreover have "bs_total_tokens (update_bucket_stats now x s) = sum_list (map total_tokens (xs @ [x])) mod 2 ^ 64"
    using s by (simp only: update_bucket_counters bucket_summary_def wrap_add_u64_def mod_add_left_eq
        map_append sum_list_append list.map sum_list_simps add_0_right)
  moreover have "(case hm_get (bs_error_counts (update_bucket_stats now x s)) c of None \<Rightarrow> 0 | Some n \<Rightarrow> n)
      = times (\<lambda>x. \<not> o_success x \<and> o_error_class x = Some c) (xs @ [x])" for c
    using s by (simp only: update_bucket_counters bucket_count_result_fields bucket_summary_def times_snoc)
  ultimately show ?thesis
    using s update_bucket_rates[of now x s] unfolding bucket_summary_def
    by (simp only: update_bucket_counters(2-4,7-9) times_snoc o_def) simp
qed

text \<open>A keyed store of summaries: an absent key stands for no outcome.\<close>

definition summarises :: "('x list \<Rightarrow> 's \<Rightarrow> bool) \<Rightarrow> 'x list \<Rightarrow> 's option \<Rightarrow> bool" where
  "summarises P xs r = (case r of None \<Rightarrow> xs = [] | Some s \<Rightarrow> P xs s)"

definition in_bucket :: "calendar \<Rightarrow> time_bucket \<Rightarrow> execution_outcome \<Rightarrow> bool" where
  "in_bucket cal b x \<longleftrightarrow> b \<in> set (from_timestamp cal (o_timestamp x))"

definition route_summary :: "calendar \<Rightarrow> execution_outcome list \<Rightarrow> route_statistics \<Rightarrow> bool" where
  "route_summary cal xs r \<longleftrightarrow> bucket_summary xs (rs_overall r)
     \<and> (\<forall>b. summarises bucket_summary (filter (in_bucket cal b) xs) (get_bucket_stats r b))"

lemma distinct_from_timestamp: "distinct (from_timestamp cal t)"
  by (simp add: from_timestamp_def Let_def split: bool.split)

lemma get_fold_bump:
  "distinct bs \<Longrightarrow> hm_get (fold (bump_bucket clk x) bs m) b = (if b \<in> set bs
     then Some (update_bucket_stats (clk b) x (case hm_get m b of Some s \<Rightarrow> s | None \<Rightarrow> default_bucket (clk b)))
     else hm_get m b)"
  by (induction bs arbitrary: m) (auto simp: bump_bucket_def store_simps)

lemma route_summary_update:
  assumes "route_summary cal xs r"
  shows "route_summary cal (xs @ [x]) (route_statistics_update cal clk x r)"
proof -
  have "summarises bucket_summary (filter (in_bucket cal b) (xs @ [x]))
      (get_bucket_stats (route_statistics_update cal clk x r) b)" for b
  proof -
    have prev: "summarises bucket_summary (filter (in_bucket cal b) xs) (hm_get (rs_time_buckets r) b)"
      using assms by (simp add: route_summary_def get_bucket_stats_def)
    show ?thesis
      using prev bucket_summary_update[of "filter (in_bucket cal b) xs"]
        bucket_summary_update[OF bucket_summary_default]
      by (auto simp: get_bucket_stats_def route_statistics_update_def get_fold_bump
          distinct_from_timestamp summarises_def in_bucket_def split: option.splits)
  qed
  with assms show ?thesis
    by (simp add: route_summary_def bucket_summary_update route_statistics_update_def)
qed

lemma route_summary_new: "route_summary cal [] (route_statistics_new t now r)"
  by (simp add: route_summary_def route_statistics_new_def get_bucket_stats_def summarises_def)

lemma aggregator_run_summary:
  "summarises (route_summary cal) (filter (\<lambda>x. effective_route x = r) (map snd es))
     (get_stats (fold (\<lambda>(clk, x). aggregator_record cal clk x) es (aggregator_with_priors p)) r)"
proof (induction es rule: rev_induct)
  case (snoc e es)
  obtain clk x where "e = (clk, x)" by (cases e)
  then show ?case
    using snoc.IH route_summary_update route_summary_update[OF route_summary_new]
    by (auto simp: get_stats_def aggregator_record_def Let_def store_simps summarises_def
        split: option.splits)
qed (simp add: aggregator_with_priors_def get_stats_def summarises_def)

section \<open>Properties\<close>

text \<open>The aggregator's statistics are a function of the recorded outcomes: a route has a record
  exactly when some outcome is charged to it (the fallback's outcomes to the route they replace), its
  overall counters count those outcomes, each time bucket counts the ones whose time stamp falls in
  it, the rates are the quotients of the counters, and the percentile fields are never updated.\<close>

theorem aggregator_summarises_outcomes:
  "summarises (route_summary cal) (filter (\<lambda>x. effective_route x = r) (map snd es))
     (get_stats (fold (\<lambda>(clk, x). aggregator_record cal clk x) es (aggregator_new t)) r)"
  using aggregator_run_summary[of cal r es "default_priors t"]
  by (simp add: aggregator_new_def aggregator_with_priors_def)

lemma bucket_total:
  assumes "summarises bucket_summary ys s" and "length ys < 2 ^ 64"
  shows "(case s of None \<Rightarrow> 0 | Some b \<Rightarrow> bs_total_requests b) = length ys"
  using assms by (auto simp: summarises_def bucket_summary_def split: option.splits)

lemma in_one_bucket:
  "in_bucket cal OffPeak x \<longleftrightarrow> \<not> in_bucket cal Peak x"
  "in_bucket cal Weekend x \<longleftrightarrow> \<not> in_bucket cal Weekday x"
  "in_bucket cal WeekdayPeak x \<longleftrightarrow> in_bucket cal Weekday x \<and> in_bucket cal Peak x"
  "in_bucket cal WeekdayOffPeak x \<longleftrightarrow> in_bucket cal Weekday x \<and> \<not> in_bucket cal Peak x"
  "in_bucket cal WeekendPeak x \<longleftrightarrow> \<not> in_bucket cal Weekday x \<and> in_bucket cal Peak x"
  "in_bucket cal WeekendOffPeak x \<longleftrightarrow> \<not> in_bucket cal Weekday x \<and> \<not> in_bucket cal Peak x"
  by (simp_all add: in_bucket_def from_timestamp_def Let_def split: bool.split)

lemma length_filter_split:
  "length (filter P xs) + length (filter (\<lambda>x. \<not> P x) xs) = length xs"
  "length (filter (\<lambda>x. Q x \<and> P x) xs) + length (filter (\<lambda>x. Q x \<and> \<not> P x) xs) = length (filter Q xs)"
  by (induction xs) auto

definition bucket_requests :: "route_statistics \<Rightarrow> time_bucket \<Rightarrow> u64" where
  "bucket_requests rs b = (case get_bucket_stats rs b of None \<Rightarrow> 0 | Some s \<Rightarrow> bs_total_requests s)"

text \<open>The time buckets partition a route's requests: peak and off-peak add up to the overall total,
  so do weekday and weekend, and the four compound buckets refine both divisions.\<close>

theorem buckets_partition_requests:
  assumes "get_stats (fold (\<lambda>(clk, x). aggregator_record cal clk x) es (aggregator_new t)) r = Some rs"
    and "length es < 2 ^ 64"
  shows "bucket_requests rs Peak + bucket_requests rs OffPeak = bs_total_requests (rs_overall rs)
    \<and> bucket_requests rs Weekday + bucket_requests rs Weekend = bs_total_requests (rs_overall rs)
    \<and> bucket_requests rs WeekdayPeak + bucket_requests rs WeekdayOffPeak = bucket_requests rs Weekday
    \<and> bucket_requests rs WeekendPeak + bucket_requests rs WeekendOffPeak = bucket_requests rs Weekend"
proof -
  let ?xs = "filter (\<lambda>x. effective_route x = r) (map snd es)"
  have s: "route_summary cal ?xs rs"
    using aggregator_run_summary[of cal r es "default_priors t"] assms(1)
    by (simp add: aggregator_new_def aggregator_with_priors_def summarises_def)
  have len: "length (filter P ?xs) < 2 ^ 64" "length ?xs < 2 ^ 64" for P
    using assms(2) length_filter_le[of P ?xs] length_filter_le[of "\<lambda>x. effective_route x = r" "map snd es"]
    unfolding length_map by linarith+
  have b: "bucket_requests rs b = length (filter (in_bucket cal b) ?xs)" for b
    unfolding bucket_requests_def using s len(1) by (intro bucket_total) (auto simp: route_summary_def)
  have total: "bs_total_requests (rs_overall rs) = length ?xs"
    using s len(2) by (simp add: route_summary_def bucket_summary_def)
  show ?thesis unfolding b total in_one_bucket
    using length_filter_split(1)[of "in_bucket cal Peak" ?xs] length_filter_split(1)[of "in_bucket cal Weekday" ?xs]
      length_filter_split(2)[where Q = "in_bucket cal Weekday" and P = "in_bucket cal Peak" and xs = ?xs]
      length_filter_split(2)[where Q = "\<lambda>x. \<not> in_bucket cal Weekday x" and P = "in_bucket cal Peak" and xs = ?xs]
    by simp
qed

theorem buckets_partition_requests_witness:
  "\<exists>rs. get_stats (fold (\<lambda>(clk, x). aggregator_record \<lparr>cal_hour = \<lambda>_. 10, cal_weekday = \<lambda>_. 3\<rparr> clk x)
       [(\<lparr>clk_default = 0, clk_created = 0, clk_overall = 0, clk_bucket = \<lambda>_. 0, clk_updated = 0\<rparr>,
         outcome_timeout 0 ''r'' f64_1)] (aggregator_new 0)) ''r'' = Some rs
     \<and> bucket_requests rs Peak + bucket_requests rs OffPeak = bs_total_requests (rs_overall rs)"
proof -
  let ?cal = "\<lparr>cal_hour = \<lambda>_. 10, cal_weekday = \<lambda>_. 3\<rparr> :: calendar"
  let ?es = "[(\<lparr>clk_default = 0, clk_created = 0, clk_overall = 0, clk_bucket = \<lambda>_. 0, clk_updated = 0\<rparr>,
         outcome_timeout 0 ''r'' f64_1)]"
  obtain rs where "get_stats (fold (\<lambda>(clk, x). aggregator_record ?cal clk x) ?es (aggregator_new 0)) ''r'' = Some rs"
    by (simp add: get_stats_def aggregator_new_def aggregator_record_def outcome_timeout_def
        effective_route_def Let_def store_simps)
  with buckets_partition_requests[OF this] show ?thesis by simp
qed

text \<open>Cold start: a route without record takes the provider's prior, else the tier's, else the
  neutral one, and a later initialisation with other arguments leaves that record alone.\<close>

theorem cold_start_priors_apply:
  assumes "get_stats a route_id = None"
  shows "\<exists>r. get_stats (initialize_route t now route_id provider tier a) route_id = Some r
      \<and> rs_overall r = (if provider \<noteq> None \<and> hm_get (provider_priors (sa_priors a)) (the provider) \<noteq> None
           then the (hm_get (provider_priors (sa_priors a)) (the provider))
         else if tier \<noteq> None \<and> hm_get (tier_priors (sa_priors a)) (the tier) \<noteq> None
           then the (hm_get (tier_priors (sa_priors a)) (the tier))
         else neutral_prior (sa_priors a))
      \<and> initialize_route t' now' route_id provider' tier' (initialize_route t now route_id provider tier a)
         = initialize_route t now route_id provider tier a"
  using assms
  by (cases provider; cases tier)
    (auto simp: get_stats_def initialize_route_def priors_initialize_route_def get_prior_def
      store_simps split: option.split)

theorem cold_start_priors_apply_witness:
  "\<exists>r. get_stats (initialize_route 0 0 ''r'' (Some ''openai'') None (aggregator_new 0)) ''r'' = Some r
     \<and> bs_total_requests (rs_overall r) = 10"
  using cold_start_priors_apply[of "aggregator_new 0" "''r''" 0 0 "Some ''openai''" None 0 0 None None]
  by (auto simp: get_stats_def aggregator_new_def default_priors_def)

end
