(* ===== verification/History.thy ===== *)
theory History
  imports Statistics
begin

text \<open>
  Attempt history (src/routing/history.rs): the decision context of a selection, the attempt that
  joins it with an outcome, the bounded history with its queries and percentile metrics, and the
  tracking system that feeds both the statistics and the history.
\<close>

section \<open>Decisions and attempts\<close>

datatype selection_mode = Weighted | Thompson | TimeAware | QuotaAware | Adaptive | Fallback | Manual

record decision_context =
  dc_request_id :: string
  dc_model_id :: string
  dc_candidates :: "string list"
  dc_selection_mode :: selection_mode
  dc_predicted_utilities :: "f64 hmap"
  dc_weights :: "f64 hmap"
  dc_selected_route :: string
  dc_timestamp :: time
  dc_reasoning :: "string option"

definition decision_context_new ::
  "time \<Rightarrow> string \<Rightarrow> string \<Rightarrow> string list \<Rightarrow> selection_mode \<Rightarrow> string \<Rightarrow> decision_context" where
  "decision_context_new now request_id model_id candidates mode route = \<lparr>dc_request_id = request_id,
     dc_model_id = model_id, dc_candidates = candidates, dc_selection_mode = mode,
     dc_predicted_utilities = [], dc_weights = [], dc_selected_route = route, dc_timestamp = now,
     dc_reasoning = None\<rparr>"

definition with_predicted_utilities :: "f64 hmap \<Rightarrow> decision_context \<Rightarrow> decision_context" where
  "with_predicted_utilities us d = d\<lparr>dc_predicted_utilities := us\<rparr>"

definition with_weights :: "f64 hmap \<Rightarrow> decision_context \<Rightarrow> decision_context" where
  "with_weights ws d = d\<lparr>dc_weights := ws\<rparr>"

definition with_reasoning :: "string \<Rightarrow> decision_context \<Rightarrow> decision_context" where
  "with_reasoning r d = d\<lparr>dc_reasoning := Some r\<rparr>"

definition get_predicted_utility :: "decision_context \<Rightarrow> string \<Rightarrow> f64 option" where
  "get_predicted_utility d route_id = hm_get (dc_predicted_utilities d) route_id"

definition get_weight :: "decision_context \<Rightarrow> string \<Rightarrow> f64 option" where
  "get_weight d route_id = hm_get (dc_weights d) route_id"

record route_attempt =
  ra_attempt_id :: string
  ra_request_id :: string
  ra_decision_context :: decision_context
  ra_outcome :: execution_outcome
  ra_started_at :: time
  ra_completed_at :: time

text \<open>\<open>timestamp_nanos_opt().unwrap_or(0) % 1_000_000\<close>: \<open>None\<close> outside \<open>i64\<close>, truncated remainder.\<close>

definition attempt_nanos :: "time \<Rightarrow> int" where
  "attempt_nanos t = (let n = (if - (2 ^ 63) \<le> t \<and> t \<le> i64_max then t else 0)
     in if 0 \<le> n then n mod 1000000 else - ((- n) mod 1000000))"

definition attempt_new :: "string \<Rightarrow> decision_context \<Rightarrow> execution_outcome \<Rightarrow> route_attempt" where
  "attempt_new request_id d x =
     (let started_at = dc_timestamp d; completed_at = o_timestamp x;
          (started_at, completed_at) = (if started_at \<le> completed_at
             then (started_at, completed_at) else (completed_at, started_at))
      in \<lparr>ra_attempt_id = show_int (started_at div nanos_per_second) @ ''-'' @ show_int (attempt_nanos started_at),
          ra_request_id = request_id, ra_decision_context = d, ra_outcome = x,
          ra_started_at = started_at, ra_completed_at = completed_at\<rparr>)"

definition attempt_duration :: "route_attempt \<Rightarrow> int" where
  "attempt_duration a = ra_completed_at a - ra_started_at a"

definition attempt_is_successful :: "route_attempt \<Rightarrow> bool" where
  "attempt_is_successful a = o_success (ra_outcome a)"

definition attempt_used_fallback :: "route_attempt \<Rightarrow> bool" where
  "attempt_used_fallback a = o_used_fallback (ra_outcome a)"

section \<open>The history\<close>

record attempt_history =
  attempts :: "route_attempt list"
  max_attempts :: nat

definition history_new :: attempt_history where
  "history_new = \<lparr>attempts = [], max_attempts = 100000\<rparr>"

definition history_with_limit :: "nat \<Rightarrow> attempt_history" where
  "history_with_limit n = \<lparr>attempts = [], max_attempts = (if 0 < n then n else 100000)\<rparr>"

definition history_record :: "route_attempt \<Rightarrow> attempt_history \<Rightarrow> attempt_history" where
  "history_record a h =
     (if max_attempts h = 0 then h
      else
        let as = attempts h @ [a]
        in h\<lparr>attempts := (if max_attempts h < length as then drop (length as - max_attempts h) as else as)\<rparr>)"

definition get_attempts_for_request :: "attempt_history \<Rightarrow> string \<Rightarrow> route_attempt list" where
  "get_attempts_for_request h request_id = filter (\<lambda>a. ra_request_id a = request_id) (attempts h)"

definition get_attempts_for_route :: "attempt_history \<Rightarrow> string \<Rightarrow> route_attempt list" where
  "get_attempts_for_route h route_id = filter (\<lambda>a. effective_route (ra_outcome a) = route_id) (attempts h)"

definition get_attempts_for_model :: "attempt_history \<Rightarrow> string \<Rightarrow> route_attempt list" where
  "get_attempts_for_model h model_id = filter (\<lambda>a. dc_model_id (ra_decision_context a) = model_id) (attempts h)"

definition get_attempts_by_selection_mode :: "attempt_history \<Rightarrow> selection_mode \<Rightarrow> route_attempt list" where
  "get_attempts_by_selection_mode h mode =
     filter (\<lambda>a. dc_selection_mode (ra_decision_context a) = mode) (attempts h)"

definition get_recent_attempts :: "attempt_history \<Rightarrow> nat \<Rightarrow> route_attempt list" where
  "get_recent_attempts h n =
     (let start = (if n < length (attempts h) then length (attempts h) - n else 0)
      in drop start (attempts h))"

definition get_attempts_in_range :: "attempt_history \<Rightarrow> time \<Rightarrow> time \<Rightarrow> route_attempt list" where
  "get_attempts_in_range h t1 t2 = filter (\<lambda>a. t1 \<le> ra_started_at a \<and> ra_started_at a \<le> t2) (attempts h)"

definition get_all_attempts :: "attempt_history \<Rightarrow> route_attempt list" where
  "get_all_attempts h = attempts h"

definition count_where :: "('a \<Rightarrow> bool) \<Rightarrow> 'a list \<Rightarrow> nat" where
  "count_where P xs = length (filter P xs)"

definition sum_f64 :: "f64 list \<Rightarrow> f64" where
  "sum_f64 xs = fold (\<lambda>x acc. fadd acc x) xs f64_0"

definition get_success_rate_for_route :: "attempt_history \<Rightarrow> string \<Rightarrow> f64 option" where
  "get_success_rate_for_route h route_id =
     (let as = get_attempts_for_route h route_id
      in if as = [] then None
         else Some (fdiv (f64_nat (count_where attempt_is_successful as)) (f64_nat (length as))))"

definition get_avg_latency_for_route :: "attempt_history \<Rightarrow> string \<Rightarrow> f64 option" where
  "get_avg_latency_for_route h route_id =
     (let as = get_attempts_for_route h route_id
      in if as = [] then None
         else Some (fdiv (sum_f64 (map (\<lambda>a. o_latency_ms (ra_outcome a)) as)) (f64_nat (length as))))"

definition get_fallback_rate_for_route :: "attempt_history \<Rightarrow> string \<Rightarrow> f64 option" where
  "get_fallback_rate_for_route h route_id =
     (let as = get_attempts_for_route h route_id
      in if as = [] then None
         else Some (fdiv (f64_nat (count_where attempt_used_fallback as)) (f64_nat (length as))))"

definition get_selection_mode_distribution :: "attempt_history \<Rightarrow> (selection_mode \<times> nat) list" where
  "get_selection_mode_distribution h =
     fold (\<lambda>a m. let mode = dc_selection_mode (ra_decision_context a)
        in hm_insert mode ((case hm_get m mode of None \<Rightarrow> 0 | Some n \<Rightarrow> n) + 1) m) (attempts h) []"

definition history_clear :: "attempt_history \<Rightarrow> attempt_history" where
  "history_clear h = h\<lparr>attempts := []\<rparr>"

definition history_len :: "attempt_history \<Rightarrow> nat" where
  "history_len h = length (attempts h)"

definition history_is_empty :: "attempt_history \<Rightarrow> bool" where
  "history_is_empty h = (attempts h = [])"

section \<open>Metrics of a route's attempts\<close>

record attempt_metrics =
  am_total_attempts :: u64
  am_successful_attempts :: u64
  am_failed_attempts :: u64
  am_fallback_attempts :: u64
  am_success_rate :: f64
  am_avg_latency_ms :: f64
  am_p50_latency_ms :: f64
  am_p95_latency_ms :: f64
  am_p99_latency_ms :: f64
  am_selection_mode_distribution :: "u64 hmap"

fun mode_debug :: "selection_mode \<Rightarrow> string" where
  "mode_debug Weighted = ''Weighted''"
| "mode_debug Thompson = ''Thompson''"
| "mode_debug TimeAware = ''TimeAware''"
| "mode_debug QuotaAware = ''QuotaAware''"
| "mode_debug Adaptive = ''Adaptive''"
| "mode_debug Fallback = ''Fallback''"
| "mode_debug Manual = ''Manual''"

definition percentile :: "nat \<Rightarrow> f64 list \<Rightarrow> f64" where
  "percentile q latencies = latencies ! min (length latencies * q div 100) (length latencies - 1)"

definition calculate_metrics_for_route :: "attempt_history \<Rightarrow> string \<Rightarrow> attempt_metrics option" where
  "calculate_metrics_for_route h route_id =
     (let as = get_attempts_for_route h route_id
      in if as = [] then None
         else
           let total = length as;
               successful = count_where attempt_is_successful as;
               latencies = sort_key total_key (map (\<lambda>a. o_latency_ms (ra_outcome a)) as)
           in Some \<lparr>am_total_attempts = total, am_successful_attempts = successful,
                am_failed_attempts = total - successful,
                am_fallback_attempts = count_where attempt_used_fallback as,
                am_success_rate = fdiv (f64_nat successful) (f64_nat total),
                am_avg_latency_ms = fdiv (sum_f64 latencies) (f64_nat (length latencies)),
                am_p50_latency_ms = percentile 50 latencies,
                am_p95_latency_ms = percentile 95 latencies,
                am_p99_latency_ms = percentile 99 latencies,
                am_selection_mode_distribution =
                  map (\<lambda>(mode, n). (mode_debug mode, n)) (get_selection_mode_distribution h)\<rparr>)"

section \<open>The tracking system\<close>

record tracking_system =
  ts_statistics :: statistics_aggregator
  ts_history :: attempt_history

definition tracking_new :: "time \<Rightarrow> tracking_system" where
  "tracking_new now = \<lparr>ts_statistics = aggregator_new now, ts_history = history_new\<rparr>"

definition tracking_with_config :: "statistics_aggregator \<Rightarrow> attempt_history \<Rightarrow> tracking_system" where
  "tracking_with_config a h = \<lparr>ts_statistics = a, ts_history = h\<rparr>"

definition record_attempt :: "calendar \<Rightarrow> stats_clock \<Rightarrow> route_attempt \<Rightarrow> tracking_system \<Rightarrow> tracking_system" where
  "record_attempt cal clk a t = t\<lparr>ts_statistics := aggregator_record cal clk (ra_outcome a) (ts_statistics t),
     ts_history := history_record a (ts_history t)\<rparr>"

definition tracking_record_outcome ::
  "calendar \<Rightarrow> stats_clock \<Rightarrow> execution_outcome \<Rightarrow> tracking_system \<Rightarrow> tracking_system" where
  "tracking_record_outcome cal clk x t = t\<lparr>ts_statistics := aggregator_record cal clk x (ts_statistics t)\<rparr>"

definition get_statistics :: "tracking_system \<Rightarrow> string \<Rightarrow> route_statistics option" where
  "get_statistics t route_id = get_stats (ts_statistics t) route_id"

definition get_attempt_metrics :: "tracking_system \<Rightarrow> string \<Rightarrow> attempt_metrics option" where
  "get_attempt_metrics t route_id = calculate_metrics_for_route (ts_history t) route_id"

definition get_attempts :: "tracking_system \<Rightarrow> string \<Rightarrow> route_attempt list" where
  "get_attempts t route_id = get_attempts_for_route (ts_history t) route_id"

definition tracking_reset_route :: "string \<Rightarrow> tracking_system \<Rightarrow> tracking_system" where
  "tracking_reset_route route_id t = t\<lparr>ts_statistics := reset_route route_id (ts_statistics t)\<rparr>"

definition tracking_reset_all :: "tracking_system \<Rightarrow> tracking_system" where
  "tracking_reset_all t = t\<lparr>ts_statistics := aggregator_reset_all (ts_statistics t),
     ts_history := history_clear (ts_history t)\<rparr>"

interpretation attempt_log: bounded_log attempts max_attempts history_record
  by unfold_locales (auto simp: history_record_def Let_def)

section \<open>Properties\<close>

lemma percentile_mem: "xs \<noteq> [] \<Longrightarrow> percentile q xs \<in> set xs"
  unfolding percentile_def by (intro nth_mem) (auto simp: min_def neq_Nil_conv)

lemma percentile_mono:
  assumes "sorted (map key xs)" and "xs \<noteq> []" and "p \<le> q"
  shows "key (percentile p xs) \<le> key (percentile q xs)"
proof -
  let ?i = "\<lambda>p. min (length xs * p div 100) (length xs - 1)"
  have "length xs * p div 100 \<le> length xs * q div 100" using assms(3) by (intro div_le_mono mult_le_mono2)
  then have "?i p \<le> ?i q" by (intro min.mono) auto
  moreover have "?i q < length xs" using assms(2) by (auto simp: min_def neq_Nil_conv)
  ultimately have "map key xs ! ?i p \<le> map key xs ! ?i q"
    using assms(1) by (intro sorted_nth_mono) auto
  moreover have "?i p < length xs" using \<open>?i p \<le> ?i q\<close> \<open>?i q < length xs\<close> by (rule le_less_trans)
  ultimately show ?thesis using \<open>?i q < length xs\<close> by (simp only: percentile_def nth_map)
qed

lemma less_hundred: "n < 100 * Suc (n div 100)" for n :: nat
  by presburger

lemma percentile_covers:
  assumes "sorted (map key xs)" and "xs \<noteq> []" and "q \<le> 100"
  shows "q * length xs \<le> 100 * length (filter (\<lambda>x. key x \<le> key (percentile q xs)) xs)"
proof -
  let ?i = "min (length xs * q div 100) (length xs - 1)"
  let ?P = "\<lambda>x. key x \<le> key (percentile q xs)"
  have i: "?i < length xs" using assms(2) by (auto simp: min_def neq_Nil_conv)
  have "\<forall>x\<in>set (take (Suc ?i) xs). ?P x"
  proof
    fix x assume "x \<in> set (take (Suc ?i) xs)"
    then obtain j where "j < Suc ?i" "x = xs ! j" unfolding in_set_conv_nth by force
    with i sorted_nth_mono[OF assms(1), of j ?i] show "?P x" by (simp add: percentile_def less_Suc_eq_le)
  qed
  then have "Suc ?i = length (filter ?P (take (Suc ?i) xs))" using i by (simp add: filter_True)
  also have "\<dots> \<le> length (filter ?P (take (Suc ?i) xs @ drop (Suc ?i) xs))"
    unfolding filter_append length_append by (rule le_add1)
  finally have "Suc ?i \<le> length (filter ?P xs)" by (simp only: append_take_drop_id)
  moreover have "q * length xs \<le> 100 * Suc ?i"
  proof (cases "length xs * q div 100 \<le> length xs - 1")
    case True
    have "length xs * q < 100 * Suc (length xs * q div 100)"
      by (rule less_hundred)
    then show ?thesis using True by (simp only: min_def if_True mult.commute[of q])
  next
    case False
    then have "Suc ?i = length xs" using assms(2) by (auto simp: min_def neq_Nil_conv)
    then show ?thesis using assms(3) by (simp only: mult_le_mono1)
  qed
  ultimately show ?thesis by (metis mult_le_mono2 le_trans)
qed

lemma filter_sort_key_length: "length (filter P (sort_key f xs)) = length (filter P xs)"
  by (metis mset_filter mset_sort size_mset)

definition latency_key :: "route_attempt \<Rightarrow> nat \<times> rat" where
  "latency_key a = total_key (o_latency_ms (ra_outcome a))"

text \<open>The metrics of a route: the successes and failures add up to the attempts, the three
  percentiles are recorded latencies in increasing order, and at least 50, 95 and 99 percent of the
  attempts took no longer than them (in the total order of binary64).\<close>

theorem route_metrics_percentiles:
  assumes "calculate_metrics_for_route h r = Some m"
  shows "am_total_attempts m = length (get_attempts_for_route h r)
    \<and> am_successful_attempts m + am_failed_attempts m = am_total_attempts m
    \<and> total_key (am_p50_latency_ms m) \<le> total_key (am_p95_latency_ms m)
    \<and> total_key (am_p95_latency_ms m) \<le> total_key (am_p99_latency_ms m)
    \<and> set [am_p50_latency_ms m, am_p95_latency_ms m, am_p99_latency_ms m]
        \<subseteq> (o_latency_ms \<circ> ra_outcome) ` set (get_attempts_for_route h r)
    \<and> list_all (\<lambda>(q, p). q * am_total_attempts m
          \<le> 100 * count_where (\<lambda>a. latency_key a \<le> total_key p) (get_attempts_for_route h r))
        [(50, am_p50_latency_ms m), (95, am_p95_latency_ms m), (99, am_p99_latency_ms m)]"
proof -
  let ?as = "get_attempts_for_route h r"
  let ?lats = "map (\<lambda>a. o_latency_ms (ra_outcome a)) ?as"
  let ?s = "sort_key total_key ?lats"
  have ne: "?as \<noteq> []" and m: "am_total_attempts m = length ?as"
    "am_successful_attempts m = count_where attempt_is_successful ?as"
    "am_failed_attempts m = length ?as - count_where attempt_is_successful ?as"
    "am_p50_latency_ms m = percentile 50 ?s" "am_p95_latency_ms m = percentile 95 ?s"
    "am_p99_latency_ms m = percentile 99 ?s"
    using assms by (auto simp: calculate_metrics_for_route_def Let_def split: if_splits)
  have sne: "?s \<noteq> []" using ne by (metis length_0_conv length_map length_sort)
  have sorted: "sorted (map total_key ?s)" by (rule sorted_sort_key)
  have mem: "percentile q ?s \<in> (o_latency_ms \<circ> ra_outcome) ` set ?as" for q
    using percentile_mem[OF sne, of q] by (auto simp: image_iff)
  have cov: "q * length ?as \<le> 100 * count_where (\<lambda>a. latency_key a \<le> total_key (percentile q ?s)) ?as"
    if "q \<le> 100" for q
    using percentile_covers[OF sorted sne that]
    by (simp add: filter_sort_key_length filter_map count_where_def latency_key_def o_def)
  have "count_where attempt_is_successful ?as \<le> length ?as"
    by (simp add: count_where_def)
  then show ?thesis unfolding m
    using mem percentile_mono[OF sorted sne] cov[of 50] cov[of 95] cov[of 99] by simp
qed

theorem route_metrics_percentiles_witness:
  "\<exists>m. calculate_metrics_for_route (fold history_record
       [attempt_new ''q'' (decision_context_new 0 ''q'' ''m'' [''r''] Weighted ''r'') (outcome_timeout 1 ''r'' (FFin 3)),
        attempt_new ''q'' (decision_context_new 1 ''q'' ''m'' [''r''] Weighted ''r'') (outcome_timeout 2 ''r'' (FFin 1))]
       history_new) ''r'' = Some m
     \<and> am_total_attempts m = 2 \<and> total_key (am_p50_latency_ms m) \<le> total_key (am_p95_latency_ms m)"
proof -
  let ?h = "fold history_record
       [attempt_new ''q'' (decision_context_new 0 ''q'' ''m'' [''r''] Weighted ''r'') (outcome_timeout 1 ''r'' (FFin 3)),
        attempt_new ''q'' (decision_context_new 1 ''q'' ''m'' [''r''] Weighted ''r'') (outcome_timeout 2 ''r'' (FFin 1))]
       history_new"
  have two: "length (get_attempts_for_route ?h ''r'') = 2"
    by (simp add: history_record_def history_new_def get_attempts_for_route_def attempt_new_def
        outcome_timeout_def effective_route_def Let_def)
  then obtain m where m: "calculate_metrics_for_route ?h ''r'' = Some m"
    by (force simp: calculate_metrics_for_route_def Let_def)
  with route_metrics_percentiles[OF m] two show ?thesis by simp
qed

text \<open>The distribution that the metrics of one route report is the one of the whole history.\<close>

theorem route_metrics_distribution_is_global:
  assumes "calculate_metrics_for_route h r = Some m" and "calculate_metrics_for_route h r' = Some m'"
  shows "am_selection_mode_distribution m = am_selection_mode_distribution m'"
  using assms by (auto simp: calculate_metrics_for_route_def Let_def split: if_splits)

lemma tracking_run:
  "ts_statistics (fold (\<lambda>(clk, a). record_attempt cal clk a) es t)
     = fold (\<lambda>(clk, x). aggregator_record cal clk x) (map (\<lambda>(clk, a). (clk, ra_outcome a)) es) (ts_statistics t)"
  "ts_history (fold (\<lambda>(clk, a). record_attempt cal clk a) es t) = fold history_record (map snd es) (ts_history t)"
  by (induction es arbitrary: t) (auto simp: record_attempt_def)

text \<open>The two halves of the tracking system agree: after any sequence of recorded attempts that
  fits the history's limit, the attempts returned for a route are exactly those charged to it, in
  order, and its statistics summarise exactly those attempts' outcomes.\<close>

theorem tracking_statistics_summarise_history:
  fixes es :: "(stats_clock \<times> route_attempt) list"
  assumes "length es \<le> 100000"
  shows "get_attempts (fold (\<lambda>(clk, a). record_attempt cal clk a) es (tracking_new t)) r
      = filter (\<lambda>a. effective_route (ra_outcome a) = r) (map snd es)
    \<and> summarises (route_summary cal)
      (map ra_outcome (get_attempts (fold (\<lambda>(clk, a). record_attempt cal clk a) es (tracking_new t)) r))
      (get_statistics (fold (\<lambda>(clk, a). record_attempt cal clk a) es (tracking_new t)) r)"
proof -
  let ?xs = "map (\<lambda>(clk, a). (clk, ra_outcome a)) es"
  have "attempts (fold history_record (map snd es) history_new) = map snd es"
    using attempt_log.run_all[of history_new "map snd es"] assms by (simp add: history_new_def)
  moreover have "map snd ?xs = map (\<lambda>e. ra_outcome (snd e)) es" by auto
  ultimately have runs: "get_attempts (fold (\<lambda>(clk, a). record_attempt cal clk a) es (tracking_new t)) r
      = filter (\<lambda>a. effective_route (ra_outcome a) = r) (map snd es)"
    "map ra_outcome (filter (\<lambda>a. effective_route (ra_outcome a) = r) (map snd es))
      = filter (\<lambda>x. effective_route x = r) (map snd ?xs)"
    by (simp_all add: get_attempts_def get_attempts_for_route_def tracking_run tracking_new_def
        filter_map o_def del: map_map) simp
  then show ?thesis
    using aggregator_run_summary[of cal r ?xs "default_priors t"]
    by (simp add: runs get_statistics_def tracking_run tracking_new_def aggregator_new_def
        aggregator_with_priors_def)
qed

theorem tracking_statistics_summarise_history_witness:
  "get_attempts (fold (\<lambda>(clk, a). record_attempt \<lparr>cal_hour = \<lambda>_. 10, cal_weekday = \<lambda>_. 3\<rparr> clk a)
     [(\<lparr>clk_default = 0, clk_created = 0, clk_overall = 0, clk_bucket = \<lambda>_. 0, clk_updated = 0\<rparr>,
       attempt_new ''q'' (decision_context_new 0 ''q'' ''m'' [''r''] Weighted ''r'') (outcome_timeout 1 ''r'' (FFin 3)))]
     (tracking_new 0)) ''s'' = []"
  using tracking_statistics_summarise_history[THEN conjunct1,
      of "[(\<lparr>clk_default = 0, clk_created = 0, clk_overall = 0, clk_bucket = \<lambda>_. 0, clk_updated = 0\<rparr>,
        attempt_new ''q'' (decision_context_new 0 ''q'' ''m'' [''r''] Weighted ''r'') (outcome_timeout 1 ''r'' (FFin 3)))]"
      "\<lparr>cal_hour = \<lambda>_. 10, cal_weekday = \<lambda>_. 3\<rparr>" 0 "''s''"]
  by (simp add: attempt_new_def outcome_timeout_def effective_route_def Let_def)

end
