(* ===== verification/Weight.thy ===== *)
theory Weight
  imports Health Metrics
begin

text \<open>
  Credential weights (src/routing/weight/types.rs, calculator.rs): the scores, the planner modes and
  the four calculators, in binary64. The natural logarithm of the load score is a parameter \<open>logf\<close>:
  std leaves its precision to the platform. The trait \<open>WeightCalculator\<close> is an interface here,
  interpreted on the calculators; the selector and the fallback planner are its clients.
\<close>

section \<open>Types\<close>

record model_state =
  ms_unavailable :: bool
  ms_quota_exceeded :: bool

record auth_info =
  ai_id :: string
  ai_priority :: "i32 option"
  ai_quota_exceeded :: bool
  ai_unavailable :: bool
  ai_model_states :: "model_state list"

datatype data_availability = Full | Sparse | Missing
datatype planner_mode = Learned | Heuristic | SafeWeighted | Deterministic

definition assess_data_availability :: "auth_metrics option \<Rightarrow> data_availability" where
  "assess_data_availability metrics = (case metrics of
       None \<Rightarrow> Missing
     | Some m \<Rightarrow>
         (let has_requests = 10 \<le> total_requests m;
              has_latency = f64_0 < avg_latency_ms m;
              has_success_rate = f64_0 \<le> success_rate m
          in if has_requests \<and> has_latency \<and> has_success_rate then Full
             else if 0 < total_requests m \<or> has_latency \<or> has_success_rate then Sparse
             else Missing))"

fun select_planner_mode :: "data_availability \<Rightarrow> health_status \<Rightarrow> planner_mode" where
  "select_planner_mode Full Healthy = Learned"
| "select_planner_mode Full Degraded = Learned"
| "select_planner_mode Sparse _ = Heuristic"
| "select_planner_mode Missing Healthy = SafeWeighted"
| "select_planner_mode Missing Degraded = SafeWeighted"
| "select_planner_mode Full Unhealthy = SafeWeighted"
| "select_planner_mode Missing Unhealthy = Deterministic"

section \<open>Scores\<close>

definition half :: f64 where "half = f64_of (5 / 10)"

definition calculate_success_rate_score :: "auth_metrics option \<Rightarrow> f64" where
  "calculate_success_rate_score metrics = (case metrics of None \<Rightarrow> half
     | Some m \<Rightarrow> (if is_finite (success_rate m) then success_rate m else half))"

text \<open>\<open>(1.0 / (1.0 + latency / 1000.0)).clamp(0.0, 1.0)\<close>\<close>

definition inverse_latency :: "f64 \<Rightarrow> f64" where
  "inverse_latency latency = fclamp (fdiv f64_1 (fadd f64_1 (fdiv latency (f64_nat 1000)))) f64_0 f64_1"

definition calculate_latency_score :: "auth_metrics option \<Rightarrow> f64" where
  "calculate_latency_score metrics = (case metrics of
       Some m \<Rightarrow> (if f64_0 < avg_latency_ms m \<and> is_finite (avg_latency_ms m)
                  then inverse_latency (avg_latency_ms m) else half)
     | None \<Rightarrow> half)"

fun calculate_health_score :: "health_status \<Rightarrow> f64" where
  "calculate_health_score Healthy = f64_1"
| "calculate_health_score Degraded = f64_of (6 / 10)"
| "calculate_health_score Unhealthy = f64_of (1 / 10)"

definition calculate_load_score :: "(f64 \<Rightarrow> f64) \<Rightarrow> auth_info \<Rightarrow> auth_metrics option \<Rightarrow> f64" where
  "calculate_load_score logf auth metrics =
     (let recent_request_score = (case metrics of None \<Rightarrow> f64_1
            | Some m \<Rightarrow> (if 0 < total_requests m
                 then fdiv f64_1 (fadd f64_1 (fdiv (logf (f64_int (total_requests m))) (f64_nat 10)))
                 else f64_1));
          quota_score = (if ai_quota_exceeded auth then f64_0 else f64_1);
          model_state_score = (if ai_model_states auth = [] then f64_1
            else
              let unavailable_models = f64_nat (length (filter ms_unavailable (ai_model_states auth)));
                  total_models = f64_nat (length (ai_model_states auth))
              in fsub f64_1 (fdiv unavailable_models total_models))
      in fadd (fadd (fmul recent_request_score (f64_of (4 / 10))) (fmul quota_score (f64_of (4 / 10))))
           (fmul model_state_score (f64_of (2 / 10))))"

definition calculate_priority_score :: "auth_info \<Rightarrow> f64" where
  "calculate_priority_score auth = (case ai_priority auth of None \<Rightarrow> half
     | Some p \<Rightarrow> fclamp (fdiv (fadd (f64_int p) (f64_nat 100)) (f64_nat 200)) f64_0 f64_1)"

section \<open>The calculators\<close>

definition times_if :: "bool \<Rightarrow> f64 \<Rightarrow> f64 \<Rightarrow> f64" where
  "times_if c p w = (if c then fmul w p else w)"

definition learned_total :: "(f64 \<Rightarrow> f64) \<Rightarrow> weight_config \<Rightarrow> auth_info \<Rightarrow> auth_metrics option \<Rightarrow> health_status \<Rightarrow> f64" where
  "learned_total logf cfg auth metrics health =
     fma (calculate_priority_score auth) (priority_weight cfg)
       (fma (calculate_load_score logf auth metrics) (load_weight cfg)
         (fma (calculate_health_score health) (health_weight cfg)
           (fma (calculate_success_rate_score metrics) (success_rate_weight cfg)
             (fmul (calculate_latency_score metrics) (latency_weight cfg)))))"

definition calculate_learned :: "(f64 \<Rightarrow> f64) \<Rightarrow> weight_config \<Rightarrow> auth_info \<Rightarrow> auth_metrics option \<Rightarrow> health_status \<Rightarrow> f64" where
  "calculate_learned logf cfg auth metrics health =
     (let total_weight = learned_total logf cfg auth metrics health;
          total_weight = (case health of
              Unhealthy \<Rightarrow> fmul total_weight (unhealthy_penalty cfg)
            | Degraded \<Rightarrow> fmul total_weight (degraded_penalty cfg)
            | Healthy \<Rightarrow> total_weight);
          total_weight = times_if (ai_quota_exceeded auth) (quota_exceeded_penalty cfg) total_weight;
          total_weight = times_if (ai_unavailable auth) (unavailable_penalty cfg) total_weight
      in fmax total_weight f64_0)"

definition calculate_heuristic :: "weight_config \<Rightarrow> auth_info \<Rightarrow> auth_metrics option \<Rightarrow> health_status \<Rightarrow> f64" where
  "calculate_heuristic cfg auth metrics health =
     (let health_score = calculate_health_score health;
          priority_score = calculate_priority_score auth;
          success_score = (case metrics of None \<Rightarrow> half | Some m \<Rightarrow> success_rate m);
          latency_score = (case metrics of None \<Rightarrow> half
            | Some m \<Rightarrow> (if f64_0 < avg_latency_ms m then inverse_latency (avg_latency_ms m) else half));
          weight = fdiv (fadd (fadd (fadd success_score latency_score) health_score) priority_score) (f64_nat 4);
          weight = times_if (ai_quota_exceeded auth) (quota_exceeded_penalty cfg) weight;
          weight = times_if (ai_unavailable auth) (unavailable_penalty cfg) weight
      in fmax weight f64_0)"

definition calculate_safe_weighted :: "weight_config \<Rightarrow> auth_info \<Rightarrow> health_status \<Rightarrow> f64" where
  "calculate_safe_weighted cfg auth health =
     (let weight = fma (calculate_health_score health) (f64_of (7 / 10))
            (fmul (calculate_priority_score auth) (f64_of (3 / 10)));
          weight = (case health of
              Unhealthy \<Rightarrow> fmul weight (fmul (unhealthy_penalty cfg) half)
            | Degraded \<Rightarrow> fmul weight (degraded_penalty cfg)
            | Healthy \<Rightarrow> weight);
          weight = times_if (ai_quota_exceeded auth) (fmul (quota_exceeded_penalty cfg) half) weight;
          weight = times_if (ai_unavailable auth) (fmul (unavailable_penalty cfg) (f64_of (1 / 10))) weight
      in fmax weight f64_0)"

text \<open>\<open>f64::midpoint\<close>: the mean of the sum where that cannot overflow, else the sum of the halves.\<close>

definition fmidpoint :: "f64 \<Rightarrow> f64 \<Rightarrow> f64" where
  "fmidpoint a b =
     (let lo = f64_of (2 * 2 powi (- 1022)); hi = fdiv f64_max_value (f64_nat 2)
      in if fabs a \<le> hi \<and> fabs b \<le> hi then fdiv (fadd a b) (f64_nat 2)
         else if fabs a < lo then fadd a (fdiv b (f64_nat 2))
         else if fabs b < lo then fadd (fdiv a (f64_nat 2)) b
         else fadd (fdiv a (f64_nat 2)) (fdiv b (f64_nat 2)))"

definition calculate_deterministic :: "auth_info \<Rightarrow> health_status \<Rightarrow> f64" where
  "calculate_deterministic auth health =
     (let priority_score = calculate_priority_score auth; health_score = calculate_health_score health
      in if ai_quota_exceeded auth \<or> ai_unavailable auth \<or> health = Unhealthy then f64_0
         else fmax (fmidpoint priority_score health_score) f64_0)"

definition calculate :: "(f64 \<Rightarrow> f64) \<Rightarrow> weight_config \<Rightarrow> auth_info \<Rightarrow> auth_metrics option \<Rightarrow> health_status \<Rightarrow> f64" where
  "calculate logf cfg auth metrics health =
     (case select_planner_mode (assess_data_availability metrics) health of
        Learned \<Rightarrow> calculate_learned logf cfg auth metrics health
      | Heuristic \<Rightarrow> calculate_heuristic cfg auth metrics health
      | SafeWeighted \<Rightarrow> calculate_safe_weighted cfg auth health
      | Deterministic \<Rightarrow> calculate_deterministic auth health)"

section \<open>The interface of a weight calculator\<close>

text \<open>
  What the clients of a calculator rely on: a weight is a non-negative number (never NaN), and marking
  a credential unavailable does not raise its weight.
\<close>

locale weight_calculator =
  fixes calc :: "auth_info \<Rightarrow> auth_metrics option \<Rightarrow> health_status \<Rightarrow> f64"
  assumes calc_nonneg: "f64_0 \<le> calc auth metrics health"
begin

lemma calc_number: "calc auth metrics health \<noteq> FNaN"
  using calc_nonneg[of auth metrics health] by (auto dest: f64_le_not_NaN)

lemma calc_cases: "calc auth metrics health = f64_0 \<or> f64_0 < calc auth metrics health"
  using calc_nonneg[of auth metrics health] by (cases "calc auth metrics health") auto

text \<open>The weights a client keeps are exactly the non-zero finite ones.\<close>

lemma kept_iff:
  "f64_0 < calc auth metrics health \<and> is_finite (calc auth metrics health)
     \<longleftrightarrow> calc auth metrics health \<notin> {f64_0, FPInf}"
  using calc_nonneg[of auth metrics health]
  by (cases "calc auth metrics health") (auto simp: is_finite_def)

end

lemma fmax_0_cases: "fmax x f64_0 = f64_0 \<or> fmax x f64_0 = x \<and> f64_0 < x"
  by (cases x) (auto simp: fmax_def)

lemma calculate_nonneg: "f64_0 \<le> calculate logf cfg auth metrics health"
  by (cases "select_planner_mode (assess_data_availability metrics) health")
    (simp_all add: calculate_def calculate_learned_def calculate_heuristic_def
      calculate_safe_weighted_def calculate_deterministic_def Let_def fmax_0_nonneg)

interpretation default_calculator: weight_calculator "calculate logf cfg" for logf cfg
  by unfold_locales (rule calculate_nonneg)

section \<open>Ranges\<close>

lemma range_times_if: "in_range a w \<Longrightarrow> unit_f64 p \<Longrightarrow> a \<le> 2 ^ 53 \<Longrightarrow> in_range a (times_if c p w)"
  by (simp add: times_if_def range_fmul)

lemma unit_half [simp]: "unit_f64 half"
  by (simp add: half_def unit_f64_of)

lemma unit_success_rate_score:
  "(\<And>m. metrics = Some m \<Longrightarrow> unit_f64 (success_rate m)) \<Longrightarrow> unit_f64 (calculate_success_rate_score metrics)"
  by (simp add: calculate_success_rate_score_def split: option.split)

lemma unit_inverse_latency:
  assumes "f64_0 < latency"
  shows "unit_f64 (inverse_latency latency)"
proof -
  have "f64_nat 1000 = FFin 1000" using f64_nat_exact[of 1000] by simp
  then have "f64_0 \<le> fdiv latency (f64_nat 1000)"
    using assms by (cases latency) (auto simp: f64_of_nonneg)
  then have "f64_0 \<le> fadd f64_1 (fdiv latency (f64_nat 1000))" by (intro fadd_nonneg) simp_all
  moreover have "fadd f64_1 (fdiv latency (f64_nat 1000)) \<noteq> f64_0"
  proof -
    have "f64_1 \<le> fadd f64_1 (fdiv latency (f64_nat 1000))"
      using \<open>f64_0 \<le> fdiv latency (f64_nat 1000)\<close> f64_of_1 by (intro fadd_ge_left) (simp_all add: f64_ok_def)
    then show ?thesis by auto
  qed
  ultimately have "fdiv f64_1 (fadd f64_1 (fdiv latency (f64_nat 1000))) \<noteq> FNaN"
    by (cases "fadd f64_1 (fdiv latency (f64_nat 1000))") auto
  then show ?thesis unfolding inverse_latency_def by (rule unit_fclamp)
qed

lemma unit_latency_score: "unit_f64 (calculate_latency_score metrics)"
  by (auto simp: calculate_latency_score_def unit_inverse_latency split: option.split)

lemma unit_health_score: "unit_f64 (calculate_health_score health)"
  by (cases health) (simp_all add: unit_f64_of)

lemma unit_priority_score: "unit_f64 (calculate_priority_score auth)"
proof (cases "ai_priority auth")
  case (Some p)
  have c: "f64_nat 200 = FFin 200" "f64_nat 100 = FFin 100"
    using f64_nat_exact[of 200] f64_nat_exact[of 100] by simp_all
  have "fadd (f64_int p) (f64_nat 100) \<noteq> FNaN" unfolding c by (cases "f64_int p") auto
  then have "fdiv (fadd (f64_int p) (f64_nat 100)) (f64_nat 200) \<noteq> FNaN"
    unfolding c by (cases "fadd (f64_int p) (FFin 100)") auto
  then show ?thesis by (simp add: calculate_priority_score_def Some unit_fclamp)
qed (simp add: calculate_priority_score_def)

text \<open>What the load score needs of the logarithm.\<close>

definition log_ok :: "(f64 \<Rightarrow> f64) \<Rightarrow> bool" where
  "log_ok logf \<longleftrightarrow> (\<forall>x. f64_1 \<le> x \<longrightarrow> is_finite x \<longrightarrow> f64_0 \<le> logf x)"

lemma unit_inverse: "f64_1 \<le> x \<Longrightarrow> unit_f64 (fdiv f64_1 x)"
  by (cases x) (auto simp: unit_f64_of)

lemma f64_1_ok: "f64_ok f64_1"
  by (simp add: f64_ok_def)

lemma unit_recent_request_score:
  assumes "log_ok logf" and "0 < n" and "n \<le> i64_max"
  shows "unit_f64 (fdiv f64_1 (fadd f64_1 (fdiv (logf (f64_int n)) (f64_nat 10))))"
proof -
  have "f64_1 \<le> f64_of (of_int n)" using assms(2) f64_of_mono[of 1 "of_int n"] by simp
  moreover have "is_finite (f64_of (of_int n))"
  proof -
    have "(of_int n :: rat) \<le> of_int (2 ^ 63)" using assms(3) by (simp add: i64_max_def)
    then have "f64_of (of_int n) \<le> f64_of (1 * 2 powi 63)" by (intro f64_of_mono) simp
    also have "f64_of (1 * 2 powi 63) = FFin (2 powi 63)"
      using rnd_scaled[of 1 63] by (simp add: f64_of_def Let_def)
    finally show ?thesis using \<open>f64_1 \<le> f64_of (of_int n)\<close>
      by (cases "f64_of (of_int n)") (auto simp: is_finite_def)
  qed
  ultimately have "f64_0 \<le> logf (f64_int n)" using assms(1) by (simp add: log_ok_def)
  moreover have "f64_nat 10 = FFin 10" using f64_nat_exact[of 10] by simp
  ultimately have "f64_0 \<le> fdiv (logf (f64_int n)) (f64_nat 10)"
    by (cases "logf (f64_int n)") (auto simp: f64_of_nonneg)
  then have "f64_1 \<le> fadd f64_1 (fdiv (logf (f64_int n)) (f64_nat 10))"
    using f64_1_ok by (intro fadd_ge_left) simp_all
  then show ?thesis by (rule unit_inverse)
qed

lemma unit_model_state_score:
  assumes "xs \<noteq> []" and "length xs \<le> 2 ^ 53"
  shows "unit_f64 (fsub f64_1 (fdiv (f64_nat (length (filter P xs))) (f64_nat (length xs))))"
proof (rule unit_fsub_1)
  have "length (filter P xs) \<le> length xs" by simp
  then have "(of_nat (length (filter P xs)) :: rat) \<le> of_nat (length xs)" by (simp only: of_nat_le_iff)
  then show "unit_f64 (fdiv (f64_nat (length (filter P xs))) (f64_nat (length xs)))"
    using assms by (intro fdiv_unit f64_of_mono f64_of_nonneg)
      (auto simp: f64_nat_exact is_finite_def)
qed

lemma range_load_score:
  assumes "log_ok logf" and "\<And>m. metrics = Some m \<Longrightarrow> total_requests m \<le> i64_max"
    and "length (ai_model_states auth) \<le> 2 ^ 53"
  shows "in_range 3 (calculate_load_score logf auth metrics)"
proof -
  have r: "unit_f64 (case metrics of None \<Rightarrow> f64_1 | Some m \<Rightarrow> (if 0 < total_requests m
      then fdiv f64_1 (fadd f64_1 (fdiv (logf (f64_int (total_requests m))) (f64_nat 10))) else f64_1))"
    using unit_recent_request_score[OF assms(1)] assms(2) by (auto split: option.split)
  have m: "unit_f64 (if ai_model_states auth = [] then f64_1
      else fsub f64_1 (fdiv (f64_nat (length (filter ms_unavailable (ai_model_states auth))))
        (f64_nat (length (ai_model_states auth)))))"
    using unit_model_state_score[OF _ assms(3)] by simp
  have q: "unit_f64 (if ai_quota_exceeded auth then f64_0 else f64_1)" by simp
  have c: "unit_f64 (f64_of (4 / 10))" "unit_f64 (f64_of (2 / 10))" by (simp_all add: unit_f64_of)
  note terms = unit_fmul[OF r c(1)] unit_fmul[OF q c(1)] unit_fmul[OF m c(2)]
  have "in_range (1 + 1 + 1) (calculate_load_score logf auth metrics)"
    unfolding calculate_load_score_def Let_def
    by (intro range_fadd; (unfold One_nat_def range_1)?; (rule terms)?) simp_all
  then show ?thesis by (simp add: eval_nat_numeral)
qed

lemma range_learned_total:
  assumes "weights_unit cfg" and "in_range 3 (calculate_load_score logf auth metrics)"
    and "unit_f64 (calculate_success_rate_score metrics)"
  shows "in_range 7 (learned_total logf cfg auth metrics health)"
proof -
  have "in_range (1 + (3 + (1 + (1 + 1)))) (learned_total logf cfg auth metrics health)"
    unfolding learned_total_def
    by (intro range_fma) (use assms in \<open>simp_all add: weights_unit_def unit_fmul unit_latency_score
        unit_health_score unit_priority_score\<close>)
  then show ?thesis by simp
qed

definition penalties_unit :: "weight_config \<Rightarrow> bool" where
  "penalties_unit w \<longleftrightarrow> unit_f64 (unhealthy_penalty w) \<and> unit_f64 (degraded_penalty w)
     \<and> unit_f64 (quota_exceeded_penalty w) \<and> unit_f64 (unavailable_penalty w)"

lemma default_penalties_unit: "penalties_unit default_weight_config"
  by (simp add: penalties_unit_def default_weight_config_def unit_f64_of)

lemma range_learned:
  assumes "in_range 7 (learned_total logf cfg auth metrics health)" and "penalties_unit cfg"
  shows "in_range 7 (calculate_learned logf cfg auth metrics health)"
  using assms unfolding calculate_learned_def Let_def penalties_unit_def
  by (intro range_fmax range_times_if) (auto simp: range_fmul split: health_status.split)

lemma unit_mean4:
  assumes "unit_f64 a" "unit_f64 b" "unit_f64 c" "unit_f64 d"
  shows "unit_f64 (fdiv (fadd (fadd (fadd a b) c) d) (f64_of 4))"
proof -
  have "in_range (1 + 1 + 1 + 1) (fadd (fadd (fadd a b) c) d)"
    by (intro range_fadd) (simp_all add: assms)
  then obtain q where q: "fadd (fadd (fadd a b) c) d = FFin q" "0 \<le> q" "q \<le> 4" by (auto elim: rangeE)
  have "f64_of 4 = FFin 4" using f64_nat_exact[of 4] by simp
  then show ?thesis using q by (simp add: unit_f64_of)
qed

lemma range_heuristic:
  assumes "penalties_unit cfg" and "\<And>m. metrics = Some m \<Longrightarrow> unit_f64 (success_rate m)"
  shows "in_range 1 (calculate_heuristic cfg auth metrics health)"
proof -
  have s: "unit_f64 (case metrics of None \<Rightarrow> half | Some m \<Rightarrow> success_rate m)"
    using assms(2) by (auto split: option.split)
  have l: "unit_f64 (case metrics of None \<Rightarrow> half
      | Some m \<Rightarrow> (if f64_0 < avg_latency_ms m then inverse_latency (avg_latency_ms m) else half))"
    by (auto simp: unit_inverse_latency split: option.split)
  show ?thesis using assms(1) unfolding calculate_heuristic_def Let_def penalties_unit_def
    by (intro range_fmax range_times_if)
      (simp_all add: unit_mean4[OF s l unit_health_score unit_priority_score])
qed

lemma range_safe_weighted:
  assumes "penalties_unit cfg"
  shows "in_range 2 (calculate_safe_weighted cfg auth health)"
proof -
  let ?w = "fma (calculate_health_score health) (f64_of (7 / 10))
      (fmul (calculate_priority_score auth) (f64_of (3 / 10)))"
  have "in_range (1 + 1) ?w"
    by (intro range_fma) (simp_all add: unit_health_score unit_fmul unit_priority_score unit_f64_of)
  then have "in_range 2 ?w" by (simp add: eval_nat_numeral)
  with assms show ?thesis unfolding calculate_safe_weighted_def Let_def penalties_unit_def
    by (intro range_fmax range_times_if) (auto simp: range_fmul unit_fmul unit_f64_of split: health_status.split)
qed

lemma range_deterministic: "in_range 1 (calculate_deterministic auth health)"
proof -
  obtain p q where p: "calculate_priority_score auth = FFin p" "0 \<le> p" "p \<le> 1"
    and q: "calculate_health_score health = FFin q" "0 \<le> q" "q \<le> 1"
    using unit_priority_score[of auth] unit_health_score[of health] by (auto elim!: unit_f64E)
  have two: "f64_of 2 = FFin 2" using f64_nat_exact[of 2] by simp
  obtain mx where mx: "f64_max_value = FFin mx" "2 \<le> mx" by (simp add: f64_max_value_def)
  have "f64_1 \<le> fdiv f64_max_value (f64_nat 2)"
    using mx(2) f64_of_mono[of 1 "mx / 2"] by (simp add: mx(1) two del: f64_of_1) simp
  then have small: "FFin x \<le> fdiv f64_max_value (f64_nat 2)" if "x \<le> 1" for x
    using that f64_le_trans[of "FFin x" f64_1] by simp
  have "fmidpoint (FFin p) (FFin q) = fdiv (fadd (FFin p) (FFin q)) (f64_nat 2)"
    using small[of p] small[of q] p q by (simp add: fmidpoint_def Let_def)
  moreover have "in_range (1 + 1) (fadd (FFin p) (FFin q))"
    using p q by (intro range_fadd) (simp_all add: unit_f64_def)
  ultimately have "unit_f64 (fmidpoint (FFin p) (FFin q))"
    using two by (auto simp: unit_f64_of eval_nat_numeral elim!: rangeE)
  then have "in_range 1 (fmidpoint (FFin p) (FFin q))" by simp
  then have "in_range 1 (fmax (fmidpoint (FFin p) (FFin q)) f64_0)" by (rule range_fmax)
  then show ?thesis by (simp add: calculate_deterministic_def p q Let_def)
qed

section \<open>Properties\<close>

text \<open>C36. Under a configuration with weights and penalties in the unit interval, and for the metrics the
  collector produces, every credential's weight is a finite number from 0 to 7: no mode, latency, count
  or combination of penalties gives NaN, infinity or a negative weight.\<close>

theorem weight_finite_and_bounded:
  assumes "weights_unit cfg" and "penalties_unit cfg" and "log_ok logf"
    and "\<forall>m. metrics = Some m \<longrightarrow> metrics_ok m \<and> total_requests m \<le> i64_max"
    and "length (ai_model_states auth) \<le> 2 ^ 53"
  shows "is_finite (calculate logf cfg auth metrics health)
    \<and> f64_0 \<le> calculate logf cfg auth metrics health \<and> calculate logf cfg auth metrics health \<le> f64_nat 7"
proof -
  have rate: "unit_f64 (success_rate m)" if "metrics = Some m" for m
    using that assms(4) by (simp add: metrics_ok_def)
  have "in_range 7 (calculate_learned logf cfg auth metrics health)"
    using assms rate by (intro range_learned range_learned_total range_load_score unit_success_rate_score) auto
  moreover have "in_range 7 (calculate_heuristic cfg auth metrics health)"
    by (rule range_mono[OF range_heuristic[OF assms(2) rate]]) simp_all
  moreover have "in_range 7 (calculate_safe_weighted cfg auth health)"
    using range_safe_weighted[OF assms(2)] by (rule range_mono) simp
  moreover have "in_range 7 (calculate_deterministic auth health)"
    using range_deterministic by (rule range_mono) simp
  ultimately have "in_range 7 (calculate logf cfg auth metrics health)"
    by (simp add: calculate_def split: planner_mode.split)
  then show ?thesis using f64_nat_exact[of 7] by (auto simp: is_finite_def elim!: rangeE)
qed

definition sample_auth :: auth_info where
  "sample_auth = \<lparr>ai_id = ''openai-1'', ai_priority = Some 10, ai_quota_exceeded = False,
     ai_unavailable = False, ai_model_states = []\<rparr>"

theorem weight_finite_and_bounded_witness:
  "is_finite (calculate (\<lambda>_. f64_0) default_weight_config sample_auth (Some (fresh_metrics 0)) Degraded)"
  by (rule weight_finite_and_bounded[THEN conjunct1])
    (simp_all add: default_weights_unit default_penalties_unit log_ok_def fresh_metrics_ok
      fresh_metrics_def[of 0, THEN arg_cong[where f = total_requests]] sample_auth_def i64_max_def)

lemma f64_ok_ops [simp]: "f64_ok (fadd x y)" "f64_ok (fmul x y)" "f64_ok (fma x y z)" "f64_ok (fdiv x y)"
proof -
  show add: "f64_ok (fadd x y)" for x y
    by (cases x; cases y) (simp_all add: f64_ok_of [unfolded f64_ok_def] f64_ok_def)
  show "f64_ok (fmul x y)"
    by (cases x; cases y) (simp_all add: fmul_def inf_of_sign_def f64_ok_of [unfolded f64_ok_def] f64_ok_def)
  show "f64_ok (fma x y z)" by (simp add: fma_def add)
  show "f64_ok (fdiv x y)"
    by (cases x; cases y) (simp_all add: inf_of_sign_def f64_ok_of [unfolded f64_ok_def] f64_ok_def)
qed

lemma penalty_lowers:
  assumes "f64_ok w" and "unit_f64 p"
  shows "fmax (fmul w p) f64_0 \<le> fmax w f64_0"
proof (cases w)
  case (FFin a)
  obtain q where q: "p = FFin q" "0 \<le> q" "q \<le> 1" using assms(2) by (rule unit_f64E)
  show ?thesis
  proof (cases "0 \<le> a")
    case True
    then have "f64_of (a * q) \<le> f64_of a" using q by (intro f64_of_mono) (simp add: mult_left_le)
    moreover have "f64_of a = FFin a" using assms(1) FFin by (simp add: f64_ok_def)
    moreover have "f64_0 \<le> f64_of (a * q)" using True q by (intro f64_of_nonneg) simp
    ultimately show ?thesis using True FFin q
      by (cases "f64_of (a * q)") (auto simp: fmul_FFin fmax_def)
  next
    case False
    then have "f64_of (a * q) \<le> f64_0" using q f64_of_mono[of "a * q" 0] by (simp add: mult_nonpos_nonneg)
    then show ?thesis using False FFin q
      by (cases "f64_of (a * q)") (auto simp: fmul_FFin fmax_def)
  qed
next
  case FPInf
  then show ?thesis using assms(2) by (auto simp: fmul_def inf_of_sign_def fmax_def elim!: unit_f64E)
next
  case FNInf
  obtain q where "p = FFin q" "0 \<le> q" using assms(2) by (rule unit_f64E)
  with FNInf show ?thesis by (cases "q = 0") (auto simp: fmul_def inf_of_sign_def fmax_def)
qed (simp add: fmul_def fmax_def)

lemma f64_ok_times_if: "f64_ok w \<Longrightarrow> f64_ok (times_if c p w)"
  by (simp add: times_if_def)

text \<open>Marking a credential unavailable never raises its weight, in any planner mode, whatever the
  metrics, the health and the routing weights are, provided the penalty lies in the unit interval.\<close>

theorem unavailable_never_raises_weight:
  assumes "unit_f64 (unavailable_penalty cfg)"
  shows "calculate logf cfg (auth\<lparr>ai_unavailable := True\<rparr>) metrics health
    \<le> calculate logf cfg (auth\<lparr>ai_unavailable := False\<rparr>) metrics health"
proof -
  let ?t = "auth\<lparr>ai_unavailable := True\<rparr>" and ?f = "auth\<lparr>ai_unavailable := False\<rparr>"
  have scores: "calculate_priority_score (auth\<lparr>ai_unavailable := b\<rparr>) = calculate_priority_score auth"
    "calculate_load_score logf (auth\<lparr>ai_unavailable := b\<rparr>) metrics = calculate_load_score logf auth metrics"
    "learned_total logf cfg (auth\<lparr>ai_unavailable := b\<rparr>) metrics health = learned_total logf cfg auth metrics health" for b
    by (simp_all add: calculate_priority_score_def calculate_load_score_def learned_total_def)
  have step: "fmax (times_if True p w) f64_0 \<le> fmax (times_if False p w) f64_0"
    if "f64_ok w" "unit_f64 p" for w p
    using penalty_lowers[OF that] by (simp add: times_if_def)
  have total: "f64_ok (learned_total logf cfg auth metrics health)" by (simp add: learned_total_def)
  have "calculate_learned logf cfg ?t metrics health \<le> calculate_learned logf cfg ?f metrics health"
    unfolding calculate_learned_def scores Let_def using total assms
    by (auto intro!: step f64_ok_times_if split: health_status.split)
  moreover have "calculate_heuristic cfg ?t metrics health \<le> calculate_heuristic cfg ?f metrics health"
    unfolding calculate_heuristic_def scores Let_def using assms
    by (auto intro!: step f64_ok_times_if)
  moreover have "calculate_safe_weighted cfg ?t health \<le> calculate_safe_weighted cfg ?f health"
    unfolding calculate_safe_weighted_def scores Let_def using assms
    by (auto intro!: step f64_ok_times_if unit_fmul unit_f64_of split: health_status.split)
  moreover have "calculate_deterministic ?t health \<le> calculate_deterministic ?f health"
    unfolding calculate_deterministic_def scores Let_def by (simp add: fmax_0_nonneg)
  ultimately show ?thesis by (simp add: calculate_def split: planner_mode.split)
qed

theorem unavailable_never_raises_weight_witness:
  "calculate (\<lambda>_. f64_0) default_weight_config (sample_auth\<lparr>ai_unavailable := True\<rparr>) None Healthy
   \<le> calculate (\<lambda>_. f64_0) default_weight_config (sample_auth\<lparr>ai_unavailable := False\<rparr>) None Healthy"
  by (rule unavailable_never_raises_weight) (simp add: default_weight_config_def unit_f64_of)

text \<open>The planner mode for the metrics the collector keeps: safe or deterministic without a record,
  the full calculation from ten requests with a latency on (safe again when unhealthy), the heuristic
  otherwise. The mode of missing data thus never applies to a credential with a record.\<close>

theorem planner_mode_table:
  assumes "\<forall>m. metrics = Some m \<longrightarrow> metrics_ok m"
  shows "select_planner_mode (assess_data_availability metrics) health =
    (case metrics of
       None \<Rightarrow> (if health = Unhealthy then Deterministic else SafeWeighted)
     | Some m \<Rightarrow> (if 10 \<le> total_requests m \<and> f64_0 < avg_latency_ms m
         then if health = Unhealthy then SafeWeighted else Learned else Heuristic))"
  using assms
  by (cases health) (auto simp: assess_data_availability_def metrics_ok_def unit_f64_def Let_def split: option.split)

theorem planner_mode_table_witness:
  "select_planner_mode (assess_data_availability (Some (fresh_metrics 0))) Unhealthy = Heuristic"
  using planner_mode_table[of "Some (fresh_metrics 0)" Unhealthy]
  by (simp add: fresh_metrics_ok) (simp add: fresh_metrics_def)

end
