(* ===== verification/PolicyWeight.thy ===== *)
theory PolicyWeight
  imports Weight Policy
begin

text \<open>
  Policy-aware weights (src/routing/policy_weight.rs): the calculator that multiplies the base weight
  by a policy factor, the factory, and the calculators as a value, which is what the boxed trait
  object of the selector with its downcast amounts to.
\<close>

record policy_calculator =
  pw_config :: weight_config
  pw_matcher :: policy_registry

definition policy_calculator_new :: "weight_config \<Rightarrow> policy_registry \<Rightarrow> policy_calculator" where
  "policy_calculator_new config matcher = \<lparr>pw_config = config, pw_matcher = matcher\<rparr>"

definition calculate_policy_factor :: "policy_registry \<Rightarrow> model_info \<Rightarrow> policy_context \<Rightarrow> f64" where
  "calculate_policy_factor matcher model ctx =
     (if is_blocked matcher model ctx then f64_0 else calculate_weight_factor matcher model ctx)"

definition calculate_with_policy :: "(f64 \<Rightarrow> f64) \<Rightarrow> policy_calculator \<Rightarrow> auth_info \<Rightarrow> auth_metrics option
    \<Rightarrow> health_status \<Rightarrow> model_info \<Rightarrow> policy_context \<Rightarrow> f64 \<times> f64 \<times> f64" where
  "calculate_with_policy logf c auth metrics health model ctx =
     (let base_weight = calculate logf (pw_config c) auth metrics health;
          policy_factor = calculate_policy_factor (pw_matcher c) model ctx
      in (base_weight, policy_factor, fmul base_weight policy_factor))"

text \<open>The trait method has no policy context: it is the base weight.\<close>

definition policy_calculate :: "(f64 \<Rightarrow> f64) \<Rightarrow> policy_calculator \<Rightarrow> auth_info \<Rightarrow> auth_metrics option
    \<Rightarrow> health_status \<Rightarrow> f64" where
  "policy_calculate logf c auth metrics health = calculate logf (pw_config c) auth metrics health"

definition calculate_with_context :: "(f64 \<Rightarrow> f64) \<Rightarrow> policy_calculator \<Rightarrow> auth_info \<Rightarrow> auth_metrics option
    \<Rightarrow> health_status \<Rightarrow> model_info \<Rightarrow> policy_context \<Rightarrow> f64" where
  "calculate_with_context logf c auth metrics health model ctx =
     (case calculate_with_policy logf c auth metrics health model ctx of (_, _, w) \<Rightarrow> w)"

datatype calculator = DefaultCalculator weight_config | PolicyAwareCalculator policy_calculator

fun calculator_calculate :: "(f64 \<Rightarrow> f64) \<Rightarrow> calculator \<Rightarrow> auth_info \<Rightarrow> auth_metrics option
    \<Rightarrow> health_status \<Rightarrow> f64" where
  "calculator_calculate logf (DefaultCalculator cfg) auth metrics health = calculate logf cfg auth metrics health"
| "calculator_calculate logf (PolicyAwareCalculator c) auth metrics health = policy_calculate logf c auth metrics health"

definition factory_create :: "string \<Rightarrow> weight_config \<Rightarrow> policy_registry option \<Rightarrow> calculator" where
  "factory_create strategy config matcher =
     (if strategy = ''policy_aware'' then
        PolicyAwareCalculator (policy_calculator_new config
          (case matcher of Some m \<Rightarrow> m | None \<Rightarrow> registry_empty))
      else DefaultCalculator config)"

definition create_policy_aware :: "weight_config \<Rightarrow> policy_registry \<Rightarrow> policy_calculator" where
  "create_policy_aware config matcher = policy_calculator_new config matcher"

interpretation boxed_calculator: weight_calculator "calculator_calculate logf c" for logf c
  by unfold_locales (cases c; simp add: policy_calculate_def calculate_nonneg)

section \<open>Properties\<close>

lemma fmul_0_right: "is_finite x \<Longrightarrow> fmul x f64_0 = f64_0"
  by (erule is_finiteE) (simp add: fmul_def)

lemma fmul_1_right: "f64_ok x \<Longrightarrow> fmul x f64_1 = x"
  by (cases x) (auto simp: fmul_def f64_ok_def inf_of_sign_def)

lemma f64_ok_0 [simp]: "f64_ok f64_0"
  by (simp add: f64_ok_def)

lemma f64_ok_fmax: "f64_ok x \<Longrightarrow> f64_ok (fmax x f64_0)"
  by (simp add: fmax_def)

lemma f64_ok_calculate: "f64_ok (calculate logf cfg auth metrics health)"
proof -
  have "f64_ok (fmidpoint a b)" for a b by (simp add: fmidpoint_def Let_def)
  then show ?thesis
    by (auto simp: calculate_def calculate_learned_def learned_total_def calculate_heuristic_def
        calculate_safe_weighted_def calculate_deterministic_def Let_def times_if_def
        intro!: f64_ok_fmax split: planner_mode.split health_status.split)
qed

text \<open>Policies act on the weight as documented: a blocked model gets weight 0 for every credential
  with a finite base weight, a model no policy applies to keeps the base weight, and otherwise the
  weight is the base weight times a factor between 0.1 and 10 (or NaN).\<close>

theorem policy_weight_cases:
  assumes "is_finite (calculate logf (pw_config c) auth metrics health)"
  shows "calculate_with_context logf c auth metrics health model ctx =
      (if is_blocked (pw_matcher c) model ctx then f64_0
       else if evaluate (pw_matcher c) model ctx = [] then calculator_calculate logf (PolicyAwareCalculator c) auth metrics health
       else fmul (calculate logf (pw_config c) auth metrics health) (calculate_weight_factor (pw_matcher c) model ctx))"
  using assms fmul_1_right[OF f64_ok_calculate]
  by (simp add: calculate_with_context_def calculate_with_policy_def calculate_policy_factor_def
      policy_calculate_def calculate_weight_factor_def fmul_0_right Let_def)

theorem policy_weight_cases_witness:
  "calculate_with_context (\<lambda>_. f64_0) (policy_calculator_new default_weight_config registry_empty)
     sample_auth None Healthy sample_model sample_context
   = calculate (\<lambda>_. f64_0) default_weight_config sample_auth None Healthy"
proof -
  have fin: "is_finite (calculate (\<lambda>_. f64_0) default_weight_config sample_auth None Healthy)"
    by (rule weight_finite_and_bounded[THEN conjunct1])
      (simp_all add: default_weights_unit default_penalties_unit log_ok_def sample_auth_def)
  then show ?thesis
    using policy_weight_cases[of "\<lambda>_. f64_0" "policy_calculator_new default_weight_config registry_empty"
        sample_auth None Healthy sample_model sample_context]
    by (simp add: policy_calculator_new_def is_blocked_def evaluate_def registry_empty_def policy_calculate_def)
qed

end
