(* ===== verification/Selector.thy ===== *)
theory Selector
  imports PolicyWeight
begin

text \<open>
  The credential selector (src/routing/selector/mod.rs, ranking.rs): the credentials that are
  available get a weight, with or without policies, and one of them is drawn in proportion to it.
  What the code reads from outside is the record \<open>environment\<close>: the logarithm, the clock (one
  reading per credential of the list), the random index and the random number of the draw. A
  failing \<open>expect\<close> and an empty random range are the value \<open>None\<close> of an outer option.
\<close>

section \<open>State\<close>

record environment =
  env_ln :: "f64 \<Rightarrow> f64"
  env_clock :: "nat \<Rightarrow> time"
  env_range :: "nat \<Rightarrow> nat"
  env_random :: f64

record weighted_auth =
  wa_id :: string
  wa_weight :: f64

record smart_selector =
  ss_config :: smart_routing_config
  ss_calculator :: calculator
  ss_metrics :: metrics_collector
  ss_health :: health_manager
  ss_policy_matcher :: "policy_registry option"

definition selector_new :: "smart_routing_config \<Rightarrow> smart_selector" where
  "selector_new config = \<lparr>ss_config = config, ss_calculator = DefaultCalculator (src_weight config),
     ss_metrics = metrics_new, ss_health = health_new (src_health config), ss_policy_matcher = None\<rparr>"

definition selector_with_policy :: "smart_routing_config \<Rightarrow> policy_registry \<Rightarrow> smart_selector" where
  "selector_with_policy config registry =
     \<lparr>ss_config = config,
      ss_calculator = (if src_policy_enabled config
        then PolicyAwareCalculator (policy_calculator_new (src_weight config) registry)
        else DefaultCalculator (src_weight config)),
      ss_metrics = metrics_new, ss_health = health_new (src_health config), ss_policy_matcher = Some registry\<rparr>"

definition set_policy_registry :: "policy_registry \<Rightarrow> smart_selector \<Rightarrow> smart_selector" where
  "set_policy_registry registry s =
     (let s = s\<lparr>ss_policy_matcher := Some registry\<rparr>
      in if src_policy_enabled (ss_config s)
         then s\<lparr>ss_calculator := PolicyAwareCalculator
           (policy_calculator_new (src_weight (ss_config s)) registry)\<rparr>
         else s)"

definition selector_set_config :: "smart_routing_config \<Rightarrow> smart_selector \<Rightarrow> smart_selector" where
  "selector_set_config config s = s\<lparr>ss_config := config,
     ss_calculator := DefaultCalculator (src_weight config),
     ss_health := health_set_config (src_health config) (ss_health s)\<rparr>"

text \<open>\<open>record_result\<close> spawns a task; the definition is the effect of that task. The times are those of
  the metrics (new record, request, outcome) and of the health manager.\<close>

definition selector_record_result ::
  "time \<times> time \<times> time \<Rightarrow> time \<Rightarrow> string \<Rightarrow> bool \<Rightarrow> f64 \<Rightarrow> i32 \<Rightarrow> smart_selector \<Rightarrow> smart_selector" where
  "selector_record_result tm th auth_id success latency_ms status_code s =
     (case tm of (t_new, t_req, t_out) \<Rightarrow>
       s\<lparr>ss_metrics := metrics_record_result t_new t_req t_out auth_id success latency_ms status_code (ss_metrics s),
         ss_health := update_from_result th auth_id success status_code (ss_health s)\<rparr>)"

text \<open>A clone has a default calculator whatever the original has; metrics and health are shared.\<close>

definition selector_clone :: "smart_selector \<Rightarrow> smart_selector" where
  "selector_clone s = s\<lparr>ss_calculator := DefaultCalculator (src_weight (ss_config s))\<rparr>"

definition selector_calculate :: "(f64 \<Rightarrow> f64) \<Rightarrow> smart_selector \<Rightarrow> auth_info \<Rightarrow> auth_metrics option
    \<Rightarrow> health_status \<Rightarrow> f64" where
  "selector_calculate logf s auth metrics health = calculator_calculate logf (ss_calculator s) auth metrics health"

interpretation selector_calculator: weight_calculator "selector_calculate logf s" for logf s
  by unfold_locales (simp add: selector_calculate_def boxed_calculator.calc_nonneg)

section \<open>Selection\<close>

text \<open>The body of the loop of both \<open>filter_and_weigh\<close> functions: the credential at position \<open>i\<close>.\<close>

definition weigh_auth :: "environment \<Rightarrow> smart_selector
    \<Rightarrow> (auth_info \<Rightarrow> auth_metrics option \<Rightarrow> health_status \<Rightarrow> f64) \<Rightarrow> nat \<times> auth_info \<Rightarrow> weighted_auth option" where
  "weigh_auth env s weight_of = (\<lambda>(i, auth).
     if ai_unavailable auth then None
     else
       let metrics = get_metrics (ss_metrics s) (ai_id auth);
           health = get_status (ss_health s) (ai_id auth)
       in if \<not> is_available (env_clock env i) (ss_health s) (ai_id auth) then None
          else
            let weight = weight_of auth metrics health
            in if f64_0 < weight then Some \<lparr>wa_id = ai_id auth, wa_weight = weight\<rparr> else None)"

definition filter_and_weigh :: "environment \<Rightarrow> smart_selector \<Rightarrow> auth_info list \<Rightarrow> weighted_auth list" where
  "filter_and_weigh env s auths =
     List.map_filter (weigh_auth env s (calculator_calculate (env_ln env) (ss_calculator s))) (List.enumerate 0 auths)"

definition policy_weight :: "(f64 \<Rightarrow> f64) \<Rightarrow> smart_selector \<Rightarrow> model_info \<Rightarrow> policy_context
    \<Rightarrow> auth_info \<Rightarrow> auth_metrics option \<Rightarrow> health_status \<Rightarrow> f64" where
  "policy_weight logf s model ctx auth metrics health =
     (let policy_factor = (case ss_policy_matcher s of None \<Rightarrow> f64_1 | Some m \<Rightarrow> calculate_weight_factor m model ctx)
      in case ss_calculator s of
           PolicyAwareCalculator c \<Rightarrow> (case calculate_with_policy logf c auth metrics health model ctx of (_, _, w) \<Rightarrow> w)
         | DefaultCalculator cfg \<Rightarrow> fmul (calculate logf cfg auth metrics health) policy_factor)"

definition policy_blocked :: "smart_selector \<Rightarrow> model_info \<Rightarrow> policy_context \<Rightarrow> bool" where
  "policy_blocked s model ctx = (case ss_policy_matcher s of None \<Rightarrow> False | Some m \<Rightarrow> is_blocked m model ctx)"

definition filter_and_weigh_with_policy ::
  "environment \<Rightarrow> smart_selector \<Rightarrow> auth_info list \<Rightarrow> model_info \<Rightarrow> policy_context \<Rightarrow> weighted_auth list" where
  "filter_and_weigh_with_policy env s auths model ctx =
     (if policy_blocked s model ctx then []
      else List.map_filter (weigh_auth env s (policy_weight (env_ln env) s model ctx)) (List.enumerate 0 auths))"

fun choose_by_weight :: "f64 \<Rightarrow> f64 \<Rightarrow> weighted_auth list \<Rightarrow> string option" where
  "choose_by_weight r cumulative [] = None"
| "choose_by_weight r cumulative (a # rest) =
     (let cumulative = fadd cumulative (wa_weight a)
      in if r \<le> cumulative then Some (wa_id a) else choose_by_weight r cumulative rest)"

definition sum_weights :: "weighted_auth list \<Rightarrow> f64" where
  "sum_weights ws = fold (\<lambda>a s. fadd s (wa_weight a)) ws f64_0"

definition select_by_weight :: "(nat \<Rightarrow> nat) \<Rightarrow> f64 \<Rightarrow> weighted_auth list \<Rightarrow> string option" where
  "select_by_weight random_range random available =
     (case available of
        [a] \<Rightarrow> Some (wa_id a)
      | _ \<Rightarrow>
        let total_weight = sum_weights available
        in if total_weight \<le> f64_0 \<or> \<not> is_finite total_weight then
             (let idx = random_range (length available)
              in if idx < length available then Some (wa_id (available ! idx)) else None)
           else
             let fallback = wa_id (last available); r = fmul random total_weight
             in (case choose_by_weight r f64_0 available of Some a \<Rightarrow> Some a | None \<Rightarrow> Some fallback))"

definition pick_from :: "environment \<Rightarrow> weighted_auth list \<Rightarrow> string option option" where
  "pick_from env available =
     (if available = [] then Some None
      else map_option Some (select_by_weight (env_range env) (env_random env) available))"

definition first_auth :: "auth_info list \<Rightarrow> string option" where
  "first_auth auths = (case auths of [] \<Rightarrow> None | a # _ \<Rightarrow> Some (ai_id a))"

definition pick :: "environment \<Rightarrow> smart_selector \<Rightarrow> auth_info list \<Rightarrow> string option option" where
  "pick env s auths =
     (if \<not> src_enabled (ss_config s) then Some (first_auth auths)
      else if auths = [] then Some None
      else pick_from env (filter_and_weigh env s auths))"

definition pick_with_policy :: "environment \<Rightarrow> smart_selector \<Rightarrow> auth_info list \<Rightarrow> model_info \<Rightarrow> policy_context
    \<Rightarrow> string option option" where
  "pick_with_policy env s auths model ctx =
     (if \<not> src_enabled (ss_config s) then Some (first_auth auths)
      else if auths = [] then Some None
      else pick_from env (filter_and_weigh_with_policy env s auths model ctx))"

section \<open>Weighing\<close>

definition eligible :: "environment \<Rightarrow> smart_selector
    \<Rightarrow> (auth_info \<Rightarrow> auth_metrics option \<Rightarrow> health_status \<Rightarrow> f64) \<Rightarrow> nat \<times> auth_info \<Rightarrow> bool" where
  "eligible env s weight_of = (\<lambda>(i, auth). \<not> ai_unavailable auth
     \<and> is_available (env_clock env i) (ss_health s) (ai_id auth)
     \<and> f64_0 < weight_of auth (get_metrics (ss_metrics s) (ai_id auth)) (get_status (ss_health s) (ai_id auth)))"

lemma weigh_auth_eq:
  "weigh_auth env s w (i, a) = (if eligible env s w (i, a)
     then Some \<lparr>wa_id = ai_id a, wa_weight = w a (get_metrics (ss_metrics s) (ai_id a)) (get_status (ss_health s) (ai_id a))\<rparr>
     else None)"
  by (simp add: weigh_auth_def eligible_def Let_def)

lemma set_map_filter: "set (List.map_filter f xs) = {y. \<exists>x\<in>set xs. f x = Some y}"
  by (force simp: List.map_filter_def)

lemma weighed_iff:
  "x \<in> set (List.map_filter (weigh_auth env s w) ias) \<longleftrightarrow> (\<exists>i a. (i, a) \<in> set ias \<and> eligible env s w (i, a)
     \<and> x = \<lparr>wa_id = ai_id a, wa_weight = w a (get_metrics (ss_metrics s) (ai_id a)) (get_status (ss_health s) (ai_id a))\<rparr>)"
  unfolding set_map_filter mem_Collect_eq
  by (auto simp: weigh_auth_eq split: if_splits) (metis option.inject weigh_auth_eq)+

lemma weighed_positive: "x \<in> set (List.map_filter (weigh_auth env s w) ias) \<Longrightarrow> f64_0 < wa_weight x"
  by (auto simp: weighed_iff eligible_def)

lemma weighed_empty_iff:
  "List.map_filter (weigh_auth env s w) ias = [] \<longleftrightarrow> list_all (\<lambda>ia. \<not> eligible env s w ia) ias"
  by (induction ias) (auto simp: weigh_auth_eq List.map_filter_def split: if_splits)

section \<open>The weighted draw\<close>

definition cumulative :: "weighted_auth list \<Rightarrow> nat \<Rightarrow> f64" where
  "cumulative ws n = sum_weights (take n ws)"

definition add_weight :: "weighted_auth \<Rightarrow> f64 \<Rightarrow> f64" where
  "add_weight a s = fadd s (wa_weight a)"

lemma sum_weights_fold: "sum_weights ws = fold add_weight ws f64_0"
  unfolding sum_weights_def add_weight_def by simp

lemma fold_weight_nonneg: "f64_0 \<le> c \<Longrightarrow> list_all (\<lambda>w. f64_0 < wa_weight w) ws \<Longrightarrow> f64_0 \<le> fold add_weight ws c"
  by (induction ws arbitrary: c) (auto simp: add_weight_def fadd_nonneg f64_less_le)

lemma f64_le_not_less: "x \<le> y \<Longrightarrow> \<not> y < (x :: f64)"
  using f64_not_less[of y x] f64_le_not_NaN[of x y] by auto

lemma choose_spec:
  assumes "f64_0 \<le> c" and "list_all (\<lambda>w. f64_0 < wa_weight w) ws" and "r \<le> fold add_weight ws c" and "ws \<noteq> []"
  shows "\<exists>i<length ws. choose_by_weight r c ws = Some (wa_id (ws ! i))
    \<and> (if i = 0 then True else fold add_weight (take i ws) c < r) \<and> r \<le> fold add_weight (take (Suc i) ws) c"
  using assms
proof (induction ws arbitrary: c)
  case (Cons a ws)
  let ?c = "add_weight a c"
  have c: "f64_0 \<le> ?c" using fold_weight_nonneg[of c "[a]"] Cons.prems by simp
  have step: "choose_by_weight r c (a # ws) = (if r \<le> ?c then Some (wa_id a) else choose_by_weight r ?c ws)"
    by (simp add: add_weight_def Let_def)
  show ?case
  proof (cases "r \<le> ?c")
    case True
    then show ?thesis unfolding step by (intro exI[of _ 0]) simp
  next
    case False
    then have less: "?c < r" using c Cons.prems(3) using f64_not_le[of r ?c] f64_le_not_NaN by blast
    from False Cons.prems(3) have "ws \<noteq> []" by auto
    with Cons.IH[OF c] Cons.prems obtain i where i: "i < length ws" "choose_by_weight r ?c ws = Some (wa_id (ws ! i))"
      "if i = 0 then True else fold add_weight (take i ws) ?c < r" "r \<le> fold add_weight (take (Suc i) ws) ?c" by auto
    with False less show ?thesis unfolding step by (intro exI[of _ "Suc i"]) (cases i; simp)
  qed
qed simp

lemma fadd_finite_rounded: "is_finite (fadd x y) \<Longrightarrow> \<exists>q. fadd x y = f64_of q"
  by (cases x; cases y) (auto simp: is_finite_def)

lemma fold_weight_rounded:
  "is_finite (fold add_weight ws c) \<Longrightarrow> ws \<noteq> [] \<Longrightarrow> \<exists>q. fold add_weight ws c = f64_of q"
  by (induction ws rule: rev_induct) (auto simp: add_weight_def fadd_finite_rounded)

lemma f64_of_idem: "f64_of q = FFin r \<Longrightarrow> f64_of r = FFin r"
  by (auto simp: f64_of_def rnd_idem Let_def split: if_splits)

text \<open>Scaling the total by the random number cannot exceed it.\<close>

lemma scaled_total:
  assumes "unit_f64 u" and "is_finite (fold add_weight ws f64_0)" and "ws \<noteq> []"
    and "list_all (\<lambda>w. f64_0 < wa_weight w) ws"
  shows "fmul u (fold add_weight ws f64_0) \<le> fold add_weight ws f64_0"
    and "f64_0 \<le> fmul u (fold add_weight ws f64_0)"
proof -
  obtain t where t: "fold add_weight ws f64_0 = FFin t" using assms(2) by (rule is_finiteE)
  obtain x where x: "u = FFin x" "0 \<le> x" "x \<le> 1" using assms(1) by (rule unit_f64E)
  have t0: "0 \<le> t" using fold_weight_nonneg[of f64_0 ws] assms(4) t by simp
  have "f64_of t = FFin t" using fold_weight_rounded[OF assms(2,3)] t f64_of_idem by metis
  moreover have "f64_of (x * t) \<le> f64_of t" by (rule f64_of_mono) (use x t0 in \<open>simp add: mult_left_le_one_le\<close>)
  ultimately show "fmul u (fold add_weight ws f64_0) \<le> fold add_weight ws f64_0"
    using t x by (simp add: fmul_FFin)
  show "f64_0 \<le> fmul u (fold add_weight ws f64_0)" using t x t0 by (simp add: fmul_FFin f64_of_nonneg)
qed

lemma select_by_weight_many:
  assumes "2 \<le> length ws"
  shows "select_by_weight random_range u ws =
    (if sum_weights ws \<le> f64_0 \<or> \<not> is_finite (sum_weights ws)
     then (if random_range (length ws) < length ws then Some (wa_id (ws ! random_range (length ws))) else None)
     else (case choose_by_weight (fmul u (sum_weights ws)) f64_0 ws of Some a \<Rightarrow> Some a | None \<Rightarrow> Some (wa_id (last ws))))"
proof -
  obtain a b cs where ws: "ws = a # b # cs" using assms by (cases ws; cases "tl ws") auto
  show ?thesis unfolding ws select_by_weight_def list.case Let_def ..
qed

lemma choose_in: "choose_by_weight r c xs = Some x \<Longrightarrow> \<exists>a\<in>set xs. x = wa_id a"
  by (induction r c xs rule: choose_by_weight.induct) (auto simp: Let_def split: if_splits)

lemma select_by_weight_returns:
  assumes "\<And>n. 0 < n \<Longrightarrow> random_range n < n" and "ws \<noteq> []"
  shows "\<exists>a\<in>set ws. select_by_weight random_range u ws = Some (wa_id a)"
proof (cases "2 \<le> length ws")
  case True
  have idx: "random_range (length ws) < length ws" using assms by simp
  show ?thesis
    unfolding select_by_weight_many[OF True]
    using idx nth_mem[OF idx] last_in_set[OF assms(2)] choose_in[of "fmul u (sum_weights ws)" f64_0 ws]
    by (auto split: option.split)
next
  case False
  with assms(2) obtain a where "ws = [a]" by (cases ws; cases "tl ws") auto
  then show ?thesis by (simp add: select_by_weight_def)
qed

lemma pick_from_returns:
  assumes "\<And>n. 0 < n \<Longrightarrow> env_range env n < n"
  shows "pick_from env ws = Some None \<and> ws = [] \<or> (\<exists>a\<in>set ws. pick_from env ws = Some (Some (wa_id a)))"
  using select_by_weight_returns[OF assms, of ws "env_random env"] by (auto simp: pick_from_def)

section \<open>The calculators of a selector\<close>

text \<open>Every selector that can be built and changed through the public operations.\<close>

inductive selector_reachable :: "smart_selector \<Rightarrow> bool" where
  reach_new: "selector_reachable (selector_new config)"
| reach_with_policy: "selector_reachable (selector_with_policy config registry)"
| reach_set_policy: "selector_reachable s \<Longrightarrow> selector_reachable (set_policy_registry registry s)"
| reach_set_config: "selector_reachable s \<Longrightarrow> selector_reachable (selector_set_config config s)"
| reach_clone: "selector_reachable s \<Longrightarrow> selector_reachable (selector_clone s)"
| reach_record: "selector_reachable s \<Longrightarrow> selector_reachable (selector_record_result tm th a ok l c s)"

text \<open>The calculator always holds the weight configuration, and a policy-aware one the matcher, of the
  selector itself.\<close>

definition calculator_inv :: "smart_selector \<Rightarrow> bool" where
  "calculator_inv s = (case ss_calculator s of
       DefaultCalculator cfg \<Rightarrow> cfg = src_weight (ss_config s)
     | PolicyAwareCalculator c \<Rightarrow> pw_config c = src_weight (ss_config s) \<and> ss_policy_matcher s = Some (pw_matcher c)
         \<and> src_policy_enabled (ss_config s))"

lemma reachable_calculator_inv: "selector_reachable s \<Longrightarrow> calculator_inv s"
  by (induction rule: selector_reachable.induct)
    (auto simp: calculator_inv_def selector_new_def selector_with_policy_def set_policy_registry_def
      selector_set_config_def selector_clone_def selector_record_result_def policy_calculator_new_def Let_def
      split: calculator.splits)

lemma policy_weight_inv:
  assumes "calculator_inv s" and "\<not> policy_blocked s model ctx"
  shows "policy_weight logf s model ctx auth metrics health =
    fmul (calculate logf (src_weight (ss_config s)) auth metrics health)
      (case ss_policy_matcher s of None \<Rightarrow> f64_1 | Some m \<Rightarrow> calculate_weight_factor m model ctx)"
  using assms by (auto simp: policy_weight_def calculator_inv_def policy_blocked_def calculate_with_policy_def
      calculate_policy_factor_def Let_def split: calculator.splits)

section \<open>Properties\<close>

text \<open>Whatever the random index generator (within its documented range) and the random number, an enabled selector
  neither panics nor picks an ineligible credential: the pick is one of the offered credentials that is
  not marked unavailable, is available to the health manager and has a positive weight, and there is no
  pick exactly when no credential is eligible.\<close>

theorem pick_eligible:
  assumes "\<forall>n>0. env_range env n < n" and "src_enabled (ss_config s)"
  shows "case pick env s auths of None \<Rightarrow> False
    | Some None \<Rightarrow> list_all (\<lambda>ia. \<not> eligible env s (calculator_calculate (env_ln env) (ss_calculator s)) ia) (List.enumerate 0 auths)
    | Some (Some x) \<Rightarrow> (\<exists>i a. (i, a) \<in> set (List.enumerate 0 auths) \<and> ai_id a = x
        \<and> eligible env s (calculator_calculate (env_ln env) (ss_calculator s)) (i, a))"
proof (cases "auths = []")
  case False
  then have "pick env s auths = pick_from env (filter_and_weigh env s auths)" using assms(2) by (simp add: pick_def)
  then show ?thesis
    using pick_from_returns[of env "filter_and_weigh env s auths"] assms(1)
    by (auto simp: filter_and_weigh_def weighed_empty_iff weighed_iff) blast
qed (use assms(2) in \<open>simp add: pick_def\<close>)

definition sample_env :: environment where
  "sample_env = \<lparr>env_ln = (\<lambda>_. f64_0), env_clock = (\<lambda>_. 0), env_range = (\<lambda>_. 0), env_random = f64_0\<rparr>"

theorem pick_eligible_witness:
  "pick sample_env (selector_new default_smart_routing_config) [sample_auth\<lparr>ai_unavailable := True\<rparr>] = Some None"
  using pick_eligible[of sample_env "selector_new default_smart_routing_config" "[sample_auth\<lparr>ai_unavailable := True\<rparr>]"]
  by (auto simp: sample_env_def selector_new_def default_smart_routing_config_def eligible_def split: option.splits)

text \<open>C12. The draw is proportional to the weights, rounding included: with at least two credentials of positive
  weight and a finite total, the credential at position \<open>i\<close> is selected exactly for the random numbers
  whose product with the total lies above the sum of the weights before \<open>i\<close> and at most at the sum
  that includes \<open>i\<close>; such an \<open>i\<close> always exists, so the fallback kept for floating-point edge cases is
  never used.\<close>

theorem weighted_draw_proportional:
  assumes "2 \<le> length ws" and "list_all (\<lambda>w. f64_0 < wa_weight w) ws"
    and "is_finite (sum_weights ws)" and "f64_0 < sum_weights ws" and "unit_f64 u"
  shows "\<exists>i<length ws. select_by_weight random_range u ws = Some (wa_id (ws ! i))
    \<and> (if i = 0 then True else cumulative ws i < fmul u (sum_weights ws))
    \<and> fmul u (sum_weights ws) \<le> cumulative ws (Suc i)"
proof -
  have ne: "ws \<noteq> []" using assms(1) by auto
  have "fmul u (sum_weights ws) \<le> fold add_weight ws f64_0"
    using scaled_total[of u ws] assms ne by (simp add: sum_weights_fold)
  from choose_spec[OF _ assms(2) this ne]
  obtain i where i: "i < length ws" "choose_by_weight (fmul u (sum_weights ws)) f64_0 ws = Some (wa_id (ws ! i))"
    "if i = 0 then True else fold add_weight (take i ws) f64_0 < fmul u (sum_weights ws)"
    "fmul u (sum_weights ws) \<le> fold add_weight (take (Suc i) ws) f64_0" by auto
  have "\<not> sum_weights ws \<le> f64_0" using assms(4) f64_le_not_less by blast
  with assms(3) i show ?thesis
    by (intro exI[of _ i]) (cases "i = 0"; simp add: select_by_weight_many[OF assms(1)] cumulative_def sum_weights_fold)
qed

text \<open>The policy decision does not depend on which calculator the selector happens to hold: for every
  reachable selector (also after \<open>clone\<close> and \<open>set_config\<close>, which silently replace a policy-aware calculator
  by a default one, and whether policies are enabled or not) the pick with policies is the pick of the
  default calculator with the policy factor applied; and nothing is picked for a blocked model.\<close>

theorem policy_pick_calculator_independent:
  assumes "selector_reachable s"
  shows "pick_with_policy env s auths model ctx =
      pick_with_policy env (s\<lparr>ss_calculator := DefaultCalculator (src_weight (ss_config s))\<rparr>) auths model ctx
    \<and> (if src_enabled (ss_config s) \<and> policy_blocked s model ctx then pick_with_policy env s auths model ctx = Some None else True)"
proof -
  let ?t = "s\<lparr>ss_calculator := DefaultCalculator (src_weight (ss_config s))\<rparr>"
  have inv: "calculator_inv s" "calculator_inv ?t"
    using reachable_calculator_inv[OF assms] by (simp_all add: calculator_inv_def)
  have blocked: "policy_blocked ?t model ctx = policy_blocked s model ctx" by (simp add: policy_blocked_def)
  have w: "policy_weight (env_ln env) s model ctx = policy_weight (env_ln env) ?t model ctx"
    if "\<not> policy_blocked s model ctx"
    using that by (intro ext) (simp add: policy_weight_inv inv blocked)
  have weigh: "weigh_auth env ?t f = weigh_auth env s f" for f by (simp add: weigh_auth_def fun_eq_iff)
  show ?thesis
    using w blocked weigh by (auto simp: pick_with_policy_def filter_and_weigh_with_policy_def pick_from_def)
qed

text \<open>Two equal weights and the random number 0.75: the second credential.\<close>

theorem weighted_draw_proportional_witness:
  "\<exists>i<2. select_by_weight (\<lambda>_. 0) (f64_of (3 / 4)) [\<lparr>wa_id = ''a'', wa_weight = f64_1\<rparr>, \<lparr>wa_id = ''b'', wa_weight = f64_1\<rparr>]
     = Some ([''a'', ''b''] ! i)"
proof -
  let ?ws = "[\<lparr>wa_id = ''a'', wa_weight = f64_1\<rparr>, \<lparr>wa_id = ''b'', wa_weight = f64_1\<rparr>]"
  have "sum_weights ?ws = f64_nat 2" by (simp add: sum_weights_def)
  also have "\<dots> = FFin 2" using f64_nat_exact[of 2] by simp
  finally have "sum_weights ?ws = FFin 2" .
  then obtain i where "i < length ?ws" "select_by_weight (\<lambda>_. 0) (f64_of (3 / 4)) ?ws = Some (wa_id (?ws ! i))"
    using weighted_draw_proportional[of ?ws "f64_of (3 / 4)" "\<lambda>_. 0"] by (auto simp: is_finite_def unit_f64_of)
  then show ?thesis by (intro exI[of _ i]) (auto simp: less_Suc_eq)
qed

theorem policy_pick_calculator_independent_witness:
  "pick_with_policy sample_env (selector_clone (selector_with_policy (default_smart_routing_config\<lparr>src_policy := default_policy_config\<lparr>pg_enabled := True\<rparr>\<rparr>)
      registry_empty)) [sample_auth] sample_model sample_context
   = pick_with_policy sample_env (selector_with_policy (default_smart_routing_config\<lparr>src_policy := default_policy_config\<lparr>pg_enabled := True\<rparr>\<rparr>)
      registry_empty) [sample_auth] sample_model sample_context"
  using policy_pick_calculator_independent[OF reach_with_policy, of sample_env
      "default_smart_routing_config\<lparr>src_policy := default_policy_config\<lparr>pg_enabled := True\<rparr>\<rparr>" registry_empty "[sample_auth]" sample_model sample_context]
  by (simp add: selector_clone_def)

end
