(* ===== verification/Fallback.thy ===== *)
theory Fallback
  imports Selector
begin

text \<open>
  The fallback planner (src/routing/fallback/mod.rs, planning.rs): the usable credentials in the
  order in which they are tried. The planner is a client of the interface \<open>weight_calculator\<close>: its
  lemmas are proved for any calculator and used on the selector, which the router passes to it.
\<close>

section \<open>Types\<close>

record fallback_route =
  fr_auth_id :: string
  fr_position :: nat
  fr_weight :: f64
  fr_provider :: "string option"

record fallback_config =
  fc_max_fallbacks :: nat
  fc_min_fallbacks :: nat
  fc_enable_provider_diversity :: bool
  fc_prefer_diverse_providers :: bool

definition default_fallback_config :: fallback_config where
  "default_fallback_config = \<lparr>fc_max_fallbacks = 5, fc_min_fallbacks = 2,
     fc_enable_provider_diversity = True, fc_prefer_diverse_providers = True\<rparr>"

text \<open>The planner is its configuration; \<open>with_config\<close> clamps the minimum, \<open>set_config\<close> does not.\<close>

definition planner_new :: fallback_config where
  "planner_new = default_fallback_config"

definition planner_with_config :: "fallback_config \<Rightarrow> fallback_config" where
  "planner_with_config config = config\<lparr>fc_min_fallbacks := min (fc_min_fallbacks config) (fc_max_fallbacks config)\<rparr>"

definition planner_set_config :: "fallback_config \<Rightarrow> fallback_config \<Rightarrow> fallback_config" where
  "planner_set_config config planner = config"

record fallback_auth =
  fa_id :: string
  fa_weight :: f64
  fa_provider :: "string option"

section \<open>Providers of credentials\<close>

definition known_providers :: "string list" where
  "known_providers = [''azure-openai'', ''amazon-bedrock'', ''byte-dance'', ''google-deepmind'', ''alibaba-cloud'',
     ''deepseek'', ''openai'', ''google'', ''chrome'', ''xai'', ''mistral'', ''cohere'', ''perplexity'', ''zhipu'',
     ''baidu'', ''moonshot'', ''meta'', ''azure'', ''bedrock'', ''alibaba'', ''qwen'', ''kimi'', ''grok'']"

definition is_delimiter :: "char \<Rightarrow> bool" where
  "is_delimiter c \<longleftrightarrow> c = CHR ''-'' \<or> c = CHR ''_'' \<or> c = CHR '':''"

text \<open>The provider is a prefix of the identifier that ends at a delimiter or at its end.\<close>

definition provider_prefix :: "string \<Rightarrow> string \<Rightarrow> bool" where
  "provider_prefix lower provider \<longleftrightarrow> starts_with lower provider
     \<and> (case drop (length provider) lower of [] \<Rightarrow> True | c # _ \<Rightarrow> is_delimiter c)"

definition first_segment :: "string \<Rightarrow> string" where
  "first_segment s = takeWhile (\<lambda>c. \<not> is_delimiter c) s"

definition extract_provider :: "string \<Rightarrow> string option" where
  "extract_provider auth_id =
     (if auth_id = [] then None
      else
        let lower = to_lowercase auth_id
        in case find (provider_prefix lower) known_providers of
             Some provider \<Rightarrow> Some provider
           | None \<Rightarrow> (if first_segment auth_id \<noteq> [] then Some (first_segment auth_id) else None))"

section \<open>Planning\<close>

definition calculate_weights :: "(nat \<Rightarrow> time) \<Rightarrow> (auth_info \<Rightarrow> auth_metrics option \<Rightarrow> health_status \<Rightarrow> f64)
    \<Rightarrow> metrics_collector \<Rightarrow> health_manager \<Rightarrow> auth_info list \<Rightarrow> fallback_auth list" where
  "calculate_weights clock calc metrics health auths =
     List.map_filter (\<lambda>(i, auth).
       if ai_unavailable auth then None
       else if \<not> is_available (clock i) health (ai_id auth) then None
       else Some \<lparr>fa_id = ai_id auth,
              fa_weight = calc auth (get_metrics metrics (ai_id auth)) (get_status health (ai_id auth)),
              fa_provider = extract_provider (ai_id auth)\<rparr>) (List.enumerate 0 auths)"

text \<open>The loop of \<open>apply_provider_diversity\<close>: providers used so far, first of each provider, the others.\<close>

fun split_by_provider :: "string list \<Rightarrow> fallback_auth list \<Rightarrow> fallback_auth list \<times> fallback_auth list" where
  "split_by_provider used [] = ([], [])"
| "split_by_provider used (auth # rest) =
     (case fa_provider auth of
        Some provider \<Rightarrow>
          (if provider \<in> set used
           then (let (diversified, remaining) = split_by_provider used rest in (diversified, auth # remaining))
           else (let (diversified, remaining) = split_by_provider (provider # used) rest
                 in (auth # diversified, remaining)))
      | None \<Rightarrow> (let (diversified, remaining) = split_by_provider used rest in (diversified, auth # remaining)))"

definition apply_provider_diversity :: "fallback_config \<Rightarrow> fallback_auth list \<Rightarrow> fallback_auth list" where
  "apply_provider_diversity cfg ws =
     (if \<not> fc_prefer_diverse_providers cfg then ws
      else (let (diversified, remaining) = split_by_provider [] ws in diversified @ remaining))"

fun position_of :: "('a \<Rightarrow> bool) \<Rightarrow> 'a list \<Rightarrow> nat option" where
  "position_of P [] = None"
| "position_of P (x # xs) = (if P x then Some 0 else map_option Suc (position_of P xs))"

definition ensure_primary_first :: "fallback_auth list \<Rightarrow> string \<Rightarrow> fallback_auth list" where
  "ensure_primary_first ws primary_id =
     (case position_of (\<lambda>w. fa_id w = primary_id) ws of
        Some pos \<Rightarrow> ws ! pos # take pos ws @ drop (Suc pos) ws
      | None \<Rightarrow> ws)"

definition usable :: "fallback_auth \<Rightarrow> bool" where
  "usable w \<longleftrightarrow> f64_0 < fa_weight w \<and> is_finite (fa_weight w)"

definition heavier :: "fallback_auth \<Rightarrow> fallback_auth \<Rightarrow> bool" where
  "heavier a b \<longleftrightarrow> fcmp_or_equal (fa_weight b) (fa_weight a) = Less"

definition to_route :: "nat \<times> fallback_auth \<Rightarrow> fallback_route" where
  "to_route = (\<lambda>(idx, w). \<lparr>fr_auth_id = fa_id w, fr_position = idx, fr_weight = fa_weight w, fr_provider = fa_provider w\<rparr>)"

definition fallback_order :: "fallback_config \<Rightarrow> string option \<Rightarrow> fallback_auth list \<Rightarrow> fallback_auth list" where
  "fallback_order cfg primary ws =
     (let ws = sort_by heavier ws;
          ws = (if fc_enable_provider_diversity cfg then apply_provider_diversity cfg ws else ws)
      in case primary of Some p \<Rightarrow> ensure_primary_first ws p | None \<Rightarrow> ws)"

definition generate_fallbacks :: "(nat \<Rightarrow> time) \<Rightarrow> fallback_config \<Rightarrow> auth_info list \<Rightarrow> string option
    \<Rightarrow> (auth_info \<Rightarrow> auth_metrics option \<Rightarrow> health_status \<Rightarrow> f64) \<Rightarrow> metrics_collector \<Rightarrow> health_manager
    \<Rightarrow> fallback_route list" where
  "generate_fallbacks clock cfg auths primary calc metrics health =
     (if auths = [] then []
      else
        let ws = filter usable (calculate_weights clock calc metrics health auths)
        in if ws = [] then []
           else take (fc_max_fallbacks cfg) (map to_route (List.enumerate 0 (fallback_order cfg primary ws))))"

section \<open>The order of the fallbacks\<close>

lemma subseq_in_set: "subseq xs ys \<Longrightarrow> x \<in> set xs \<Longrightarrow> x \<in> set ys"
  by (induction rule: list_emb.induct) auto

lemma subseq_sorted_wrt: "subseq xs ys \<Longrightarrow> sorted_wrt P ys \<Longrightarrow> sorted_wrt P xs"
  by (induction rule: list_emb.induct) (auto dest: subseq_in_set)

lemma heavier_iff: "heavier a b \<longleftrightarrow> fa_weight b < fa_weight a"
  by (auto simp: heavier_def fcmp_or_equal_def)

interpretation weight_order: sort_order heavier "\<lambda>w. fa_weight w \<noteq> FNaN"
proof
  fix a b c :: fallback_auth
  assume "fa_weight a \<noteq> FNaN" "fa_weight b \<noteq> FNaN" "fa_weight c \<noteq> FNaN"
  then show "heavier a b \<Longrightarrow> \<not> heavier b a" and "\<not> heavier a b \<Longrightarrow> \<not> heavier b c \<Longrightarrow> \<not> heavier a c"
    unfolding heavier_iff by (simp_all add: f64_not_less f64_less_le) (metis f64_le_trans)
qed

lemma usable_number: "usable w \<Longrightarrow> fa_weight w \<noteq> FNaN"
  by (auto simp: usable_def dest: f64_less_not_NaN)

lemma split_by_provider_subseq:
  "split_by_provider used ws = (ds, rs) \<Longrightarrow> subseq ds ws \<and> subseq rs ws \<and> mset ds + mset rs = mset ws"
  by (induction used ws arbitrary: ds rs rule: split_by_provider.induct)
    (auto split: option.splits prod.splits if_splits)

lemma split_by_provider_leaders:
  "split_by_provider used ws = (ds, rs) \<Longrightarrow>
     distinct (map fa_provider ds) \<and> None \<notin> fa_provider ` set ds \<and> fa_provider ` set ds \<inter> Some ` set used = {}"
proof (induction used ws arbitrary: ds rs rule: split_by_provider.induct)
  case (2 used auth rest)
  then show ?case by (auto split: option.splits prod.splits if_splits) fastforce+
qed auto

lemma split_by_provider_rest:
  assumes "split_by_provider used ws = (ds, rs)" and "sorted_wrt (\<lambda>a b. \<not> heavier b a) ws"
    and "w \<in> set rs" and "fa_provider w = Some p" and "p \<notin> set used"
  shows "\<exists>l\<in>set ds. fa_provider l = Some p \<and> \<not> heavier w l"
  using assms
proof (induction used ws arbitrary: ds rs rule: split_by_provider.induct)
  case (2 used auth rest)
  show ?case
  proof (cases "\<exists>q. fa_provider auth = Some q \<and> q \<notin> set used")
    case True
    then obtain q ds' where q: "fa_provider auth = Some q" "q \<notin> set used"
      "split_by_provider (q # used) rest = (ds', rs)" "ds = auth # ds'"
      using "2.prems"(1) by (auto split: prod.splits)
    have "set_mset (mset ds' + mset rs) = set_mset (mset rest)" using split_by_provider_subseq[OF q(3)] by simp
    with "2.prems"(2,3) have w: "w \<in> set rest" "sorted_wrt (\<lambda>a b. \<not> heavier b a) rest" by auto
    show ?thesis
    proof (cases "p = q")
      case True
      with q w "2.prems"(2,4) show ?thesis by (intro bexI[of _ auth]) auto
    next
      case False
      with "2.IH"(3)[OF q(1,2,3) w(2) "2.prems"(3,4)] "2.prems"(5) q(4) show ?thesis by auto
    qed
  next
    case False
    then obtain rs' where rs': "split_by_provider used rest = (ds, rs')" "rs = auth # rs'"
      using "2.prems"(1) by (auto split: prod.splits option.splits if_splits)
    with "2.prems" False have "w \<in> set rs'" by auto
    with rs' "2.prems" False "2.IH" show ?thesis by (cases "fa_provider auth") auto
  qed
qed auto

lemma mset_apply_provider_diversity [simp]: "mset (apply_provider_diversity cfg ws) = mset ws"
  using split_by_provider_subseq[of "[]" ws] by (auto simp: apply_provider_diversity_def split: prod.split)

lemma position_of_Some:
  "position_of P xs = Some i \<Longrightarrow> i < length xs \<and> P (xs ! i)"
  by (induction xs arbitrary: i) (auto split: if_splits)

lemma position_of_least:
  "position_of P xs = Some i \<Longrightarrow> x \<in> set (take i xs) \<Longrightarrow> \<not> P x"
  by (induction xs arbitrary: i) (auto split: if_splits)

lemma position_of_None: "position_of P xs = None \<longleftrightarrow> list_all (\<lambda>x. \<not> P x) xs"
  by (induction xs) auto

lemma mset_ensure_primary_first [simp]: "mset (ensure_primary_first ws p) = mset ws"
proof (cases "position_of (\<lambda>w. fa_id w = p) ws")
  case (Some i)
  then have "take i ws @ ws ! i # drop (Suc i) ws = ws" by (intro id_take_nth_drop[symmetric]) (simp add: position_of_Some)
  then have "mset (ws ! i # take i ws @ drop (Suc i) ws) = mset ws" by (metis mset.simps(2) mset_append union_mset_add_mset_right)
  then show ?thesis by (simp add: ensure_primary_first_def Some)
qed (simp add: ensure_primary_first_def)

lemma primary_is_first:
  assumes "p \<in> fa_id ` set ws"
  shows "fa_id (hd (ensure_primary_first ws p)) = p"
proof -
  have "position_of (\<lambda>w. fa_id w = p) ws \<noteq> None" using assms by (auto simp: position_of_None list_all_iff)
  then show ?thesis using position_of_Some[of "\<lambda>w. fa_id w = p" ws] by (auto simp: ensure_primary_first_def)
qed

lemma mset_fallback_order [simp]: "mset (fallback_order cfg primary ws) = mset ws"
  by (simp add: fallback_order_def Let_def split: option.split)

lemma fallback_order_primary:
  assumes "p \<in> fa_id ` set ws"
  shows "fa_id (hd (fallback_order cfg (Some p) ws)) = p"
proof -
  have "set (apply_provider_diversity cfg (sort_by heavier ws)) = set ws"
    by (rule mset_eq_setD) simp
  with assms show ?thesis by (simp add: fallback_order_def Let_def primary_is_first)
qed

lemma calculate_weights_iff:
  "w \<in> set (calculate_weights clock calc metrics health auths) \<longleftrightarrow>
     (\<exists>i a. (i, a) \<in> set (List.enumerate 0 auths) \<and> \<not> ai_unavailable a \<and> is_available (clock i) health (ai_id a)
       \<and> w = \<lparr>fa_id = ai_id a, fa_weight = calc a (get_metrics metrics (ai_id a)) (get_status health (ai_id a)),
               fa_provider = extract_provider (ai_id a)\<rparr>)"
  unfolding calculate_weights_def set_map_filter by (auto split: if_splits) force+

context weight_calculator
begin

text \<open>With a calculator that never returns NaN or a negative number, the planner loses a credential only
  to a weight of zero or infinity.\<close>

lemma usable_weights:
  "filter usable (calculate_weights clock calc metrics health auths)
   = filter (\<lambda>w. fa_weight w \<notin> {f64_0, FPInf}) (calculate_weights clock calc metrics health auths)"
proof (rule filter_cong[OF refl])
  fix w
  assume "w \<in> set (calculate_weights clock calc metrics health auths)"
  then obtain a m h where "fa_weight w = calc a m h" by (auto simp: calculate_weights_iff)
  then show "usable w \<longleftrightarrow> fa_weight w \<notin> {f64_0, FPInf}" by (simp only: usable_def kept_iff)
qed

end

lemma generate_fallbacks_eq:
  "generate_fallbacks clock cfg auths primary calc metrics health
   = take (fc_max_fallbacks cfg) (map to_route (List.enumerate 0
       (fallback_order cfg primary (filter usable (calculate_weights clock calc metrics health auths)))))"
proof -
  have empty: "fallback_order cfg primary [] = []" using mset_fallback_order[of cfg primary "[]"] by (simp del: mset_fallback_order)
  show ?thesis
  proof (cases "auths = []")
    case True
    then have "calculate_weights clock calc metrics health auths = []"
      by (simp add: calculate_weights_def List.map_filter_def)
    with True show ?thesis by (simp add: generate_fallbacks_def empty)
  qed (simp add: generate_fallbacks_def Let_def empty)
qed

section \<open>Properties\<close>

text \<open>The plan of fallbacks for a selector is an ordering of exactly the credentials that can be used, cut to
  the maximum: the credentials not marked unavailable and available to the health manager whose weight
  is neither zero nor infinite, each once per offer, numbered from 0, with their weight and provider;
  and the primary credential comes first when it is among them.\<close>

theorem fallbacks_are_usable_credentials:
  "\<exists>ws. mset ws = mset (filter (\<lambda>w. fa_weight w \<notin> {f64_0, FPInf})
          (calculate_weights clock (selector_calculate logf s) (ss_metrics s) (ss_health s) auths))
    \<and> generate_fallbacks clock cfg auths primary (selector_calculate logf s) (ss_metrics s) (ss_health s)
      = take (fc_max_fallbacks cfg) (map (\<lambda>(i, w). \<lparr>fr_auth_id = fa_id w, fr_position = i, fr_weight = fa_weight w,
          fr_provider = fa_provider w\<rparr>) (List.enumerate 0 ws))
    \<and> (case primary of None \<Rightarrow> True | Some p \<Rightarrow> if p \<in> fa_id ` set ws then fa_id (hd ws) = p else True)"
proof -
  let ?us = "filter usable (calculate_weights clock (selector_calculate logf s) (ss_metrics s) (ss_health s) auths)"
  have "set (fallback_order cfg primary ?us) = set ?us" by (rule mset_eq_setD) simp
  then have "case primary of None \<Rightarrow> True
      | Some p \<Rightarrow> if p \<in> fa_id ` set (fallback_order cfg primary ?us) then fa_id (hd (fallback_order cfg primary ?us)) = p else True"
    using fallback_order_primary[of _ ?us cfg] by (auto split: option.split)
  then show ?thesis
    by (intro exI[of _ "fallback_order cfg primary ?us"])
      (simp only: generate_fallbacks_eq to_route_def selector_calculator.usable_weights[symmetric]
        mset_fallback_order simp_thms)
qed

lemma ensure_primary_first_cases:
  "case primary of
     Some p \<Rightarrow> (if p \<in> fa_id ` set ws
       then \<exists>before w after. ws = before @ w # after \<and> fa_id w = p \<and> p \<notin> fa_id ` set before
         \<and> ensure_primary_first ws p = w # before @ after
       else ensure_primary_first ws p = ws)
   | None \<Rightarrow> True"
proof (cases primary)
  case (Some p)
  show ?thesis
  proof (cases "position_of (\<lambda>w. fa_id w = p) ws")
    case None
    then have "p \<notin> fa_id ` set ws" by (auto simp: position_of_None list_all_iff)
    then show ?thesis using Some None by (simp add: ensure_primary_first_def)
  next
    case (Some i)
    then have i: "i < length ws" "fa_id (ws ! i) = p" using position_of_Some[OF Some] by auto
    have "ws = take i ws @ ws ! i # drop (Suc i) ws" using i(1) by (rule id_take_nth_drop)
    moreover have "p \<notin> fa_id ` set (take i ws)" using position_of_least[OF Some] by auto
    moreover have "p \<in> fa_id ` set ws" using i by force
    ultimately show ?thesis using \<open>primary = Some p\<close> i(2) Some by (auto simp: ensure_primary_first_def)
  qed
qed simp

text \<open>C13. With provider diversity the plan has two parts, each by descending weight: first the heaviest usable
  credential of every provider, all of different providers, then the other usable ones, each of which has a
  leader of its provider that is at least as heavy. Together they are exactly the usable credentials, each as
  often as it was offered; the primary, if it is one of them, is moved from its place to the front, the
  others staying in order; the list is cut to the maximum and numbered from 0.\<close>

theorem fallback_order_diverse:
  assumes "fc_enable_provider_diversity cfg" and "fc_prefer_diverse_providers cfg"
  shows "\<exists>leaders rest order. mset (leaders @ rest) = mset (filter usable (calculate_weights clock calc metrics health auths))
    \<and> sorted_wrt (\<lambda>a b. \<not> fa_weight a < fa_weight b) leaders \<and> sorted_wrt (\<lambda>a b. \<not> fa_weight a < fa_weight b) rest
    \<and> distinct (map fa_provider leaders) \<and> None \<notin> fa_provider ` set leaders
    \<and> list_all (\<lambda>w. case fa_provider w of None \<Rightarrow> True
        | Some p \<Rightarrow> \<exists>l\<in>set leaders. fa_provider l = Some p \<and> \<not> fa_weight l < fa_weight w) rest
    \<and> (case primary of
         Some p \<Rightarrow> (if p \<in> fa_id ` set (leaders @ rest)
           then \<exists>before w after. leaders @ rest = before @ w # after \<and> fa_id w = p \<and> p \<notin> fa_id ` set before
             \<and> order = w # before @ after
           else order = leaders @ rest)
       | None \<Rightarrow> order = leaders @ rest)
    \<and> generate_fallbacks clock cfg auths primary calc metrics health
        = take (fc_max_fallbacks cfg) (map to_route (List.enumerate 0 order))"
proof -
  define ws where "ws = filter usable (calculate_weights clock calc metrics health auths)"
  obtain leaders rest where split: "split_by_provider [] (sort_by heavier ws) = (leaders, rest)" by fastforce
  have sorted: "sorted_wrt (\<lambda>a b. \<not> heavier b a) (sort_by heavier ws)"
    by (intro weight_order.sorted_sort_by) (auto simp: ws_def usable_number)
  have parts: "sorted_wrt (\<lambda>a b. \<not> heavier b a) leaders" "sorted_wrt (\<lambda>a b. \<not> heavier b a) rest"
    using split_by_provider_subseq[OF split] sorted by (auto intro: subseq_sorted_wrt)
  have all: "mset (leaders @ rest) = mset ws"
    using split_by_provider_subseq[OF split] by simp
  have order: "fallback_order cfg primary ws
      = (case primary of Some p \<Rightarrow> ensure_primary_first (leaders @ rest) p | None \<Rightarrow> leaders @ rest)"
    using assms split by (simp add: fallback_order_def apply_provider_diversity_def Let_def split: option.split)
  show ?thesis
    unfolding generate_fallbacks_eq ws_def[symmetric] order
    using parts all split_by_provider_leaders[OF split] split_by_provider_rest[OF split sorted]
      ensure_primary_first_cases[where primary = primary and ws = "leaders @ rest"]
    by (intro exI[of _ leaders] exI[of _ rest]
        exI[of _ "case primary of Some p \<Rightarrow> ensure_primary_first (leaders @ rest) p | None \<Rightarrow> leaders @ rest"])
      (auto simp: heavier_iff list_all_iff split: option.split)
qed

theorem fallback_order_diverse_witness:
  "\<exists>leaders rest. mset (leaders @ rest) = mset (filter usable (calculate_weights (\<lambda>_. 0) (\<lambda>_ _ _. f64_1) metrics_new
       (health_new default_health_config) [\<lparr>ai_id = ''google-1'', ai_priority = None, ai_quota_exceeded = False,
         ai_unavailable = False, ai_model_states = []\<rparr>]))
    \<and> distinct (map fa_provider leaders)"
  using fallback_order_diverse[of default_fallback_config "\<lambda>_. 0" "\<lambda>_ _ _. f64_1" metrics_new "health_new default_health_config"
      "[\<lparr>ai_id = ''google-1'', ai_priority = None, ai_quota_exceeded = False, ai_unavailable = False, ai_model_states = []\<rparr>]" None]
  by (auto simp: default_fallback_config_def)

lemma find_first:
  assumes "find P xs = Some q" and "p \<in> set xs" and "P p" and "sorted_wrt R xs"
  shows "p = q \<or> R q p"
  using assms by (induction xs) (auto split: if_splits)

text \<open>No provider of the table precedes a longer one that it is a prefix of.\<close>

lemma known_providers_order: "sorted_wrt (\<lambda>a b. \<not> strict_prefix a b) known_providers"
  by (simp add: known_providers_def strict_prefix_def)

text \<open>A credential named after a known provider is attributed to it, whatever its case, and to the most specific
  one: the extracted provider is a known one that ends at a delimiter of the identifier, and no known
  provider that also does is longer.\<close>

theorem extract_provider_longest:
  assumes "p \<in> set known_providers" and "provider_prefix (to_lowercase auth_id) p" and "auth_id \<noteq> []"
  shows "\<exists>q\<in>set known_providers. extract_provider auth_id = Some q
    \<and> provider_prefix (to_lowercase auth_id) q \<and> length p \<le> length q"
proof -
  let ?s = "to_lowercase auth_id"
  obtain q where q: "find (provider_prefix ?s) known_providers = Some q"
    using assms(1,2) by (cases "find (provider_prefix ?s) known_providers") (auto simp: find_None_iff)
  then have q': "q \<in> set known_providers" "provider_prefix ?s q" by (auto simp: find_Some_iff)
  have "p = q \<or> \<not> strict_prefix q p" by (rule find_first[OF q assms(1,2) known_providers_order])
  moreover have "prefix p q \<or> prefix q p"
    using assms(2) q'(2) prefix_same_cases by (auto simp: provider_prefix_def)
  ultimately have "prefix p q" by (auto simp: strict_prefix_def)
  then have "length p \<le> length q" by (rule prefix_length_le)
  with q q' assms(3) show ?thesis by (auto simp: extract_provider_def)
qed

theorem extract_provider_longest_witness:
  "\<exists>q. extract_provider ''Azure-OpenAI-key1'' = Some q \<and> length ''azure-openai'' \<le> length q"
proof -
  have "provider_prefix (to_lowercase ''Azure-OpenAI-key1'') ''azure-openai''"
    by code_simp
  moreover have "''azure-openai'' \<in> set known_providers" by (simp add: known_providers_def)
  ultimately show ?thesis using extract_provider_longest[of "''azure-openai''" "''Azure-OpenAI-key1''"] by auto
qed

end
