(* ===== verification/Candidates.thy ===== *)
theory Candidates
  imports Policy
begin

text \<open>
  Route candidates and hard constraints (src/routing/candidate.rs, src/routing/filtering.rs) with
  the request types they read (src/routing/classification/mod.rs): every registered credential and
  model pair becomes a candidate, and the filter keeps those that satisfy the request's
  capabilities, its token estimate, the disabled providers and the blocking policies.
\<close>

section \<open>Classified requests\<close>

record required_capabilities =
  rc_vision :: bool
  rc_tools :: bool
  rc_streaming :: bool
  rc_thinking :: bool

datatype request_format = OpenAIFormat | AnthropicFormat | GeminiFormat | GenericFormat
datatype quality_preference = Speed | Balanced | Quality

record classified_request =
  required_caps :: required_capabilities
  estimated_tokens :: nat
  request_format :: request_format
  quality_pref :: quality_preference

section \<open>Candidates\<close>

datatype token_fit_status = Fits | Exceeds | Unknown

record route_candidate =
  rc_credential_id :: string
  rc_model_id :: string
  rc_provider :: string
  rc_model_info :: model_info
  estimated_cost :: f64
  token_fit :: token_fit_status

record candidate_builder =
  cb_credential_models :: "string list hmap"
  cb_models :: "model_info hmap"

definition builder_new :: candidate_builder where
  "builder_new = \<lparr>cb_credential_models = [], cb_models = []\<rparr>"

definition builder_add_credential :: "string \<Rightarrow> string list \<Rightarrow> candidate_builder \<Rightarrow> candidate_builder" where
  "builder_add_credential credential_id model_ids b =
     b\<lparr>cb_credential_models := hm_insert credential_id model_ids (cb_credential_models b)\<rparr>"

definition builder_set_model :: "string \<Rightarrow> model_info \<Rightarrow> candidate_builder \<Rightarrow> candidate_builder" where
  "builder_set_model model_id info b = b\<lparr>cb_models := hm_insert model_id info (cb_models b)\<rparr>"

definition token_fit_for :: "classified_request \<Rightarrow> model_info \<Rightarrow> token_fit_status" where
  "token_fit_for request info =
     (if 0 < estimated_tokens request then
        if can_fit_context info (estimated_tokens request) then Fits else Exceeds
      else Unknown)"

definition candidate_for :: "classified_request \<Rightarrow> string \<Rightarrow> string \<Rightarrow> model_info \<Rightarrow> route_candidate" where
  "candidate_for request credential_id model_id info = \<lparr>rc_credential_id = credential_id,
     rc_model_id = model_id, rc_provider = mi_provider info, rc_model_info = info,
     estimated_cost = f64_0, token_fit = token_fit_for request info\<rparr>"

definition build_candidates :: "candidate_builder \<Rightarrow> classified_request \<Rightarrow> route_candidate list" where
  "build_candidates b request =
     (if cb_credential_models b = [] then []
      else concat (map (\<lambda>(credential_id, model_ids).
             concat (map (\<lambda>model_id. case hm_get (cb_models b) model_id of
                 Some info \<Rightarrow> [candidate_for request credential_id model_id info]
               | None \<Rightarrow> []) model_ids))
           (cb_credential_models b)))"

datatype capability_support = Supported | Unsupported bool bool bool bool

definition check_capability_support :: "required_capabilities \<Rightarrow> model_info \<Rightarrow> capability_support" where
  "check_capability_support required info =
     (let c = mi_capabilities info;
          vision_match = (\<not> rc_vision required \<or> cap_vision c);
          tools_match = (\<not> rc_tools required \<or> cap_tools c);
          streaming_match = (\<not> rc_streaming required \<or> cap_streaming c);
          thinking_match = (\<not> rc_thinking required \<or> cap_thinking c)
      in if vision_match \<and> tools_match \<and> streaming_match \<and> thinking_match then Supported
         else Unsupported (rc_vision required \<and> \<not> cap_vision c) (rc_tools required \<and> \<not> cap_tools c)
           (rc_streaming required \<and> \<not> cap_streaming c) (rc_thinking required \<and> \<not> cap_thinking c))"

fun is_supported :: "capability_support \<Rightarrow> bool" where
  "is_supported Supported = True"
| "is_supported (Unsupported _ _ _ _) = False"

fun join :: "string \<Rightarrow> string list \<Rightarrow> string" where
  "join sep [] = []"
| "join sep [x] = x"
| "join sep (x # xs) = x @ sep @ join sep xs"

fun missing_description :: "capability_support \<Rightarrow> string option" where
  "missing_description Supported = None"
| "missing_description (Unsupported v t s k) =
     (let missing = (if v then [''vision''] else []) @ (if t then [''tools''] else [])
            @ (if s then [''streaming''] else []) @ (if k then [''thinking''] else [])
      in if missing = [] then None else Some (join '', '' missing))"

section \<open>The constraint filter\<close>

datatype filter_result = Accepted | Rejected string

fun filter_result_display :: "filter_result \<Rightarrow> string" where
  "filter_result_display Accepted = ''accepted''"
| "filter_result_display (Rejected reason) = ''rejected: '' @ reason"

fun is_accepted :: "filter_result \<Rightarrow> bool" where
  "is_accepted Accepted = True"
| "is_accepted (Rejected _) = False"

record constraint_filter =
  disabled_providers :: "string list"
  cf_policy_matcher :: "policy_registry option"
  cf_tenant_id :: "string option"

definition filter_new :: constraint_filter where
  "filter_new = \<lparr>disabled_providers = [], cf_policy_matcher = None, cf_tenant_id = None\<rparr>"

definition add_disabled_provider :: "string \<Rightarrow> constraint_filter \<Rightarrow> constraint_filter" where
  "add_disabled_provider provider f = f\<lparr>disabled_providers := List.insert provider (disabled_providers f)\<rparr>"

definition set_policy_matcher :: "policy_registry \<Rightarrow> constraint_filter \<Rightarrow> constraint_filter" where
  "set_policy_matcher r f = f\<lparr>cf_policy_matcher := Some r\<rparr>"

definition set_tenant_id :: "string \<Rightarrow> constraint_filter \<Rightarrow> constraint_filter" where
  "set_tenant_id t f = f\<lparr>cf_tenant_id := Some t\<rparr>"

definition filter_context :: "constraint_filter \<Rightarrow> classified_request \<Rightarrow> policy_context" where
  "filter_context f request = \<lparr>hour_of_day = None, day_of_week = None,
     token_count = Some (estimated_tokens request), tenant_id = cf_tenant_id f, model_family = None,
     metadata = []\<rparr>"

definition check_policy_violation ::
  "constraint_filter \<Rightarrow> policy_registry \<Rightarrow> route_candidate \<Rightarrow> classified_request \<Rightarrow> string option" where
  "check_policy_violation f matcher c request =
     (if is_blocked matcher (rc_model_info c) (filter_context f request)
      then Some ''policy violation: blocked by policy'' else None)"

definition check_constraints ::
  "constraint_filter \<Rightarrow> route_candidate \<Rightarrow> classified_request \<Rightarrow> filter_result" where
  "check_constraints f c request =
     (let support = check_capability_support (required_caps request) (rc_model_info c) in
      case (if \<not> is_supported support then missing_description support else None) of
        Some desc \<Rightarrow> Rejected (''capability mismatch: missing '' @ desc)
      | None \<Rightarrow>
          (if token_fit c = Exceeds then
             Rejected (''context overflow: '' @ show_nat (estimated_tokens request) @ '' tokens exceeds model ''
               @ rc_model_id c @ '' context window of '' @ show_nat (context_window (rc_model_info c)))
           else if rc_provider c \<in> set (disabled_providers f) then
             Rejected (''provider disabled: '' @ rc_provider c)
           else (case Option.bind (cf_policy_matcher f) (\<lambda>m. check_policy_violation f m c request) of
               Some reason \<Rightarrow> Rejected reason
             | None \<Rightarrow> Accepted)))"

definition filter_candidates ::
  "constraint_filter \<Rightarrow> route_candidate list \<Rightarrow> classified_request \<Rightarrow> route_candidate list" where
  "filter_candidates f cs request = filter (\<lambda>c. is_accepted (check_constraints f c request)) cs"

section \<open>Properties\<close>

lemma candidate_for_fields [simp]:
  "rc_credential_id (candidate_for q cid mid info) = cid" "rc_model_id (candidate_for q cid mid info) = mid"
  "rc_provider (candidate_for q cid mid info) = mi_provider info"
  "rc_model_info (candidate_for q cid mid info) = info"
  "token_fit (candidate_for q cid mid info) = token_fit_for q info"
  by (simp_all add: candidate_for_def)

lemma build_candidates_iff:
  "c \<in> set (build_candidates b request) \<longleftrightarrow>
     (\<exists>cid mids mid info. (cid, mids) \<in> set (cb_credential_models b) \<and> mid \<in> set mids
       \<and> hm_get (cb_models b) mid = Some info \<and> c = candidate_for request cid mid info)"
  by (auto simp: build_candidates_def split: option.splits if_splits) (force split: option.split)+

text \<open>What the request requires of a model.\<close>

definition capabilities_cover :: "required_capabilities \<Rightarrow> model_capabilities \<Rightarrow> bool" where
  "capabilities_cover r c \<longleftrightarrow> (rc_vision r \<le> cap_vision c) \<and> (rc_tools r \<le> cap_tools c)
     \<and> (rc_streaming r \<le> cap_streaming c) \<and> (rc_thinking r \<le> cap_thinking c)"

lemma capability_mismatch_iff:
  "(if \<not> is_supported (check_capability_support r info)
     then missing_description (check_capability_support r info) else None) = None
   \<longleftrightarrow> capabilities_cover r (mi_capabilities info)"
  by (auto simp: check_capability_support_def capabilities_cover_def Let_def)

definition blocked_by_filter :: "constraint_filter \<Rightarrow> model_info \<Rightarrow> classified_request \<Rightarrow> bool" where
  "blocked_by_filter f info request = (case cf_policy_matcher f of None \<Rightarrow> False
     | Some m \<Rightarrow> is_blocked m info (filter_context f request))"

lemma accepted_iff:
  "is_accepted (check_constraints f c request) \<longleftrightarrow>
     capabilities_cover (required_caps request) (mi_capabilities (rc_model_info c))
     \<and> token_fit c \<noteq> Exceeds \<and> rc_provider c \<notin> set (disabled_providers f)
     \<and> \<not> blocked_by_filter f (rc_model_info c) request"
  unfolding check_constraints_def Let_def capability_mismatch_iff[symmetric] blocked_by_filter_def
  by (cases "cf_policy_matcher f") (auto simp: check_policy_violation_def split: option.split)

text \<open>C14. The candidates that reach the selection are exactly the registered pairs of a credential and a
  known model whose model has every capability the request requires, whose context window holds the
  estimated tokens (when there is an estimate), whose provider is not disabled and which no policy
  blocks for the request's tenant and token count.\<close>

theorem filtered_candidates_exact:
  "c \<in> set (filter_candidates f (build_candidates b request) request) \<longleftrightarrow>
     (\<exists>cid mids mid info. (cid, mids) \<in> set (cb_credential_models b) \<and> mid \<in> set mids
       \<and> hm_get (cb_models b) mid = Some info \<and> c = candidate_for request cid mid info
       \<and> capabilities_cover (required_caps request) (mi_capabilities info)
       \<and> estimated_tokens request \<in> {0..context_window info}
       \<and> mi_provider info \<notin> set (disabled_providers f)
       \<and> \<not> blocked_by_filter f info request)"
proof -
  have fit: "token_fit_for request info = Exceeds \<longleftrightarrow> estimated_tokens request \<notin> {0..context_window info}" for info
    by (auto simp: token_fit_for_def can_fit_context_def)
  show ?thesis
    unfolding filter_candidates_def set_filter mem_Collect_eq build_candidates_iff accepted_iff
    by (auto simp: fit) blast+
qed

end
