(* ===== verification/Utility.thy ===== *)
theory Utility
  imports Metrics
begin

text \<open>
  The utility estimator (src/routing/utility.rs): a weighted combination of success, latency and cost
  utilities, with a floor, in binary64.
\<close>

section \<open>Estimator\<close>

record utility_config =
  u_success_weight :: f64
  u_latency_weight :: f64
  u_cost_weight :: f64
  u_cost_sensitivity :: f64
  u_latency_normalization_ms :: f64
  u_min_utility :: f64

definition default_utility_config :: utility_config where
  "default_utility_config = \<lparr>u_success_weight = f64_of (5 / 10), u_latency_weight = f64_of (3 / 10),
     u_cost_weight = f64_of (2 / 10), u_cost_sensitivity = f64_1,
     u_latency_normalization_ms = f64_nat 1000, u_min_utility = f64_of (1 / 10)\<rparr>"

definition estimate_success_utility :: "auth_metrics \<Rightarrow> f64" where
  "estimate_success_utility m = fclamp (success_rate m) f64_0 f64_1"

definition estimate_latency_utility :: "utility_config \<Rightarrow> auth_metrics \<Rightarrow> f64" where
  "estimate_latency_utility cfg m =
     (if avg_latency_ms m \<le> f64_0 then f64_1
      else fclamp (fdiv f64_1 (fadd f64_1 (fdiv (avg_latency_ms m) (u_latency_normalization_ms cfg)))) f64_0 f64_1)"

definition estimate_cost_utility_with_cost :: "utility_config \<Rightarrow> f64 \<Rightarrow> f64" where
  "estimate_cost_utility_with_cost cfg cost =
     (if cost \<le> f64_0 then f64_1
      else fclamp (fdiv f64_1 (fadd f64_1 (fdiv (fmul cost (u_cost_sensitivity cfg)) (f64_nat 10)))) f64_0 f64_1)"

definition estimate_cost_utility :: "auth_metrics \<Rightarrow> f64" where
  "estimate_cost_utility m = f64_1"

definition combine_utility :: "utility_config \<Rightarrow> f64 \<Rightarrow> f64 \<Rightarrow> f64 \<Rightarrow> f64" where
  "combine_utility cfg cost_utility success_utility latency_utility =
     fma cost_utility (u_cost_weight cfg)
       (fma success_utility (u_success_weight cfg) (fmul latency_utility (u_latency_weight cfg)))"

definition estimate_utility :: "utility_config \<Rightarrow> auth_metrics option \<Rightarrow> f64" where
  "estimate_utility cfg metrics = (case metrics of
       None \<Rightarrow> u_min_utility cfg
     | Some m \<Rightarrow>
         (if total_requests m = 0 then u_min_utility cfg
          else fmax (combine_utility cfg (estimate_cost_utility m) (estimate_success_utility m)
                 (estimate_latency_utility cfg m)) (u_min_utility cfg)))"

definition estimate_utility_with_cost :: "utility_config \<Rightarrow> auth_metrics option \<Rightarrow> f64 \<Rightarrow> f64" where
  "estimate_utility_with_cost cfg metrics cost_per_million = (case metrics of
       None \<Rightarrow> u_min_utility cfg
     | Some m \<Rightarrow>
         (if total_requests m = 0 then u_min_utility cfg
          else fmax (combine_utility cfg (estimate_cost_utility_with_cost cfg cost_per_million)
                 (estimate_success_utility m) (estimate_latency_utility cfg m)) (u_min_utility cfg)))"

section \<open>Monotone arithmetic\<close>

lemma fmul_unit_mono:
  assumes "unit_f64 x" "unit_f64 y" "x \<le> y" "unit_f64 w"
  shows "fmul x w \<le> fmul y w"
  using assms by (auto simp: fmul_FFin mult_right_mono intro!: f64_of_mono elim!: unit_f64E)

lemma fma_unit_mono:
  assumes "unit_f64 x" "unit_f64 y" "x \<le> y" "unit_f64 w" "u \<le> v" "f64_0 \<le> u"
  shows "fma x w u \<le> fma y w v"
  using assms(1-4) assms(5,6)
  by (cases u; cases v) (auto simp: fma_def mult_right_mono intro!: f64_of_mono add_mono elim!: unit_f64E)

lemma fma_nonneg: "unit_f64 x \<Longrightarrow> unit_f64 w \<Longrightarrow> f64_0 \<le> u \<Longrightarrow> f64_0 \<le> fma x w u"
  by (cases u) (auto simp: fma_def intro!: f64_of_nonneg elim!: unit_f64E)

lemma fmul_unit_nonneg: "unit_f64 x \<Longrightarrow> unit_f64 w \<Longrightarrow> f64_0 \<le> fmul x w"
  using unit_fmul[of x w] by (simp add: unit_f64_def)

lemma fclamp_unit_mono: "x \<le> y \<Longrightarrow> fclamp x f64_0 f64_1 \<le> fclamp y f64_0 f64_1"
  by (cases x; cases y) (auto simp: fclamp_def)

lemma fmax_mono: "x \<le> y \<Longrightarrow> z \<noteq> FNaN \<Longrightarrow> fmax x z \<le> fmax y z"
  by (cases x; cases y; cases z) (auto simp: fmax_def)

text \<open>\<open>1 / (1 + x / n)\<close> falls as \<open>x\<close> grows.\<close>

definition inverse_share :: "f64 \<Rightarrow> f64 \<Rightarrow> f64" where
  "inverse_share n x = fdiv f64_1 (fadd f64_1 (fdiv x n))"

lemma one_plus_ge: "f64_0 \<le> z \<Longrightarrow> f64_1 \<le> fadd f64_1 z"
  by (rule fadd_ge_left) (simp_all add: f64_ok_def)

lemma inverse_antimono: "f64_1 \<le> a \<Longrightarrow> a \<le> b \<Longrightarrow> fdiv f64_1 b \<le> fdiv f64_1 a"
  by (cases a; cases b) (auto intro!: f64_of_mono f64_of_nonneg simp: frac_le)

lemma fdiv_pos_mono: "f64_0 \<le> x \<Longrightarrow> x \<le> y \<Longrightarrow> f64_0 < n \<Longrightarrow> is_finite n \<Longrightarrow>
    f64_0 \<le> fdiv x n \<and> fdiv x n \<le> fdiv y n"
  by (cases x; cases y; cases n)
    (auto simp: is_finite_def divide_right_mono f64_le_refl intro!: f64_of_mono f64_of_nonneg)

lemma inverse_share_antimono:
  assumes "f64_0 \<le> x" "x \<le> y" "f64_0 < n" "is_finite n"
  shows "inverse_share n y \<le> inverse_share n x"
proof -
  note d = fdiv_pos_mono[OF assms]
  have "fadd f64_1 (fdiv x n) \<le> fadd f64_1 (fdiv y n)"
    using fadd_mono[of "fdiv x n" "fdiv y n" f64_1] d by (simp add: fadd_commute is_finite_def)
  then show ?thesis unfolding inverse_share_def using d by (intro inverse_antimono one_plus_ge) auto
qed

lemma inverse_share_unit:
  assumes "f64_0 \<le> x" "f64_0 < n" "is_finite n"
  shows "unit_f64 (inverse_share n x)"
proof -
  have "x \<le> x" using assms(1) by (auto simp: f64_le_refl dest: f64_le_not_NaN)
  with fdiv_pos_mono[OF assms(1) _ assms(2,3)] have "f64_1 \<le> fadd f64_1 (fdiv x n)"
    by (blast intro: one_plus_ge)
  then show ?thesis by (cases "fadd f64_1 (fdiv x n)") (auto simp: inverse_share_def unit_f64_of)
qed

lemma latency_utility_eq:
  "estimate_latency_utility cfg m = (if avg_latency_ms m \<le> f64_0 then f64_1
     else fclamp (inverse_share (u_latency_normalization_ms cfg) (avg_latency_ms m)) f64_0 f64_1)"
  by (simp add: estimate_latency_utility_def inverse_share_def)

definition utility_config_ok :: "utility_config \<Rightarrow> bool" where
  "utility_config_ok c \<longleftrightarrow> unit_f64 (u_success_weight c) \<and> unit_f64 (u_latency_weight c)
     \<and> unit_f64 (u_cost_weight c) \<and> f64_0 < u_latency_normalization_ms c
     \<and> is_finite (u_latency_normalization_ms c) \<and> u_min_utility c \<noteq> FNaN"

lemma unit_latency_utility:
  assumes "utility_config_ok cfg" and "avg_latency_ms m \<noteq> FNaN"
  shows "unit_f64 (estimate_latency_utility cfg m)"
proof (cases "avg_latency_ms m \<le> f64_0")
  case False
  then have "f64_0 \<le> avg_latency_ms m" using assms(2) by (simp add: f64_not_le f64_less_le)
  then have "unit_f64 (inverse_share (u_latency_normalization_ms cfg) (avg_latency_ms m))"
    using assms(1) by (intro inverse_share_unit) (auto simp: utility_config_ok_def)
  with False show ?thesis by (simp add: latency_utility_eq fclamp_unit_id)
qed (simp add: latency_utility_eq)

lemma unit_success_utility: "success_rate m \<noteq> FNaN \<Longrightarrow> unit_f64 (estimate_success_utility m)"
  by (simp add: estimate_success_utility_def unit_fclamp)

lemma latency_utility_antimono:
  assumes "utility_config_ok cfg" and "avg_latency_ms m \<le> avg_latency_ms m'"
  shows "estimate_latency_utility cfg m' \<le> estimate_latency_utility cfg m"
proof (cases "avg_latency_ms m \<le> f64_0")
  case True
  then show ?thesis using unit_latency_utility[OF assms(1), of m'] f64_le_not_NaN[OF assms(2)]
    by (simp add: latency_utility_eq[of cfg m] unit_f64_def)
next
  case False
  then have pos: "f64_0 \<le> avg_latency_ms m" using f64_le_not_NaN[OF assms(2)]
    by (simp add: f64_not_le f64_less_le)
  have "\<not> avg_latency_ms m' \<le> f64_0" using False assms(2) f64_le_trans by blast
  with False show ?thesis
    using inverse_share_antimono[OF pos assms(2)] assms(1)
    by (simp add: latency_utility_eq fclamp_unit_mono utility_config_ok_def)
qed

section \<open>Properties\<close>

text \<open>Utility ranks routes the right way: of two credentials with requests, the one with a success
  rate at least as high and an average latency at most as high never has the lower utility (rounding
  included), and no utility is below the configured floor.\<close>

theorem utility_monotone:
  assumes "utility_config_ok cfg" and "total_requests m \<noteq> 0" and "total_requests m' \<noteq> 0"
    and "success_rate m \<le> success_rate m'" and "avg_latency_ms m' \<le> avg_latency_ms m"
  shows "estimate_utility cfg (Some m) \<le> estimate_utility cfg (Some m')
    \<and> u_min_utility cfg \<le> estimate_utility cfg (Some m)"
proof -
  have s: "unit_f64 (estimate_success_utility m)" "unit_f64 (estimate_success_utility m')"
    "estimate_success_utility m \<le> estimate_success_utility m'"
    using f64_le_not_NaN[OF assms(4)] assms(4)
    by (simp_all add: unit_success_utility) (simp add: estimate_success_utility_def fclamp_unit_mono)
  have l: "unit_f64 (estimate_latency_utility cfg m)" "unit_f64 (estimate_latency_utility cfg m')"
    "estimate_latency_utility cfg m \<le> estimate_latency_utility cfg m'"
    using assms f64_le_not_NaN[OF assms(5)] by (simp_all add: unit_latency_utility latency_utility_antimono)
  have w: "unit_f64 (u_success_weight cfg)" "unit_f64 (u_latency_weight cfg)" "unit_f64 (u_cost_weight cfg)"
    and floor: "u_min_utility cfg \<noteq> FNaN" using assms(1) by (simp_all add: utility_config_ok_def)
  have "combine_utility cfg f64_1 (estimate_success_utility m) (estimate_latency_utility cfg m)
      \<le> combine_utility cfg f64_1 (estimate_success_utility m') (estimate_latency_utility cfg m')"
    unfolding combine_utility_def
    by (intro fma_unit_mono fmul_unit_mono fma_nonneg fmul_unit_nonneg) (use s l w in simp_all)
  moreover have "z \<le> fmax y z" if "z \<noteq> FNaN" for y z
    using that by (cases y; cases z) (auto simp: fmax_def)
  ultimately show ?thesis using assms(2,3) floor
    by (simp add: estimate_utility_def estimate_cost_utility_def fmax_mono)
qed

lemma f64_of_1000: "f64_of 1000 = FFin 1000"
  using f64_nat_exact[of 1000] by simp

lemma default_utility_config_ok: "utility_config_ok default_utility_config"
  by (simp add: utility_config_ok_def default_utility_config_def unit_f64_of is_finite_def f64_of_1000)

theorem utility_monotone_witness:
  "estimate_utility default_utility_config (Some ((fresh_metrics 0)\<lparr>total_requests := 3, avg_latency_ms := FFin 900\<rparr>))
   \<le> estimate_utility default_utility_config (Some ((fresh_metrics 0)\<lparr>total_requests := 9, avg_latency_ms := FFin 100\<rparr>))"
  by (rule utility_monotone[THEN conjunct1]) (simp_all add: default_utility_config_ok fresh_metrics_def)

lemma default_weight_values:
  "f64_of (5 / 10) = FFin (1 / 2)" "f64_of (3 / 10) = FFin (5404319552844595 / 18014398509481984)"
  "f64_of (2 / 10) = FFin (7205759403792794 / 36028797018963968)"
  "f64_of (8 / 10) = FFin (7205759403792794 / 9007199254740992)"
  "f64_of (36028797018963970 / 36028797018963968) = f64_1"
proof -
  have h: "rnd (1 / 2) = (1 / 2 :: rat)" using rnd_scaled[of 1 "- 1"] by (simp add: power_int_minus)
  have "rnd (3 / 10) = (5404319552844595 / 18014398509481984 :: rat)"
    using rnd_nearest[of "-54" "3 / 10" 5404319552844595] by simp
  moreover have "rnd (1 / 5) = (7205759403792794 / 36028797018963968 :: rat)"
    using rnd_nearest[of "-55" "1 / 5" 7205759403792794] by simp
  moreover have "rnd (4 / 5) = (7205759403792794 / 9007199254740992 :: rat)"
    using rnd_nearest[of "-53" "4 / 5" 7205759403792794] by simp
  moreover have "rnd (36028797018963970 / 36028797018963968) = (1 :: rat)"
    using rnd_nearest[of "-52" "36028797018963970 / 36028797018963968" "2 ^ 52"] by simp
  ultimately show "f64_of (5 / 10) = FFin (1 / 2)" "f64_of (3 / 10) = FFin (5404319552844595 / 18014398509481984)"
    "f64_of (2 / 10) = FFin (7205759403792794 / 36028797018963968)"
    "f64_of (8 / 10) = FFin (7205759403792794 / 9007199254740992)"
    "f64_of (36028797018963970 / 36028797018963968) = f64_1"
    using h f64_of_finite[of "1 / 2"] f64_of_finite[of "3 / 10"] f64_of_finite[of "1 / 5"] f64_of_finite[of "4 / 5"]
      f64_of_finite[of "36028797018963970 / 36028797018963968"] by simp_all
qed

lemma default_utility_max:
  "combine_utility default_utility_config f64_1 f64_1 f64_1 \<le> f64_1"
proof -
  have "fmul f64_1 (f64_of (3 / 10)) = f64_of (3 / 10)"
    using f64_ok_of[of "3 / 10"] by (simp only: default_weight_values(2) f64_ok_def f64.case fmul_FFin mult_1)
  moreover have "fma f64_1 (f64_of (5 / 10)) (f64_of (3 / 10)) \<le> f64_of (8 / 10)"
    unfolding fma_def default_weight_values(1,2) fprod.simps fadd.simps by (rule f64_of_mono) simp
  moreover have "f64_0 \<le> fma f64_1 (f64_of (5 / 10)) (f64_of (3 / 10))"
    by (intro fma_nonneg) (simp_all add: unit_f64_of f64_of_nonneg)
  ultimately have "combine_utility default_utility_config f64_1 f64_1 f64_1
      \<le> fma f64_1 (f64_of (2 / 10)) (f64_of (8 / 10))"
    by (simp add: combine_utility_def default_utility_config_def fma_unit_mono unit_f64_of)
  also have "\<dots> = f64_1"
    unfolding fma_def default_weight_values(3,4) fprod.simps fadd.simps
    using default_weight_values(5) by simp
  finally show ?thesis .
qed

text \<open>With the default configuration the utility stays in the documented unit interval for every
  record with a success rate and a latency that are numbers, although the three rounded weights do
  not add up to exactly 1.\<close>

theorem utility_in_unit_interval:
  assumes "\<forall>m. metrics = Some m \<longrightarrow> success_rate m \<noteq> FNaN \<and> avg_latency_ms m \<noteq> FNaN"
  shows "f64_0 \<le> estimate_utility default_utility_config metrics
    \<and> estimate_utility default_utility_config metrics \<le> f64_1"
proof -
  let ?c = default_utility_config
  have floor: "unit_f64 (u_min_utility ?c)" by (simp add: default_utility_config_def unit_f64_of)
  have "f64_0 \<le> fmax (combine_utility ?c f64_1 s l) (u_min_utility ?c)
      \<and> fmax (combine_utility ?c f64_1 s l) (u_min_utility ?c) \<le> f64_1"
    if "unit_f64 s" "unit_f64 l" for s l
  proof -
    have w: "unit_f64 (u_success_weight ?c)" "unit_f64 (u_latency_weight ?c)" "unit_f64 (u_cost_weight ?c)"
      using default_utility_config_ok by (simp_all add: utility_config_ok_def)
    have sl: "s \<le> f64_1" "l \<le> f64_1" using that by (simp_all add: unit_f64_def)
    have "combine_utility ?c f64_1 s l \<le> combine_utility ?c f64_1 f64_1 f64_1"
      unfolding combine_utility_def
      by (intro fma_unit_mono fmul_unit_mono fma_nonneg fmul_unit_nonneg) (use that sl w in simp_all)
    then have "combine_utility ?c f64_1 s l \<le> f64_1" using default_utility_max f64_le_trans by blast
    with floor show ?thesis
      by (cases "combine_utility ?c f64_1 s l") (auto simp: fmax_def elim!: unit_f64E)
  qed
  then have "f64_0 \<le> estimate_utility ?c (Some m) \<and> estimate_utility ?c (Some m) \<le> f64_1"
    if "metrics = Some m" for m
    using assms that floor unit_success_utility[of m] unit_latency_utility[OF default_utility_config_ok, of m]
    by (simp add: estimate_utility_def estimate_cost_utility_def unit_f64_def)
  with floor show ?thesis by (cases metrics) (simp_all add: estimate_utility_def[of ?c None] unit_f64_def)
qed

theorem utility_in_unit_interval_witness:
  "estimate_utility default_utility_config (Some ((fresh_metrics 0)\<lparr>total_requests := 3\<rparr>)) \<le> f64_1"
  by (rule utility_in_unit_interval[THEN conjunct2]) (simp add: fresh_metrics_def)

end
