(* ===== verification/Bandit.thy ===== *)
theory Bandit
  imports Utility ModelInfo
begin

text \<open>
  The Thompson sampling bandit (src/routing/bandit). Random numbers are an explicit list of the
  uniform draws, consumed in the order the code draws them: a sampler returns its value with the
  draws left, or \<open>None\<close> when the given draws do not suffice (its rejection loops have no bound of their
  own). Square root, logarithm, power and cosine are parameters (\<open>math_lib\<close>).
\<close>

section \<open>State\<close>

record route_stats =
  br_successes :: f64
  br_failures :: f64
  br_pulls :: u64
  br_last_utility :: f64
  br_diversity_penalty :: f64

definition default_route_stats :: route_stats where
  "default_route_stats = \<lparr>br_successes = f64_1, br_failures = f64_1, br_pulls = 0,
     br_last_utility = f64_of (5 / 10), br_diversity_penalty = f64_0\<rparr>"

record bandit_tier_priors =
  tp_flagship :: "f64 \<times> f64"
  tp_standard :: "f64 \<times> f64"
  tp_fast :: "f64 \<times> f64"

datatype tier = FlagshipRoute | StandardRoute | FastRoute

record bandit_config =
  exploration_rate :: f64
  prior_successes :: f64
  prior_failures :: f64
  diversity_weight :: f64
  min_samples_for_thompson :: u64
  use_utility_weighting :: bool
  sample_decay :: f64
  bandit_tier_priors :: "bandit_tier_priors option"

definition default_bandit_config :: bandit_config where
  "default_bandit_config = \<lparr>exploration_rate = f64_of (3 / 10), prior_successes = f64_1,
     prior_failures = f64_1, diversity_weight = f64_of (1 / 10), min_samples_for_thompson = 5,
     use_utility_weighting = True, sample_decay = f64_of (99 / 100), bandit_tier_priors = None\<rparr>"

definition default_tier_priors :: bandit_tier_priors where
  "default_tier_priors = \<lparr>tp_flagship = (FFin 5, f64_1), tp_standard = (FFin 2, FFin 2),
     tp_fast = (f64_1, FFin 3)\<rparr>"

fun tier_prior :: "bandit_tier_priors \<Rightarrow> tier \<Rightarrow> f64 \<times> f64" where
  "tier_prior p FlagshipRoute = tp_flagship p"
| "tier_prior p StandardRoute = tp_standard p"
| "tier_prior p FastRoute = tp_fast p"

record bandit_policy =
  bp_config :: bandit_config
  bp_route_stats :: "route_stats hmap"
  bp_route_tiers :: "tier hmap"
  bp_utility_config :: utility_config

definition bandit_with_config :: "bandit_config \<Rightarrow> bandit_policy" where
  "bandit_with_config config = \<lparr>bp_config = config, bp_route_stats = [], bp_route_tiers = [],
     bp_utility_config = default_utility_config\<rparr>"

definition bandit_with_utility_estimator :: "bandit_config \<Rightarrow> utility_config \<Rightarrow> bandit_policy" where
  "bandit_with_utility_estimator config u = \<lparr>bp_config = config, bp_route_stats = [],
     bp_route_tiers = [], bp_utility_config = u\<rparr>"

definition bandit_new :: bandit_policy where
  "bandit_new = bandit_with_config default_bandit_config"

section \<open>Sampling\<close>

record math_lib =
  m_sqrt :: "f64 \<Rightarrow> f64"
  m_ln :: "f64 \<Rightarrow> f64"
  m_powf :: "f64 \<Rightarrow> f64 \<Rightarrow> f64"
  m_cos :: "f64 \<Rightarrow> f64"

definition f64_pi :: f64 where "f64_pi = f64_of (884279719003555 / 281474976710656)"
definition f64_min_positive :: f64 where "f64_min_positive = f64_of (2 powi (- 1022))"
definition square :: "f64 \<Rightarrow> f64" where "square x = fmul x x"

text \<open>The inner loop: draw \<open>x\<close> until \<open>1 + c * x\<close> is positive.\<close>

fun gamma_x :: "f64 \<Rightarrow> f64 list \<Rightarrow> (f64 \<times> f64 \<times> f64 list) option" where
  "gamma_x c [] = None"
| "gamma_x c (d # draws) =
     (let x = fma (FFin 2) d (FFin (- 1)); v = fadd f64_1 (fmul c x)
      in if f64_0 < v then Some (x, v, draws) else gamma_x c draws)"

lemma gamma_x_shorter: "gamma_x c draws = Some (x, v, rest) \<Longrightarrow> length rest < length draws"
  by (induction draws) (auto simp: Let_def intro: less_SucI split: if_splits)

function gamma_loop :: "math_lib \<Rightarrow> f64 \<Rightarrow> f64 \<Rightarrow> f64 list \<Rightarrow> (f64 \<times> f64 list) option" where
  "gamma_loop m delta c draws = (case gamma_x c draws of
       None \<Rightarrow> None
     | Some (x, v, []) \<Rightarrow> None
     | Some (x, v, u # rest) \<Rightarrow>
         (let v = fmul (fmul v v) v
          in if u < fma (f64_of (331 / 10000)) (fneg (square (fmul x x))) f64_1 then Some (fmul delta v, rest)
             else if m_ln m (fdiv u v) < fma (fmul (f64_of (5 / 10)) x) x
                    (fmul delta (fadd (fsub f64_1 v) (m_ln m v))) then Some (fmul delta v, rest)
             else gamma_loop m delta c rest))"
  by pat_completeness auto
termination
  by (relation "measure (\<lambda>(m, delta, c, draws). length draws)") (auto dest: gamma_x_shorter)

declare gamma_loop.simps [simp del]

function sample_gamma :: "math_lib \<Rightarrow> f64 \<Rightarrow> f64 list \<Rightarrow> (f64 \<times> f64 list) option" where
  "sample_gamma m shape draws =
     (if shape \<le> f64_0 then Some (f64_0, draws)
      else if shape < f64_1 then
        (case draws of
           [] \<Rightarrow> None
         | uniform # draws \<Rightarrow>
             (case sample_gamma m (fadd f64_1 shape) draws of
                None \<Rightarrow> None
              | Some (g, rest) \<Rightarrow> Some (fmul g (m_powf m uniform (fdiv f64_1 shape)), rest)))
      else
        let delta = fsub shape (fdiv f64_1 (FFin 3));
            c = fdiv (fdiv f64_1 (FFin 3)) (m_sqrt m delta)
        in gamma_loop m delta c draws)"
  by pat_completeness auto
termination
  by (relation "measure (\<lambda>(m, shape, draws). length draws)") auto

declare sample_gamma.simps [simp del]

definition sample_beta :: "math_lib \<Rightarrow> f64 \<Rightarrow> f64 \<Rightarrow> f64 list \<Rightarrow> (f64 \<times> f64 list) option" where
  "sample_beta m alpha beta draws =
     (let alpha = fmax alpha f64_min_positive; beta = fmax beta f64_min_positive
      in if FFin 10 < alpha \<and> FFin 10 < beta then
           let mean = fdiv alpha (fadd alpha beta);
               variance = fdiv (fmul alpha beta)
                 (fmul (square (fadd alpha beta)) (fadd (fadd alpha beta) f64_1))
           in if \<not> is_finite variance then Some (f64_of (5 / 10), draws)
              else
                let std_dev = m_sqrt m variance
                in (case draws of
                    u1 # u2 # rest \<Rightarrow>
                      (let z = fmul (m_sqrt m (fmul (FFin (- 2)) (m_ln m u1)))
                             (m_cos m (fmul (fmul (FFin 2) f64_pi) u2))
                       in Some (fclamp (fadd mean (fmul z std_dev)) f64_0 f64_1, rest))
                  | _ \<Rightarrow> None)
         else
           (case sample_gamma m alpha draws of
              None \<Rightarrow> None
            | Some (gamma_alpha, rest) \<Rightarrow>
                (case sample_gamma m beta rest of
                   None \<Rightarrow> None
                 | Some (gamma_beta, rest') \<Rightarrow>
                     (let sum = fadd gamma_alpha gamma_beta
                      in Some (if f64_0 < sum \<and> is_finite sum then fdiv gamma_alpha sum
                               else f64_of (5 / 10), rest')))))"

section \<open>Selection\<close>

definition bandit_get_prior :: "bandit_policy \<Rightarrow> string \<Rightarrow> f64 \<times> f64" where
  "bandit_get_prior p route_id =
     (case Option.bind (hm_get (bp_route_tiers p) route_id)
         (\<lambda>t. map_option (\<lambda>tp. tier_prior tp t) (bandit_tier_priors (bp_config p))) of
        Some prior \<Rightarrow> prior
      | None \<Rightarrow> (prior_successes (bp_config p), prior_failures (bp_config p)))"

definition thompson_sample :: "math_lib \<Rightarrow> bandit_policy \<Rightarrow> string \<Rightarrow> f64 list \<Rightarrow> (f64 \<times> f64 list) option" where
  "thompson_sample m p route_id draws =
     (let from_prior = (case bandit_get_prior p route_id of (alpha, beta) \<Rightarrow> sample_beta m alpha beta draws)
      in case hm_get (bp_route_stats p) route_id of
           None \<Rightarrow> from_prior
         | Some s \<Rightarrow>
             (if br_pulls s < min_samples_for_thompson (bp_config p) then from_prior
              else (case sample_beta m (br_successes s) (br_failures s) draws of
                  None \<Rightarrow> None
                | Some (base_sample, rest) \<Rightarrow>
                    Some (fmax (fsub base_sample (fmul (br_diversity_penalty s) (diversity_weight (bp_config p)))) f64_0,
                          rest))))"

text \<open>The samples of the routes, in order.\<close>

fun collect_samples :: "('a \<Rightarrow> f64 list \<Rightarrow> (f64 \<times> f64 list) option) \<Rightarrow> 'a list \<Rightarrow> f64 list
    \<Rightarrow> (f64 list \<times> f64 list) option" where
  "collect_samples sample [] draws = Some ([], draws)"
| "collect_samples sample (x # xs) draws = (case sample x draws of
       None \<Rightarrow> None
     | Some (s, rest) \<Rightarrow> (case collect_samples sample xs rest of
         None \<Rightarrow> None
       | Some (ss, rest') \<Rightarrow> Some (s # ss, rest')))"

definition best_index :: "f64 list \<Rightarrow> nat" where
  "best_index samples = (case max_by (\<lambda>a b. fcmp_or_equal (snd a) (snd b) = Greater) (zip [0..<length samples] samples) of
     None \<Rightarrow> 0 | Some (i, _) \<Rightarrow> i)"

definition select_route :: "math_lib \<Rightarrow> bandit_policy \<Rightarrow> string list \<Rightarrow> f64 list
    \<Rightarrow> (string option \<times> f64 list) option" where
  "select_route m p route_ids draws = (case route_ids of
       [] \<Rightarrow> Some (None, draws)
     | [r] \<Rightarrow> Some (Some r, draws)
     | _ \<Rightarrow> (case collect_samples (thompson_sample m p) route_ids draws of
         None \<Rightarrow> None
       | Some (samples, rest) \<Rightarrow> Some (Some (route_ids ! best_index samples), rest)))"

definition weighted_sample :: "math_lib \<Rightarrow> bandit_policy \<Rightarrow> f64 hmap \<Rightarrow> string \<Rightarrow> f64 list \<Rightarrow> (f64 \<times> f64 list) option" where
  "weighted_sample m p utilities route_id draws = (case thompson_sample m p route_id draws of
       None \<Rightarrow> None
     | Some (s, rest) \<Rightarrow>
         (let utility = fclamp (case hm_get utilities route_id of Some u \<Rightarrow> u | None \<Rightarrow> f64_of (5 / 10)) f64_0 f64_1
          in Some (if use_utility_weighting (bp_config p) then fmul s utility else s, rest)))"

definition select_route_with_utility :: "math_lib \<Rightarrow> bandit_policy \<Rightarrow> string list \<Rightarrow> f64 hmap \<Rightarrow> f64 list
    \<Rightarrow> (string option \<times> f64 list) option" where
  "select_route_with_utility m p route_ids utilities draws = (case route_ids of
       [] \<Rightarrow> Some (None, draws)
     | [r] \<Rightarrow> Some (Some r, draws)
     | _ \<Rightarrow> (case collect_samples (weighted_sample m p utilities) route_ids draws of
         None \<Rightarrow> None
       | Some (samples, rest) \<Rightarrow> Some (Some (route_ids ! best_index samples), rest)))"

section \<open>Updates\<close>

definition update_stats :: "bandit_config \<Rightarrow> bool \<Rightarrow> f64 \<Rightarrow> route_stats \<Rightarrow> route_stats" where
  "update_stats cfg success utility s =
     (let s = (if success then s\<lparr>br_successes := fadd (br_successes s) f64_1\<rparr>
               else s\<lparr>br_failures := fadd (br_failures s) f64_1\<rparr>);
          s = s\<lparr>br_pulls := wrap_inc_u64 (br_pulls s), br_last_utility := utility\<rparr>
      in if sample_decay cfg < f64_1 \<and> 10 < br_pulls s then
           s\<lparr>br_successes := fmul (br_successes s) (sample_decay cfg),
             br_failures := fmul (br_failures s) (sample_decay cfg)\<rparr>
         else s)"

definition stats_or_default :: "bandit_policy \<Rightarrow> string \<Rightarrow> route_stats" where
  "stats_or_default p route_id = (case hm_get (bp_route_stats p) route_id of
     Some s \<Rightarrow> s | None \<Rightarrow> default_route_stats)"

definition bandit_record_result :: "string \<Rightarrow> bool \<Rightarrow> f64 \<Rightarrow> bandit_policy \<Rightarrow> bandit_policy" where
  "bandit_record_result route_id success utility p =
     p\<lparr>bp_route_stats := hm_insert route_id
         (update_stats (bp_config p) success utility (stats_or_default p route_id)) (bp_route_stats p)\<rparr>"

definition set_diversity_penalty :: "string \<Rightarrow> f64 \<Rightarrow> bandit_policy \<Rightarrow> bandit_policy" where
  "set_diversity_penalty route_id penalty p =
     p\<lparr>bp_route_stats := hm_insert route_id
         ((stats_or_default p route_id)\<lparr>br_diversity_penalty := fclamp penalty f64_0 f64_1\<rparr>) (bp_route_stats p)\<rparr>"

definition bandit_get_stats :: "bandit_policy \<Rightarrow> string \<Rightarrow> route_stats option" where
  "bandit_get_stats p route_id = hm_get (bp_route_stats p) route_id"

definition bandit_get_all_stats :: "bandit_policy \<Rightarrow> route_stats hmap" where
  "bandit_get_all_stats p = bp_route_stats p"

definition bandit_reset_route :: "string \<Rightarrow> bandit_policy \<Rightarrow> bandit_policy" where
  "bandit_reset_route route_id p = p\<lparr>bp_route_stats := hm_remove route_id (bp_route_stats p)\<rparr>"

definition bandit_reset_all :: "bandit_policy \<Rightarrow> bandit_policy" where
  "bandit_reset_all p = p\<lparr>bp_route_stats := []\<rparr>"

definition set_route_tier :: "string \<Rightarrow> tier \<Rightarrow> bandit_policy \<Rightarrow> bandit_policy" where
  "set_route_tier route_id t p = p\<lparr>bp_route_tiers := hm_insert route_id t (bp_route_tiers p)\<rparr>"

section \<open>The samplers return\<close>

text \<open>What the samplers need of the square root, which IEEE 754 rounds correctly.\<close>

definition sqrt_ok :: "math_lib \<Rightarrow> bool" where
  "sqrt_ok m \<longleftrightarrow> (\<forall>x. FFin (1 / 2) \<le> x \<longrightarrow> FFin (1 / 2) \<le> m_sqrt m x)"

text \<open>A sampler returns on some draws, whatever follows them.\<close>

definition returns :: "(f64 list \<Rightarrow> (f64 \<times> f64 list) option) \<Rightarrow> bool" where
  "returns sample \<longleftrightarrow> (\<exists>ds v. \<forall>rest. sample (ds @ rest) = Some (v, rest))"

lemma returnsI: "(\<And>rest. sample (ds @ rest) = Some (v, rest)) \<Longrightarrow> returns sample"
  by (auto simp: returns_def)

lemma f64_of_half: "f64_of (1 / 2) = FFin (1 / 2)"
  using rnd_scaled[of 1 "- 1"] f64_of_finite[of "1 / 2"] by (simp add: power_int_minus)

lemma third_bounds: "\<exists>t. f64_of (1 / 3) = FFin t \<and> 0 \<le> t \<and> t \<le> 1 / 2"
  using f64_of_mono[of "1 / 3" "1 / 2"] f64_of_finite[of "1 / 3"] by (auto simp: f64_of_half)

lemma gamma_loop_accepts:
  assumes "c = FFin q"
  shows "gamma_loop m delta c ([FFin (1 / 2), f64_0] @ rest) = Some (fmul delta f64_1, rest)"
proof -
  obtain z where "f64_of (331 / 10000) = FFin z" using f64_of_finite[of "331 / 10000"] by auto
  then show ?thesis
    by (subst gamma_loop.simps) (simp add: assms fma_def fmul_FFin square_def Let_def)
qed

lemma gamma_returns_from_1:
  assumes "sqrt_ok m" and "f64_1 \<le> shape"
  shows "sample_gamma m shape ([FFin (1 / 2), f64_0] @ rest)
    = Some (fmul (fsub shape (f64_of (1 / 3))) f64_1, rest)"
proof -
  obtain t where t: "f64_of (1 / 3) = FFin t" "0 \<le> t" "t \<le> 1 / 2" using third_bounds by blast
  let ?delta = "fsub shape (f64_of (1 / 3))"
  have "FFin (1 / 2) \<le> ?delta"
    using assms(2) t f64_of_mono[of "1 / 2"] by (cases shape) (auto simp: fsub_def f64_of_half)
  then have s: "FFin (1 / 2) \<le> m_sqrt m ?delta" using assms(1) by (simp add: sqrt_ok_def)
  have "\<exists>q. fdiv (f64_of (1 / 3)) (m_sqrt m ?delta) = FFin q"
  proof (cases "m_sqrt m ?delta")
    case (FFin r)
    with s t have "0 \<le> t / r" "t / r \<le> 1" by (simp_all add: divide_le_eq)
    with FFin s t f64_of_unit[of "t / r"] show ?thesis by auto
  qed (use s t in auto)
  then obtain q where q: "fdiv (f64_of (1 / 3)) (m_sqrt m ?delta) = FFin q" by blast
  have "\<not> shape \<le> f64_0" "\<not> shape < f64_1" using assms(2) by (cases shape; auto)+
  then show ?thesis
    using gamma_loop_accepts[OF q, of m ?delta rest]
    by (subst sample_gamma.simps) (simp add: Let_def)
qed

lemma gamma_returns:
  assumes "sqrt_ok m" and "f64_0 < shape"
  shows "returns (sample_gamma m shape)"
proof (cases "shape < f64_1")
  case True
  have "f64_1 \<le> fadd f64_1 shape" using assms(2) by (intro one_plus_ge f64_less_le)
  note rec = gamma_returns_from_1[OF assms(1) this]
  have "\<not> shape \<le> f64_0" using assms(2) by (simp add: less_f64_def)
  with True rec show ?thesis
    by (intro returnsI[where ds = "[f64_0, FFin (1 / 2), f64_0]"]) (subst sample_gamma.simps, simp)
next
  case False
  then have "f64_1 \<le> shape" using f64_less_not_NaN[OF assms(2)] by (simp add: f64_not_less)
  from gamma_returns_from_1[OF assms(1) this] show ?thesis by (rule returnsI)
qed

lemma min_positive_pos: "f64_0 < f64_min_positive"
proof -
  have "rnd (2 powi (- 1022)) = (2 powi (- 1022) :: rat)" using rnd_scaled[of 1 "- 1022"] by simp
  moreover have "(2 powi (- 1022) :: rat) \<le> 2 powi 0" by (intro power_int_increasing) simp_all
  then have "(2 powi (- 1022) :: rat) \<le> 1" by simp
  ultimately show ?thesis using f64_of_unit[of "2 powi (- 1022)"] by (simp add: f64_min_positive_def)
qed

lemma fmax_pos: "f64_0 < y \<Longrightarrow> f64_0 < fmax x y"
  by (cases x; cases y) (auto simp: fmax_def)

lemmas fmax_min_positive = fmax_pos[OF min_positive_pos]

lemma beta_returns:
  assumes "sqrt_ok m"
  shows "returns (sample_beta m alpha beta)"
proof -
  let ?a = "fmax alpha f64_min_positive" and ?b = "fmax beta f64_min_positive"
  show ?thesis
  proof (cases "FFin 10 < ?a \<and> FFin 10 < ?b")
    case True
    show ?thesis
    proof (cases "is_finite (fdiv (fmul ?a ?b) (fmul (square (fadd ?a ?b)) (fadd (fadd ?a ?b) f64_1)))")
      case True2: True
      show ?thesis using True True2
        by (intro returnsI[where ds = "[f64_0, f64_0]"]) (simp add: sample_beta_def Let_def)
    next
      case False
      with True show ?thesis by (intro returnsI[where ds = "[]"]) (simp add: sample_beta_def Let_def)
    qed
  next
    case False
    obtain d1 v1 where 1: "\<And>rest. sample_gamma m ?a (d1 @ rest) = Some (v1, rest)"
      using gamma_returns[OF assms fmax_min_positive, of alpha] by (auto simp: returns_def)
    obtain d2 v2 where 2: "\<And>rest. sample_gamma m ?b (d2 @ rest) = Some (v2, rest)"
      using gamma_returns[OF assms fmax_min_positive, of beta] by (auto simp: returns_def)
    show ?thesis
      by (rule returnsI[where ds = "d1 @ d2" and v = "if f64_0 < fadd v1 v2 \<and> is_finite (fadd v1 v2)
            then fdiv v1 (fadd v1 v2) else f64_of (5 / 10)"])
        (unfold sample_beta_def Let_def if_not_P[OF False], simp add: 1 2)
  qed
qed

lemma thompson_returns: "sqrt_ok m \<Longrightarrow> returns (thompson_sample m p r)"
proof -
  assume m: "sqrt_ok m"
  obtain a b where ab: "bandit_get_prior p r = (a, b)" by (cases "bandit_get_prior p r")
  obtain d v where 1: "\<And>rest. sample_beta m a b (d @ rest) = Some (v, rest)"
    using beta_returns[OF m, of a b] by (auto simp: returns_def)
  show ?thesis
  proof (cases "hm_get (bp_route_stats p) r")
    case None
    then show ?thesis by (intro returnsI[where ds = d]) (simp add: thompson_sample_def ab 1)
  next
    case (Some s)
    obtain d' v' where "\<And>rest. sample_beta m (br_successes s) (br_failures s) (d' @ rest) = Some (v', rest)"
      using beta_returns[OF m, of "br_successes s" "br_failures s"] by (auto simp: returns_def)
    note 2 = this
    show ?thesis
    proof (cases "br_pulls s < min_samples_for_thompson (bp_config p)")
      case True
      with Some show ?thesis by (intro returnsI[where ds = d]) (simp add: thompson_sample_def ab 1)
    next
      case False
      with Some show ?thesis by (intro returnsI[where ds = d']) (simp add: thompson_sample_def 2)
    qed
  qed
qed

lemma weighted_returns:
  assumes "sqrt_ok m"
  shows "returns (weighted_sample m p us r)"
proof -
  obtain d v where "\<And>rest. thompson_sample m p r (d @ rest) = Some (v, rest)"
    using thompson_returns[OF assms, of p r] by (auto simp: returns_def)
  then show ?thesis by (intro returnsI[where ds = d]) (simp add: weighted_sample_def Let_def)
qed

lemma collect_returns:
  assumes "\<And>x. returns (sample x)"
  shows "\<exists>ds ss. \<forall>rest. collect_samples sample xs (ds @ rest) = Some (ss, rest)"
proof (induction xs)
  case Nil
  show ?case by (rule exI[of _ "[]"]) simp
next
  case (Cons x xs)
  obtain ds ss where 1: "\<And>rest. collect_samples sample xs (ds @ rest) = Some (ss, rest)" using Cons.IH by blast
  obtain d v where 2: "\<And>rest. sample x (d @ rest) = Some (v, rest)" using assms[of x] by (auto simp: returns_def)
  show ?case by (rule exI[of _ "d @ ds"]) (simp add: 1 2)
qed

lemma collect_length: "collect_samples sample xs ds = Some (ss, rest) \<Longrightarrow> length ss = length xs"
  by (induction xs arbitrary: ds ss rest) (auto split: option.splits)

lemma best_index_less:
  assumes "samples \<noteq> []"
  shows "best_index samples < length samples"
proof -
  let ?xs = "zip [0..<length samples] samples"
  obtain i s where m: "max_by (\<lambda>a b. fcmp_or_equal (snd a) (snd b) = Greater) ?xs = Some (i, s)"
    using assms by (cases "max_by (\<lambda>a b. fcmp_or_equal (snd a) (snd b) = Greater) ?xs") auto
  from max_by_in[OF this] show ?thesis using m by (auto simp: best_index_def dest: set_zip_leftD)
qed

section \<open>Properties\<close>

text \<open>Both selections reduce to their samples when there is a choice.\<close>

lemma select_with_utility_many:
  assumes "2 \<le> length ids"
  shows "select_route_with_utility m p ids us ds = (case collect_samples (weighted_sample m p us) ids ds of
      None \<Rightarrow> None | Some (samples, rest) \<Rightarrow> Some (Some (ids ! best_index samples), rest))"
proof -
  obtain a b cs where "ids = a # b # cs" using assms by (cases ids; cases "tl ids") auto
  then show ?thesis by (simp only: select_route_with_utility_def list.case)
qed

lemma select_with_utility_few:
  "length ids < 2 \<Longrightarrow> select_route_with_utility m p ids us ds = Some (case ids of [] \<Rightarrow> None | r # _ \<Rightarrow> Some r, ds)"
  by (cases ids; cases "tl ids") (simp_all add: select_route_with_utility_def)

lemma select_with_utility_member:
  assumes "select_route_with_utility m p ids us ds = Some (r, rest)"
  shows "case r of None \<Rightarrow> ids = [] | Some i \<Rightarrow> i \<in> set ids"
proof (cases "2 \<le> length ids")
  case True
  then have ne: "ids \<noteq> []" by auto
  have "ids ! best_index ss \<in> set ids" if "collect_samples (weighted_sample m p us) ids ds = Some (ss, rs)" for ss rs
    using best_index_less[of ss] collect_length[OF that] ne by (intro nth_mem) (cases ss; simp)
  with True assms show ?thesis by (auto simp: select_with_utility_many split: option.splits)
next
  case False
  then consider "ids = []" | i where "ids = [i]" by (cases ids; cases "tl ids") auto
  then show ?thesis using assms by cases (auto simp: select_route_with_utility_def)
qed

lemma select_with_utility_returns:
  assumes "sqrt_ok m"
  shows "\<exists>ds r. \<forall>rest. select_route_with_utility m p ids us (ds @ rest) = Some (r, rest)"
proof (cases "2 \<le> length ids")
  case True
  obtain ds ss where "\<And>rest. collect_samples (weighted_sample m p us) ids (ds @ rest) = Some (ss, rest)"
    using collect_returns[where sample = "weighted_sample m p us" and xs = ids, OF weighted_returns[OF assms]] by blast
  with True show ?thesis by (intro exI[of _ ds]) (simp add: select_with_utility_many)
next
  case False
  then show ?thesis by (intro exI[of _ "[]"]) (simp add: select_with_utility_few)
qed

text \<open>Whatever the statistics, the utilities and the random draws (NaN included), the bandit selects
  one of the offered routes, and none only when none is offered; and it does return: for every list of
  routes there are draws on which the rejection samplers stop.\<close>

theorem bandit_selects_offered_route:
  "(case select_route_with_utility m p ids us draws of
      None \<Rightarrow> True
    | Some (r, rest) \<Rightarrow> (case r of None \<Rightarrow> ids = [] | Some i \<Rightarrow> i \<in> set ids))
   \<and> (sqrt_ok m \<longrightarrow> (\<exists>ds r. \<forall>rest. select_route_with_utility m p ids us (ds @ rest) = Some (r, rest)))"
  using select_with_utility_member[of m p ids us draws] select_with_utility_returns[of m p ids us]
  by (auto split: option.split)

theorem bandit_selects_offered_route_witness:
  "\<exists>ds r. \<forall>rest. select_route_with_utility \<lparr>m_sqrt = (\<lambda>x. x), m_ln = (\<lambda>x. x), m_powf = (\<lambda>x y. x), m_cos = (\<lambda>x. x)\<rparr>
     bandit_new [''a'', ''b''] [] (ds @ rest) = Some (r, rest)"
  by (rule bandit_selects_offered_route[THEN conjunct2, rule_format]) (simp add: sqrt_ok_def)

section \<open>The effective sample size\<close>

datatype bandit_call =
    RecordResult string bool f64
  | SetPenalty string f64
  | SetTier string tier
  | ResetRoute string
  | ResetAllRoutes

fun bandit_step :: "bandit_call \<Rightarrow> bandit_policy \<Rightarrow> bandit_policy" where
  "bandit_step (RecordResult r ok u) p = bandit_record_result r ok u p"
| "bandit_step (SetPenalty r x) p = set_diversity_penalty r x p"
| "bandit_step (SetTier r t) p = set_route_tier r t p"
| "bandit_step (ResetRoute r) p = bandit_reset_route r p"
| "bandit_step ResetAllRoutes p = bandit_reset_all p"

text \<open>Ten pulls without decay add at most ten to a prior of one; from then on the decay keeps a count
  below 100: \<open>(100 + 1) * 0.99\<close>.\<close>

definition stats_bounded :: "nat \<Rightarrow> route_stats \<Rightarrow> bool" where
  "stats_bounded n s \<longleftrightarrow> br_pulls s \<le> n \<and> in_range 100 (br_successes s) \<and> in_range 100 (br_failures s)
     \<and> (br_pulls s \<le> 10 \<longrightarrow> in_range (br_pulls s + 1) (br_successes s) \<and> in_range (br_pulls s + 1) (br_failures s))"

definition decay_ok :: "f64 \<Rightarrow> bool" where
  "decay_ok d \<longleftrightarrow> f64_0 \<le> d \<and> d \<le> FFin (100 / 101)"

lemma decay_ok_default: "decay_ok (f64_of (99 / 100))"
proof -
  have "rnd (16221 / 16384) = (16221 / 16384 :: rat)" using rnd_scaled[of 16221 "- 14"] by (simp add: power_int_minus)
  then have "f64_of (16221 / 16384) = FFin (16221 / 16384)" using f64_of_finite[of "16221 / 16384"] by simp
  moreover have "f64_of (99 / 100) \<le> f64_of (16221 / 16384)" by (rule f64_of_mono) simp
  ultimately have "f64_of (99 / 100) \<le> FFin (16221 / 16384)" by simp
  then have "f64_of (99 / 100) \<le> FFin (100 / 101)" by (rule f64_le_trans) simp
  then show ?thesis by (simp add: decay_ok_def f64_of_nonneg)
qed

lemma decay_in_range:
  assumes "decay_ok d" and "in_range 101 x"
  shows "in_range 100 (fmul x d)"
proof -
  obtain q where q: "x = FFin q" "0 \<le> q" "q \<le> 101" using assms(2) by (auto elim: rangeE)
  obtain r where r: "d = FFin r" "0 \<le> r" "r \<le> 100 / 101"
    using assms(1) by (cases d) (auto simp: decay_ok_def)
  have "q * r \<le> 101 * (100 / 101)" using q r by (intro mult_mono) auto
  then show ?thesis using q r by (simp add: fmul_FFin range_of)
qed

lemma decay_unit: "decay_ok d \<Longrightarrow> unit_f64 d"
  by (cases d) (auto simp: decay_ok_def unit_f64_def)

lemma range_inc: "in_range k x \<Longrightarrow> k < 1000 \<Longrightarrow> in_range (Suc k) (fadd x f64_1)"
  using range_fadd[of k x 1 f64_1] by simp

lemma wrap_inc_u64_small: "n < 2 ^ 64 - 1 \<Longrightarrow> wrap_inc_u64 n = n + 1"
  by (simp add: wrap_inc_u64_def)

lemma stats_bounded_fields:
  "stats_bounded n s \<Longrightarrow> in_range 100 (br_successes s) \<and> in_range 100 (br_failures s)"
  by (simp add: stats_bounded_def)

text \<open>One count of a record: incremented or not, decayed or not.\<close>

lemma count_bounded:
  fixes inc :: bool
  assumes "in_range 100 x" and "k \<le> 10 \<Longrightarrow> in_range (k + 1) x" and "decay_ok d"
  defines "y \<equiv> (if inc then fadd x f64_1 else x)"
  shows "in_range 100 (fmul y d)" and "k + 1 \<le> 10 \<Longrightarrow> in_range (k + 2) y \<and> in_range 100 y"
proof -
  have y: "in_range 101 y"
    using range_inc[OF assms(1)] range_mono[OF assms(1), of 101] by (simp add: y_def)
  then show "in_range 100 (fmul y d)" by (rule decay_in_range[OF assms(3)])
  assume k: "k + 1 \<le> 10"
  then have "in_range (k + 2) y"
    using range_inc[of "k + 1" x] range_mono[of "k + 1" x "k + 2"] assms(2) by (simp add: y_def)
  then show "in_range (k + 2) y \<and> in_range 100 y" using range_mono[of "k + 2" y 100] k by simp
qed

lemma update_stats_bounded:
  assumes s: "stats_bounded n s" and n: "n < 2 ^ 64 - 1" and d: "decay_ok (sample_decay cfg)"
  shows "stats_bounded (n + 1) (update_stats cfg ok u s)"
proof -
  let ?k = "br_pulls s"
  have k: "?k \<le> n" using s by (simp add: stats_bounded_def)
  then have w: "wrap_inc_u64 ?k = ?k + 1" using n by (intro wrap_inc_u64_small) simp
  have lt: "sample_decay cfg < f64_1" using d by (cases "sample_decay cfg") (auto simp: decay_ok_def)
  have xs: "in_range 100 (br_successes s)" "?k \<le> 10 \<Longrightarrow> in_range (?k + 1) (br_successes s)"
    and ys: "in_range 100 (br_failures s)" "?k \<le> 10 \<Longrightarrow> in_range (?k + 1) (br_failures s)"
    using s by (simp_all add: stats_bounded_def)
  show ?thesis
    using k count_bounded[OF xs d, of ok] count_bounded[OF ys d, of "\<not> ok"] lt w
    by (cases ok) (auto simp: stats_bounded_def update_stats_def Let_def)
qed

definition bandit_bounded :: "nat \<Rightarrow> bandit_policy \<Rightarrow> bool" where
  "bandit_bounded n p \<longleftrightarrow> decay_ok (sample_decay (bp_config p))
     \<and> (\<forall>r s. hm_get (bp_route_stats p) r = Some s \<longrightarrow> stats_bounded n s)"

lemma stats_bounded_mono: "stats_bounded n s \<Longrightarrow> n \<le> k \<Longrightarrow> stats_bounded k s"
  by (auto simp: stats_bounded_def)

lemma stats_bounded_default: "stats_bounded n default_route_stats"
  by (simp add: stats_bounded_def default_route_stats_def in_range_def)

lemma bandit_step_bounded:
  assumes p: "bandit_bounded n p" and n: "n < 2 ^ 64 - 1"
  shows "bandit_bounded (n + 1) (bandit_step c p)"
proof -
  have s: "stats_bounded n (stats_or_default p r)" for r
    using p stats_bounded_default by (auto simp: bandit_bounded_def stats_or_default_def split: option.split)
  have old: "stats_bounded (Suc n) t" if "hm_get (bp_route_stats p) r = Some t" for r t
    using that p stats_bounded_mono[of n t "Suc n"] by (auto simp: bandit_bounded_def)
  have pen: "stats_bounded (Suc n) ((stats_or_default p r)\<lparr>br_diversity_penalty := x\<rparr>)" for r x
    using stats_bounded_mono[OF s[of r], of "Suc n"] by (simp add: stats_bounded_def)
  have upd: "stats_bounded (Suc n) (update_stats (bp_config p) ok u (stats_or_default p r))" for ok u r
    using update_stats_bounded[OF s n] p by (simp add: bandit_bounded_def)
  show ?thesis using p old pen upd
    by (cases c) (auto simp: bandit_bounded_def bandit_record_result_def set_diversity_penalty_def
        set_route_tier_def bandit_reset_route_def bandit_reset_all_def store_simps split: if_splits)
qed

lemma bandit_run_bounded:
  "bandit_bounded n p \<Longrightarrow> n + length cs < 2 ^ 64 \<Longrightarrow> bandit_bounded (n + length cs) (fold bandit_step cs p)"
proof (induction cs arbitrary: n p)
  case (Cons c cs)
  then have "bandit_bounded (n + 1) (bandit_step c p)" by (intro bandit_step_bounded) auto
  with Cons.IH[of "n + 1" "bandit_step c p"] Cons.prems(2) show ?case by simp
qed simp

text \<open>C35. The decay bounds the effective sample size: with the default decay (or any up to 100/101), after
  any sequence of calls the success and failure counts of every route are numbers from 0 to 100, so
  the sampled distribution never becomes certain and old results keep losing weight.\<close>

theorem bandit_counts_bounded:
  assumes "decay_ok (sample_decay cfg)" and "length cs < 2 ^ 64"
    and "bandit_get_stats (fold bandit_step cs (bandit_with_config cfg)) r = Some s"
  shows "f64_0 \<le> br_successes s \<and> br_successes s \<le> f64_nat 100
    \<and> f64_0 \<le> br_failures s \<and> br_failures s \<le> f64_nat 100"
proof -
  have "bandit_bounded (0 + length cs) (fold bandit_step cs (bandit_with_config cfg))"
    using assms(1,2) by (intro bandit_run_bounded) (simp_all add: bandit_bounded_def bandit_with_config_def)
  then have "in_range 100 (br_successes s) \<and> in_range 100 (br_failures s)"
    using assms(3) stats_bounded_fields by (auto simp: bandit_bounded_def bandit_get_stats_def)
  then show ?thesis using f64_nat_exact[of 100] by (auto elim!: rangeE)
qed

theorem bandit_counts_bounded_witness:
  "\<exists>s. bandit_get_stats (fold bandit_step [RecordResult ''r'' True f64_1] (bandit_with_config default_bandit_config)) ''r'' = Some s
     \<and> br_successes s \<le> f64_nat 100"
proof -
  obtain s where s: "bandit_get_stats (fold bandit_step [RecordResult ''r'' True f64_1]
      (bandit_with_config default_bandit_config)) ''r'' = Some s"
    by (simp add: bandit_get_stats_def bandit_record_result_def store_simps)
  have "decay_ok (sample_decay default_bandit_config)" by (simp only: default_bandit_config_def bandit_config.simps decay_ok_default)
  from bandit_counts_bounded[OF this _ s] s show ?thesis by auto
qed

end
