(* ===== verification/Router.thy ===== *)
theory Router
  imports Fallback Candidates Bandit Session
begin

text \<open>
  The router (src/routing/router/mod.rs, dispatch.rs): a request becomes candidates, the filter keeps
  those that can serve it, the session's preferred provider, the bandit or the utility selects the
  primary route, and the fallback planner orders the rest; results flow back into metrics, health
  and bandit. Here a plan is computed on one state; theory Interleaving has the updates of other tasks
  between its awaits. Clones share the metrics, health, bandit and session stores by reference; as values
  a clone differs from its original only in the calculator of the selector.
\<close>

section \<open>State\<close>

record route_plan_item =
  pi_credential_id :: string
  pi_model_id :: string
  pi_provider :: string
  pi_utility :: f64
  pi_weight :: f64

record route_plan =
  plan_primary :: "route_plan_item option"
  plan_fallbacks :: "fallback_route list"
  plan_total_candidates :: nat
  plan_filtered_candidates :: nat

record router_config =
  rt_use_bandit :: bool
  rt_max_fallbacks :: nat
  rt_min_fallbacks :: nat
  rt_enable_provider_diversity :: bool
  rt_enable_session_affinity :: bool

definition default_router_config :: router_config where
  "default_router_config = \<lparr>rt_use_bandit = True, rt_max_fallbacks = 5, rt_min_fallbacks = 2,
     rt_enable_provider_diversity = True, rt_enable_session_affinity = True\<rparr>"

record router =
  r_builder :: candidate_builder
  r_filter :: constraint_filter
  r_utility :: utility_config
  r_bandit :: bandit_policy
  r_selector :: smart_selector
  r_planner :: fallback_config
  r_sessions :: session_manager
  r_config :: router_config

definition router_with_config :: "router_config \<Rightarrow> router" where
  "router_with_config config = \<lparr>r_builder = builder_new, r_filter = filter_new, r_utility = default_utility_config,
     r_bandit = bandit_new, r_selector = selector_new default_smart_routing_config,
     r_planner = planner_with_config \<lparr>fc_max_fallbacks = rt_max_fallbacks config,
       fc_min_fallbacks = rt_min_fallbacks config,
       fc_enable_provider_diversity = rt_enable_provider_diversity config,
       fc_prefer_diverse_providers = rt_enable_provider_diversity config\<rparr>,
     r_sessions = session_new, r_config = config\<rparr>"

definition router_new :: router where
  "router_new = router_with_config default_router_config"

definition router_add_credential :: "string \<Rightarrow> string list \<Rightarrow> router \<Rightarrow> router" where
  "router_add_credential credential_id model_ids r =
     (if credential_id \<noteq> [] then r\<lparr>r_builder := builder_add_credential credential_id model_ids (r_builder r)\<rparr> else r)"

definition router_set_model :: "string \<Rightarrow> model_info \<Rightarrow> router \<Rightarrow> router" where
  "router_set_model model_id info r = r\<lparr>r_builder := builder_set_model model_id info (r_builder r)\<rparr>"

definition router_add_disabled_provider :: "string \<Rightarrow> router \<Rightarrow> router" where
  "router_add_disabled_provider provider r = r\<lparr>r_filter := add_disabled_provider provider (r_filter r)\<rparr>"

definition router_clone :: "router \<Rightarrow> router" where
  "router_clone r = r\<lparr>r_selector := selector_clone (r_selector r)\<rparr>"

abbreviation router_metrics :: "router \<Rightarrow> metrics_collector" where "router_metrics r \<equiv> ss_metrics (r_selector r)"
abbreviation router_health :: "router \<Rightarrow> health_manager" where "router_health r \<equiv> ss_health (r_selector r)"

text \<open>What one plan reads from outside: the environment of the selector, the mathematical functions and
  the random draws of the bandit, and the two clock readings of the session update.\<close>

record plan_env = environment +
  pe_math :: math_lib
  pe_draws :: "f64 list"
  pe_access :: time
  pe_clean :: time

section \<open>Planning\<close>

definition calculate_utilities :: "router \<Rightarrow> route_candidate list \<Rightarrow> (route_candidate \<times> f64) list" where
  "calculate_utilities r candidates =
     map (\<lambda>c. (c, estimate_utility (r_utility r) (get_metrics (router_metrics r) (rc_credential_id c)))) candidates"

definition fallback_auth_info :: "string \<Rightarrow> auth_info" where
  "fallback_auth_info credential_id = \<lparr>ai_id = credential_id, ai_priority = Some 0, ai_quota_exceeded = False,
     ai_unavailable = False, ai_model_states = []\<rparr>"

definition build_plan_item :: "plan_env \<Rightarrow> router \<Rightarrow> route_candidate \<Rightarrow> f64 \<Rightarrow> auth_info list \<Rightarrow> route_plan_item" where
  "build_plan_item env r candidate utility auths =
     (let metrics = get_metrics (router_metrics r) (rc_credential_id candidate);
          health = get_status (router_health r) (rc_credential_id candidate);
          auth_info = (case find (\<lambda>a. ai_id a = rc_credential_id candidate) auths of
              Some a \<Rightarrow> a | None \<Rightarrow> fallback_auth_info (rc_credential_id candidate));
          weight = selector_calculate (env_ln env) (r_selector r) auth_info metrics health
      in \<lparr>pi_credential_id = rc_credential_id candidate, pi_model_id = rc_model_id candidate,
          pi_provider = rc_provider candidate, pi_utility = utility, pi_weight = weight\<rparr>)"

definition select_weighted :: "plan_env \<Rightarrow> router \<Rightarrow> (route_candidate \<times> f64) list \<Rightarrow> auth_info list
    \<Rightarrow> route_plan_item option" where
  "select_weighted env r candidates auths =
     (case max_by (\<lambda>a b. fcmp_or_equal (snd a) (snd b) = Greater) candidates of
        Some (candidate, utility) \<Rightarrow> Some (build_plan_item env r candidate utility auths)
      | None \<Rightarrow> None)"

text \<open>Collecting pairs into a hash map: a later entry replaces an earlier one.\<close>

definition collect_map :: "(string \<times> 'v) list \<Rightarrow> 'v hmap" where
  "collect_map kvs = fold (\<lambda>(k, v) m. hm_insert k v m) kvs []"

text \<open>The outer option of the selections is \<open>None\<close> when the draws run out before the samplers stop.\<close>

definition select_bandit :: "plan_env \<Rightarrow> router \<Rightarrow> (route_candidate \<times> f64) list \<Rightarrow> auth_info list
    \<Rightarrow> route_plan_item option option" where
  "select_bandit env r candidates auths =
     (let credential_ids = map (\<lambda>(c, _). rc_credential_id c) candidates;
          utilities = collect_map (map (\<lambda>(c, u). (rc_credential_id c, u)) candidates)
      in case select_route_with_utility (pe_math env) (r_bandit r) credential_ids utilities (pe_draws env) of
           None \<Rightarrow> None
         | Some (None, _) \<Rightarrow> Some None
         | Some (Some selected_id, _) \<Rightarrow>
             (case find (\<lambda>(c, _). rc_credential_id c = selected_id) candidates of
                Some (candidate, utility) \<Rightarrow> Some (Some (build_plan_item env r candidate utility auths))
              | None \<Rightarrow> Some (select_weighted env r candidates auths)))"

definition select_best :: "plan_env \<Rightarrow> router \<Rightarrow> (route_candidate \<times> f64) list \<Rightarrow> auth_info list
    \<Rightarrow> route_plan_item option option" where
  "select_best env r candidates auths =
     (if candidates = [] then Some None
      else if rt_use_bandit (r_config r) then select_bandit env r candidates auths
      else Some (select_weighted env r candidates auths))"

definition select_with_affinity :: "plan_env \<Rightarrow> router \<Rightarrow> (route_candidate \<times> f64) list \<Rightarrow> string \<Rightarrow> auth_info list
    \<Rightarrow> route_plan_item option option" where
  "select_with_affinity env r candidates sid auths =
     (case Option.bind (get_preferred_provider (r_sessions r) sid)
             (\<lambda>preferred. find (\<lambda>(c, _). rc_provider c = preferred) candidates) of
        Some (candidate, utility) \<Rightarrow> Some (Some (build_plan_item env r candidate utility auths))
      | None \<Rightarrow> select_best env r candidates auths)"

definition select_primary :: "plan_env \<Rightarrow> router \<Rightarrow> (route_candidate \<times> f64) list \<Rightarrow> auth_info list \<Rightarrow> string option
    \<Rightarrow> route_plan_item option option" where
  "select_primary env r candidates auths session =
     (if rt_enable_session_affinity (r_config r) then
        (case session of Some sid \<Rightarrow> select_with_affinity env r candidates sid auths
         | None \<Rightarrow> select_best env r candidates auths)
      else select_best env r candidates auths)"

definition remember_session :: "plan_env \<Rightarrow> string option \<Rightarrow> route_plan_item option \<Rightarrow> router \<Rightarrow> router" where
  "remember_session env session selected r =
     (if rt_enable_session_affinity (r_config r) then
        (case (session, selected) of
           (Some sid, Some route) \<Rightarrow> r\<lparr>r_sessions :=
             snd (set_provider (pe_access env) (pe_clean env) sid (pi_provider route) (r_sessions r))\<rparr>
         | _ \<Rightarrow> r)
      else r)"

definition matching_auths :: "route_candidate list \<Rightarrow> auth_info list \<Rightarrow> auth_info list" where
  "matching_auths filtered auths = filter (\<lambda>a. find (\<lambda>c. rc_credential_id c = ai_id a) filtered \<noteq> None) auths"

definition plan :: "plan_env \<Rightarrow> router \<Rightarrow> classified_request \<Rightarrow> auth_info list \<Rightarrow> string option
    \<Rightarrow> (route_plan \<times> router) option" where
  "plan env r request auths session =
     (let candidates = build_candidates (r_builder r) request;
          filtered = filter_candidates (r_filter r) candidates request
      in if filtered = [] then
           Some (\<lparr>plan_primary = None, plan_fallbacks = [], plan_total_candidates = length candidates,
             plan_filtered_candidates = length filtered\<rparr>, r)
         else
           (case select_primary env r (calculate_utilities r filtered) auths session of
              None \<Rightarrow> None
            | Some selected \<Rightarrow>
                let r = remember_session env session selected r;
                    primary_id = map_option pi_credential_id selected;
                    fallbacks = generate_fallbacks (env_clock env) (r_planner r) (matching_auths filtered auths) primary_id
                      (selector_calculate (env_ln env) (r_selector r)) (router_metrics r) (router_health r)
                in Some (\<lparr>plan_primary = selected, plan_fallbacks = fallbacks,
                     plan_total_candidates = length candidates, plan_filtered_candidates = length filtered\<rparr>, r)))"

section \<open>Learning\<close>

definition router_record_result ::
  "time \<times> time \<times> time \<Rightarrow> time \<Rightarrow> string \<Rightarrow> bool \<Rightarrow> f64 \<Rightarrow> i32 \<Rightarrow> f64 \<Rightarrow> router \<Rightarrow> router" where
  "router_record_result tm th credential_id success latency_ms status_code utility r =
     (case tm of (t_new, t_req, t_out) \<Rightarrow>
       r\<lparr>r_selector := (r_selector r)
           \<lparr>ss_metrics := metrics_record_result t_new t_req t_out credential_id success latency_ms status_code (router_metrics r),
            ss_health := update_from_result th credential_id success status_code (router_health r)\<rparr>,
         r_bandit := bandit_record_result credential_id success utility (r_bandit r)\<rparr>)"

section \<open>The selected route\<close>

definition filtered_of :: "router \<Rightarrow> classified_request \<Rightarrow> route_candidate list" where
  "filtered_of r request = filter_candidates (r_filter r) (build_candidates (r_builder r) request) request"

text \<open>A plan item stands for a candidate.\<close>

definition item_for :: "route_candidate \<Rightarrow> route_plan_item \<Rightarrow> bool" where
  "item_for c it \<longleftrightarrow> pi_credential_id it = rc_credential_id c \<and> pi_model_id it = rc_model_id c \<and> pi_provider it = rc_provider c"

lemma item_for_build: "item_for c (build_plan_item env r c u auths)"
  by (simp add: item_for_def build_plan_item_def Let_def)

lemma candidates_of_utilities: "map fst (calculate_utilities r cs) = cs"
  by (simp add: calculate_utilities_def comp_def)

lemma find_in: "find P xs = Some x \<Longrightarrow> x \<in> set xs \<and> P x"
  by (auto simp: find_Some_iff)

lemma select_weighted_item:
  assumes "cus \<noteq> []"
  shows "\<exists>it c. select_weighted env r cus auths = Some it \<and> c \<in> fst ` set cus \<and> item_for c it"
proof -
  obtain c u where m: "max_by (\<lambda>a b. fcmp_or_equal (snd a) (snd b) = Greater) cus = Some (c, u)"
    using assms by (cases "max_by (\<lambda>a b. fcmp_or_equal (snd a) (snd b) = Greater) cus") auto
  with max_by_in[OF m] show ?thesis by (force simp: select_weighted_def item_for_build)
qed

lemma select_bandit_item:
  assumes "select_bandit env r cus auths = Some it" and "cus \<noteq> []"
  shows "\<exists>it' c. it = Some it' \<and> c \<in> fst ` set cus \<and> item_for c it'"
proof -
  obtain x rest where sel: "select_route_with_utility (pe_math env) (r_bandit r) (map (\<lambda>(c, _). rc_credential_id c) cus)
      (collect_map (map (\<lambda>(c, u). (rc_credential_id c, u)) cus)) (pe_draws env) = Some (x, rest)"
    using assms(1) by (auto simp: select_bandit_def Let_def split: option.splits)
  from select_with_utility_member[OF sel] assms(2) obtain i where x: "x = Some i" by (cases x) auto
  show ?thesis
  proof (cases "find (\<lambda>(c, _). rc_credential_id c = i) cus")
    case None
    with assms sel x select_weighted_item[of cus env r auths] show ?thesis by (auto simp: select_bandit_def)
  next
    case (Some cu)
    with assms(1) sel x find_in[OF Some] show ?thesis
      by (auto simp: select_bandit_def item_for_build split: prod.splits) (metis fst_conv imageI item_for_build)
  qed
qed

lemma select_best_item:
  assumes "select_best env r cus auths = Some it" and "cus \<noteq> []"
  shows "\<exists>it' c. it = Some it' \<and> c \<in> fst ` set cus \<and> item_for c it'"
proof (cases "rt_use_bandit (r_config r)")
  case True
  with assms select_bandit_item show ?thesis by (simp add: select_best_def)
next
  case False
  with assms have "it = select_weighted env r cus auths" by (simp add: select_best_def)
  with select_weighted_item[OF assms(2)] show ?thesis by metis
qed

lemma select_with_affinity_item:
  assumes "select_with_affinity env r cus sid auths = Some it" and "cus \<noteq> []"
  shows "\<exists>it' c. it = Some it' \<and> c \<in> fst ` set cus \<and> item_for c it'"
proof (cases "Option.bind (get_preferred_provider (r_sessions r) sid) (\<lambda>p. find (\<lambda>(c, _). rc_provider c = p) cus)")
  case None
  with assms select_best_item show ?thesis by (auto simp: select_with_affinity_def)
next
  case (Some cu)
  then obtain p where "find (\<lambda>(c, _). rc_provider c = p) cus = Some cu" by (cases "get_preferred_provider (r_sessions r) sid") auto
  from find_in[OF this] Some assms(1) show ?thesis
    by (cases cu) (force simp: select_with_affinity_def item_for_build)
qed

lemma select_primary_item:
  assumes "select_primary env r cus auths session = Some it" and "cus \<noteq> []"
  shows "\<exists>it' c. it = Some it' \<and> c \<in> fst ` set cus \<and> item_for c it'"
  using assms select_best_item[of env r cus auths it] select_with_affinity_item[of env r cus _ auths it]
  by (auto simp: select_primary_def split: if_splits option.splits)

lemma plan_eq:
  "filtered_of r request \<noteq> [] \<Longrightarrow> plan env r request auths session =
    map_option (\<lambda>selected. (\<lparr>plan_primary = selected,
        plan_fallbacks = generate_fallbacks (env_clock env) (r_planner r) (matching_auths (filtered_of r request) auths)
          (map_option pi_credential_id selected) (selector_calculate (env_ln env) (r_selector r)) (router_metrics r) (router_health r),
        plan_total_candidates = length (build_candidates (r_builder r) request),
        plan_filtered_candidates = length (filtered_of r request)\<rparr>, remember_session env session selected r))
      (select_primary env r (calculate_utilities r (filtered_of r request)) auths session)"
  by (auto simp: plan_def filtered_of_def Let_def remember_session_def split: option.split)

lemma plan_empty:
  "filtered_of r request = [] \<Longrightarrow> plan env r request auths session =
    Some (\<lparr>plan_primary = None, plan_fallbacks = [], plan_total_candidates = length (build_candidates (r_builder r) request),
      plan_filtered_candidates = 0\<rparr>, r)"
  by (simp add: plan_def filtered_of_def Let_def)

section \<open>Properties\<close>

text \<open>Every plan is safe: the primary route is one of the candidates that passed the filter, with that
  candidate's model and provider, and there is none (and no fallback) exactly when no candidate passed;
  the counts are those of the candidates before and after the filter.\<close>

theorem plan_primary_is_filtered_candidate:
  "case plan env r request auths session of None \<Rightarrow> True
   | Some (p, _) \<Rightarrow>
       (case plan_primary p of
          None \<Rightarrow> filtered_of r request = [] \<and> plan_fallbacks p = []
        | Some it \<Rightarrow> \<exists>c\<in>set (filtered_of r request). item_for c it)
       \<and> plan_total_candidates p = length (build_candidates (r_builder r) request)
       \<and> plan_filtered_candidates p = length (filtered_of r request)"
proof (cases "filtered_of r request = []")
  case False
  let ?cus = "calculate_utilities r (filtered_of r request)"
  have "?cus \<noteq> []" using False by (simp add: calculate_utilities_def)
  moreover have "fst ` set ?cus = set (filtered_of r request)"
    using candidates_of_utilities by (metis image_set)
  ultimately show ?thesis
    using select_primary_item[of env r ?cus auths session] by (auto simp: plan_eq[OF False] split: option.split)
qed (simp add: plan_empty)

lemma select_bandit_cong:
  "pe_draws env = pe_draws env' \<Longrightarrow> pe_math env = pe_math env' \<Longrightarrow> r_bandit r = r_bandit r' \<Longrightarrow>
   map_option (map_option pi_credential_id) (select_bandit env r cus auths)
   = map_option (map_option pi_credential_id) (select_bandit env' r' cus auths')"
  by (auto simp: select_bandit_def select_weighted_def build_plan_item_def Let_def split: option.split)

text \<open>Planning terminates: for every request there are random draws on which the rejection samplers of the
  bandit stop, and further draws do not change that.\<close>

theorem plan_returns:
  assumes "sqrt_ok (pe_math env)"
  shows "\<exists>draws. \<forall>rest. plan (env\<lparr>pe_draws := draws @ rest\<rparr>) r request auths session \<noteq> None"
proof -
  let ?cus = "calculate_utilities r (filtered_of r request)"
  obtain ds x where d: "\<And>rest. select_route_with_utility (pe_math env) (r_bandit r) (map (\<lambda>(c, _). rc_credential_id c) ?cus)
      (collect_map (map (\<lambda>(c, u). (rc_credential_id c, u)) ?cus)) (ds @ rest) = Some (x, rest)"
    using select_with_utility_returns[OF assms] by blast
  have "select_bandit (env\<lparr>pe_draws := ds @ rest\<rparr>) r ?cus auths \<noteq> None" for rest
    using d by (simp add: select_bandit_def Let_def split: option.split)
  then have "select_best (env\<lparr>pe_draws := ds @ rest\<rparr>) r ?cus auths \<noteq> None" for rest by (simp add: select_best_def)
  then have "select_primary (env\<lparr>pe_draws := ds @ rest\<rparr>) r ?cus auths session \<noteq> None" for rest
    by (auto simp: select_primary_def select_with_affinity_def split: option.split)
  then have "plan (env\<lparr>pe_draws := ds @ rest\<rparr>) r request auths session \<noteq> None" for rest
    using plan_eq[of r request] plan_empty[of r request] by (cases "filtered_of r request = []") auto
  then show ?thesis by blast
qed

text \<open>The credential of the primary route depends neither on the health of the credentials nor on the offered
  credentials: with any other health state and any other list (every credential marked unavailable,
  say, or none offered at all) the same one is selected. Health acts on weights and fallbacks only.\<close>

theorem primary_ignores_health:
  "map_option (\<lambda>(p, _). map_option pi_credential_id (plan_primary p)) (plan env r request auths session)
   = map_option (\<lambda>(p, _). map_option pi_credential_id (plan_primary p))
       (plan env (r\<lparr>r_selector := (r_selector r)\<lparr>ss_health := h\<rparr>\<rparr>) request auths' session)"
proof -
  let ?r = "r\<lparr>r_selector := (r_selector r)\<lparr>ss_health := h\<rparr>\<rparr>"
  let ?cus = "calculate_utilities r (filtered_of r request)"
  have same: "filtered_of ?r request = filtered_of r request" "calculate_utilities ?r cs = calculate_utilities r cs" for cs
    by (simp_all add: filtered_of_def calculate_utilities_def)
  have bandit: "map_option (map_option pi_credential_id) (select_bandit env r ?cus auths)
      = map_option (map_option pi_credential_id) (select_bandit env ?r ?cus auths')"
    by (rule select_bandit_cong) simp_all
  have "map_option pi_credential_id (select_weighted env r ?cus auths) = map_option pi_credential_id (select_weighted env ?r ?cus auths')"
    by (simp add: select_weighted_def build_plan_item_def Let_def split: option.split)
  with bandit have best: "map_option (map_option pi_credential_id) (select_best env r ?cus auths)
      = map_option (map_option pi_credential_id) (select_best env ?r ?cus auths')"
    by (simp add: select_best_def)
  then have "map_option (map_option pi_credential_id) (select_primary env r ?cus auths session)
      = map_option (map_option pi_credential_id) (select_primary env ?r ?cus auths' session)"
    by (auto simp: select_primary_def select_with_affinity_def build_plan_item_def Let_def split: option.split)
  then show ?thesis
    by (cases "filtered_of r request = []")
      (simp_all add: plan_empty plan_eq same option.map_comp comp_def)
qed

text \<open>Sessions stick to their provider across plans: once a plan with session affinity has selected a provider,
  the next plan of the session selects it again, whatever the request, the random draws and the other
  credentials, as long as one of its candidates passes the filter. (The store of sessions is in a
  reachable state, the clock has advanced past its records and the cleanup runs within the time to live.)\<close>

theorem plan_sticky_provider:
  assumes "plan env r request auths (Some sid) = Some (p, r')" and "plan_primary p = Some it"
    and "rt_enable_session_affinity (r_config r)" and "sid \<noteq> []" and "pi_provider it \<noteq> []"
    and "session_inv (r_sessions r)"
    and "\<forall>k a. hm_get (sessions (r_sessions r)) k = Some a \<longrightarrow> last_access a < pe_access env"
    and "pe_clean env - pe_access env \<le> seconds (session_ttl_seconds (r_sessions r))"
    and "\<exists>c\<in>set (filtered_of r' request'). rc_provider c = pi_provider it"
  shows "\<exists>p' r'' it'. plan env' r' request' auths' (Some sid) = Some (p', r'') \<and> plan_primary p' = Some it'
    \<and> pi_provider it' = pi_provider it"
proof -
  have ne: "filtered_of r request \<noteq> []" using assms(1,2) plan_empty[of r request env auths "Some sid"] by auto
  from assms(1) plan_eq[OF ne, of env auths "Some sid"] assms(2)
  have r': "r' = remember_session env (Some sid) (Some it) r" by auto
  then have pref: "get_preferred_provider (r_sessions r') sid = Some (pi_provider it)"
    using set_provider_then_get[OF assms(6,4,5,7,8)] assms(3) by (simp add: remember_session_def)
  have aff: "rt_enable_session_affinity (r_config r')" using r' assms(3) by (simp add: remember_session_def)
  have ne': "filtered_of r' request' \<noteq> []" using assms(9) by auto
  let ?cus = "calculate_utilities r' (filtered_of r' request')"
  obtain c u where f: "find (\<lambda>(c, _). rc_provider c = pi_provider it) ?cus = Some (c, u)"
    using assms(9) by (cases "find (\<lambda>(c, _). rc_provider c = pi_provider it) ?cus")
      (auto simp: find_None_iff calculate_utilities_def)
  have "select_primary env' r' ?cus auths' (Some sid) = Some (Some (build_plan_item env' r' c u auths'))"
    using aff pref f by (simp add: select_primary_def select_with_affinity_def)
  moreover have "rc_provider c = pi_provider it" using find_in[OF f] by simp
  ultimately show ?thesis using item_for_build[of c env' r' u auths'] by (simp add: plan_eq[OF ne'] item_for_def)
qed

section \<open>A concrete router\<close>

definition sample_request :: classified_request where
  "sample_request = \<lparr>required_caps = \<lparr>rc_vision = False, rc_tools = False, rc_streaming = False, rc_thinking = False\<rparr>,
     estimated_tokens = 0, request_format = OpenAIFormat, quality_pref = Balanced\<rparr>"

definition sample_router :: router where
  "sample_router = router_set_model ''m'' sample_model (router_add_credential ''c1'' [''m''] router_new)"

definition sample_plan_env :: plan_env where
  "sample_plan_env = environment.extend sample_env
     \<lparr>pe_math = \<lparr>m_sqrt = (\<lambda>x. x), m_ln = (\<lambda>x. x), m_powf = (\<lambda>x y. x), m_cos = (\<lambda>x. x)\<rparr>,
      pe_draws = [], pe_access = 1, pe_clean = 1\<rparr>"

lemma sample_router_fields:
  "r_builder sample_router = \<lparr>cb_credential_models = [(''c1'', [''m''])], cb_models = [(''m'', sample_model)]\<rparr>"
  "r_filter sample_router = filter_new" "r_config sample_router = default_router_config" "r_sessions sample_router = session_new"
  by (simp_all add: sample_router_def router_set_model_def router_add_credential_def router_new_def router_with_config_def
      builder_set_model_def builder_add_credential_def builder_new_def)

lemma sample_filtered: "r_builder r = r_builder sample_router \<Longrightarrow> r_filter r = filter_new \<Longrightarrow>
    filtered_of r sample_request = [candidate_for sample_request ''c1'' ''m'' sample_model]"
  by (simp add: filtered_of_def sample_router_fields build_candidates_def filter_candidates_def filter_new_def
      accepted_iff capabilities_cover_def sample_request_def blocked_by_filter_def token_fit_for_def)

lemma sample_plan: "\<exists>p it. plan sample_plan_env sample_router sample_request [] (Some ''s'')
    = Some (p, remember_session sample_plan_env (Some ''s'') (Some it) sample_router)
    \<and> plan_primary p = Some it \<and> pi_provider it = mi_provider sample_model \<and> pi_credential_id it = ''c1''"
  by (simp add: plan_eq sample_filtered sample_router_fields calculate_utilities_def select_primary_def default_router_config_def
      select_with_affinity_def get_preferred_provider_def session_new_def select_best_def select_bandit_def
      select_route_with_utility_def build_plan_item_def Let_def)

theorem plan_returns_witness:
  "\<exists>draws. \<forall>rest. plan (sample_plan_env\<lparr>pe_draws := draws @ rest\<rparr>) sample_router sample_request [] None \<noteq> None"
  by (rule plan_returns) (simp add: sample_plan_env_def environment.defs sqrt_ok_def)

theorem plan_sticky_provider_witness:
  "\<exists>p r' it p' r'' it'. plan sample_plan_env sample_router sample_request [] (Some ''s'') = Some (p, r') \<and> plan_primary p = Some it
    \<and> plan sample_plan_env r' sample_request [sample_auth] (Some ''s'') = Some (p', r'') \<and> plan_primary p' = Some it'
    \<and> pi_provider it' = pi_provider it"
proof -
  obtain p it where p: "plan sample_plan_env sample_router sample_request [] (Some ''s'')
      = Some (p, remember_session sample_plan_env (Some ''s'') (Some it) sample_router)"
    "plan_primary p = Some it" "pi_provider it = mi_provider sample_model" using sample_plan by blast
  let ?r' = "remember_session sample_plan_env (Some ''s'') (Some it) sample_router"
  have f: "filtered_of ?r' sample_request = [candidate_for sample_request ''c1'' ''m'' sample_model]"
    by (rule sample_filtered) (simp_all add: remember_session_def sample_router_fields)
  have "\<exists>p' r'' it'. plan sample_plan_env ?r' sample_request [sample_auth] (Some ''s'') = Some (p', r'')
      \<and> plan_primary p' = Some it' \<and> pi_provider it' = pi_provider it"
  proof (rule plan_sticky_provider[OF p(1,2)])
    show "session_inv (r_sessions sample_router)" by (simp only: sample_router_fields session_inv_new)
  qed (use p(3) f in \<open>simp_all add: sample_router_fields default_router_config_def session_new_def sample_model_def
        sample_plan_env_def environment.defs seconds_def default_ttl_seconds_def nanos_per_second_def\<close>)
  with p show ?thesis by blast
qed

section \<open>Learning\<close>

text \<open>One reported result: the times, the credential, success, latency, status code and utility.\<close>

type_synonym report = "(time \<times> time \<times> time) \<times> time \<times> string \<times> bool \<times> f64 \<times> i32 \<times> f64"

fun report_step :: "report \<Rightarrow> router \<Rightarrow> router" where
  "report_step (tm, th, cid, ok, lat, code, u) r = router_record_result tm th cid ok lat code u r"

definition reports_for :: "string \<Rightarrow> report list \<Rightarrow> bool list" where
  "reports_for cid es = List.map_filter (\<lambda>(_, _, c, ok, _). if c = cid then Some ok else None) es"

definition counted :: "string \<Rightarrow> bool list \<Rightarrow> router \<Rightarrow> bool" where
  "counted cid oks r \<longleftrightarrow>
     (case get_metrics (router_metrics r) cid of
        None \<Rightarrow> oks = []
      | Some m \<Rightarrow> oks \<noteq> [] \<and> total_requests m = int (length oks) \<and> success_count m = int (length (filter id oks)))
   \<and> (case bandit_get_stats (r_bandit r) cid of None \<Rightarrow> oks = [] | Some s \<Rightarrow> br_pulls s = length oks \<and> oks \<noteq> [])"

lemma reports_for_snoc: "reports_for cid (es @ [e]) = reports_for cid es @ reports_for cid [e]"
  by (simp add: reports_for_def List.map_filter_def)

lemma counted_step:
  assumes counted: "counted cid oks r" and small: "length oks < 2 ^ 62" and cid: "cid \<noteq> []"
    and room: "length (mc_metrics (router_metrics r)) \<le> mc_max_entries (router_metrics r)"
  shows "counted cid (oks @ reports_for cid [e]) (report_step e r)"
proof -
  obtain tn tr tout th c ok lat code u where e: "e = ((tn, tr, tout), th, c, ok, lat, code, u)" by (cases e) auto
  show ?thesis
  proof (cases "c = cid")
    case False
    from False counted cid record_result_other[OF room False] show ?thesis
      by (simp add: e counted_def router_record_result_def get_metrics_def bandit_get_stats_def bandit_record_result_def
          store_simps reports_for_def List.map_filter_def)
  next
    case True
    have "length (filter id oks) < 2 ^ 62" by (rule le_less_trans[OF length_filter_le small])
    then have lt: "int (length (filter id oks)) < i64_max" "int (length oks) < i64_max" "length oks < 2 ^ 64 - 1"
      using small by (simp_all add: i64_max_def)
    show ?thesis
      using True counted cid lt record_result_unswept[OF room cid]
      by (auto simp: e counted_def router_record_result_def get_metrics_def bandit_get_stats_def bandit_record_result_def
          record_entry_fields store_simps reports_for_def List.map_filter_def
          wrap_inc_i64_small wrap_inc_u64_small stats_or_default_def update_stats_def fresh_metrics_def
          default_route_stats_def Let_def split: option.splits)
  qed
qed

text \<open>The credentials that reports name; those of the collector are among them, so that it is not swept while
  they are at most as many as it has room for.\<close>

definition reported_ids :: "report list \<Rightarrow> string set" where
  "reported_ids es = (\<lambda>(_, _, c, _). c) ` set es - {[]}"

definition recorded_in :: "string set \<Rightarrow> router \<Rightarrow> bool" where
  "recorded_in S r \<longleftrightarrow> hm_ok (mc_metrics (router_metrics r)) \<and> fst ` set (mc_metrics (router_metrics r)) \<subseteq> S
     \<and> card S \<le> mc_max_entries (router_metrics r)"

lemma recorded_room: "recorded_in S r \<Longrightarrow> finite S \<Longrightarrow> length (mc_metrics (router_metrics r)) \<le> mc_max_entries (router_metrics r)"
  by (metis (no_types, lifting) card_mono distinct_card hm_ok_def length_map list.set_map order.trans recorded_in_def)

lemma recorded_in_step:
  assumes "recorded_in S r" and "finite S" and "reported_ids [e] \<subseteq> S"
  shows "recorded_in S (report_step e r)"
proof -
  obtain tn tr tout th c ok lat code u where e: "e = ((tn, tr, tout), th, c, ok, lat, code, u)" by (cases e) auto
  have "mc_swept (router_metrics r) = mc_metrics (router_metrics r)"
    using recorded_room[OF assms(1,2)] by (rule mc_no_sweep)
  then show ?thesis
    using assms(1,3) by (auto simp: e recorded_in_def reported_ids_def router_record_result_def metrics_record_result_def Let_def
        AList.dom_update)
qed

lemma counted_run:
  assumes "counted cid oks r" and "length oks + length es \<le> 2 ^ 62" and "cid \<noteq> []"
    and "recorded_in S r" and "finite S" and "reported_ids es \<subseteq> S"
  shows "counted cid (oks @ reports_for cid es) (fold report_step es r)"
  using assms
proof (induction es arbitrary: oks r)
  case (Cons e es)
  let ?oks = "oks @ reports_for cid [e]"
  have ids: "reported_ids [e] \<subseteq> S" "reported_ids es \<subseteq> S" using Cons.prems(6) by (auto simp: reported_ids_def)
  have "counted cid ?oks (report_step e r)"
    using Cons.prems(1-3) recorded_room[OF Cons.prems(4,5)] by (intro counted_step) auto
  moreover have "length ?oks \<le> length oks + 1" by (cases e) (simp add: reports_for_def List.map_filter_def)
  ultimately have "counted cid (?oks @ reports_for cid es) (fold report_step es (report_step e r))"
    using Cons.prems recorded_in_step[OF Cons.prems(4,5) ids(1)] ids(2) by (intro Cons.IH) auto
  moreover have "reports_for cid [e] @ reports_for cid es = reports_for cid (e # es)"
    by (simp add: reports_for_def List.map_filter_def)
  ultimately show ?case by simp
qed (simp add: reports_for_def List.map_filter_def)

text \<open>C4. Learning is consistent across components: after any reports to a fresh router about at most as many
  credentials as the metrics have room for (10000), and at most \<open>2 ^ 62\<close> of them in all, whatever their interleaving,
  the bandit's pull count and the request total of the metrics collector of every credential with a non-empty
  identifier both equal the number of its reports, the success count the number of its successes, and a
  credential without reports is unknown to both.\<close>

theorem learning_consistent:
  assumes "card (reported_ids es) \<le> 10000" and "length es \<le> 2 ^ 62" and "cid \<noteq> []"
  shows "case (get_metrics (router_metrics (fold report_step es (router_with_config cfg))) cid,
        bandit_get_stats (r_bandit (fold report_step es (router_with_config cfg))) cid) of
      (Some m, Some s) \<Rightarrow> br_pulls s = length (reports_for cid es) \<and> total_requests m = int (length (reports_for cid es))
        \<and> success_count m = int (length (filter id (reports_for cid es)))
    | (None, None) \<Rightarrow> reports_for cid es = []
    | _ \<Rightarrow> False"
proof -
  have "counted cid ([] @ reports_for cid es) (fold report_step es (router_with_config cfg))"
    using assms by (intro counted_run[where S = "reported_ids es"])
      (simp_all add: counted_def recorded_in_def router_with_config_def selector_new_def metrics_new_def get_metrics_def
        bandit_new_def bandit_get_stats_def bandit_with_config_def reported_ids_def)
  then show ?thesis by (auto simp: counted_def split: option.splits)
qed

theorem learning_consistent_witness:
  "\<exists>s. bandit_get_stats (r_bandit (fold report_step [((0, 0, 0), 0, ''c1'', True, f64_1, 200, f64_1)]
     (router_with_config default_router_config))) ''c1'' = Some s \<and> br_pulls s = 1"
proof -
  have "reports_for ''c1'' [((0, 0, 0), 0, ''c1'', True, f64_1, 200, f64_1)] = [True]"
    by (auto simp: reports_for_def List.map_filter_def)
  moreover have "card (reported_ids [((0, 0, 0), 0, ''c1'', True, f64_1, 200, f64_1)]) \<le> 10000"
    by (simp add: reported_ids_def)
  ultimately show ?thesis
    using learning_consistent[of "[((0, 0, 0), 0, ''c1'', True, f64_1, 200, f64_1)]" "''c1''" default_router_config]
    by (auto split: option.splits)
qed

end
