(* ===== verification/Interleaving.thy ===== *)
theory Interleaving
  imports Router
begin

text \<open>
  Picks and plans while other tasks record results (src/routing/selector/ranking.rs, src/routing/router/dispatch.rs,
  src/routing/fallback/planning.rs). The metrics, health, bandit and session stores are shared; \<open>pick\<close> and \<open>plan\<close>
  read them at several awaits, and between two of them they may change in any way. A view is what the reads
  of one call see, in the order in which they are made; with the same store at all of them the functions here
  are those of the theories Selector and Router.
\<close>

section \<open>Views\<close>

text \<open>For one credential: the metrics, the health of \<open>get_status\<close>, the health of \<open>is_available\<close>.\<close>

type_synonym auth_view = "metrics_collector \<times> health_manager \<times> health_manager"

record plan_view =
  pv_utility :: "nat \<Rightarrow> metrics_collector"
  pv_preferred :: session_manager
  pv_bandit :: bandit_policy
  pv_item_metrics :: metrics_collector
  pv_item_health :: health_manager
  pv_sessions :: session_manager
  pv_fallback :: "nat \<Rightarrow> auth_view"

section \<open>Picking\<close>

definition weigh_auth_seen :: "environment \<Rightarrow> (nat \<Rightarrow> auth_view)
    \<Rightarrow> (auth_info \<Rightarrow> auth_metrics option \<Rightarrow> health_status \<Rightarrow> f64) \<Rightarrow> nat \<times> auth_info \<Rightarrow> weighted_auth option" where
  "weigh_auth_seen env view weight_of = (\<lambda>(i, auth).
     if ai_unavailable auth then None
     else
       (case view i of (metrics, status, availability) \<Rightarrow>
          if \<not> is_available (env_clock env i) availability (ai_id auth) then None
          else
            let weight = weight_of auth (get_metrics metrics (ai_id auth)) (get_status status (ai_id auth))
            in if f64_0 < weight then Some \<lparr>wa_id = ai_id auth, wa_weight = weight\<rparr> else None))"

definition pick_seen :: "environment \<Rightarrow> smart_selector \<Rightarrow> (nat \<Rightarrow> auth_view) \<Rightarrow> auth_info list \<Rightarrow> string option option" where
  "pick_seen env s view auths =
     (if \<not> src_enabled (ss_config s) then Some (first_auth auths)
      else if auths = [] then Some None
      else pick_from env (List.map_filter (weigh_auth_seen env view (calculator_calculate (env_ln env) (ss_calculator s)))
        (List.enumerate 0 auths)))"

definition pick_with_policy_seen :: "environment \<Rightarrow> smart_selector \<Rightarrow> (nat \<Rightarrow> auth_view) \<Rightarrow> auth_info list
    \<Rightarrow> model_info \<Rightarrow> policy_context \<Rightarrow> string option option" where
  "pick_with_policy_seen env s view auths model ctx =
     (if \<not> src_enabled (ss_config s) then Some (first_auth auths)
      else if auths = [] then Some None
      else pick_from env (if policy_blocked s model ctx then []
        else List.map_filter (weigh_auth_seen env view (policy_weight (env_ln env) s model ctx)) (List.enumerate 0 auths)))"

definition steady :: "smart_selector \<Rightarrow> nat \<Rightarrow> auth_view" where
  "steady s i = (ss_metrics s, ss_health s, ss_health s)"

lemma weigh_steady: "weigh_auth_seen env (steady s) = weigh_auth env s"
  by (intro ext) (auto simp: weigh_auth_seen_def weigh_auth_def steady_def Let_def)

lemma pick_steady: "pick_seen env s (steady s) auths = pick env s auths"
  "pick_with_policy_seen env s (steady s) auths model ctx = pick_with_policy env s auths model ctx"
  by (simp_all add: pick_seen_def pick_def pick_with_policy_seen_def pick_with_policy_def filter_and_weigh_def
      filter_and_weigh_with_policy_def weigh_steady)

section \<open>Planning\<close>

definition utilities_seen :: "router \<Rightarrow> (nat \<Rightarrow> metrics_collector) \<Rightarrow> route_candidate list \<Rightarrow> (route_candidate \<times> f64) list" where
  "utilities_seen r view candidates =
     map (\<lambda>(i, c). (c, estimate_utility (r_utility r) (get_metrics (view i) (rc_credential_id c)))) (List.enumerate 0 candidates)"

definition weights_seen :: "(nat \<Rightarrow> time) \<Rightarrow> (auth_info \<Rightarrow> auth_metrics option \<Rightarrow> health_status \<Rightarrow> f64)
    \<Rightarrow> (nat \<Rightarrow> auth_view) \<Rightarrow> auth_info list \<Rightarrow> fallback_auth list" where
  "weights_seen clock calc view auths =
     List.map_filter (\<lambda>(i, auth).
       if ai_unavailable auth then None
       else (case view i of (metrics, status, availability) \<Rightarrow>
         if \<not> is_available (clock i) availability (ai_id auth) then None
         else Some \<lparr>fa_id = ai_id auth,
                fa_weight = calc auth (get_metrics metrics (ai_id auth)) (get_status status (ai_id auth)),
                fa_provider = extract_provider (ai_id auth)\<rparr>)) (List.enumerate 0 auths)"

definition fallbacks_seen :: "(nat \<Rightarrow> time) \<Rightarrow> fallback_config \<Rightarrow> auth_info list \<Rightarrow> string option
    \<Rightarrow> (auth_info \<Rightarrow> auth_metrics option \<Rightarrow> health_status \<Rightarrow> f64) \<Rightarrow> (nat \<Rightarrow> auth_view) \<Rightarrow> fallback_route list" where
  "fallbacks_seen clock cfg auths primary calc view =
     (if auths = [] then []
      else
        let ws = filter usable (weights_seen clock calc view auths)
        in if ws = [] then []
           else take (fc_max_fallbacks cfg) (map to_route (List.enumerate 0 (fallback_order cfg primary ws))))"

text \<open>The router as the selection of the primary sees it: it reads the sessions, the bandit, and for the
  credential it selects metrics and health, each once.\<close>

definition router_seen :: "router \<Rightarrow> plan_view \<Rightarrow> router" where
  "router_seen r view = r\<lparr>r_sessions := pv_preferred view, r_bandit := pv_bandit view,
     r_selector := (r_selector r)\<lparr>ss_metrics := pv_item_metrics view, ss_health := pv_item_health view\<rparr>\<rparr>"

text \<open>The plan, and the session store after it.\<close>

definition plan_seen :: "plan_env \<Rightarrow> router \<Rightarrow> plan_view \<Rightarrow> classified_request \<Rightarrow> auth_info list \<Rightarrow> string option
    \<Rightarrow> (route_plan \<times> session_manager) option" where
  "plan_seen env r view request auths session =
     (let candidates = build_candidates (r_builder r) request;
          filtered = filter_candidates (r_filter r) candidates request
      in if filtered = [] then
           Some (\<lparr>plan_primary = None, plan_fallbacks = [], plan_total_candidates = length candidates,
             plan_filtered_candidates = length filtered\<rparr>, pv_sessions view)
         else
           (case select_primary env (router_seen r view) (utilities_seen r (pv_utility view) filtered) auths session of
              None \<Rightarrow> None
            | Some selected \<Rightarrow>
                let primary_id = map_option pi_credential_id selected;
                    fallbacks = fallbacks_seen (env_clock env) (r_planner r) (matching_auths filtered auths) primary_id
                      (selector_calculate (env_ln env) (r_selector r)) (pv_fallback view)
                in Some (\<lparr>plan_primary = selected, plan_fallbacks = fallbacks,
                     plan_total_candidates = length candidates, plan_filtered_candidates = length filtered\<rparr>,
                   r_sessions (remember_session env session selected (r\<lparr>r_sessions := pv_sessions view\<rparr>)))))"

definition steady_view :: "router \<Rightarrow> plan_view" where
  "steady_view r = \<lparr>pv_utility = (\<lambda>_. router_metrics r), pv_preferred = r_sessions r, pv_bandit = r_bandit r,
     pv_item_metrics = router_metrics r, pv_item_health = router_health r, pv_sessions = r_sessions r,
     pv_fallback = steady (r_selector r)\<rparr>"

text \<open>Without other tasks this is \<open>plan\<close>.\<close>

lemma utilities_steady: "utilities_seen r (\<lambda>_. router_metrics r) cs = calculate_utilities r cs"
  by (rule nth_equalityI) (simp_all add: utilities_seen_def calculate_utilities_def nth_enumerate_eq)

lemma fallbacks_steady:
  "fallbacks_seen clock cfg auths primary calc (steady s) = generate_fallbacks clock cfg auths primary calc (ss_metrics s) (ss_health s)"
proof -
  have "weights_seen clock calc (steady s) as = calculate_weights clock calc (ss_metrics s) (ss_health s) as" for as
    unfolding weights_seen_def calculate_weights_def steady_def prod.case ..
  then show ?thesis by (simp add: fallbacks_seen_def generate_fallbacks_def)
qed

lemma router_steady: "router_seen r (steady_view r) = r"
  by (simp add: router_seen_def steady_view_def)

theorem plan_steady:
  "plan_seen env r (steady_view r) request auths session = map_option (\<lambda>(p, r'). (p, r_sessions r')) (plan env r request auths session)"
proof -
  have kept: "r_selector (remember_session env session selected r) = r_selector r"
    "r_planner (remember_session env session selected r) = r_planner r" for selected
    by (auto simp: remember_session_def split: option.split)
  show ?thesis
    by (auto simp: plan_seen_def plan_def Let_def router_steady kept steady_view_def utilities_steady[unfolded steady_view_def]
        fallbacks_steady router_steady[unfolded steady_view_def] split: option.split)
qed

section \<open>What holds whatever other tasks do\<close>

text \<open>The credential at position \<open>i\<close> is eligible as the pick sees it.\<close>

definition eligible_seen :: "environment \<Rightarrow> (nat \<Rightarrow> auth_view)
    \<Rightarrow> (auth_info \<Rightarrow> auth_metrics option \<Rightarrow> health_status \<Rightarrow> f64) \<Rightarrow> nat \<times> auth_info \<Rightarrow> bool" where
  "eligible_seen env view weight_of = (\<lambda>(i, auth). case view i of (metrics, status, availability) \<Rightarrow>
     \<not> ai_unavailable auth \<and> is_available (env_clock env i) availability (ai_id auth)
     \<and> f64_0 < weight_of auth (get_metrics metrics (ai_id auth)) (get_status status (ai_id auth)))"

lemma weigh_seen_cases:
  "weigh_auth_seen env view w (i, a) =
     (if eligible_seen env view w (i, a) then Some \<lparr>wa_id = ai_id a,
        wa_weight = w a (get_metrics (fst (view i)) (ai_id a)) (get_status (fst (snd (view i))) (ai_id a))\<rparr> else None)"
  by (simp add: weigh_auth_seen_def eligible_seen_def Let_def split: prod.split)

lemma pick_from_seen:
  fixes view w ias
  assumes "\<And>n. 0 < n \<Longrightarrow> env_range env n < n"
  defines "ws \<equiv> List.map_filter (weigh_auth_seen env view w) ias"
  shows "pick_from env ws = Some None \<and> (\<forall>ia\<in>set ias. \<not> eligible_seen env view w ia)
    \<or> (\<exists>(i, a)\<in>set ias. eligible_seen env view w (i, a) \<and> pick_from env ws = Some (Some (ai_id a)))"
proof -
  have mem: "x \<in> set ws \<Longrightarrow> \<exists>(i, a)\<in>set ias. eligible_seen env view w (i, a) \<and> wa_id x = ai_id a" for x
    unfolding ws_def set_map_filter by (auto simp: weigh_seen_cases split: if_splits) force
  have none: "ws = [] \<Longrightarrow> ia \<in> set ias \<Longrightarrow> \<not> eligible_seen env view w ia" for ia
    unfolding ws_def by (cases ia) (auto simp: map_filter_def filter_empty_conv weigh_seen_cases)
  show ?thesis using pick_from_returns[OF assms(1), of ws] mem none by force
qed

text \<open>C2. A pick is safe under concurrent updates: whatever the metrics and health stores are at each of its reads, an
  enabled selector does not panic and picks a credential that was offered, not marked unavailable, available and of
  positive weight at the moment it was looked at; and it picks none exactly if there was no such credential (or a
  policy blocks the model).\<close>

theorem pick_under_updates:
  assumes "\<And>n. 0 < n \<Longrightarrow> env_range env n < n" and "src_enabled (ss_config s)"
  shows "(let el = eligible_seen env view (calculator_calculate (env_ln env) (ss_calculator s)) in
      case pick_seen env s view auths of
        Some None \<Rightarrow> \<not> (\<exists>ia\<in>set (List.enumerate 0 auths). el ia)
      | Some (Some x) \<Rightarrow> \<exists>(i, a)\<in>set (List.enumerate 0 auths). el (i, a) \<and> x = ai_id a
      | None \<Rightarrow> False)
    \<and> (let el = eligible_seen env view (policy_weight (env_ln env) s model ctx) in
      case pick_with_policy_seen env s view auths model ctx of
        Some None \<Rightarrow> policy_blocked s model ctx \<or> \<not> (\<exists>ia\<in>set (List.enumerate 0 auths). el ia)
      | Some (Some x) \<Rightarrow> \<not> policy_blocked s model ctx \<and> (\<exists>(i, a)\<in>set (List.enumerate 0 auths). el (i, a) \<and> x = ai_id a)
      | None \<Rightarrow> False)"
proof -
  note seen = pick_from_seen[OF assms(1), of view]
  note plain = seen[of "calculator_calculate (env_ln env) (ss_calculator s)" "List.enumerate 0 auths"]
  note policy = seen[of "policy_weight (env_ln env) s model ctx" "List.enumerate 0 auths"]
  have "pick_from env [] = Some None" by (simp add: pick_from_def)
  then show ?thesis
    using plain policy assms(2)
    by (cases "auths = []"; cases "policy_blocked s model ctx")
      (fastforce simp: pick_seen_def pick_with_policy_seen_def Let_def)+
qed

text \<open>A credential that becomes unavailable after its status was read is not picked.\<close>

theorem pick_under_updates_witness:
  "pick_seen sample_env (selector_new default_smart_routing_config)
     (\<lambda>i. (metrics_new, health_new default_health_config,
        mark_unavailable 0 (seconds 60) 0 (ai_id sample_auth) (seconds 60) (health_new default_health_config))) [sample_auth] = Some None"
proof -
  let ?away = "mark_unavailable 0 (seconds 60) 0 (ai_id sample_auth) (seconds 60) (health_new default_health_config)"
  let ?view = "\<lambda>i::nat. (metrics_new, health_new default_health_config, ?away)"
  have away: "\<not> is_available 0 ?away (ai_id sample_auth)"
    by (simp add: is_available_def mark_unavailable_def health_new_def sample_auth_def seconds_def nanos_per_second_def
        num_seconds_def Let_def)
  have "\<And>n. 0 < n \<Longrightarrow> env_range sample_env n < n" "src_enabled (ss_config (selector_new default_smart_routing_config))"
    by (simp_all add: sample_env_def selector_new_def default_smart_routing_config_def Let_def)
  from pick_under_updates[OF this, of ?view "[sample_auth]", THEN conjunct1] away show ?thesis
    by (auto simp: Let_def eligible_seen_def sample_env_def split: option.splits)
qed

lemma utilities_seen_candidates: "map fst (utilities_seen r view cs) = cs"
  by (rule nth_equalityI) (simp_all add: utilities_seen_def nth_enumerate_eq)

lemma length_fallbacks_seen: "length (fallbacks_seen clock cfg auths primary calc view) \<le> fc_max_fallbacks cfg"
  by (simp add: fallbacks_seen_def Let_def)

lemma fallbacks_seen_offered:
  assumes "f \<in> set (fallbacks_seen clock cfg auths primary calc view)"
  shows "\<exists>(i, a)\<in>set (List.enumerate 0 auths). fr_auth_id f = ai_id a \<and> \<not> ai_unavailable a
    \<and> is_available (clock i) (snd (snd (view i))) (ai_id a)"
proof -
  let ?ws = "filter usable (weights_seen clock calc view auths)"
  have "f \<in> to_route ` set (List.enumerate 0 (fallback_order cfg primary ?ws))"
    using assms by (auto simp: fallbacks_seen_def Let_def split: if_splits dest: in_set_takeD)
  then obtain i w where iw: "(i, w) \<in> set (List.enumerate 0 (fallback_order cfg primary ?ws))" and "f = to_route (i, w)"
    by auto
  then have f: "fr_auth_id f = fa_id w" by (simp add: to_route_def)
  have "w \<in> set (fallback_order cfg primary ?ws)" using iw nth_mem by (fastforce simp: in_set_enumerate_eq)
  moreover have "set (fallback_order cfg primary ?ws) = set ?ws" by (rule mset_eq_setD) simp
  ultimately have "w \<in> set (weights_seen clock calc view auths)" by simp
  then show ?thesis
    unfolding weights_seen_def set_map_filter f by (force split: if_splits prod.splits)
qed

text \<open>C1. A plan is safe under concurrent updates: whatever the stores are at each of its reads, the primary route is a
  candidate that passed the filter, with its model and provider, and there is none (and no fallback) exactly if
  none passed; the fallbacks are at most the configured number, and each is an offered credential of a filtered
  candidate that was not marked unavailable and was available when the planner looked at it.\<close>

theorem plan_under_updates:
  "case plan_seen env r view request auths session of None \<Rightarrow> True
   | Some (p, _) \<Rightarrow>
       (case plan_primary p of
          None \<Rightarrow> filtered_of r request = [] \<and> plan_fallbacks p = []
        | Some it \<Rightarrow> \<exists>c\<in>set (filtered_of r request). item_for c it)
       \<and> plan_total_candidates p = length (build_candidates (r_builder r) request)
       \<and> plan_filtered_candidates p = length (filtered_of r request)
       \<and> length (plan_fallbacks p) \<le> fc_max_fallbacks (r_planner r)
       \<and> list_all (\<lambda>f. \<exists>(i, a)\<in>set (List.enumerate 0 (matching_auths (filtered_of r request) auths)).
            fr_auth_id f = ai_id a \<and> \<not> ai_unavailable a
            \<and> is_available (env_clock env i) (snd (snd (pv_fallback view i))) (ai_id a)) (plan_fallbacks p)"
proof (cases "filtered_of r request = []")
  case False
  let ?cus = "utilities_seen r (pv_utility view) (filtered_of r request)"
  have fst: "map fst ?cus = filtered_of r request" by (rule utilities_seen_candidates)
  then have cus: "?cus \<noteq> []" using False by force
  have set: "fst ` set ?cus = set (filtered_of r request)" using fst by (metis image_set)
  let ?fallbacks = "\<lambda>primary. fallbacks_seen (env_clock env) (r_planner r) (matching_auths (filtered_of r request) auths) primary
      (selector_calculate (env_ln env) (r_selector r)) (pv_fallback view)"
  show ?thesis
  proof (cases "select_primary env (router_seen r view) ?cus auths session")
    case (Some selected)
    obtain it c where it: "selected = Some it" "c \<in> set (filtered_of r request)" "item_for c it"
      using select_primary_item[OF Some cus] set by metis
    have seen: "plan_seen env r view request auths session = Some (\<lparr>plan_primary = Some it,
        plan_fallbacks = ?fallbacks (Some (pi_credential_id it)), plan_total_candidates = length (build_candidates (r_builder r) request),
        plan_filtered_candidates = length (filtered_of r request)\<rparr>,
        r_sessions (remember_session env session (Some it) (r\<lparr>r_sessions := pv_sessions view\<rparr>)))"
      using Some False it(1) by (simp add: plan_seen_def Let_def filtered_of_def)
    have offered: "list_all (\<lambda>f. \<exists>(i, a)\<in>set (List.enumerate 0 (matching_auths (filtered_of r request) auths)).
            fr_auth_id f = ai_id a \<and> \<not> ai_unavailable a
            \<and> is_available (env_clock env i) (snd (snd (pv_fallback view i))) (ai_id a)) (?fallbacks x)" for x
      unfolding list_all_iff by (rule ballI) (rule fallbacks_seen_offered)
    have "\<exists>c\<in>set (filtered_of r request). item_for c it" using it(2,3) by blast
    then show ?thesis
      unfolding seen option.case prod.case route_plan.simps by (intro conjI offered length_fallbacks_seen) (assumption | rule refl)+
  qed (use False in \<open>simp add: plan_seen_def Let_def filtered_of_def\<close>)
qed (simp add: plan_seen_def Let_def filtered_of_def)

text \<open>And every plan returns on suitable draws.\<close>

theorem plan_seen_returns:
  assumes "sqrt_ok (pe_math env)"
  shows "\<exists>draws. \<forall>rest. plan_seen (env\<lparr>pe_draws := draws @ rest\<rparr>) r view request auths session \<noteq> None"
proof -
  let ?r = "router_seen r view"
  let ?cus = "utilities_seen r (pv_utility view) (filtered_of r request)"
  obtain ds x where d: "\<And>rest. select_route_with_utility (pe_math env) (r_bandit ?r) (map (\<lambda>(c, _). rc_credential_id c) ?cus)
      (collect_map (map (\<lambda>(c, u). (rc_credential_id c, u)) ?cus)) (ds @ rest) = Some (x, rest)"
    using select_with_utility_returns[OF assms] by blast
  have "select_bandit (env\<lparr>pe_draws := ds @ rest\<rparr>) ?r ?cus auths \<noteq> None" for rest
    using d by (simp add: select_bandit_def Let_def split: option.split)
  then have "select_primary (env\<lparr>pe_draws := ds @ rest\<rparr>) ?r ?cus auths session \<noteq> None" for rest
    by (auto simp: select_primary_def select_with_affinity_def select_best_def split: option.split)
  note selects = this[unfolded filtered_of_def]
  have "plan_seen (env\<lparr>pe_draws := ds @ rest\<rparr>) r view request auths session \<noteq> None" for rest
    using selects[of rest] by (auto simp: plan_seen_def Let_def split: option.split)
  then show ?thesis by blast
qed

section \<open>Sessions keep their provider in a busy gateway\<close>

text \<open>A call on the session store that is not about the session \<open>sid\<close>.\<close>

fun elsewhere_session :: "string \<Rightarrow> session_call \<Rightarrow> bool" where
  "elsewhere_session sid (SetProvider t_access t_clean sid' provider) \<longleftrightarrow> sid' \<noteq> sid"
| "elsewhere_session sid (RemoveSession sid') \<longleftrightarrow> sid' \<noteq> sid"
| "elsewhere_session sid _ \<longleftrightarrow> False"

lemma elsewhere_session_step:
  assumes "elsewhere_session sid c" and "length (sessions s) < max_sessions s"
  shows "get_preferred_provider (session_step c s) sid = get_preferred_provider s sid
    \<and> length (sessions (session_step c s)) \<le> Suc (length (sessions s)) \<and> max_sessions (session_step c s) = max_sessions s"
proof (cases "(sid, c)" rule: elsewhere_session.cases)
  case (1 sid t_access t_clean sid' provider)
  have "length (touch_session t_access sid' provider (sessions s)) \<le> max_sessions s"
    using assms(2) length_hm_insert_le[of sid' _ "sessions s"] by (metis touch_session_def Suc_leI le_trans)
  then show ?thesis
    using 1 assms length_hm_insert_le[of sid' _ "sessions s"]
    by (auto simp: set_provider_def get_preferred_provider_def touch_get Let_def touch_session_def store_simps)
next
  case (2 sid sid')
  then show ?thesis
    using assms length_delete_le[of sid' "sessions s"]
    by (auto simp: remove_session_def get_preferred_provider_def store_simps)
qed (use assms in auto)

lemma elsewhere_session_run:
  assumes "list_all (elsewhere_session sid) cs" and "length (sessions s) + length cs \<le> max_sessions s"
  shows "get_preferred_provider (fold session_step cs s) sid = get_preferred_provider s sid"
  using assms
proof (induction cs arbitrary: s)
  case (Cons c cs)
  then have "get_preferred_provider (session_step c s) sid = get_preferred_provider s sid
      \<and> length (sessions (session_step c s)) \<le> Suc (length (sessions s)) \<and> max_sessions (session_step c s) = max_sessions s"
    by (intro elsewhere_session_step) auto
  with Cons.IH[of "session_step c s"] Cons.prems show ?case by simp
qed simp

text \<open>C3. Sessions stick to their provider across plans, in a gateway that serves other requests at the same time: once a
  plan with session affinity has selected a provider, the next plan of the session selects it again as long as one
  of its candidates passes the filter, whatever the request, the random draws, the credentials, and the changes of
  metrics, health and bandit at every read, and whatever sessions other requests add, change or remove in between
  while there is room for them. In particular the provider is kept whatever the health of its credentials: that is what
  the code does, whereas the scenarios of route-planning.feature have a session leave an unhealthy provider and give
  the preferred one no more than a bonus. (When the first plan writes its session, the store is in a reachable state, the
  clock has advanced past its records and the cleanup runs within the time to live.)\<close>

theorem sessions_stick:
  assumes "plan_seen env r view request auths (Some sid) = Some (p, store)" and "plan_primary p = Some it"
    and "rt_enable_session_affinity (r_config r)" and "sid \<noteq> []" and "pi_provider it \<noteq> []"
    and "session_inv (pv_sessions view)"
    and "\<forall>k a. hm_get (sessions (pv_sessions view)) k = Some a \<longrightarrow> last_access a < pe_access env"
    and "pe_clean env - pe_access env \<le> seconds (session_ttl_seconds (pv_sessions view))"
    and "list_all (elsewhere_session sid) cs" and "length (sessions store) + length cs \<le> max_sessions store"
    and "pv_preferred view' = fold session_step cs store"
    and "\<exists>c\<in>set (filtered_of r request'). rc_provider c = pi_provider it"
  shows "\<exists>p' store' it'. plan_seen env' r view' request' auths' (Some sid) = Some (p', store') \<and> plan_primary p' = Some it'
    \<and> pi_provider it' = pi_provider it"
proof -
  have ne: "filtered_of r request \<noteq> []" using assms(1,2) by (auto simp: plan_seen_def Let_def filtered_of_def)
  then have store: "store = snd (set_provider (pe_access env) (pe_clean env) sid (pi_provider it) (pv_sessions view))"
    using assms(1-3) by (auto simp: plan_seen_def Let_def filtered_of_def remember_session_def split: option.splits)
  then have "get_preferred_provider store sid = Some (pi_provider it)"
    using set_provider_then_get[OF assms(6,4,5,7,8)] by simp
  then have pref: "get_preferred_provider (r_sessions (router_seen r view')) sid = Some (pi_provider it)"
    using elsewhere_session_run[OF assms(9,10)] assms(11) by (simp add: router_seen_def)
  let ?cus = "utilities_seen r (pv_utility view') (filtered_of r request')"
  obtain c u where f: "find (\<lambda>(c, _). rc_provider c = pi_provider it) ?cus = Some (c, u)"
  proof (cases "find (\<lambda>(c, _). rc_provider c = pi_provider it) ?cus")
    case None
    then have "\<forall>c\<in>set (map fst ?cus). rc_provider c \<noteq> pi_provider it" by (auto simp: find_None_iff)
    then show ?thesis using assms(12) unfolding utilities_seen_candidates by blast
  qed (use that in auto)
  have sel: "select_primary env' (router_seen r view') ?cus auths' (Some sid) = Some (Some (build_plan_item env' (router_seen r view') c u auths'))"
    using assms(3) pref f by (simp add: select_primary_def select_with_affinity_def router_seen_def)
  have "filtered_of r request' \<noteq> []" using assms(12) by auto
  moreover have "pi_provider (build_plan_item env' (router_seen r view') c u auths') = pi_provider it"
    using item_for_build[of c env' "router_seen r view'" u auths'] find_in[OF f] by (simp add: item_for_def)
  ultimately show ?thesis
    using sel by (auto simp: plan_seen_def Let_def filtered_of_def)
qed

theorem sessions_stick_witness:
  "\<exists>p store it p' store' it'. plan_seen sample_plan_env sample_router (steady_view sample_router) sample_request [] (Some ''s'') = Some (p, store)
    \<and> plan_primary p = Some it
    \<and> plan_seen sample_plan_env sample_router ((steady_view sample_router)\<lparr>pv_preferred := snd (set_provider 9 9 ''t'' ''other'' store)\<rparr>)
        sample_request [sample_auth] (Some ''s'') = Some (p', store')
    \<and> plan_primary p' = Some it' \<and> pi_provider it' = pi_provider it"
proof -
  obtain p it where p: "plan sample_plan_env sample_router sample_request [] (Some ''s'')
      = Some (p, remember_session sample_plan_env (Some ''s'') (Some it) sample_router)"
    "plan_primary p = Some it" "pi_provider it = mi_provider sample_model" using sample_plan by blast
  let ?store = "r_sessions (remember_session sample_plan_env (Some ''s'') (Some it) sample_router)"
  let ?view' = "(steady_view sample_router)\<lparr>pv_preferred := snd (set_provider 9 9 ''t'' ''other'' ?store)\<rparr>"
  have seen: "plan_seen sample_plan_env sample_router (steady_view sample_router) sample_request [] (Some ''s'') = Some (p, ?store)"
    using plan_steady[of sample_plan_env sample_router sample_request "[]" "Some ''s''"] p(1) by simp
  have f: "filtered_of sample_router sample_request = [candidate_for sample_request ''c1'' ''m'' sample_model]"
    by (rule sample_filtered) (simp_all add: sample_router_fields)
  have provider: "pi_provider it \<noteq> []" using p(3) by (simp add: sample_model_def)
  have store: "?store = snd (set_provider 1 1 ''s'' (pi_provider it) session_new)"
    by (simp add: remember_session_def sample_router_fields default_router_config_def sample_plan_env_def environment.defs)
  have "\<exists>p' store' it'. plan_seen sample_plan_env sample_router ?view' sample_request [sample_auth] (Some ''s'') = Some (p', store')
      \<and> plan_primary p' = Some it' \<and> pi_provider it' = pi_provider it"
  proof (rule sessions_stick[OF seen p(2) _ _ provider, where cs = "[SetProvider 9 9 ''t'' ''other'']"])
    show "session_inv (pv_sessions (steady_view sample_router))"
      by (simp only: steady_view_def plan_view.simps sample_router_fields session_inv_new)
    show "length (sessions ?store) + length [SetProvider 9 9 ''t'' ''other''] \<le> max_sessions ?store"
      unfolding store using provider by (simp add: set_provider_def session_new_def touch_session_def Let_def)
  qed (use p(3) f in \<open>simp_all add: steady_view_def sample_router_fields default_router_config_def session_new_def sample_model_def
        sample_plan_env_def environment.defs seconds_def default_ttl_seconds_def nanos_per_second_def\<close>)
  with seen p(2) show ?thesis by blast
qed

end
