(* ===== verification/Sweeping.thy ===== *)
theory Sweeping
  imports Metrics Health
begin

text \<open>
  Recording results from many tasks at once (src/routing/metrics.rs, src/routing/health/state_machine.rs). A call
  of \<open>record_result\<close> or \<open>update_from_result\<close> has three atomic sections: it counts itself, every so many calls it
  takes the write lock to evict the oldest records, and it takes the write lock again to update its own record.
  Sections of several calls interleave in any way, and a call may be dropped while it waits for either lock. One
  call by itself is what theories Metrics and Health say.
\<close>

section \<open>Sections and their interleavings\<close>

text \<open>The map, the shared counter, the calls that are about to sweep, and those that are about to update; last,
  a count that the code does not keep: of the calls dropped while they were about to sweep, since the last sweep.\<close>

record 'v sweeper =
  sw_map :: "'v hmap"
  sw_ops :: i64
  sw_sweeping :: nat
  sw_updating :: nat
  sw_missed :: nat

definition count_section :: "i64 \<Rightarrow> 'v sweeper \<Rightarrow> 'v sweeper" where
  "count_section interval s =
     (let s' = s\<lparr>sw_ops := wrap_inc_i64 (sw_ops s)\<rparr>
      in if sw_ops s mod interval = 0 then s'\<lparr>sw_sweeping := Suc (sw_sweeping s)\<rparr>
         else s'\<lparr>sw_updating := Suc (sw_updating s)\<rparr>)"

definition sweep_section :: "(nat \<Rightarrow> 'v hmap \<Rightarrow> 'v hmap) \<Rightarrow> nat \<Rightarrow> 'v sweeper \<Rightarrow> 'v sweeper" where
  "sweep_section clean limit s = s\<lparr>sw_map := (if limit < length (sw_map s) then clean limit (sw_map s) else sw_map s),
     sw_sweeping := sw_sweeping s - 1, sw_updating := Suc (sw_updating s), sw_missed := 0\<rparr>"

definition drop_sweeping :: "'v sweeper \<Rightarrow> 'v sweeper" where
  "drop_sweeping s = s\<lparr>sw_sweeping := sw_sweeping s - 1, sw_missed := Suc (sw_missed s)\<rparr>"

definition update_section :: "('e \<Rightarrow> 'v hmap \<Rightarrow> 'v hmap) \<Rightarrow> 'e \<Rightarrow> 'v sweeper \<Rightarrow> 'v sweeper" where
  "update_section touch e s = s\<lparr>sw_map := touch e (sw_map s), sw_updating := sw_updating s - 1\<rparr>"

definition metrics_touch :: "metrics_call \<Rightarrow> auth_metrics hmap \<Rightarrow> auth_metrics hmap" where
  "metrics_touch = (\<lambda>(t_new, t_req, t_out, auth_id, success, latency_ms, status_code) m.
     hm_insert auth_id (record_entry t_req t_out success latency_ms
       (case hm_get m auth_id of Some e \<Rightarrow> e | None \<Rightarrow> fresh_metrics t_new)) m)"

definition health_touch :: "health_config \<Rightarrow> health_call \<Rightarrow> auth_health hmap \<Rightarrow> auth_health hmap" where
  "health_touch config = (\<lambda>(now, auth_id, success, status_code) m.
     hm_insert auth_id (update_entry config now success status_code
       (case hm_get m auth_id of Some h \<Rightarrow> h | None \<Rightarrow> fresh_health now now)) m)"

text \<open>At most \<open>k\<close> calls are under way at a time; a call may be dropped while it waits for the lock to sweep, and while
  it waits for the lock to update.\<close>

inductive sweep_step :: "nat \<Rightarrow> (nat \<Rightarrow> 'v hmap \<Rightarrow> 'v hmap) \<Rightarrow> ('e \<Rightarrow> 'v hmap \<Rightarrow> 'v hmap) \<Rightarrow> nat \<Rightarrow> i64
    \<Rightarrow> 'v sweeper \<Rightarrow> 'v sweeper \<Rightarrow> bool" for k clean touch limit interval where
  count: "sw_sweeping s + sw_updating s < k \<Longrightarrow> sweep_step k clean touch limit interval s (count_section interval s)"
| sweep: "0 < sw_sweeping s \<Longrightarrow> sweep_step k clean touch limit interval s (sweep_section clean limit s)"
| update: "0 < sw_updating s \<Longrightarrow> sweep_step k clean touch limit interval s (update_section touch e s)"
| abandon: "0 < sw_updating s \<Longrightarrow> sweep_step k clean touch limit interval s (s\<lparr>sw_updating := sw_updating s - 1\<rparr>)"
| miss: "0 < sw_sweeping s \<Longrightarrow> sweep_step k clean touch limit interval s (drop_sweeping s)"

text \<open>A call that is alone goes through its sections as the sequential model says.\<close>

definition of_metrics :: "metrics_collector \<Rightarrow> auth_metrics sweeper" where
  "of_metrics s = \<lparr>sw_map = mc_metrics s, sw_ops = mc_op_count s, sw_sweeping = 0, sw_updating = 0, sw_missed = 0\<rparr>"

definition of_health :: "health_manager \<Rightarrow> auth_health sweeper" where
  "of_health s = \<lparr>sw_map = hm_health s, sw_ops = hm_op_count s, sw_sweeping = 0, sw_updating = 0, sw_missed = 0\<rparr>"

text \<open>The sections of one call in a row.\<close>

definition whole_call :: "(nat \<Rightarrow> 'v hmap \<Rightarrow> 'v hmap) \<Rightarrow> ('e \<Rightarrow> 'v hmap \<Rightarrow> 'v hmap) \<Rightarrow> nat \<Rightarrow> i64 \<Rightarrow> 'e \<Rightarrow> 'v sweeper \<Rightarrow> 'v sweeper" where
  "whole_call clean touch limit interval e s =
     (let s' = count_section interval s
      in update_section touch e (if sw_ops s mod interval = 0 then sweep_section clean limit s' else s'))"

lemma metrics_alone:
  assumes "auth_id \<noteq> []"
  shows "of_metrics (metrics_record_result t t' t'' auth_id ok lat code s) =
    whole_call metrics_cleanup metrics_touch (mc_max_entries s) (mc_cleanup_interval s) (t, t', t'', auth_id, ok, lat, code) (of_metrics s)"
  using assms by (simp add: of_metrics_def whole_call_def count_section_def sweep_section_def update_section_def metrics_touch_def
      metrics_record_result_def mc_swept_def Let_def)

lemma health_alone:
  assumes "auth_id \<noteq> []"
  shows "of_health (update_from_result now auth_id ok code s) =
    whole_call health_cleanup (health_touch (hm_config s)) (hm_max_entries s) (hm_cleanup_interval s) (now, auth_id, ok, code) (of_health s)"
  using assms by (simp add: of_health_def whole_call_def count_section_def sweep_section_def update_section_def health_touch_def
      update_from_result_def Let_def)

section \<open>The interface\<close>

locale concurrent_store =
  fixes clean :: "nat \<Rightarrow> 'v hmap \<Rightarrow> 'v hmap" and touch :: "'e \<Rightarrow> 'v hmap \<Rightarrow> 'v hmap"
  assumes clean_ok: "hm_ok m \<Longrightarrow> hm_ok (clean n m)"
    and clean_size: "hm_ok m \<Longrightarrow> 0 < n \<Longrightarrow> length (clean n m) \<le> n"
    and touch_ok: "hm_ok m \<Longrightarrow> hm_ok (touch e m)"
    and touch_size: "length (touch e m) \<le> Suc (length m)"
begin

definition sweep_inv :: "nat \<Rightarrow> nat \<Rightarrow> i64 \<Rightarrow> 'v sweeper \<Rightarrow> bool" where
  "sweep_inv k limit interval s \<longleftrightarrow> hm_ok (sw_map s) \<and> sw_sweeping s + sw_updating s \<le> k \<and> 0 \<le> sw_ops s \<and>
     int (length (sw_map s)) + int (sw_updating s)
       \<le> int limit + int k + interval * int (sw_sweeping s + sw_missed s) + (sw_ops s - 1) mod interval + 1"

lemma count_inv:
  assumes "sweep_inv k limit interval s" and "sw_sweeping s + sw_updating s < k" and "0 < interval" and "sw_ops s < i64_max"
  shows "sweep_inv k limit interval (count_section interval s)"
proof -
  have ops: "wrap_inc_i64 (sw_ops s) = sw_ops s + 1" using assms by (simp add: wrap_inc_i64_small sweep_inv_def)
  show ?thesis
  proof (cases "sw_ops s mod interval = 0")
    case True
    have "(sw_ops s - 1) mod interval < interval" using assms(3) by simp
    then have "int (length (sw_map s)) + int (sw_updating s) \<le> int limit + int k + interval * int (Suc (sw_sweeping s) + sw_missed s) + 1"
      using assms(1) by (simp add: sweep_inv_def algebra_simps)
    then show ?thesis
      using assms True ops by (simp add: sweep_inv_def count_section_def Let_def)
  next
    case False
    then have "(sw_ops s - 1) mod interval + 1 = sw_ops s mod interval"
      using assms(3) pos_mod_bound[OF assms(3), of "sw_ops s"] pos_mod_sign[OF assms(3), of "sw_ops s"]
      by (subst mod_diff_eq [symmetric]) (cases "interval = 1"; simp add: mod_pos_pos_trivial)
    then show ?thesis
      using assms False ops by (simp add: sweep_inv_def count_section_def Let_def)
  qed
qed

lemma sweep_section_inv:
  assumes "sweep_inv k limit interval s" and "0 < sw_sweeping s" and "0 < interval" and "0 < limit"
  shows "sweep_inv k limit interval (sweep_section clean limit s)"
proof -
  let ?m = "if limit < length (sw_map s) then clean limit (sw_map s) else sw_map s"
  have ok: "hm_ok ?m" and size: "length ?m \<le> limit"
    using assms clean_ok clean_size[of "sw_map s" limit] by (simp_all add: sweep_inv_def)
  have flight: "sw_updating s + 1 \<le> k" "sw_sweeping s + sw_updating s \<le> k" using assms by (simp_all add: sweep_inv_def)
  have "0 \<le> (sw_ops s - 1) mod interval" "0 \<le> interval * int (sw_sweeping s - 1)" using assms(3) by simp_all
  then have "int (length ?m) + int (Suc (sw_updating s))
      \<le> int limit + int k + interval * int (sw_sweeping s - 1) + (sw_ops s - 1) mod interval + 1"
    using size flight by linarith
  then show ?thesis
    using ok assms flight by (simp add: sweep_inv_def sweep_section_def)
qed

lemma update_inv:
  assumes "sweep_inv k limit interval s" and "0 < sw_updating s"
  shows "sweep_inv k limit interval (update_section touch e s)" "sweep_inv k limit interval (s\<lparr>sw_updating := sw_updating s - 1\<rparr>)"
proof -
  have "int (length (touch e (sw_map s))) + int (sw_updating s - 1) \<le> int (length (sw_map s)) + int (sw_updating s)"
    using touch_size[of e "sw_map s"] assms(2) by simp
  then show "sweep_inv k limit interval (update_section touch e s)"
    using assms touch_ok by (simp add: sweep_inv_def update_section_def) linarith
  show "sweep_inv k limit interval (s\<lparr>sw_updating := sw_updating s - 1\<rparr>)"
    using assms by (simp add: sweep_inv_def) linarith
qed

lemma miss_inv:
  assumes "sweep_inv k limit interval s" and "0 < sw_sweeping s"
  shows "sweep_inv k limit interval (drop_sweeping s)"
  using assms by (auto simp: sweep_inv_def drop_sweeping_def of_nat_diff)

lemma step_inv:
  assumes "sweep_step k clean touch limit interval s s'" and "sweep_inv k limit interval s"
    and "0 < interval" and "0 < limit" and "sw_ops s < i64_max"
  shows "sweep_inv k limit interval s' \<and> sw_ops s' \<le> sw_ops s + 1"
  using assms
proof (induction rule: sweep_step.induct)
  case (count s)
  then show ?case
    using count_inv[of k limit interval s] wrap_inc_i64_small[of "sw_ops s"]
    by (simp add: count_section_def Let_def sweep_inv_def)
next
  case (sweep s)
  then show ?case using sweep_section_inv[of k limit interval s] by (simp add: sweep_section_def)
next
  case (update s e)
  then show ?case using update_inv(1)[of k limit interval s e] by (simp add: update_section_def)
next
  case (abandon s)
  then show ?case using update_inv(2)[of k limit interval s] by simp
next
  case (miss s)
  then show ?case using miss_inv[of k limit interval s] by (simp add: drop_sweeping_def)
qed

lemma steps_inv:
  assumes "(sweep_step k clean touch limit interval ^^ n) s s'" and "sweep_inv k limit interval s"
    and "0 < interval" and "0 < limit" and "sw_ops s + int n \<le> i64_max"
  shows "sweep_inv k limit interval s' \<and> sw_ops s' \<le> sw_ops s + int n"
  using assms
proof (induction n arbitrary: s')
  case (Suc n)
  from Suc.prems(1) obtain y where y: "(sweep_step k clean touch limit interval ^^ n) s y" "sweep_step k clean touch limit interval y s'"
    by auto
  with Suc have "sweep_inv k limit interval y" "sw_ops y \<le> sw_ops s + int n" by auto
  with step_inv[OF y(2)] Suc.prems show ?case by auto
qed simp

lemma sweep_bound:
  assumes "(sweep_step k clean touch limit interval ^^ n) \<lparr>sw_map = m, sw_ops = 0, sw_sweeping = 0, sw_updating = 0, sw_missed = 0\<rparr> s"
    and "hm_ok m" and "length m \<le> limit" and "0 < interval" and "0 < limit" and "int n \<le> i64_max"
  shows "int (length (sw_map s)) \<le> int limit + int k + interval * (int k + int (sw_missed s) + 1)"
proof -
  let ?s = "\<lparr>sw_map = m, sw_ops = 0, sw_sweeping = 0, sw_updating = 0, sw_missed = 0\<rparr>"
  have "0 \<le> (0 - 1) mod interval" using assms(4) by (rule pos_mod_sign)
  then have "sweep_inv k limit interval ?s" using assms(2,3) by (simp add: sweep_inv_def)
  then have inv: "sweep_inv k limit interval s" using steps_inv[OF assms(1)] assms by simp
  moreover have "(sw_ops s - 1) mod interval < interval" using assms(4) by simp
  moreover have "interval * int (sw_sweeping s) \<le> interval * int k"
    using inv assms(4) by (simp add: sweep_inv_def)
  ultimately show ?thesis by (simp add: sweep_inv_def algebra_simps)
qed

end

interpretation metrics_sections: concurrent_store metrics_cleanup metrics_touch
proof
  fix m :: "auth_metrics hmap" and n e
  show "hm_ok m \<Longrightarrow> hm_ok (metrics_cleanup n m)" by (simp add: metrics_cleanup_def mstore.evict_ok)
  show "hm_ok m \<Longrightarrow> 0 < n \<Longrightarrow> length (metrics_cleanup n m) \<le> n" by (simp add: metrics_cleanup_eq mstore.evict_exact)
  show "hm_ok m \<Longrightarrow> hm_ok (metrics_touch e m)" by (cases e) (simp add: metrics_touch_def)
  show "length (metrics_touch e m) \<le> Suc (length m)" by (cases e) (simp add: metrics_touch_def length_hm_insert_le)
qed

interpretation health_sections: concurrent_store health_cleanup "health_touch config" for config
proof
  fix m :: "auth_health hmap" and n e
  show "hm_ok m \<Longrightarrow> hm_ok (health_cleanup n m)" by (simp add: health_cleanup_def hstore.evict_ok)
  show "hm_ok m \<Longrightarrow> 0 < n \<Longrightarrow> length (health_cleanup n m) \<le> n" by (simp add: length_health_cleanup)
  show "hm_ok m \<Longrightarrow> hm_ok (health_touch config e m)" by (cases e) (simp add: health_touch_def)
  show "length (health_touch config e m) \<le> Suc (length m)" by (cases e) (simp add: health_touch_def length_hm_insert_le)
qed

section \<open>Memory is bounded under concurrency\<close>

text \<open>C27. The number of records is bounded however many tasks record results, however their sections interleave and
  wherever calls are dropped, by the sweeps that were missed: with at most \<open>k\<close> calls under way at a time, a metrics
  collector and a health manager never hold more than their limit, \<open>k\<close> records, and one cleanup interval for each
  call under way, for each call that was dropped in front of its sweep since the last sweep, and for the sweep that is
  next. As long as no call is dropped there, that is a constant.\<close>

theorem records_bounded_concurrently:
  assumes "0 < max_entries" and "int n \<le> i64_max"
    and "(sweep_step k metrics_cleanup metrics_touch max_entries 100 ^^ n) (of_metrics (metrics_with_limit max_entries)) sm"
    and "(sweep_step k health_cleanup (health_touch config) max_entries 100 ^^ n) (of_health (health_with_limit config max_entries)) sh"
  shows "length (sw_map sm) \<le> max_entries + k + 100 * (k + sw_missed sm + 1)
    \<and> length (sw_map sh) \<le> max_entries + k + 100 * (k + sw_missed sh + 1)"
proof -
  have "int (length (sw_map sm)) \<le> int max_entries + int k + 100 * (int k + int (sw_missed sm) + 1)"
    using metrics_sections.sweep_bound[where k = k and limit = max_entries and interval = 100 and n = n and m = "[]" and s = sm] assms by (simp add: of_metrics_def metrics_with_limit_def)
  moreover have "int (length (sw_map sh)) \<le> int max_entries + int k + 100 * (int k + int (sw_missed sh) + 1)"
    using health_sections.sweep_bound[where k = k and config = config and limit = max_entries and interval = 100 and n = n and m = "[]" and s = sh] assms by (simp add: of_health_def health_with_limit_def)
  ultimately show ?thesis by (intro conjI; simp)
qed

lemma whole_call_steps:
  assumes "sw_ops s mod interval = 0" and "sw_sweeping s = 0" and "sw_updating s = 0" and "0 < k"
  shows "(sweep_step k clean touch limit interval ^^ 3) s (whole_call clean touch limit interval e s)"
proof -
  let ?s1 = "count_section interval s"
  let ?s2 = "sweep_section clean limit ?s1"
  have "sweep_step k clean touch limit interval s ?s1" by (rule count) (simp add: assms)
  moreover have "sweep_step k clean touch limit interval ?s1 ?s2" by (rule sweep) (simp add: count_section_def assms(1) Let_def)
  moreover have "sweep_step k clean touch limit interval ?s2 (update_section touch e ?s2)"
    by (rule update) (simp add: sweep_section_def)
  ultimately have "(sweep_step k clean touch limit interval ^^ Suc (Suc (Suc 0))) s (update_section touch e ?s2)" by auto
  then show ?thesis using assms(1) by (simp add: whole_call_def Let_def numeral_3_eq_3)
qed

theorem records_bounded_concurrently_witness:
  "length (sw_map (of_metrics (metrics_record_result 0 0 0 ''a'' True f64_1 200 (metrics_with_limit 5)))) \<le> 5 + 1 + 100 * (1 + 0 + 1)
   \<and> length (sw_map (of_health (update_from_result 0 ''a'' True 200 (health_with_limit default_health_config 5)))) \<le> 5 + 1 + 100 * (1 + 0 + 1)"
proof -
  let ?sm = "of_metrics (metrics_record_result 0 0 0 ''a'' True f64_1 200 (metrics_with_limit 5))"
  let ?sh = "of_health (update_from_result 0 ''a'' True 200 (health_with_limit default_health_config 5))"
  have "length (sw_map ?sm) \<le> 5 + 1 + 100 * (1 + sw_missed ?sm + 1) \<and> length (sw_map ?sh) \<le> 5 + 1 + 100 * (1 + sw_missed ?sh + 1)"
  proof (rule records_bounded_concurrently[where n = 3 and config = default_health_config])
    show "(sweep_step 1 metrics_cleanup metrics_touch 5 100 ^^ 3) (of_metrics (metrics_with_limit 5))
        (of_metrics (metrics_record_result 0 0 0 ''a'' True f64_1 200 (metrics_with_limit 5)))"
      using whole_call_steps[where s = "of_metrics (metrics_with_limit 5)" and interval = 100 and k = 1]
      by (simp add: metrics_alone) (simp add: of_metrics_def metrics_with_limit_def)
    show "(sweep_step 1 health_cleanup (health_touch default_health_config) 5 100 ^^ 3) (of_health (health_with_limit default_health_config 5))
        (of_health (update_from_result 0 ''a'' True 200 (health_with_limit default_health_config 5)))"
      using whole_call_steps[where s = "of_health (health_with_limit default_health_config 5)" and interval = 100 and k = 1]
      by (simp add: health_alone) (simp add: of_health_def health_with_limit_def)
  qed (simp_all add: i64_max_def)
  then show ?thesis by (simp add: of_metrics_def of_health_def)
qed

section \<open>Missed sweeps\<close>

text \<open>The number of missed sweeps matters: a client that drops every hundredth call in front of its sweep, as a timeout
  while the lock is taken does, makes the collector grow by a record per interval without bound, one call at a time.\<close>

lemma idle_calls:
  assumes "sw_sweeping s = 0" and "sw_updating s = 0" and "0 < sw_ops s mod 100" and "sw_ops s mod 100 + int n \<le> 100"
    and "0 \<le> sw_ops s" and "sw_ops s + int n \<le> i64_max"
  shows "(sweep_step 1 clean touch limit 100)\<^sup>*\<^sup>* s (s\<lparr>sw_ops := sw_ops s + int n\<rparr>)"
  using assms(4,6)
proof (induction n)
  case (Suc n)
  let ?s = "s\<lparr>sw_ops := sw_ops s + int n\<rparr>"
  have "(sw_ops s + int n) mod 100 = sw_ops s mod 100 + int n"
    using assms(3) Suc.prems(1) by (subst mod_add_left_eq [symmetric]) (simp add: mod_pos_pos_trivial)
  then have c: "count_section 100 ?s = s\<lparr>sw_ops := sw_ops s + int (Suc n), sw_updating := 1\<rparr>"
    using assms Suc.prems by (simp add: count_section_def Let_def wrap_inc_i64_small)
  have "sweep_step 1 clean touch limit 100 ?s (count_section 100 ?s)" by (rule count) (simp add: assms)
  moreover have "sweep_step 1 clean touch limit 100 (count_section 100 ?s) (s\<lparr>sw_ops := sw_ops s + int (Suc n)\<rparr>)"
    using abandon[of "count_section 100 ?s" 1 clean touch limit 100] assms(2) unfolding c by (cases s) simp
  ultimately show ?case using Suc by (auto intro: rtranclp_trans)
qed simp

lemma fill_round:
  assumes "sw_sweeping s = 0" and "sw_updating s = 0" and "sw_ops s = 100 * j" and "0 \<le> j" and "100 * (j + 1) \<le> i64_max"
  shows "\<exists>s'. (sweep_step 1 metrics_cleanup metrics_touch limit 100)\<^sup>*\<^sup>* s s' \<and> sw_sweeping s' = 0 \<and> sw_updating s' = 0
    \<and> sw_ops s' = 100 * (j + 1) \<and> length (sw_map s') = Suc (length (sw_map s))"
proof -
  obtain i where i: "i \<notin> insert [] (fst ` set (sw_map s))"
    using ex_new_if_finite[OF infinite_UNIV_listI, of "insert [] (fst ` set (sw_map s))"] by auto
  let ?step = "sweep_step 1 metrics_cleanup metrics_touch limit 100"
  let ?e = "(0, 0, 0, i, True, f64_1, 200) :: metrics_call"
  let ?at = "\<lambda>m ops missed. \<lparr>sw_map = m, sw_ops = ops, sw_sweeping = 0, sw_updating = 0, sw_missed = missed\<rparr>"
  obtain m d where s: "s = ?at m (100 * j) d" using assms(1-3) by (cases s) simp
  have wrap: "wrap_inc_i64 (100 * j) = 100 * j + 1" "wrap_inc_i64 (100 * j + 1) = 100 * j + 2"
  proof -
    have "100 * j + 100 \<le> i64_max" using assms(5) by (simp only: distrib_left mult_1_right)
    then have small: "0 \<le> 100 * j" "100 * j < i64_max" "0 \<le> 100 * j + 1" "100 * j + 1 < i64_max" using assms(4) by linarith+
    show "wrap_inc_i64 (100 * j) = 100 * j + 1" by (rule wrap_inc_i64_small[OF small(2)])
    show "wrap_inc_i64 (100 * j + 1) = 100 * j + 2" by (simp only: wrap_inc_i64_small[OF small(4)])
  qed
  have mod: "(100 * j + 1) mod 100 = 1" "(100 * j + 2) mod 100 = 2" by simp_all
  have c1: "count_section 100 s = (?at m (100 * j + 1) d)\<lparr>sw_sweeping := 1\<rparr>"
    by (simp add: s count_section_def Let_def wrap)
  have c2: "count_section 100 (?at m (100 * j + 1) (Suc d)) = (?at m (100 * j + 2) (Suc d))\<lparr>sw_updating := 1\<rparr>"
    by (simp add: count_section_def Let_def wrap mod)
  have "?step s ((?at m (100 * j + 1) d)\<lparr>sw_sweeping := 1\<rparr>)" unfolding c1[symmetric] by (rule count) (simp add: s)
  moreover have "?step ((?at m (100 * j + 1) d)\<lparr>sw_sweeping := 1\<rparr>) (?at m (100 * j + 1) (Suc d))"
    using miss[of "(?at m (100 * j + 1) d)\<lparr>sw_sweeping := 1\<rparr>"] by (simp add: drop_sweeping_def)
  moreover have "?step (?at m (100 * j + 1) (Suc d)) ((?at m (100 * j + 2) (Suc d))\<lparr>sw_updating := 1\<rparr>)"
    unfolding c2[symmetric] by (rule count) simp
  moreover have "?step ((?at m (100 * j + 2) (Suc d))\<lparr>sw_updating := 1\<rparr>) (?at (metrics_touch ?e m) (100 * j + 2) (Suc d))"
    using update[of "(?at m (100 * j + 2) (Suc d))\<lparr>sw_updating := 1\<rparr>" 1 metrics_cleanup metrics_touch limit 100 ?e]
    by (simp add: update_section_def)
  moreover have "?step\<^sup>*\<^sup>* (?at (metrics_touch ?e m) (100 * j + 2) (Suc d)) (?at (metrics_touch ?e m) (100 * (j + 1)) (Suc d))"
    using idle_calls[of "?at (metrics_touch ?e m) (100 * j + 2) (Suc d)" 98 metrics_cleanup metrics_touch limit] assms(4,5)
    by (simp add: mod algebra_simps)
  ultimately have "?step\<^sup>*\<^sup>* s (?at (metrics_touch ?e m) (100 * (j + 1)) (Suc d))"
    by (meson converse_rtranclp_into_rtranclp)
  moreover have "length (metrics_touch ?e m) = Suc (length m)"
    using i by (simp add: s metrics_touch_def length_hm_insert)
  ultimately show ?thesis
    by (intro exI[of _ "?at (metrics_touch ?e m) (100 * (j + 1)) (Suc d)"]) (simp add: s)
qed

theorem missed_sweeps_grow:
  assumes "100 * int n \<le> i64_max"
  shows "\<exists>s. (sweep_step 1 metrics_cleanup metrics_touch limit 100)\<^sup>*\<^sup>* (of_metrics (metrics_with_limit limit)) s
    \<and> length (sw_map s) = n"
proof -
  have "\<exists>s. (sweep_step 1 metrics_cleanup metrics_touch limit 100)\<^sup>*\<^sup>* (of_metrics (metrics_with_limit limit)) s
    \<and> sw_sweeping s = 0 \<and> sw_updating s = 0 \<and> sw_ops s = 100 * int n \<and> length (sw_map s) = n"
    using assms
  proof (induction n)
    case 0
    show ?case by (rule exI[of _ "of_metrics (metrics_with_limit limit)"]) (simp add: of_metrics_def metrics_with_limit_def)
  next
    case (Suc n)
    then obtain s where s: "(sweep_step 1 metrics_cleanup metrics_touch limit 100)\<^sup>*\<^sup>* (of_metrics (metrics_with_limit limit)) s"
      "sw_sweeping s = 0" "sw_updating s = 0" "sw_ops s = 100 * int n" "length (sw_map s) = n" by auto
    have "100 * (int n + 1) \<le> i64_max" using Suc.prems by simp
    from fill_round[OF s(2,3,4) _ this, of limit] s show ?case by (auto simp: add.commute intro: rtranclp_trans)
  qed
  then show ?thesis by blast
qed

theorem missed_sweeps_grow_witness:
  "\<exists>s. (sweep_step 1 metrics_cleanup metrics_touch 5 100)\<^sup>*\<^sup>* (of_metrics (metrics_with_limit 5)) s \<and> length (sw_map s) = 1000000"
  by (rule missed_sweeps_grow) (simp add: i64_max_def)

end
