(* ===== verification/Executor.thy ===== *)
theory Executor
  imports Router
begin

text \<open>
  The route executor (src/routing/executor.rs): the primary route and then the fallbacks are tried
  until one succeeds, fails for good or the retry budget is spent. The caller's \<open>execute_fn\<close> is a
  parameter that may keep a state of its own (\<open>'w\<close>); the clock readings of the two records of an
  attempt are a function of the number of attempts before it.
\<close>

section \<open>Types\<close>

record execution_result =
  er_success :: bool
  er_credential_id :: "string option"
  er_model_id :: "string option"
  er_attempts :: nat
  er_total_latency_ms :: f64
  er_status_code :: "i32 option"
  er_error :: "string option"
  er_prompt_tokens :: "nat option"
  er_completion_tokens :: "nat option"

record executor_config =
  xc_max_retries :: nat
  xc_timeout_ms :: nat
  xc_enable_provider_diversity :: bool
  xc_retryable_status_codes :: "i32 list"

definition default_executor_config :: executor_config where
  "default_executor_config = \<lparr>xc_max_retries = 3, xc_timeout_ms = 30000, xc_enable_provider_diversity = True,
     xc_retryable_status_codes = 429 # map int [500..<600]\<rparr>"

record route_executor =
  re_config :: executor_config
  re_metrics :: metrics_collector
  re_health :: health_manager

definition executor_new :: "executor_config \<Rightarrow> metrics_collector \<Rightarrow> health_manager \<Rightarrow> route_executor" where
  "executor_new config metrics health = \<lparr>re_config = config, re_metrics = metrics, re_health = health\<rparr>"

datatype attempt_result = Success i32 f64 | RetryableError i32 f64 string

type_synonym response = "string + i32 \<times> f64"
type_synonym 'w execute_fn = "'w \<Rightarrow> route_plan_item \<Rightarrow> response \<times> 'w"
type_synonym attempt_times = "nat \<Rightarrow> (time \<times> time \<times> time) \<times> time"

section \<open>One attempt\<close>

definition classify_response :: "response \<Rightarrow> attempt_result" where
  "classify_response r = (case r of
       Inr (status_code, latency) \<Rightarrow>
         (if 200 \<le> status_code \<and> status_code < 300 then Success status_code latency
          else if 300 \<le> status_code \<and> status_code < 400
          then RetryableError status_code latency (''Unexpected redirect HTTP '' @ show_int status_code)
          else RetryableError status_code latency (''HTTP '' @ show_int status_code))
     | Inl error \<Rightarrow> RetryableError 0 f64_0 (''Network error: '' @ error))"

definition attempt_route :: "'w execute_fn \<Rightarrow> 'w \<Rightarrow> route_plan_item \<Rightarrow> attempt_result \<times> 'w" where
  "attempt_route execute_fn w route = (case execute_fn w route of (r, w') \<Rightarrow> (classify_response r, w'))"

definition is_retryable :: "executor_config \<Rightarrow> i32 \<Rightarrow> bool" where
  "is_retryable cfg status_code =
     (if 200 \<le> status_code \<and> status_code < 300 then False
      else if 401 \<le> status_code \<and> status_code < 404 then False
      else status_code \<in> set (xc_retryable_status_codes cfg))"

definition wrap_inc_u32 :: "nat \<Rightarrow> nat" where "wrap_inc_u32 n = (n + 1) mod 2 ^ 32"

text \<open>The local variables of \<open>execute\<close> with the shared stores and the state of the callback.\<close>

record 'w exec_state =
  xs_attempts :: nat
  xs_total_latency :: f64
  xs_used_providers :: "string list"
  xs_used_credentials :: "string list"
  xs_metrics :: metrics_collector
  xs_health :: health_manager
  xs_world :: 'w

definition record_attempt_result :: "attempt_times \<Rightarrow> string \<Rightarrow> bool \<Rightarrow> f64 \<Rightarrow> i32 \<Rightarrow> 'w exec_state \<Rightarrow> 'w exec_state" where
  "record_attempt_result stamps credential_id ok latency status_code st =
     (case stamps (xs_attempts st) of ((t_new, t_req, t_out), t_health) \<Rightarrow>
       st\<lparr>xs_metrics := metrics_record_result t_new t_req t_out credential_id ok latency status_code (xs_metrics st),
          xs_health := update_from_result t_health credential_id ok status_code (xs_health st)\<rparr>)"

definition mark_used :: "route_plan_item \<Rightarrow> 'w exec_state \<Rightarrow> 'w exec_state" where
  "mark_used route st = st\<lparr>xs_used_providers := List.insert (pi_provider route) (xs_used_providers st),
     xs_used_credentials := List.insert (pi_credential_id route) (xs_used_credentials st)\<rparr>"

definition count_failure :: "f64 \<Rightarrow> 'w exec_state \<Rightarrow> 'w exec_state" where
  "count_failure latency st = st\<lparr>xs_attempts := wrap_inc_u32 (xs_attempts st),
     xs_total_latency := fadd (xs_total_latency st) latency\<rparr>"

definition success_result :: "route_plan_item \<Rightarrow> i32 \<Rightarrow> f64 \<Rightarrow> 'w exec_state \<Rightarrow> execution_result" where
  "success_result route status_code total_latency st = \<lparr>er_success = True, er_credential_id = Some (pi_credential_id route),
     er_model_id = Some (pi_model_id route), er_attempts = wrap_inc_u32 (xs_attempts st), er_total_latency_ms = total_latency,
     er_status_code = Some status_code, er_error = None, er_prompt_tokens = None, er_completion_tokens = None\<rparr>"

definition failure_result :: "route_plan_item \<Rightarrow> i32 \<Rightarrow> string \<Rightarrow> 'w exec_state \<Rightarrow> execution_result" where
  "failure_result route status_code error st = \<lparr>er_success = False, er_credential_id = Some (pi_credential_id route),
     er_model_id = Some (pi_model_id route), er_attempts = xs_attempts st, er_total_latency_ms = xs_total_latency st,
     er_status_code = Some status_code, er_error = Some error, er_prompt_tokens = None, er_completion_tokens = None\<rparr>"

definition exhausted_result :: "bool \<Rightarrow> 'w exec_state \<Rightarrow> execution_result" where
  "exhausted_result no_routes st = \<lparr>er_success = False, er_credential_id = None, er_model_id = None,
     er_attempts = xs_attempts st, er_total_latency_ms = xs_total_latency st, er_status_code = None,
     er_error = Some (if no_routes then ''No routes available'' else ''Retry budget exhausted''),
     er_prompt_tokens = None, er_completion_tokens = None\<rparr>"

section \<open>The loop over the fallbacks\<close>

definition fallback_item :: "string \<Rightarrow> fallback_route \<Rightarrow> route_plan_item" where
  "fallback_item model_id fb = \<lparr>pi_credential_id = fr_auth_id fb, pi_model_id = model_id,
     pi_provider = (case fr_provider fb of Some p \<Rightarrow> p | None \<Rightarrow> []), pi_utility = fr_weight fb, pi_weight = fr_weight fb\<rparr>"

text \<open>The loop guards: a credential is not used twice, nor a provider when diversity is on.\<close>

definition guarded :: "executor_config \<Rightarrow> fallback_route \<Rightarrow> 'w exec_state \<Rightarrow> bool" where
  "guarded cfg fb st \<longleftrightarrow> fr_auth_id fb \<in> set (xs_used_credentials st)
     \<or> xc_enable_provider_diversity cfg
       \<and> (case fr_provider fb of Some p \<Rightarrow> p \<in> set (xs_used_providers st) | None \<Rightarrow> False)"

fun try_fallbacks :: "executor_config \<Rightarrow> attempt_times \<Rightarrow> 'w execute_fn \<Rightarrow> string \<Rightarrow> bool \<Rightarrow> fallback_route list
    \<Rightarrow> 'w exec_state \<Rightarrow> execution_result \<times> 'w exec_state" where
  "try_fallbacks cfg stamps execute_fn model_id no_routes [] st = (exhausted_result no_routes st, st)"
| "try_fallbacks cfg stamps execute_fn model_id no_routes (fb # fbs) st =
     (if xc_max_retries cfg < xs_attempts st then (exhausted_result no_routes st, st)
      else if guarded cfg fb st then try_fallbacks cfg stamps execute_fn model_id no_routes fbs st
      else
        let route = fallback_item model_id fb; st = mark_used route st
        in (case attempt_route execute_fn (xs_world st) route of
              (Success status_code latency, w) \<Rightarrow>
                (let st = record_attempt_result stamps (pi_credential_id route) True latency status_code (st\<lparr>xs_world := w\<rparr>)
                 in (success_result route status_code (fadd (xs_total_latency st) latency) st, st))
            | (RetryableError status_code latency error, w) \<Rightarrow>
                (let st = count_failure latency
                       (record_attempt_result stamps (pi_credential_id route) False latency status_code (st\<lparr>xs_world := w\<rparr>))
                 in if \<not> is_retryable cfg status_code then (failure_result route status_code error st, st)
                    else try_fallbacks cfg stamps execute_fn model_id no_routes fbs st)))"

definition initial_state :: "route_executor \<Rightarrow> 'w \<Rightarrow> 'w exec_state" where
  "initial_state ex w = \<lparr>xs_attempts = 0, xs_total_latency = f64_0, xs_used_providers = [], xs_used_credentials = [],
     xs_metrics = re_metrics ex, xs_health = re_health ex, xs_world = w\<rparr>"

definition execute :: "route_executor \<Rightarrow> attempt_times \<Rightarrow> route_plan_item option \<Rightarrow> fallback_route list \<Rightarrow> 'w execute_fn \<Rightarrow> 'w
    \<Rightarrow> execution_result \<times> 'w exec_state" where
  "execute ex stamps primary fallbacks execute_fn w =
     (let cfg = re_config ex; st = initial_state ex w
      in case primary of
           None \<Rightarrow> try_fallbacks cfg stamps execute_fn [] (fallbacks = []) fallbacks st
         | Some route \<Rightarrow>
             (let st = mark_used route st
              in case attempt_route execute_fn (xs_world st) route of
                   (Success status_code latency, w) \<Rightarrow>
                     (let st = record_attempt_result stamps (pi_credential_id route) True latency status_code (st\<lparr>xs_world := w\<rparr>)
                      in (success_result route status_code latency st, st))
                 | (RetryableError status_code latency error, w) \<Rightarrow>
                     (let st = count_failure latency
                            (record_attempt_result stamps (pi_credential_id route) False latency status_code (st\<lparr>xs_world := w\<rparr>))
                      in if is_retryable cfg status_code
                         then try_fallbacks cfg stamps execute_fn (pi_model_id route) False fallbacks st
                         else (failure_result route status_code error st, st))))"

section \<open>The log of an execution\<close>

text \<open>Any callback can be observed: the wrapped one keeps the list of its calls with their responses.\<close>

type_synonym call_log = "(route_plan_item \<times> response) list"

definition logged :: "'w execute_fn \<Rightarrow> ('w \<times> call_log) execute_fn" where
  "logged f wl route = (case f (fst wl) route of (r, w') \<Rightarrow> (r, (w', snd wl @ [(route, r)])))"

definition succeeded :: "response \<Rightarrow> bool" where
  "succeeded r = (case classify_response r of Success _ _ \<Rightarrow> True | RetryableError _ _ _ \<Rightarrow> False)"

definition code_of :: "response \<Rightarrow> i32" where
  "code_of r = (case classify_response r of Success c _ \<Rightarrow> c | RetryableError c _ _ \<Rightarrow> c)"

definition latency_of :: "response \<Rightarrow> f64" where
  "latency_of r = (case classify_response r of Success _ l \<Rightarrow> l | RetryableError _ l _ \<Rightarrow> l)"

definition may_continue :: "executor_config \<Rightarrow> route_plan_item \<times> response \<Rightarrow> bool" where
  "may_continue cfg = (\<lambda>(_, r). \<not> succeeded r \<and> is_retryable cfg (code_of r))"

text \<open>What metrics and health learn from a log.\<close>

definition learn :: "attempt_times \<Rightarrow> call_log \<Rightarrow> metrics_collector \<times> health_manager \<Rightarrow> metrics_collector \<times> health_manager" where
  "learn stamps calls = fold (\<lambda>(n, route, r) (m, h). case stamps n of ((t_new, t_req, t_out), t_health) \<Rightarrow>
     (metrics_record_result t_new t_req t_out (pi_credential_id route) (succeeded r) (latency_of r) (code_of r) m,
      update_from_result t_health (pi_credential_id route) (succeeded r) (code_of r) h)) (List.enumerate 0 calls)"

lemma learn_snoc: "learn stamps (calls @ [(route, r)]) mh = (case learn stamps calls mh of (m, h) \<Rightarrow>
    case stamps (length calls) of ((t_new, t_req, t_out), t_health) \<Rightarrow>
     (metrics_record_result t_new t_req t_out (pi_credential_id route) (succeeded r) (latency_of r) (code_of r) m,
      update_from_result t_health (pi_credential_id route) (succeeded r) (code_of r) h))"
  by (simp add: learn_def enumerate_append_eq split: prod.splits)

text \<open>How a result describes its log.\<close>

definition verdict :: "executor_config \<Rightarrow> call_log \<Rightarrow> execution_result \<Rightarrow> bool" where
  "verdict cfg calls res \<longleftrightarrow> er_attempts res = length calls \<and>
     (case er_credential_id res of
        None \<Rightarrow> \<not> er_success res \<and> list_all (may_continue cfg) calls
      | Some c \<Rightarrow> calls \<noteq> [] \<and> list_all (may_continue cfg) (butlast calls) \<and> \<not> may_continue cfg (last calls)
          \<and> c = pi_credential_id (fst (last calls)) \<and> er_success res = succeeded (snd (last calls))
          \<and> er_status_code res = Some (code_of (snd (last calls))))"

definition creds :: "call_log \<Rightarrow> string list" where "creds calls = map (pi_credential_id \<circ> fst) calls"

text \<open>The providers that were tried; a fallback without one counts as the empty string.\<close>

definition diverse :: "executor_config \<Rightarrow> call_log \<Rightarrow> bool" where
  "diverse cfg calls \<longleftrightarrow> (if xc_enable_provider_diversity cfg
     then distinct (filter (\<lambda>p. p \<noteq> []) (map (pi_provider \<circ> fst) calls)) else True)"

definition loop_inv :: "executor_config \<Rightarrow> attempt_times \<Rightarrow> metrics_collector \<times> health_manager \<Rightarrow> ('w \<times> call_log) exec_state \<Rightarrow> bool" where
  "loop_inv cfg stamps mh st \<longleftrightarrow> xs_attempts st = length (snd (xs_world st))
     \<and> set (xs_used_providers st) = (pi_provider \<circ> fst) ` set (snd (xs_world st)) \<and> diverse cfg (snd (xs_world st))
     \<and> set (xs_used_credentials st) = set (creds (snd (xs_world st))) \<and> distinct (creds (snd (xs_world st)))
     \<and> list_all (may_continue cfg) (snd (xs_world st)) \<and> (xs_metrics st, xs_health st) = learn stamps (snd (xs_world st)) mh"

definition run_ok :: "executor_config \<Rightarrow> attempt_times \<Rightarrow> metrics_collector \<times> health_manager \<Rightarrow> call_log
    \<Rightarrow> execution_result \<times> ('w \<times> call_log) exec_state \<Rightarrow> bool" where
  "run_ok cfg stamps mh calls out = (case out of (res, st) \<Rightarrow> verdict cfg (snd (xs_world st)) res
     \<and> distinct (creds (snd (xs_world st))) \<and> diverse cfg (snd (xs_world st)) \<and> prefix calls (snd (xs_world st))
     \<and> length (snd (xs_world st)) \<le> max (length calls) (xc_max_retries cfg + 1)
     \<and> (xs_metrics st, xs_health st) = learn stamps (snd (xs_world st)) mh)"

text \<open>One attempt on a fresh credential ends the run or keeps the invariant.\<close>

lemma attempt_logged:
  "attempt_route (logged f) (w, calls) route = (classify_response (fst (f w route)), (snd (f w route), calls @ [(route, fst (f w route))]))"
  by (simp add: attempt_route_def logged_def split: prod.split)

text \<open>The state after one more attempt, whatever its outcome.\<close>

definition attempted :: "attempt_times \<Rightarrow> route_plan_item \<Rightarrow> response \<Rightarrow> 'w \<Rightarrow> ('w \<times> call_log) exec_state \<Rightarrow> ('w \<times> call_log) exec_state" where
  "attempted stamps route r w st = record_attempt_result stamps (pi_credential_id route) (succeeded r) (latency_of r) (code_of r)
     ((mark_used route st)\<lparr>xs_world := (w, snd (xs_world st) @ [(route, r)])\<rparr>)"

lemma attempted_fields:
  assumes "xs_attempts st = length (snd (xs_world st))" and "(xs_metrics st, xs_health st) = learn stamps (snd (xs_world st)) mh"
  shows "xs_world (attempted stamps route r w st) = (w, snd (xs_world st) @ [(route, r)])"
    and "xs_attempts (attempted stamps route r w st) = xs_attempts st"
    and "xs_total_latency (attempted stamps route r w st) = xs_total_latency st"
    and "set (xs_used_credentials (attempted stamps route r w st)) = insert (pi_credential_id route) (set (xs_used_credentials st))"
    and "set (xs_used_providers (attempted stamps route r w st)) = insert (pi_provider route) (set (xs_used_providers st))"
    and "(xs_metrics (attempted stamps route r w st), xs_health (attempted stamps route r w st))
      = learn stamps (snd (xs_world st) @ [(route, r)]) mh"
  using assms
  by (simp_all add: attempted_def record_attempt_result_def mark_used_def learn_snoc assms(2)[symmetric] split: prod.split)

definition fresh_route :: "executor_config \<Rightarrow> route_plan_item \<Rightarrow> 'w exec_state \<Rightarrow> bool" where
  "fresh_route cfg route st \<longleftrightarrow> pi_credential_id route \<notin> set (xs_used_credentials st)
     \<and> (if xc_enable_provider_diversity cfg \<and> pi_provider route \<noteq> [] then pi_provider route \<notin> set (xs_used_providers st) else True)"

lemma diverse_snoc:
  assumes "diverse cfg (snd (xs_world st))" and "fresh_route cfg route st"
    and "set (xs_used_providers st) = (pi_provider \<circ> fst) ` set (snd (xs_world st))"
  shows "diverse cfg (snd (xs_world st) @ [(route, r)])"
  using assms by (force simp: diverse_def fresh_route_def)

lemma attempt_ends:
  assumes inv: "loop_inv cfg stamps mh st" and new: "fresh_route cfg route st"
    and small: "xc_max_retries cfg < 2 ^ 32 - 1" and room: "xs_attempts st \<le> xc_max_retries cfg"
    and last: "\<not> may_continue cfg (route, r)"
    and res: "er_attempts res = Suc (xs_attempts st)" "er_credential_id res = Some (pi_credential_id route)"
      "er_success res = succeeded r" "er_status_code res = Some (code_of r)"
    and st': "xs_world st' = xs_world (attempted stamps route r w st)" "xs_metrics st' = xs_metrics (attempted stamps route r w st)"
      "xs_health st' = xs_health (attempted stamps route r w st)"
  shows "run_ok cfg stamps mh (snd (xs_world st)) (res, st')"
proof -
  have inv': "xs_attempts st = length (snd (xs_world st))" "(xs_metrics st, xs_health st) = learn stamps (snd (xs_world st)) mh"
    using inv by (simp_all add: loop_inv_def)
  have "diverse cfg (snd (xs_world st) @ [(route, r)])"
    using inv new by (intro diverse_snoc) (simp_all add: loop_inv_def)
  then show ?thesis
    using inv new room last res st' attempted_fields[OF inv', of route r w]
    by (auto simp: run_ok_def loop_inv_def verdict_def creds_def fresh_route_def)
qed

lemma attempt_continues:
  assumes inv: "loop_inv cfg stamps mh st" and new: "fresh_route cfg route st"
    and small: "xc_max_retries cfg < 2 ^ 32 - 1" and room: "xs_attempts st \<le> xc_max_retries cfg"
    and cont: "may_continue cfg (route, r)"
  shows "loop_inv cfg stamps mh (count_failure l (attempted stamps route r w st))"
proof -
  have inv': "xs_attempts st = length (snd (xs_world st))" "(xs_metrics st, xs_health st) = learn stamps (snd (xs_world st)) mh"
    using inv by (simp_all add: loop_inv_def)
  have "diverse cfg (snd (xs_world st) @ [(route, r)])"
    using inv new by (intro diverse_snoc) (simp_all add: loop_inv_def)
  then show ?thesis
    using inv new small room cont attempted_fields[OF inv', of route r w]
    by (auto simp: loop_inv_def count_failure_def creds_def wrap_inc_u32_def fresh_route_def)
qed

lemma try_fallbacks_run:
  assumes "loop_inv cfg stamps mh st" and "xc_max_retries cfg < 2 ^ 32 - 1" and "length (snd (xs_world st)) \<le> xc_max_retries cfg + 1"
  shows "run_ok cfg stamps mh (snd (xs_world st)) (try_fallbacks cfg stamps (logged f) model_id no_routes fbs st)"
  using assms
proof (induction fbs arbitrary: st)
  case Nil
  then show ?case by (simp add: run_ok_def loop_inv_def verdict_def exhausted_result_def)
next
  case (Cons fb fbs)
  show ?case
  proof (cases "xc_max_retries cfg < xs_attempts st \<or> guarded cfg fb st")
    case True
    with Cons show ?thesis by (auto simp: run_ok_def loop_inv_def verdict_def exhausted_result_def)
  next
    case False
    obtain w calls where wl: "xs_world st = (w, calls)" by fastforce
    let ?route = "fallback_item model_id fb"
    let ?r = "fst (f w ?route)"
    let ?st = "attempted stamps ?route ?r (snd (f w ?route)) st"
    have new: "fresh_route cfg ?route st"
      using False by (auto simp: guarded_def fallback_item_def fresh_route_def split: option.splits)
    have room: "xs_attempts st \<le> xc_max_retries cfg" using False by simp
    have world: "xs_world (mark_used ?route st) = (w, calls)" by (simp add: mark_used_def wl)
    have step: "try_fallbacks cfg stamps (logged f) model_id no_routes (fb # fbs) st =
        (if succeeded ?r then (success_result ?route (code_of ?r) (fadd (xs_total_latency ?st) (latency_of ?r)) ?st, ?st)
         else if \<not> is_retryable cfg (code_of ?r)
         then (failure_result ?route (code_of ?r) (case classify_response ?r of RetryableError _ _ e \<Rightarrow> e | _ \<Rightarrow> [])
                (count_failure (latency_of ?r) ?st), count_failure (latency_of ?r) ?st)
         else try_fallbacks cfg stamps (logged f) model_id no_routes fbs (count_failure (latency_of ?r) ?st))"
      using False by (cases "classify_response ?r")
        (simp_all add: world attempt_logged attempted_def succeeded_def code_of_def latency_of_def wl Let_def)
    have inv': "xs_attempts st = length (snd (xs_world st))" "(xs_metrics st, xs_health st) = learn stamps (snd (xs_world st)) mh"
      using Cons.prems(1) by (simp_all add: loop_inv_def)
    note fields = attempted_fields[OF inv', of ?route ?r "snd (f w ?route)"]
    have count: "wrap_inc_u32 (xs_attempts ?st) = Suc (xs_attempts st)"
      using room Cons.prems(2) by (simp add: fields wrap_inc_u32_def)
    show ?thesis
    proof (cases "may_continue cfg (?route, ?r)")
      case True
      have inv: "loop_inv cfg stamps mh (count_failure (latency_of ?r) ?st)"
        by (rule attempt_continues[OF Cons.prems(1) new Cons.prems(2) room True])
      have calls: "snd (xs_world (count_failure (latency_of ?r) ?st)) = snd (xs_world st) @ [(?route, ?r)]"
        by (simp add: count_failure_def fields)
      have "run_ok cfg stamps mh (snd (xs_world st) @ [(?route, ?r)])
          (try_fallbacks cfg stamps (logged f) model_id no_routes fbs (count_failure (latency_of ?r) ?st))"
        using Cons.IH[OF inv Cons.prems(2)] room inv' by (simp add: calls)
      then show ?thesis using True room inv' unfolding step
        by (auto simp: may_continue_def run_ok_def dest: append_prefixD split: prod.splits)
    next
      case False
      show ?thesis
      proof (cases "succeeded ?r")
        case True
        show ?thesis unfolding step if_P[OF True]
          by (intro attempt_ends[OF Cons.prems(1) new Cons.prems(2) room False])
            (simp_all add: success_result_def count True)
      next
        case f: False
        with False have nr: "\<not> is_retryable cfg (code_of ?r)" by (simp add: may_continue_def)
        show ?thesis unfolding step if_not_P[OF f] if_P[OF nr]
          by (intro attempt_ends[OF Cons.prems(1) new Cons.prems(2) room False])
            (simp_all add: failure_result_def count count_failure_def f)
      qed
    qed
  qed
qed

lemma execute_run:
  assumes small: "xc_max_retries (re_config ex) < 2 ^ 32 - 1"
  shows "run_ok (re_config ex) stamps (re_metrics ex, re_health ex) [] (execute ex stamps primary fbs (logged f) (w, []))"
proof -
  let ?cfg = "re_config ex" and ?mh = "(re_metrics ex, re_health ex)"
  let ?init = "initial_state ex (w, [] :: call_log)"
  have inv0: "loop_inv ?cfg stamps ?mh ?init"
    by (simp add: loop_inv_def initial_state_def creds_def learn_def diverse_def)
  have f0: "snd (xs_world ?init) = []" "xs_attempts ?init = 0" by (simp_all add: initial_state_def)
  show ?thesis
  proof (cases primary)
    case None
    have "execute ex stamps primary fbs (logged f) (w, []) = try_fallbacks ?cfg stamps (logged f) [] (fbs = []) fbs ?init"
      by (simp add: execute_def None Let_def)
    with try_fallbacks_run[OF inv0 small, of f "[]" "fbs = []" fbs] show ?thesis by (simp add: f0)
  next
    case (Some route)
    let ?r = "fst (f w route)"
    let ?st = "attempted stamps route ?r (snd (f w route)) ?init"
    have new: "fresh_route ?cfg route ?init" by (simp add: fresh_route_def initial_state_def)
    have room: "xs_attempts ?init \<le> xc_max_retries ?cfg" by (simp add: f0)
    have world: "xs_world (mark_used route ?init) = (w, [])" by (simp add: mark_used_def initial_state_def)
    have step: "execute ex stamps primary fbs (logged f) (w, []) =
        (if succeeded ?r then (success_result route (code_of ?r) (latency_of ?r) ?st, ?st)
         else if is_retryable ?cfg (code_of ?r)
         then try_fallbacks ?cfg stamps (logged f) (pi_model_id route) False fbs (count_failure (latency_of ?r) ?st)
         else (failure_result route (code_of ?r) (case classify_response ?r of RetryableError _ _ e \<Rightarrow> e | _ \<Rightarrow> [])
                (count_failure (latency_of ?r) ?st), count_failure (latency_of ?r) ?st))"
      by (cases "classify_response ?r")
        (simp_all add: execute_def Some world attempt_logged attempted_def succeeded_def code_of_def latency_of_def f0 Let_def)
    have inv': "xs_attempts ?init = length (snd (xs_world ?init))" "(xs_metrics ?init, xs_health ?init) = learn stamps (snd (xs_world ?init)) ?mh"
      using inv0 by (simp_all add: loop_inv_def)
    note fields = attempted_fields[OF inv', of route ?r "snd (f w route)"]
    have count: "wrap_inc_u32 (xs_attempts ?st) = Suc (xs_attempts ?init)" by (simp add: fields f0 wrap_inc_u32_def)
    note ends = attempt_ends[OF inv0 new small room, of ?r, unfolded f0(1)]
    consider (ok) "succeeded ?r" | (retry) "\<not> succeeded ?r" "is_retryable ?cfg (code_of ?r)"
      | (fail) "\<not> succeeded ?r" "\<not> is_retryable ?cfg (code_of ?r)" by blast
    then show ?thesis
    proof cases
      case ok
      show ?thesis unfolding step if_P[OF ok]
        by (rule ends) (simp_all add: success_result_def count ok may_continue_def)
    next
      case retry
      then have c: "may_continue ?cfg (route, ?r)" by (simp add: may_continue_def)
      let ?next = "count_failure (latency_of ?r) ?st"
      have inv1: "loop_inv ?cfg stamps ?mh ?next" by (rule attempt_continues[OF inv0 new small room c])
      have calls: "snd (xs_world ?next) = [(route, ?r)]" by (simp add: count_failure_def fields f0)
      have "run_ok ?cfg stamps ?mh [(route, ?r)] (try_fallbacks ?cfg stamps (logged f) (pi_model_id route) False fbs ?next)"
        using try_fallbacks_run[OF inv1 small, of f "pi_model_id route" False fbs]
        by (simp add: calls)
      then show ?thesis unfolding step if_not_P[OF retry(1)] if_P[OF retry(2)] by (auto simp: run_ok_def split: prod.splits)
    next
      case fail
      show ?thesis unfolding step if_not_P[OF fail(1)] if_not_P[OF fail(2)]
        by (rule ends) (simp_all add: failure_result_def count count_failure_def fail may_continue_def)
    qed
  qed
qed

section \<open>Properties\<close>

text \<open>C15. Retries are bounded and never loop: for every callback, at most one attempt more than the retry budget
  is made, every one with a credential of its own and, with provider diversity, a provider of its own
  (fallbacks without a provider aside); the reported number of attempts is the number of calls.\<close>

theorem execute_attempts_bounded:
  assumes "xc_max_retries (re_config ex) < 2 ^ 32 - 1"
  shows "case execute ex stamps primary fallbacks (logged f) (w, []) of (res, st) \<Rightarrow>
    let calls = snd (xs_world st) in
      er_attempts res = length calls \<and> length calls \<le> xc_max_retries (re_config ex) + 1
      \<and> distinct (map (pi_credential_id \<circ> fst) calls)
      \<and> (if xc_enable_provider_diversity (re_config ex)
         then distinct (filter (\<lambda>p. p \<noteq> []) (map (pi_provider \<circ> fst) calls)) else True)"
  using execute_run[OF assms, of stamps primary fallbacks f w]
  by (auto simp: run_ok_def verdict_def creds_def diverse_def Let_def)

text \<open>The result describes the calls: every call before the last one failed with a retryable status; a
  successful result names the credential of the last call, which returned a 2xx status; a failed result
  with a credential names the last call, which failed for good; and one without a credential means that
  every call made failed with a retryable status.\<close>

theorem execute_result_describes_calls:
  assumes "xc_max_retries (re_config ex) < 2 ^ 32 - 1"
  shows "case execute ex stamps primary fallbacks (logged f) (w, []) of (res, st) \<Rightarrow>
    let calls = snd (xs_world st) in
      (case er_credential_id res of
         None \<Rightarrow> \<not> er_success res \<and> list_all (may_continue (re_config ex)) calls
       | Some c \<Rightarrow> calls \<noteq> [] \<and> list_all (may_continue (re_config ex)) (butlast calls) \<and> \<not> may_continue (re_config ex) (last calls)
           \<and> c = pi_credential_id (fst (last calls)) \<and> er_success res = succeeded (snd (last calls))
           \<and> er_status_code res = Some (code_of (snd (last calls))))"
  using execute_run[OF assms, of stamps primary fallbacks f w] by (auto simp: run_ok_def verdict_def Let_def)

text \<open>C16. Metrics and health learn exactly the calls, in order: after an execution both stores are the ones before
  it updated with one record per call, with that call's credential, success, latency and status.\<close>

theorem execute_learns_calls:
  assumes "xc_max_retries (re_config ex) < 2 ^ 32 - 1"
  shows "case execute ex stamps primary fallbacks (logged f) (w, []) of (_, st) \<Rightarrow>
    (xs_metrics st, xs_health st) = learn stamps (snd (xs_world st)) (re_metrics ex, re_health ex)"
  using execute_run[OF assms, of stamps primary fallbacks f w] by (auto simp: run_ok_def)

text \<open>A network error is final: with the default configuration an execution whose primary attempt fails
  without an HTTP status (a timeout, say) makes one attempt and returns the error, whatever the
  fallbacks, because such an error has the status 0, which is not among the retryable ones.\<close>

theorem network_error_stops_execution:
  assumes "re_config ex = default_executor_config" and "f w route = (Inl error, w')"
  shows "fst (execute ex stamps (Some route) fallbacks f w) =
    \<lparr>er_success = False, er_credential_id = Some (pi_credential_id route), er_model_id = Some (pi_model_id route),
     er_attempts = 1, er_total_latency_ms = f64_0, er_status_code = Some 0, er_error = Some (''Network error: '' @ error),
     er_prompt_tokens = None, er_completion_tokens = None\<rparr>"
proof -
  have "\<not> is_retryable default_executor_config 0" by (auto simp: is_retryable_def default_executor_config_def)
  then show ?thesis
    using assms by (simp add: execute_def attempt_route_def classify_response_def mark_used_def initial_state_def
        count_failure_def record_attempt_result_def failure_result_def wrap_inc_u32_def split: prod.split)
qed

definition sample_executor :: route_executor where
  "sample_executor = executor_new default_executor_config metrics_new (health_new default_health_config)"

definition sample_item :: route_plan_item where
  "sample_item = \<lparr>pi_credential_id = ''c1'', pi_model_id = ''m'', pi_provider = ''openai'', pi_utility = f64_1, pi_weight = f64_1\<rparr>"

lemma sample_executor_budget: "xc_max_retries (re_config sample_executor) < 2 ^ 32 - 1"
  by (simp add: sample_executor_def executor_new_def default_executor_config_def)

theorem execute_attempts_bounded_witness:
  "er_attempts (fst (execute sample_executor (\<lambda>_. ((0, 0, 0), 0)) (Some sample_item) []
     (logged (\<lambda>w _. (Inl ''timeout'', w))) ((), []))) \<le> 4"
  using execute_attempts_bounded[OF sample_executor_budget, of "\<lambda>_. ((0, 0, 0), 0)" "Some sample_item" "[]"
      "\<lambda>w _. (Inl ''timeout'', w)" "()"]
  by (auto simp: sample_executor_def executor_new_def default_executor_config_def Let_def split: prod.splits)

theorem execute_result_describes_calls_witness:
  "case execute sample_executor (\<lambda>_. ((0, 0, 0), 0)) (Some sample_item) [] (logged (\<lambda>w _. (Inr (200, f64_1), w))) ((), [])
   of (res, st) \<Rightarrow> (case er_credential_id res of None \<Rightarrow> \<not> er_success res
      | Some c \<Rightarrow> c = pi_credential_id (fst (last (snd (xs_world st)))))"
  using execute_result_describes_calls[OF sample_executor_budget, of "\<lambda>_. ((0, 0, 0), 0)" "Some sample_item" "[]"
      "\<lambda>w _. (Inr (200, f64_1), w)" "()"]
  by (auto simp: Let_def split: prod.splits option.splits)

theorem execute_learns_calls_witness:
  "case execute sample_executor (\<lambda>_. ((0, 0, 0), 0)) None [] (logged (\<lambda>w _. (Inr (200, f64_1), w))) ((), [])
   of (_, st) \<Rightarrow> (xs_metrics st, xs_health st) = learn (\<lambda>_. ((0, 0, 0), 0)) (snd (xs_world st))
     (metrics_new, health_new default_health_config)"
  using execute_learns_calls[OF sample_executor_budget, of "\<lambda>_. ((0, 0, 0), 0)" None "[]" "\<lambda>w _. (Inr (200, f64_1), w)" "()"]
  by (simp add: sample_executor_def executor_new_def)

theorem network_error_stops_execution_witness:
  "er_attempts (fst (execute sample_executor (\<lambda>_. ((0, 0, 0), 0)) (Some sample_item)
     [\<lparr>fr_auth_id = ''c2'', fr_position = 1, fr_weight = f64_1, fr_provider = Some ''google''\<rparr>]
     (\<lambda>w _. (Inl ''timeout'', w)) ())) = 1"
  by (subst network_error_stops_execution[where error = "''timeout''" and w' = "()"])
    (simp_all add: sample_executor_def executor_new_def)

end
