(* ===== verification/RateLimit.thy ===== *)
theory RateLimit
  imports Prelude
begin

text \<open>
  The per-client rate limiter of the gateway (src/state.rs): a request count and the start of the
  window for every address. An operation takes the reading of the monotonic clock it makes, in
  nanoseconds; \<open>Instant::duration_since\<close> saturates at zero.
\<close>

section \<open>State and operations\<close>

record rate_limiter =
  rl_buckets :: "(u64 \<times> time) hmap"
  rl_max_requests :: u64

definition default_rate_limit :: u64 where "default_rate_limit = 60"

definition limiter_new :: "u64 \<Rightarrow> rate_limiter" where
  "limiter_new max_requests = \<lparr>rl_buckets = [], rl_max_requests = max_requests\<rparr>"

definition secs_since :: "time \<Rightarrow> time \<Rightarrow> int" where
  "secs_since now earlier = max 0 (now - earlier) div nanos_per_second"

definition limiter_check :: "time \<Rightarrow> string \<Rightarrow> rate_limiter \<Rightarrow> bool \<times> rate_limiter" where
  "limiter_check now ip l =
     (if ip = [] then (True, l)
      else
        let (count, window_start) = (case hm_get (rl_buckets l) ip of Some b \<Rightarrow> b | None \<Rightarrow> (0, now));
            (count, window_start) = (if 60 \<le> secs_since now window_start then (0, now) else (count, window_start))
        in if rl_max_requests l \<le> count
           then (False, l\<lparr>rl_buckets := hm_insert ip (count, window_start) (rl_buckets l)\<rparr>)
           else (True, l\<lparr>rl_buckets := hm_insert ip (sat_inc_u64 count, window_start) (rl_buckets l)\<rparr>))"

definition limiter_prune :: "time \<Rightarrow> rate_limiter \<Rightarrow> rate_limiter" where
  "limiter_prune now l = l\<lparr>rl_buckets := hm_retain (\<lambda>(_, window_start). secs_since now window_start < 120) (rl_buckets l)\<rparr>"

section \<open>Accepted requests\<close>

datatype limiter_call = Check string | Prune

text \<open>A run of timed calls, with the times at which requests of \<open>ip\<close> were accepted.\<close>

fun limiter_step :: "string \<Rightarrow> time \<times> limiter_call \<Rightarrow> rate_limiter \<times> time list \<Rightarrow> rate_limiter \<times> time list" where
  "limiter_step ip (now, Check i) (l, accepted) = (case limiter_check now i l of
     (ok, l') \<Rightarrow> (l', if i = ip \<and> ok then accepted @ [now] else accepted))"
| "limiter_step ip (now, Prune) (l, accepted) = (limiter_prune now l, accepted)"

definition minute :: int where "minute = 60 * nanos_per_second"

definition accepted_in :: "time \<Rightarrow> time \<Rightarrow> time list \<Rightarrow> nat" where
  "accepted_in a b ts = length (filter (\<lambda>t. a \<le> t \<and> t < b) ts)"

text \<open>What an entry of the table says of the accepted requests: the count is the number since the
  window's start, none is later than its end, and the requests before its start that a one-minute
  interval reaching into the window can hold are at most a full window.\<close>

definition entry_inv :: "u64 \<Rightarrow> time \<Rightarrow> time list \<Rightarrow> u64 \<times> time \<Rightarrow> bool" where
  "entry_inv m now ts = (\<lambda>(c, s). s \<le> now \<and> c \<le> m \<and> (\<forall>t\<in>set ts. t < s + minute)
     \<and> accepted_in s (s + minute) ts = c \<and> (\<forall>a. s < a + minute \<longrightarrow> accepted_in a s ts \<le> m))"

definition window_inv :: "string \<Rightarrow> time \<Rightarrow> rate_limiter \<times> time list \<Rightarrow> bool" where
  "window_inv ip now = (\<lambda>(l, ts). hm_ok (rl_buckets l) \<and> rl_max_requests l \<le> u64_max \<and> (\<forall>t\<in>set ts. t \<le> now)
     \<and> (\<forall>a. accepted_in a (a + minute) ts \<le> 2 * rl_max_requests l)
     \<and> (case hm_get (rl_buckets l) ip of
          None \<Rightarrow> \<forall>t\<in>set ts. t + minute \<le> now
        | Some b \<Rightarrow> entry_inv (rl_max_requests l) now ts b))"

lemma secs_since_ge: "0 < n \<Longrightarrow> n \<le> secs_since now s \<longleftrightarrow> n * nanos_per_second \<le> now - s"
  by (auto simp: secs_since_def nanos_per_second_def max_def zdiv_int div_le_mono)

lemma minute_pos [simp]: "0 < minute"
  by (simp add: minute_def nanos_per_second_def)

lemma accepted_in_append [simp]: "accepted_in a b (ts @ us) = accepted_in a b ts + accepted_in a b us"
  by (simp add: accepted_in_def)

lemma accepted_in_single [simp]: "accepted_in a b [t] = (if a \<le> t \<and> t < b then 1 else 0)"
  by (simp add: accepted_in_def)

lemma accepted_in_Nil [simp]: "accepted_in a b [] = 0"
  by (simp add: accepted_in_def)

lemma accepted_in_split: "a \<le> s \<Longrightarrow> s \<le> b \<Longrightarrow> accepted_in a b ts = accepted_in a s ts + accepted_in s b ts"
  by (induction ts) (auto simp: accepted_in_def)

lemma accepted_in_mono: "\<forall>t\<in>set ts. a \<le> t \<and> t < b \<longrightarrow> c \<le> t \<and> t < d \<Longrightarrow> accepted_in a b ts \<le> accepted_in c d ts"
  by (induction ts) (auto simp: accepted_in_def)

lemma accepted_in_none: "\<forall>t\<in>set ts. \<not> (a \<le> t \<and> t < b) \<Longrightarrow> accepted_in a b ts = 0"
  by (simp add: accepted_in_def)

text \<open>The three ways an entry changes: time passes, a window starts, a request is accepted in it.\<close>

lemma entry_inv_later: "entry_inv m now ts b \<Longrightarrow> now \<le> now' \<Longrightarrow> entry_inv m now' ts b"
  by (auto simp: entry_inv_def)

lemma entry_inv_start:
  assumes "\<forall>t\<in>set ts. t < now" and "\<And>a. now < a + minute \<Longrightarrow> accepted_in a now ts \<le> m"
  shows "entry_inv m now ts (0, now)"
proof -
  have "accepted_in now (now + minute) ts = 0"
    using assms(1) by (intro accepted_in_none) auto
  moreover have "\<forall>t\<in>set ts. t < now + minute"
    using assms(1) less_trans[OF _ less_add_same_cancel1[THEN iffD2, OF minute_pos]] by blast
  ultimately show ?thesis
    using assms(2) by (simp add: entry_inv_def)
qed

lemma entry_inv_empty:
  assumes "\<forall>t\<in>set ts. t + minute \<le> now"
  shows "entry_inv m now ts (0, now)"
proof (rule entry_inv_start)
  show "\<forall>t\<in>set ts. t < now"
    using assms minute_pos by (meson less_add_same_cancel1 less_le_trans)
  show "accepted_in a now ts \<le> m" if "now < a + minute" for a
    using that assms by (subst accepted_in_none) force+
qed

lemma entry_inv_reset:
  assumes "entry_inv m before ts (c, s)" and "s + minute \<le> now"
  shows "entry_inv m now ts (0, now)"
proof -
  have ts: "\<forall>t\<in>set ts. t < s + minute" and c: "accepted_in s (s + minute) ts \<le> m"
    using assms(1) by (auto simp: entry_inv_def)
  have "accepted_in a now ts \<le> m" if "now < a + minute" for a
    using that assms(2) ts by (intro order.trans[OF accepted_in_mono c]) auto
  then show ?thesis
    using ts assms(2) by (intro entry_inv_start) auto
qed

lemma entry_inv_total:
  assumes "entry_inv m now ts (c, s)" and "s < a + minute"
  shows "accepted_in a (a + minute) ts \<le> 2 * m"
proof -
  have ts: "\<forall>t\<in>set ts. t < s + minute" and c: "accepted_in s (s + minute) ts \<le> m"
    and a: "accepted_in a s ts \<le> m"
    using assms by (auto simp: entry_inv_def)
  have "accepted_in s (a + minute) ts \<le> m" if "a \<le> s"
    using that by (intro order.trans[OF accepted_in_mono c]) auto
  moreover have "accepted_in a (a + minute) ts \<le> m" if "s \<le> a"
    using that ts by (intro order.trans[OF accepted_in_mono c]) auto
  ultimately show ?thesis
    using assms(2) a accepted_in_split[of a s "a + minute" ts] by (cases "a \<le> s") linarith+
qed

lemma entry_inv_accept:
  assumes "entry_inv m now ts (c, s)" and "c < m" and "now < s + minute"
  shows "entry_inv m now (ts @ [now]) (c + 1, s)"
  using assms by (auto simp: entry_inv_def)

lemma total_accept:
  assumes "entry_inv m now ts (c, s)" and "c < m" and "now < s + minute"
    and "\<forall>a. accepted_in a (a + minute) ts \<le> 2 * m"
  shows "accepted_in a (a + minute) (ts @ [now]) \<le> 2 * m"
proof (cases "s < a + minute")
  case True
  then show ?thesis
    using entry_inv_total[OF entry_inv_accept[OF assms(1-3)]] by blast
next
  case False
  then have "accepted_in a (a + minute) [now] = 0"
    using assms(1) by (auto simp: entry_inv_def)
  then show ?thesis
    using assms(4) by simp
qed

text \<open>The entry an operation works on: the stored one, or a new one if it is missing or expired.\<close>

definition current_entry :: "time \<Rightarrow> string \<Rightarrow> rate_limiter \<Rightarrow> u64 \<times> time" where
  "current_entry now ip l = (case hm_get (rl_buckets l) ip of
     None \<Rightarrow> (0, now) | Some (c, s) \<Rightarrow> if 60 \<le> secs_since now s then (0, now) else (c, s))"

lemma limiter_check_entry:
  assumes "ip \<noteq> []" and "current_entry now ip l = (c, s)"
  shows "limiter_check now ip l = (c < rl_max_requests l,
    l\<lparr>rl_buckets := hm_insert ip (if c < rl_max_requests l then sat_inc_u64 c else c, s) (rl_buckets l)\<rparr>)"
  using assms
  by (auto simp: limiter_check_def current_entry_def Let_def secs_since_def nanos_per_second_def split: option.splits if_splits)

lemma current_entry_inv:
  assumes "window_inv ip before (l, ts)" and "before \<le> now" and "current_entry now ip l = (c, s)"
  shows "entry_inv (rl_max_requests l) now ts (c, s) \<and> now < s + minute"
proof (cases "hm_get (rl_buckets l) ip")
  case None
  then have "\<forall>t\<in>set ts. t + minute \<le> now"
    using assms(1,2) by (force simp: window_inv_def)
  then show ?thesis
    using None assms(3) by (auto simp: current_entry_def intro: entry_inv_empty)
next
  case (Some b)
  obtain c' s' where b: "b = (c', s')" by (cases b)
  have inv: "entry_inv (rl_max_requests l) before ts (c', s')"
    using assms(1) Some b by (simp add: window_inv_def)
  show ?thesis
  proof (cases "60 \<le> secs_since now s'")
    case True
    then have "s' + minute \<le> now"
      by (simp add: secs_since_ge minute_def)
    then show ?thesis
      using True Some b assms(3) entry_inv_reset[OF inv] by (simp add: current_entry_def)
  next
    case False
    then have "now < s' + minute"
      by (simp add: secs_since_ge minute_def)
    then show ?thesis
      using False Some b assms(2,3) entry_inv_later[OF inv] by (simp add: current_entry_def)
  qed
qed

lemma limiter_check_other:
  "i \<noteq> ip \<Longrightarrow> limiter_check now i l = (ok, l') \<Longrightarrow> hm_get (rl_buckets l') ip = hm_get (rl_buckets l) ip"
  by (auto simp: limiter_check_def Let_def store_simps split: if_splits prod.splits)

lemma limiter_check_frame:
  "limiter_check now i l = (ok, l') \<Longrightarrow> rl_max_requests l' = rl_max_requests l \<and> (hm_ok (rl_buckets l) \<longrightarrow> hm_ok (rl_buckets l'))"
  by (auto simp: limiter_check_def Let_def split: if_splits prod.splits)

lemma window_inv_later:
  "window_inv ip before (l, ts) \<Longrightarrow> before \<le> now \<Longrightarrow> window_inv ip now (l, ts)"
  by (force simp: window_inv_def intro: entry_inv_later split: option.splits)

lemma limiter_prune_inv:
  assumes inv: "window_inv ip now (l, ts)"
  shows "window_inv ip now (limiter_prune now l, ts)"
proof -
  have "t + minute \<le> now" if "hm_get (rl_buckets l) ip = Some (c, s)" "\<not> secs_since now s < 120" "t \<in> set ts" for c s t
  proof -
    have "120 * nanos_per_second \<le> now - s"
      using that(2) by (simp add: secs_since_ge flip: not_le)
    moreover have "t < s + minute"
      using inv that(1,3) by (auto simp: window_inv_def entry_inv_def)
    ultimately show ?thesis by (simp add: minute_def)
  qed
  then show ?thesis
    using inv by (auto simp: window_inv_def limiter_prune_def hm_get_retain hm_ok_retain split: option.splits)
qed

lemma limiter_check_inv:
  assumes inv: "window_inv ip now (l, ts)" and ip: "ip \<noteq> []" and chk: "limiter_check now ip l = (ok, l')"
  shows "window_inv ip now (l', if ok then ts @ [now] else ts)"
proof -
  obtain c s where e: "current_entry now ip l = (c, s)" by fastforce
  have ent: "entry_inv (rl_max_requests l) now ts (c, s)" and s: "now < s + minute"
    using current_entry_inv[OF inv order.refl e] by auto
  have l': "ok = (c < rl_max_requests l)" "l' = l\<lparr>rl_buckets :=
      hm_insert ip (if c < rl_max_requests l then sat_inc_u64 c else c, s) (rl_buckets l)\<rparr>"
    using chk limiter_check_entry[OF ip e] by auto
  have tot: "\<forall>a. accepted_in a (a + minute) ts \<le> 2 * rl_max_requests l" and m: "rl_max_requests l \<le> u64_max"
    using inv by (auto simp: window_inv_def)
  show ?thesis
  proof (cases ok)
    case True
    then have c: "c < rl_max_requests l" using l' by simp
    then have "sat_inc_u64 c = c + 1" using m by (simp add: sat_inc_u64_def)
    then show ?thesis
      using True c l' inv entry_inv_accept[OF ent c s] total_accept[OF ent c s tot]
      by (auto simp: window_inv_def store_simps)
  next
    case False
    then show ?thesis
      using l' inv ent by (auto simp: window_inv_def store_simps)
  qed
qed

lemma limiter_step_inv:
  assumes inv: "window_inv ip before (l, ts)" and le: "before \<le> now" and ip: "ip \<noteq> []"
  shows "window_inv ip now (limiter_step ip (now, call) (l, ts))"
proof (cases call)
  case (Check i)
  obtain ok l' where chk: "limiter_check now i l = (ok, l')" by fastforce
  note now = window_inv_later[OF inv le]
  show ?thesis
  proof (cases "i = ip")
    case True
    then show ?thesis
      using Check chk limiter_check_inv[OF now ip] by simp
  next
    case False
    then show ?thesis
      using Check chk now limiter_check_other[OF False chk] limiter_check_frame[OF chk]
      by (simp add: window_inv_def cong: option.case_cong)
  qed
next
  case Prune
  then show ?thesis
    using limiter_prune_inv[OF window_inv_later[OF inv le]] by simp
qed

text \<open>A run folds the steps over the calls, in the order of their times.\<close>

definition limiter_run :: "string \<Rightarrow> u64 \<Rightarrow> (time \<times> limiter_call) list \<Rightarrow> rate_limiter \<times> time list" where
  "limiter_run ip max_requests calls = fold (limiter_step ip) calls (limiter_new max_requests, [])"

lemma window_inv_fold:
  assumes "window_inv ip before st" and "sorted (before # map fst calls)" and "ip \<noteq> []"
  shows "window_inv ip (last (before # map fst calls)) (fold (limiter_step ip) calls st)"
  using assms
proof (induction calls arbitrary: before st)
  case (Cons c calls)
  then show ?case
    using limiter_step_inv[of ip before "fst st" "snd st" "fst c" "snd c"] Cons.IH[of "fst c"]
    by simp
qed auto

lemma window_inv_run:
  assumes "m \<le> u64_max" and "sorted (map fst calls @ [now])" and "ip \<noteq> []"
  shows "window_inv ip now (limiter_run ip m calls)"
proof -
  define before where "before = (case calls of [] \<Rightarrow> now | c # _ \<Rightarrow> fst c)"
  have srt: "sorted (before # map fst calls)" "last (before # map fst calls) \<le> now"
    using assms(2) by (force simp: before_def sorted_append last_map split: list.splits)+
  have "window_inv ip before (limiter_new m, [])"
    using assms(1) by (simp add: window_inv_def limiter_new_def)
  from window_inv_fold[OF this srt(1) assms(3)] show ?thesis
    using srt(2) by (cases "limiter_run ip m calls") (simp add: limiter_run_def window_inv_later)
qed

lemma limiter_step_frame: "rl_max_requests (fst (limiter_step ip c st)) = rl_max_requests (fst st)"
  by (cases c; cases st; cases "snd c") (auto simp: limiter_prune_def split: prod.splits dest: limiter_check_frame)

lemma limiter_fold_frame: "rl_max_requests (fst (fold (limiter_step ip) calls st)) = rl_max_requests (fst st)"
  by (induction calls arbitrary: st) (simp_all add: limiter_step_frame)

lemma limiter_run_max: "rl_max_requests (fst (limiter_run ip m calls)) = m"
  by (simp add: limiter_run_def limiter_fold_frame limiter_new_def)

text \<open>C40. The limiter bounds a client: whatever the calls, of that client, of others and of the
  pruning task, in the order of their times, no interval of one minute holds more than twice the
  configured number of accepted requests of a non-empty address.\<close>

theorem rate_limit_bound:
  assumes "max_requests \<le> u64_max" and "ip \<noteq> []" and "sorted (map fst calls)"
  shows "accepted_in a (a + minute) (snd (limiter_run ip max_requests calls)) \<le> 2 * max_requests"
proof -
  have "sorted (map fst calls @ [last (a # map fst calls)])"
    using assms(3) by (cases calls rule: rev_cases) (auto simp: sorted_append)
  from window_inv_run[OF assms(1) this assms(2)] show ?thesis
    using limiter_run_max[of ip max_requests calls]
    by (auto simp: window_inv_def split: prod.splits)
qed

text \<open>A window is fixed at its first request, so a burst at its end and one at the start of the next
  exceed the limit: with a limit of two, three requests are accepted within one second.\<close>

theorem rate_limit_bound_witness:
  "accepted_in 59000000000 (59000000000 + minute) (snd (limiter_run ''a'' 2
     [(0, Check ''a''), (59000000000, Check ''a''), (59000000000, Check ''b''), (60000000000, Check ''a''),
      (60000000000, Check ''a''), (60000000000, Check ''a''), (180000000000, Prune)])) = 3 \<and> 3 \<le> 2 * (2::nat)"
proof -
  let ?calls = "[(0, Check ''a''), (59000000000, Check ''a''), (59000000000, Check ''b''), (60000000000, Check ''a''),
      (60000000000, Check ''a''), (60000000000, Check ''a''), (180000000000, Prune)]"
  have "accepted_in 59000000000 (59000000000 + minute) (snd (limiter_run ''a'' 2 ?calls)) \<le> 2 * 2"
    by (rule rate_limit_bound) (simp_all add: u64_max_def)
  moreover have "accepted_in 59000000000 (59000000000 + minute) (snd (limiter_run ''a'' 2 ?calls)) = 3"
    by (simp add: limiter_run_def limiter_new_def limiter_check_def limiter_prune_def accepted_in_def secs_since_def
        nanos_per_second_def minute_def sat_inc_u64_def u64_max_def hm_retain_def)
  ultimately show ?thesis by simp
qed

text \<open>The limiter does not reject a client that stays within its limit: a request is rejected only
  if \<open>max_requests\<close> requests of its address were accepted during the minute before it.\<close>

theorem rate_limit_rejects_when_full:
  assumes "max_requests \<le> u64_max" and "ip \<noteq> []" and "sorted (map fst calls @ [now])"
    and "limiter_run ip max_requests calls = (l, accepted)" and "\<not> fst (limiter_check now ip l)"
  shows "max_requests \<le> accepted_in (now - minute + 1) (now + 1) accepted"
proof -
  have inv: "window_inv ip now (l, accepted)"
    using window_inv_run[OF assms(1,3,2)] assms(4) by simp
  have m: "rl_max_requests l = max_requests"
    using limiter_run_max[of ip max_requests calls] assms(4) by simp
  obtain c s where e: "current_entry now ip l = (c, s)" by fastforce
  have ent: "entry_inv max_requests now accepted (c, s)" and s: "now < s + minute"
    using current_entry_inv[OF inv order.refl e] m by auto
  have "max_requests \<le> accepted_in s (s + minute) accepted"
    using assms(5) limiter_check_entry[OF assms(2) e] m ent by (simp add: entry_inv_def)
  also have "\<dots> \<le> accepted_in (now - minute + 1) (now + 1) accepted"
    using inv s by (intro accepted_in_mono) (auto simp: window_inv_def)
  finally show ?thesis .
qed

theorem rate_limit_rejects_when_full_witness:
  "(case limiter_run ''a'' 1 [(0, Check ''a'')] of (l, accepted) \<Rightarrow>
      \<not> fst (limiter_check 59999999999 ''a'' l) \<and> 1 \<le> accepted_in (59999999999 - minute + 1) (59999999999 + 1) accepted)"
proof -
  obtain l accepted where run: "limiter_run ''a'' 1 [(0, Check ''a'')] = (l, accepted)" by fastforce
  have rej: "\<not> fst (limiter_check 59999999999 ''a'' l)"
    using run by (auto simp: limiter_run_def limiter_new_def limiter_check_def secs_since_def
        nanos_per_second_def sat_inc_u64_def u64_max_def)
  have "1 \<le> accepted_in (59999999999 - minute + 1) (59999999999 + 1) accepted"
    by (rule rate_limit_rejects_when_full[OF _ _ _ run rej]) (simp_all add: u64_max_def)
  with run rej show ?thesis by simp
qed

end
