(* ===== verification/Ssrf.thy ===== *)
theory Ssrf
  imports Prelude "HOL-Library.Word"
begin

unbundle bit_operations_syntax

text \<open>
  The check against server-side request forgery (src/utils/ssrf.rs). Addresses are the octets and
  segments of \<open>std::net\<close>, as words; the URL parser (the \<open>url\<close> crate) is a parameter that gives the
  host of a URL, none, or the text of its error.
\<close>

section \<open>Addresses of the standard library\<close>

datatype ipv4 = Octets "8 word" "8 word" "8 word" "8 word"
datatype ipv6 = Segments "16 word" "16 word" "16 word" "16 word" "16 word" "16 word" "16 word" "16 word"
datatype ip_addr = V4 ipv4 | V6 ipv6

fun v4_is_private :: "ipv4 \<Rightarrow> bool" where
  "v4_is_private (Octets a b c d) \<longleftrightarrow> a = 10 \<or> a = 172 \<and> 16 \<le> b \<and> b \<le> 31 \<or> a = 192 \<and> b = 168"

fun v4_is_loopback :: "ipv4 \<Rightarrow> bool" where "v4_is_loopback (Octets a b c d) \<longleftrightarrow> a = 127"

fun v4_is_link_local :: "ipv4 \<Rightarrow> bool" where "v4_is_link_local (Octets a b c d) \<longleftrightarrow> a = 169 \<and> b = 254"

fun v6_is_loopback :: "ipv6 \<Rightarrow> bool" where
  "v6_is_loopback (Segments a b c d e f g h) \<longleftrightarrow> [a, b, c, d, e, f, g, h] = [0, 0, 0, 0, 0, 0, 0, 1]"

fun v6_is_unspecified :: "ipv6 \<Rightarrow> bool" where
  "v6_is_unspecified (Segments a b c d e f g h) \<longleftrightarrow> [a, b, c, d, e, f, g, h] = [0, 0, 0, 0, 0, 0, 0, 0]"

fun to_ipv4_mapped :: "ipv6 \<Rightarrow> ipv4 option" where
  "to_ipv4_mapped (Segments a b c d e f g h) =
     (if [a, b, c, d, e, f] = [0, 0, 0, 0, 0, 0xffff]
      then Some (Octets (ucast (drop_bit 8 g)) (ucast g) (ucast (drop_bit 8 h)) (ucast h)) else None)"

definition u8_try_from :: "16 word \<Rightarrow> 8 word option" where
  "u8_try_from x = (if x \<le> 255 then Some (ucast x) else None)"

section \<open>The check\<close>

fun ipv6_to_v4_compat :: "ipv6 \<Rightarrow> ipv4 option" where
  "ipv6_to_v4_compat (Segments a b c d e f g h) =
     (if [a, b, c, d, e, f] = [0, 0, 0, 0, 0, 0] \<and> (g \<noteq> 0 \<or> h \<noteq> 0)
      then case u8_try_from (drop_bit 8 g) of None \<Rightarrow> None
        | Some high \<Rightarrow> (case u8_try_from (g AND 0xff) of None \<Rightarrow> None
        | Some low \<Rightarrow> (case u8_try_from (drop_bit 8 h) of None \<Rightarrow> None
        | Some high2 \<Rightarrow> (case u8_try_from (h AND 0xff) of None \<Rightarrow> None
        | Some low2 \<Rightarrow> Some (Octets high low high2 low2))))
      else None)"

text \<open>The recursion of the code enters only the case of an IPv4 address.\<close>

function is_private_ip :: "ip_addr \<Rightarrow> bool" where
  "is_private_ip (V4 (Octets o0 o1 o2 o3)) =
     (v4_is_private (Octets o0 o1 o2 o3) \<or> v4_is_loopback (Octets o0 o1 o2 o3) \<or> v4_is_link_local (Octets o0 o1 o2 o3)
      \<or> o0 = 0
      \<or> (o0 = 192 \<and> o1 = 0 \<and> (o2 = 0 \<or> o2 = 2))
      \<or> (o0 = 198 \<and> o1 = 51 \<and> o2 = 100)
      \<or> (o0 = 203 \<and> o1 = 0 \<and> o2 = 113)
      \<or> o0 = 255
      \<or> (224 \<le> o0 \<and> o0 \<le> 239)
      \<or> (o0 = 100 \<and> 64 \<le> o1 \<and> o1 \<le> 127)
      \<or> (240 \<le> o0 \<and> o0 \<le> 254))"
| "is_private_ip (V6 (Segments s0 s1 s2 s3 s4 s5 s6 s7)) =
     (let v6 = Segments s0 s1 s2 s3 s4 s5 s6 s7
      in case to_ipv4_mapped v6 of
           Some mapped \<Rightarrow> is_private_ip (V4 mapped)
         | None \<Rightarrow> (case ipv6_to_v4_compat v6 of
             Some v4 \<Rightarrow> is_private_ip (V4 v4)
           | None \<Rightarrow> v6_is_loopback v6
               \<or> (0xfc00 \<le> s0 \<and> s0 \<le> 0xfdff)
               \<or> (0xfe80 \<le> s0 \<and> s0 \<le> 0xfebf)
               \<or> v6_is_unspecified v6
               \<or> 0xff00 \<le> s0
               \<or> (0xfec0 \<le> s0 \<and> s0 \<le> 0xfeff)))"
  by pat_completeness auto
termination
  by (relation "measure (\<lambda>ip. case ip of V4 _ \<Rightarrow> 0 | V6 _ \<Rightarrow> 1)") auto

datatype host = Domain string | Ipv4 ipv4 | Ipv6 ipv6
datatype ssrf_error = InvalidUrl string | NoHost string | PrivateIp ip_addr

type_synonym url_parser = "string \<Rightarrow> string + host option"

definition validate_url_not_private :: "url_parser \<Rightarrow> string \<Rightarrow> ssrf_error + unit" where
  "validate_url_not_private parse_url url_str = (case parse_url url_str of
       Inl e \<Rightarrow> Inl (InvalidUrl (url_str @ '': '' @ e))
     | Inr None \<Rightarrow> Inl (NoHost url_str)
     | Inr (Some (Domain _)) \<Rightarrow> Inr ()
     | Inr (Some (Ipv4 v4)) \<Rightarrow> if is_private_ip (V4 v4) then Inl (PrivateIp (V4 v4)) else Inr ()
     | Inr (Some (Ipv6 v6)) \<Rightarrow> if is_private_ip (V6 v6) then Inl (PrivateIp (V6 v6)) else Inr ())"

section \<open>Address blocks\<close>

text \<open>An address as a number, and blocks in prefix notation.\<close>

definition dotted :: "nat \<Rightarrow> nat \<Rightarrow> nat \<Rightarrow> nat \<Rightarrow> nat" where
  "dotted a b c d = ((a * 256 + b) * 256 + c) * 256 + d"

fun v4_number :: "ipv4 \<Rightarrow> nat" where
  "v4_number (Octets a b c d) = dotted (unat a) (unat b) (unat c) (unat d)"

fun v6_number :: "ipv6 \<Rightarrow> nat" where
  "v6_number (Segments a b c d e f g h) = foldl (\<lambda>n s. n * 65536 + unat s) 0 [a, b, c, d, e, f, g, h]"

definition in_block :: "nat \<Rightarrow> nat \<Rightarrow> nat \<times> nat \<Rightarrow> bool" where
  "in_block width n = (\<lambda>(net, len). n div 2 ^ (width - len) = net div 2 ^ (width - len))"

definition reserved_v4 :: "(nat \<times> nat) list" where
  "reserved_v4 =
    [(dotted 0 0 0 0, 8), (dotted 10 0 0 0, 8), (dotted 100 64 0 0, 10), (dotted 127 0 0 0, 8), (dotted 169 254 0 0, 16),
     (dotted 172 16 0 0, 12), (dotted 192 0 0 0, 24), (dotted 192 0 2 0, 24), (dotted 192 168 0 0, 16),
     (dotted 198 51 100 0, 24), (dotted 203 0 113 0, 24), (dotted 224 0 0 0, 4), (dotted 240 0 0 0, 4)]"

definition reserved_v6 :: "(nat \<times> nat) list" where
  "reserved_v6 =
    [(0, 128), (1, 128), (0xfc00 * 2 ^ 112, 7), (0xfe80 * 2 ^ 112, 10), (0xfec0 * 2 ^ 112, 10), (0xff00 * 2 ^ 112, 8)]"

fun reserved :: "ip_addr \<Rightarrow> bool" where
  "reserved (V4 a) = list_ex (in_block 32 (v4_number a)) reserved_v4"
| "reserved (V6 a) = (let n = v6_number a in
     if n div 2 ^ 32 = 0xffff \<or> n div 2 ^ 32 = 0 \<and> n \<noteq> 0 then list_ex (in_block 32 (n mod 2 ^ 32)) reserved_v4
     else list_ex (in_block 128 n) reserved_v6)"

section \<open>Correctness\<close>

lemmas word_nat = word_unat_eq_iff word_le_nat_alt

lemma octet_less: "unat (x :: 8 word) < 256"
  using unsigned_less[of x] by simp

lemma segment_less: "unat (x :: 16 word) < 65536"
  using unsigned_less[of x] by simp

lemma radix_div: "b < r \<Longrightarrow> (a * r + b) div r = (a :: nat)"
  by simp

lemma radix_eq: "b < r \<Longrightarrow> b' < r \<Longrightarrow> a * r + b = a' * r + b' \<longleftrightarrow> a = a' \<and> b = (b' :: nat)"
  by (metis div_mult_self3 div_less mod_mult_self3 mod_less add_0_right not_less_zero)

lemma radix_div_part: "(a * 256 + b) div 16 = a * 16 + b div 16" "(a * 256 + b) div 64 = a * 4 + b div (64 :: nat)"
  using div_mult_self1[of 16 b "a * 16"] div_mult_self1[of 64 b "a * 4"] by (simp_all add: add.commute)

lemma dotted_div:
  assumes "b < 256" "c < 256" "d < 256"
  shows "dotted a b c d div 256 = (a * 256 + b) * 256 + c"
    and "dotted a b c d div 65536 = a * 256 + b"
    and "dotted a b c d div 16777216 = a"
    and "dotted a b c d div 268435456 = a div 16"
    and "dotted a b c d div 1048576 = a * 16 + b div 16"
    and "dotted a b c d div 4194304 = a * 4 + b div 64"
proof -
  show 1: "dotted a b c d div 256 = (a * 256 + b) * 256 + c"
    unfolding dotted_def by (rule radix_div[OF assms(3)])
  have "dotted a b c d div 65536 = dotted a b c d div 256 div 256"
    by (simp flip: div_mult2_eq)
  then show 2: "dotted a b c d div 65536 = a * 256 + b"
    using radix_div[OF assms(2)] by (simp only: 1)
  have "dotted a b c d div 16777216 = dotted a b c d div 65536 div 256"
    by (simp flip: div_mult2_eq)
  then show 3: "dotted a b c d div 16777216 = a"
    using radix_div[OF assms(1)] by (simp only: 2)
  have "dotted a b c d div 268435456 = dotted a b c d div 16777216 div 16"
    by (simp flip: div_mult2_eq)
  then show "dotted a b c d div 268435456 = a div 16"
    by (simp only: 3)
  have "dotted a b c d div 1048576 = dotted a b c d div 65536 div 16"
    by (simp flip: div_mult2_eq)
  then show "dotted a b c d div 1048576 = a * 16 + b div 16"
    by (simp only: 2 radix_div_part)
  have "dotted a b c d div 4194304 = dotted a b c d div 65536 div 64"
    by (simp flip: div_mult2_eq)
  then show "dotted a b c d div 4194304 = a * 4 + b div 64"
    by (simp only: 2 radix_div_part)
qed

text \<open>Blocks whose prefix ends at an octet, or inside one.\<close>

lemma octet_blocks:
  assumes "b < 256" "c < 256" "d < 256"
  shows "in_block 32 (dotted a b c d) (dotted A 0 0 0, 8) \<longleftrightarrow> a = A"
    and "in_block 32 (dotted a b c d) (dotted A 0 0 0, 4) \<longleftrightarrow> a div 16 = A div 16"
    and "B < 256 \<Longrightarrow> in_block 32 (dotted a b c d) (dotted A B 0 0, 16) \<longleftrightarrow> a = A \<and> b = B"
    and "B < 256 \<Longrightarrow> C < 256 \<Longrightarrow> in_block 32 (dotted a b c d) (dotted A B C 0, 24) \<longleftrightarrow> a = A \<and> b = B \<and> c = C"
    and "B < 256 \<Longrightarrow> in_block 32 (dotted a b c d) (dotted A B 0 0, 12) \<longleftrightarrow> a = A \<and> b div 16 = B div 16"
    and "B < 256 \<Longrightarrow> in_block 32 (dotted a b c d) (dotted A B 0 0, 10) \<longleftrightarrow> a = A \<and> b div 64 = B div 64"
  using assms radix_eq[of b 256 B a A] radix_eq[of c 256 C "a * 256 + b" "A * 256 + B"]
    radix_eq[of "b div 16" 16 "B div 16" a A] radix_eq[of "b div 64" 4 "B div 64" a A]
  by (simp_all add: in_block_def dotted_div)

lemma div_range: "0 < k \<Longrightarrow> a div k = q \<longleftrightarrow> q * k \<le> a \<and> a < Suc q * (k :: nat)"
  by (simp only: less_eq_div_iff_mult_less_eq[symmetric] div_less_iff_less_mult[symmetric]) linarith

lemma octet_ranges: fixes a :: nat
  shows "a div 16 = 14 \<longleftrightarrow> 224 \<le> a \<and> a \<le> 239" "a div 16 = 1 \<longleftrightarrow> 16 \<le> a \<and> a \<le> 31"
    "a div 64 = 1 \<longleftrightarrow> 64 \<le> a \<and> a \<le> 127" "a div 16 = 15 \<longleftrightarrow> 240 \<le> a \<and> a \<le> 255"
  by (simp_all add: div_range) linarith+

lemma v4_blocks:
  assumes "b < 256" "c < 256" "d < 256"
  shows "list_ex (in_block 32 (dotted a b c d)) reserved_v4 \<longleftrightarrow>
    a = 0 \<or> a = 10 \<or> a = 100 \<and> 64 \<le> b \<and> b \<le> 127 \<or> a = 127 \<or> a = 169 \<and> b = 254 \<or> a = 172 \<and> 16 \<le> b \<and> b \<le> 31
    \<or> a = 192 \<and> b = 0 \<and> c = 0 \<or> a = 192 \<and> b = 0 \<and> c = 2 \<or> a = 192 \<and> b = 168 \<or> a = 198 \<and> b = 51 \<and> c = 100
    \<or> a = 203 \<and> b = 0 \<and> c = 113 \<or> 224 \<le> a \<and> a \<le> 239 \<or> 240 \<le> a \<and> a \<le> 255"
  unfolding reserved_v4_def by (simp add: octet_blocks assms octet_ranges del: One_nat_def)

lemma v4_private_blocks: "is_private_ip (V4 a) = reserved (V4 a)"
proof (cases a)
  case (Octets o0 o1 o2 o3)
  have "240 \<le> unat o0 \<and> unat o0 \<le> 255 \<longleftrightarrow> unat o0 = 255 \<or> 240 \<le> unat o0 \<and> unat o0 \<le> 254"
    by linarith
  then show ?thesis
    unfolding Octets by (simp add: v4_blocks octet_less word_nat) argo
qed

lemma u8_high: "u8_try_from (drop_bit 8 x) = Some (ucast (drop_bit 8 x))"
proof -
  have "unat (drop_bit 8 x) \<le> 255"
    using segment_less[of x] by (simp add: unat_drop_bit_eq drop_bit_eq_div[where 'a = nat] less_mult_imp_div_less flip: less_Suc_eq_le)
  then show ?thesis
    by (simp add: u8_try_from_def word_le_nat_alt)
qed

lemma u8_low: "u8_try_from (x AND 0xff) = Some (ucast x)"
proof -
  have x: "x AND 0xff = take_bit 8 x"
    by (simp add: take_bit_eq_mask mask_eq_exp_minus_1)
  have "unat (take_bit 8 x) \<le> 255"
    using take_bit_nat_less_exp[of 8 "unat x"] by (simp add: unsigned_take_bit_eq)
  moreover have "ucast (take_bit 8 x) = (ucast x :: 8 word)"
    by (simp add: unsigned_ucast_eq word_unat_eq_iff unsigned_take_bit_eq)
  ultimately show ?thesis
    by (simp add: x u8_try_from_def word_le_nat_alt)
qed

text \<open>The number of an IPv6 address: its first six segments, and the 32 bits of the last two.\<close>

definition v6_head :: "ipv6 \<Rightarrow> nat" where
  "v6_head v6 = (case v6 of Segments a b c d e f g h \<Rightarrow> foldl (\<lambda>n s. n * 65536 + unat s) 0 [a, b, c, d, e, f])"

lemma v6_number_split: "v6_number (Segments a b c d e f g h) = v6_head (Segments a b c d e f g h) * 2 ^ 32 + (unat g * 65536 + unat h)"
  by (simp add: v6_head_def algebra_simps)

lemma v6_low_less: "unat g * 65536 + unat h < 2 ^ 32" for g h :: "16 word"
  using segment_less[of g] segment_less[of h] by simp

lemma v6_number_div: "v6_number (Segments a b c d e f g h) div 2 ^ 32 = v6_head (Segments a b c d e f g h)"
  unfolding v6_number_split by (rule radix_div[OF v6_low_less])

lemma v6_number_mod: "v6_number (Segments a b c d e f g h) mod 2 ^ 32 = unat g * 65536 + unat h"
  unfolding v6_number_split using v6_low_less[of g h] by (simp only: mod_mult_self3 mod_less)

lemma v6_head_small: "r < 65536 \<Longrightarrow> v6_head (Segments a b c d e f g h) = r \<longleftrightarrow>
    unat a = 0 \<and> unat b = 0 \<and> unat c = 0 \<and> unat d = 0 \<and> unat e = 0 \<and> unat f = r"
  by (auto simp: v6_head_def)

lemma segment_octets: "v4_number (Octets (ucast (drop_bit 8 g)) (ucast g) (ucast (drop_bit 8 h)) (ucast h)) = unat g * 65536 + unat h"
  for g h :: "16 word"
proof -
  have hi: "unat (drop_bit 8 x) mod 256 = unat x div 256" for x :: "16 word"
    using segment_less[of x] by (simp add: unat_drop_bit_eq drop_bit_eq_div[where 'a = nat] less_mult_imp_div_less)
  have lo: "unat (ucast x :: 8 word) = unat x mod 256" for x :: "16 word"
    by (simp add: unsigned_ucast_eq unsigned_take_bit_eq take_bit_eq_mod[where 'a = nat])
  have "unat g div 256 * 256 + unat g mod 256 = unat g" "unat h div 256 * 256 + unat h mod 256 = unat h"
    by simp_all
  then show ?thesis
    by (simp only: v4_number.simps hi lo dotted_def) (simp add: algebra_simps)
qed

lemma v6_segment0: "v6_number (Segments a b c d e f g h) div 2 ^ 112 = unat a"
proof -
  have "v6_number (Segments a b c d e f g h) div 65536 div 65536 div 65536 div 65536 div 65536 div 65536 div 65536 = unat a"
    by (simp only: v6_number.simps foldl.simps radix_div segment_less mult_0 add_0)
  then show ?thesis
    by (simp flip: div_mult2_eq)
qed

lemma v6_prefix: "len \<le> 16 \<Longrightarrow> in_block 128 (v6_number (Segments a b c d e f g h)) (r * 2 ^ 112, len)
    \<longleftrightarrow> unat a div 2 ^ (16 - len) = r div 2 ^ (16 - len)"
proof -
  assume "len \<le> 16"
  then have p: "(2 :: nat) ^ (128 - len) = 2 ^ 112 * 2 ^ (16 - len)"
    by (simp only: power_add[symmetric]) simp
  show ?thesis
    unfolding in_block_def prod.case p div_mult2_eq v6_segment0 by simp
qed

lemma compat_some: "g \<noteq> 0 \<or> h \<noteq> 0 \<Longrightarrow> ipv6_to_v4_compat (Segments 0 0 0 0 0 0 g h) =
    Some (Octets (ucast (drop_bit 8 g)) (ucast g) (ucast (drop_bit 8 h)) (ucast h))"
  by (simp only: ipv6_to_v4_compat.simps u8_high u8_low) simp

abbreviation low_octets :: "16 word \<Rightarrow> 16 word \<Rightarrow> ipv4" where
  "low_octets g h \<equiv> Octets (ucast (drop_bit 8 g)) (ucast g) (ucast (drop_bit 8 h)) (ucast h)"

lemma mapped_head: "to_ipv4_mapped (Segments a b c d e f g h) =
    (if v6_head (Segments a b c d e f g h) = 0xffff then Some (low_octets g h) else None)"
  by (simp add: v6_head_small word_unat_eq_iff)

lemma v6_zero: "v6_number (Segments a b c d e f g h) = 0 \<longleftrightarrow> [a, b, c, d, e, f, g, h] = [0, 0, 0, 0, 0, 0, 0, 0]"
  by (auto simp: unat_eq_0)

lemma compat_head: "ipv6_to_v4_compat (Segments a b c d e f g h) =
    (if v6_head (Segments a b c d e f g h) = 0 \<and> v6_number (Segments a b c d e f g h) \<noteq> 0 then Some (low_octets g h) else None)"
proof -
  have head: "v6_head (Segments a b c d e f g h) = 0 \<longleftrightarrow> [a, b, c, d, e, f] = [0, 0, 0, 0, 0, 0]"
    by (simp add: v6_head_small unat_eq_0)
  show ?thesis
    unfolding head v6_zero using compat_some[of g h] by auto
qed

lemma v6_one: "v6_is_loopback (Segments a b c d e f g h) \<Longrightarrow> v6_number (Segments a b c d e f g h) = 1"
  by simp

lemma v6_blocks:
  "list_ex (in_block 128 (v6_number (Segments a b c d e f g h))) reserved_v6 \<longleftrightarrow>
     v6_number (Segments a b c d e f g h) \<in> {0, 1} \<or> 0xfc00 \<le> a \<and> a \<le> 0xfdff \<or> 0xfe80 \<le> a \<and> a \<le> 0xfebf
     \<or> 0xff00 \<le> a \<or> 0xfec0 \<le> a \<and> a \<le> 0xfeff"
proof -
  have host: "in_block 128 n (r, 128) \<longleftrightarrow> n = r" for n r
    by (simp add: in_block_def)
  have ranges: "k div 512 = 126 \<longleftrightarrow> 0xfc00 \<le> k \<and> k \<le> 0xfdff" "k div 64 = 1018 \<longleftrightarrow> 0xfe80 \<le> k \<and> k \<le> 0xfebf"
    "k div 64 = 1019 \<longleftrightarrow> 0xfec0 \<le> k \<and> k \<le> 0xfeff" "k < 65536 \<Longrightarrow> k div 256 = 255 \<longleftrightarrow> 0xff00 \<le> k" for k :: nat
    by (simp_all add: div_range) linarith+
  let ?in = "in_block 128 (v6_number (Segments a b c d e f g h))"
  have "?in (0xfc00 * 2 ^ 112, 7) \<longleftrightarrow> unat a div 512 = 126" "?in (0xfe80 * 2 ^ 112, 10) \<longleftrightarrow> unat a div 64 = 1018"
    "?in (0xfec0 * 2 ^ 112, 10) \<longleftrightarrow> unat a div 64 = 1019" "?in (0xff00 * 2 ^ 112, 8) \<longleftrightarrow> unat a div 256 = 255"
    by (subst v6_prefix; simp)+
  then show ?thesis
    unfolding reserved_v6_def list_ex_iff set_simps bex_simps host
    by (simp only: ranges segment_less) (simp add: word_le_nat_alt; argo)
qed

text \<open>The check is the table of blocks: an address is rejected exactly if it lies in a reserved
  IPv4 block or, for IPv6, embeds such an IPv4 address (mapped or compatible) or lies in a reserved
  IPv6 block; the octet and segment tests of the code neither miss nor add an address.\<close>

lemma private_ip_is_reserved: "is_private_ip ip = reserved ip"
proof (cases ip)
  case (V4 a)
  then show ?thesis by (simp only: v4_private_blocks)
next
  case (V6 v6)
  obtain a b c d e f g h where segs: "v6 = Segments a b c d e f g h" by (cases v6)
  let ?n = "v6_number v6"
  have v4: "is_private_ip (V4 (low_octets g h)) = list_ex (in_block 32 (?n mod 2 ^ 32)) reserved_v4"
    unfolding v4_private_blocks reserved.simps segs v6_number_mod segment_octets ..
  have head: "?n div 2 ^ 32 = v6_head v6"
    unfolding segs by (rule v6_number_div)
  have blocks: "list_ex (in_block 128 ?n) reserved_v6 \<longleftrightarrow> v6_is_loopback v6 \<or> (0xfc00 \<le> a \<and> a \<le> 0xfdff)
      \<or> (0xfe80 \<le> a \<and> a \<le> 0xfebf) \<or> v6_is_unspecified v6 \<or> 0xff00 \<le> a \<or> (0xfec0 \<le> a \<and> a \<le> 0xfeff)"
    if "\<not> (v6_head v6 = 0 \<and> ?n \<noteq> 0)"
  proof -
    have "?n \<noteq> 1"
    proof
      assume "?n = 1"
      then have "v6_head v6 = 0" using head by simp
      then show False using that \<open>?n = 1\<close> by simp
    qed
    then show ?thesis
      using v6_zero[of a b c d e f g h] v6_one[of a b c d e f g h] unfolding segs v6_blocks by auto
  qed
  show ?thesis
    using v4 blocks unfolding V6 segs is_private_ip.simps reserved.simps Let_def mapped_head compat_head head[unfolded segs]
    by (auto simp del: v6_number.simps v6_is_loopback.simps v6_is_unspecified.simps)
qed

text \<open>C38. For every URL parser: a URL is accepted exactly if its host is a domain name or an address
  outside the reserved blocks, and rejected for its address exactly if that address is reserved.\<close>

theorem validate_url_exact:
  "(validate_url_not_private parse_url url = Inr () \<longleftrightarrow> (case parse_url url of
       Inl e \<Rightarrow> False | Inr None \<Rightarrow> False | Inr (Some (Domain d)) \<Rightarrow> True
     | Inr (Some (Ipv4 a)) \<Rightarrow> \<not> reserved (V4 a) | Inr (Some (Ipv6 a)) \<Rightarrow> \<not> reserved (V6 a)))
   \<and> (validate_url_not_private parse_url url = Inl (PrivateIp ip) \<longleftrightarrow>
       reserved ip \<and> parse_url url = Inr (Some (case ip of V4 a \<Rightarrow> Ipv4 a | V6 a \<Rightarrow> Ipv6 a)))"
  by (auto simp: validate_url_not_private_def private_ip_is_reserved simp del: reserved.simps
      split: sum.splits option.splits host.splits ip_addr.splits)

text \<open>Domain names are not looked up, and other embeddings of IPv4 (NAT64, 6to4) are not unwrapped.\<close>

lemma domain_accepted: "parse_url url = Inr (Some (Domain ''localhost'')) \<Longrightarrow> validate_url_not_private parse_url url = Inr ()"
  by (simp add: validate_url_not_private_def)

lemma nat64_loopback_accepted: "\<not> is_private_ip (V6 (Segments 0x64 0xff9b 0 0 0 0 0x7f00 1))"
  by simp

end
