(* ===== verification/Classification.thy ===== *)
theory Classification
  imports Candidates
begin

text \<open>
  Request classification (src/routing/classification/{detection,format,token}.rs and the
  \<open>DefaultRequestClassifier\<close> of src/state.rs). The JSON values and their accessors are serde_json's:
  a parameter \<open>'v json_api\<close>. Strings are the UTF-8 bytes of the source, so \<open>len()\<close> is their length;
  lower-casing changes no byte of the ASCII patterns searched for beyond the ASCII letters.
\<close>

section \<open>JSON accessors\<close>

record 'v json_api =
  js_get :: "'v \<Rightarrow> string \<Rightarrow> 'v option"
  js_array :: "'v \<Rightarrow> 'v list option"
  js_str :: "'v \<Rightarrow> string option"
  js_bool :: "'v \<Rightarrow> bool option"
  js_u64 :: "'v \<Rightarrow> u64 option"
  js_is_null :: "'v \<Rightarrow> bool"
  js_object :: "'v \<Rightarrow> (string \<Rightarrow> 'v option) option"

definition get_array :: "'v json_api \<Rightarrow> 'v \<Rightarrow> string \<Rightarrow> 'v list option" where
  "get_array js v k = Option.bind (js_get js v k) (js_array js)"

definition get_str :: "'v json_api \<Rightarrow> 'v \<Rightarrow> string \<Rightarrow> string option" where
  "get_str js v k = Option.bind (js_get js v k) (js_str js)"

section \<open>Format detection\<close>

definition is_openai_format :: "'v json_api \<Rightarrow> 'v \<Rightarrow> bool" where
  "is_openai_format js request \<longleftrightarrow> get_array js request ''messages'' \<noteq> None"

definition is_anthropic_format :: "'v json_api \<Rightarrow> 'v \<Rightarrow> bool" where
  "is_anthropic_format js request \<longleftrightarrow>
     (let has_messages = get_array js request ''messages'' \<noteq> None; has_system = js_get js request ''system'' \<noteq> None
      in has_messages \<and> has_system)"

definition is_gemini_format :: "'v json_api \<Rightarrow> 'v \<Rightarrow> bool" where
  "is_gemini_format js request \<longleftrightarrow> get_array js request ''contents'' \<noteq> None"

definition detect_format :: "'v json_api \<Rightarrow> 'v \<Rightarrow> request_format" where
  "detect_format js request =
     (if is_gemini_format js request then GeminiFormat
      else if is_anthropic_format js request then AnthropicFormat
      else if is_openai_format js request then OpenAIFormat else GenericFormat)"

section \<open>Token estimation\<close>

definition text_len :: "string option \<Rightarrow> u64" where
  "text_len t = (case t of Some s \<Rightarrow> length s | None \<Rightarrow> 0)"

text \<open>\<open>total += text.len()\<close> over the texts of the parts; \<open>u64\<close> addition wraps in release builds.\<close>

definition add_texts :: "'v json_api \<Rightarrow> 'v list \<Rightarrow> u64" where
  "add_texts js parts = fold (\<lambda>part sum. wrap_add_u64 sum (text_len (get_str js part ''text''))) parts 0"

definition extract_chars_from_message :: "'v json_api \<Rightarrow> 'v \<Rightarrow> u64" where
  "extract_chars_from_message js msg = (case js_get js msg ''content'' of
       None \<Rightarrow> 0
     | Some content \<Rightarrow> (case js_str js content of
           Some s \<Rightarrow> length s
         | None \<Rightarrow> (case js_array js content of Some parts \<Rightarrow> add_texts js parts | None \<Rightarrow> 0)))"

definition extract_chars_from_gemini_content :: "'v json_api \<Rightarrow> 'v \<Rightarrow> u64" where
  "extract_chars_from_gemini_content js content =
     (case get_array js content ''parts'' of Some parts \<Rightarrow> add_texts js parts | None \<Rightarrow> 0)"

definition request_chars :: "'v json_api \<Rightarrow> 'v \<Rightarrow> u64" where
  "request_chars js request =
     (let total_chars = (case get_array js request ''messages'' of
           Some messages \<Rightarrow> fold (\<lambda>msg sum. wrap_add_u64 sum (extract_chars_from_message js msg)) messages 0
         | None \<Rightarrow> (case get_array js request ''contents'' of
             Some contents \<Rightarrow> fold (\<lambda>c sum. wrap_add_u64 sum (extract_chars_from_gemini_content js c)) contents 0
           | None \<Rightarrow> text_len (get_str js request ''prompt'')))
      in wrap_add_u64 total_chars (text_len (get_str js request ''system'')))"

definition chars_per_token :: f64 where "chars_per_token = FFin 4"

definition default_output_tokens :: nat where "default_output_tokens = 512"

definition estimate_input :: "'v json_api \<Rightarrow> 'v \<Rightarrow> nat" where
  "estimate_input js request =
     nat (fceil_as (int u32_max) (fdiv (f64_nat (request_chars js request)) chars_per_token))"

definition estimate_output :: "'v json_api \<Rightarrow> 'v \<Rightarrow> nat" where
  "estimate_output js request =
     (let field = (case js_get js request ''max_tokens'' of
           Some v \<Rightarrow> Some v | None \<Rightarrow> js_get js request ''max_completion_tokens'')
      in case Option.bind field (js_u64 js) of
           Some max_tokens \<Rightarrow> min max_tokens u32_max
         | None \<Rightarrow> default_output_tokens)"

definition estimate_tokens :: "'v json_api \<Rightarrow> 'v \<Rightarrow> nat" where
  "estimate_tokens js request = sat_add_u32 (estimate_input js request) (estimate_output js request)"

section \<open>Images\<close>

definition image_extensions :: "string list" where
  "image_extensions = [''.png'', ''.jpg'', ''.jpeg'', ''.gif'', ''.webp'', ''.bmp'', ''.svg'', ''.tiff'', ''.ico'', ''.heic'',
     ''.avif'']"

definition text_contains_image_url :: "string \<Rightarrow> bool" where
  "text_contains_image_url s =
     (let text_lower = to_lowercase s
      in if str_contains text_lower ''data:image/'' then True
         else list_ex (str_contains text_lower) image_extensions)"

text \<open>\<open>Iterator::any\<close> for a predicate that may not return.\<close>

fun any_opt :: "('v \<Rightarrow> bool option) \<Rightarrow> 'v list \<Rightarrow> bool option" where
  "any_opt P [] = Some False"
| "any_opt P (x # xs) = Option.bind (P x) (\<lambda>b. if b then Some True else any_opt P xs)"

lemma any_opt_mono [partial_function_mono]:
  assumes "\<And>x. mono_option (\<lambda>f. B x f)"
  shows "mono_option (\<lambda>f. any_opt (\<lambda>x. B x f) xs)"
proof (induction xs)
  case Nil
  show ?case by (simp add: option.const_mono)
next
  case (Cons x xs)
  show ?case
    unfolding any_opt.simps by (intro partial_function_mono assms Cons.IH bind_mono)
qed

definition image_type :: "string option \<Rightarrow> bool" where
  "image_type t \<longleftrightarrow> t = Some ''image'' \<or> t = Some ''image_url''"

text \<open>An item of a content array; \<open>contains_image\<close> is the recursive call on its nested content.\<close>

definition content_item_contains_image :: "'v json_api \<Rightarrow> ('v \<Rightarrow> bool option) \<Rightarrow> 'v \<Rightarrow> bool option" where
  "content_item_contains_image js contains_image item =
     (if image_type (get_str js item ''type'') then Some True
      else Option.bind (case js_get js item ''content'' of Some nested \<Rightarrow> contains_image nested | None \<Rightarrow> Some False)
        (\<lambda>nested_image.
          if nested_image then Some True
          else if js_get js item ''image_url'' \<noteq> None then Some True
          else Some (case js_get js item ''source'' of
                 Some source \<Rightarrow> get_str js source ''type'' = Some ''base64''
               | None \<Rightarrow> False)))"

lemma content_item_mono [partial_function_mono]:
  assumes "\<And>x. mono_option (\<lambda>f. B f x)"
  shows "mono_option (\<lambda>f. content_item_contains_image js (B f) item)"
proof -
  have "mono_option (\<lambda>f. case js_get js item ''content'' of Some nested \<Rightarrow> B f nested | None \<Rightarrow> Some False)"
    by (cases "js_get js item ''content''") (simp_all add: option.const_mono assms)
  then show ?thesis
    unfolding content_item_contains_image_def by (intro if_mono bind_mono option.const_mono)
qed

partial_function (option) content_contains_image :: "'v json_api \<Rightarrow> 'v \<Rightarrow> bool option" where
  "content_contains_image js content = (case js_str js content of
       Some s \<Rightarrow> Some (text_contains_image_url s)
     | None \<Rightarrow> (case js_array js content of
         Some arr \<Rightarrow> any_opt (\<lambda>item. content_item_contains_image js (content_contains_image js) item) arr
       | None \<Rightarrow> (case js_object js content of
           Some obj \<Rightarrow> Some (image_type (Option.bind (obj ''type'') (js_str js)))
         | None \<Rightarrow> Some False)))"

definition optional_content_image :: "'v json_api \<Rightarrow> 'v \<Rightarrow> bool option" where
  "optional_content_image js v =
     (case js_get js v ''content'' of Some content \<Rightarrow> content_contains_image js content | None \<Rightarrow> Some False)"

definition detect_vision_required :: "'v json_api \<Rightarrow> 'v \<Rightarrow> bool option" where
  "detect_vision_required js request = (case get_array js request ''messages'' of
       Some messages \<Rightarrow> any_opt (optional_content_image js) messages
     | None \<Rightarrow> optional_content_image js request)"

section \<open>Tools and streaming\<close>

definition message_uses_tools :: "'v json_api \<Rightarrow> 'v \<Rightarrow> bool" where
  "message_uses_tools js msg \<longleftrightarrow>
     (case get_array js msg ''tool_calls'' of Some a \<Rightarrow> a \<noteq> [] | None \<Rightarrow> False)
     \<or> (case get_array js msg ''content'' of
          Some content \<Rightarrow> list_ex (\<lambda>block. get_str js block ''type'' = Some ''tool_use'') content
        | None \<Rightarrow> False)"

definition detect_tools_required :: "'v json_api \<Rightarrow> 'v \<Rightarrow> bool" where
  "detect_tools_required js request = (case get_array js request ''tools'' of
       Some tools \<Rightarrow> tools \<noteq> []
     | None \<Rightarrow> (case get_array js request ''functions'' of
         Some functions \<Rightarrow> functions \<noteq> []
       | None \<Rightarrow> (case js_get js request ''tool_choice'' of
           Some choice \<Rightarrow> (case js_str js choice of
               Some choice_str \<Rightarrow> choice_str \<noteq> ''none''
             | None \<Rightarrow> \<not> js_is_null js choice)
         | None \<Rightarrow> (case get_array js request ''messages'' of
             Some messages \<Rightarrow> list_ex (message_uses_tools js) messages
           | None \<Rightarrow> False))))"

definition is_tools_disabled :: "'v json_api \<Rightarrow> 'v \<Rightarrow> bool" where
  "is_tools_disabled js request = (case get_str js request ''tool_choice'' of
       Some choice_str \<Rightarrow> choice_str = ''none''
     | None \<Rightarrow> (case get_array js request ''tools'' of Some tools \<Rightarrow> tools = [] | None \<Rightarrow> False))"

definition get_bool :: "'v json_api \<Rightarrow> 'v \<Rightarrow> string \<Rightarrow> bool option" where
  "get_bool js v k = Option.bind (js_get js v k) (js_bool js)"

fun first_stream :: "'v json_api \<Rightarrow> 'v list \<Rightarrow> bool" where
  "first_stream js [] = False"
| "first_stream js (msg # msgs) = (case get_bool js msg ''stream'' of Some b \<Rightarrow> b | None \<Rightarrow> first_stream js msgs)"

definition extract_streaming_preference :: "'v json_api \<Rightarrow> 'v \<Rightarrow> bool" where
  "extract_streaming_preference js request = (case get_bool js request ''stream'' of
       Some b \<Rightarrow> b
     | None \<Rightarrow> (case get_array js request ''messages'' of Some messages \<Rightarrow> first_stream js messages | None \<Rightarrow> False))"

definition is_streaming_disabled :: "'v json_api \<Rightarrow> 'v \<Rightarrow> bool" where
  "is_streaming_disabled js request = (case get_bool js request ''stream'' of Some b \<Rightarrow> \<not> b | None \<Rightarrow> False)"

section \<open>The classifier\<close>

definition classify :: "'v json_api \<Rightarrow> 'v \<Rightarrow> classified_request option" where
  "classify js request = Option.bind (detect_vision_required js request) (\<lambda>vision.
     let tools = detect_tools_required js request; streaming = extract_streaming_preference js request; thinking = False;
         format = detect_format js request; tokens = estimate_tokens js request; quality_preference = Balanced
     in Some \<lparr>required_caps = \<lparr>rc_vision = vision, rc_tools = tools, rc_streaming = streaming, rc_thinking = thinking\<rparr>,
          estimated_tokens = tokens, request_format = format, quality_pref = quality_preference\<rparr>)"

section \<open>Termination of the image search\<close>

text \<open>What the search relies on: a JSON value is finite, so that the elements of an array and the
  fields of a value have a smaller size.\<close>

definition finite_json :: "'v json_api \<Rightarrow> ('v \<Rightarrow> nat) \<Rightarrow> bool" where
  "finite_json js sz \<longleftrightarrow> (\<forall>v k w. js_get js v k = Some w \<longrightarrow> sz w < sz v)
     \<and> (\<forall>v vs w. js_array js v = Some vs \<longrightarrow> w \<in> set vs \<longrightarrow> sz w < sz v)"

text \<open>Where an image can be: a string with an image URL, an object of an image type, an array with an
  item that is one, has an image field or a base64 source, or whose content holds an image.\<close>

inductive has_image :: "'v json_api \<Rightarrow> 'v \<Rightarrow> bool" for js where
  text_image: "js_str js v = Some s \<Longrightarrow> text_contains_image_url s \<Longrightarrow> has_image js v"
| object_image: "js_str js v = None \<Longrightarrow> js_array js v = None \<Longrightarrow> js_object js v = Some obj \<Longrightarrow>
    image_type (Option.bind (obj ''type'') (js_str js)) \<Longrightarrow> has_image js v"
| typed_item: "js_str js v = None \<Longrightarrow> js_array js v = Some vs \<Longrightarrow> i \<in> set vs \<Longrightarrow>
    image_type (get_str js i ''type'') \<Longrightarrow> has_image js v"
| nested_item: "js_str js v = None \<Longrightarrow> js_array js v = Some vs \<Longrightarrow> i \<in> set vs \<Longrightarrow>
    js_get js i ''content'' = Some w \<Longrightarrow> has_image js w \<Longrightarrow> has_image js v"
| url_item: "js_str js v = None \<Longrightarrow> js_array js v = Some vs \<Longrightarrow> i \<in> set vs \<Longrightarrow>
    js_get js i ''image_url'' = Some w \<Longrightarrow> has_image js v"
| source_item: "js_str js v = None \<Longrightarrow> js_array js v = Some vs \<Longrightarrow> i \<in> set vs \<Longrightarrow>
    js_get js i ''source'' = Some w \<Longrightarrow> get_str js w ''type'' = Some ''base64'' \<Longrightarrow> has_image js v"

lemma any_opt_Some:
  assumes "\<And>x. x \<in> set xs \<Longrightarrow> P x = Some (Q x)"
  shows "any_opt P xs = Some (\<exists>x\<in>set xs. Q x)"
  using assms by (induction xs) auto

lemma content_item_Some:
  assumes "\<And>w. js_get js i ''content'' = Some w \<Longrightarrow> f w = Some (Q w)"
  shows "content_item_contains_image js f i = Some (image_type (get_str js i ''type'')
    \<or> (\<exists>w. js_get js i ''content'' = Some w \<and> Q w) \<or> js_get js i ''image_url'' \<noteq> None
    \<or> (\<exists>w. js_get js i ''source'' = Some w \<and> get_str js w ''type'' = Some ''base64''))"
  using assms by (auto simp: content_item_contains_image_def split: option.splits)

inductive_simps has_image_unfold: "has_image js v"

lemma content_contains_image_total:
  assumes "finite_json js sz"
  shows "content_contains_image js v = Some (has_image js v)"
proof (induction "sz v" arbitrary: v rule: less_induct)
  case less
  have item: "content_item_contains_image js (content_contains_image js) i = Some (image_type (get_str js i ''type'')
      \<or> (\<exists>w. js_get js i ''content'' = Some w \<and> has_image js w) \<or> js_get js i ''image_url'' \<noteq> None
      \<or> (\<exists>w. js_get js i ''source'' = Some w \<and> get_str js w ''type'' = Some ''base64''))"
    if "js_array js v = Some vs" "i \<in> set vs" for vs i
  proof (rule content_item_Some)
    fix w assume "js_get js i ''content'' = Some w"
    then have "sz w < sz v"
      using assms that unfolding finite_json_def by (meson less_trans)
    then show "content_contains_image js w = Some (has_image js w)" by (rule less.hyps)
  qed
  note unfold = content_contains_image.simps[of js v] has_image_unfold[of js v]
  show ?case
  proof (cases "js_str js v")
    case None
    show ?thesis
    proof (cases "js_array js v")
      case (Some vs)
      have "content_contains_image js v = Some (\<exists>i\<in>set vs. image_type (get_str js i ''type'')
          \<or> (\<exists>w. js_get js i ''content'' = Some w \<and> has_image js w) \<or> js_get js i ''image_url'' \<noteq> None
          \<or> (\<exists>w. js_get js i ''source'' = Some w \<and> get_str js w ''type'' = Some ''base64''))"
        using None Some item by (simp add: content_contains_image.simps[of js v] any_opt_Some)
      also have "(\<exists>i\<in>set vs. image_type (get_str js i ''type'')
          \<or> (\<exists>w. js_get js i ''content'' = Some w \<and> has_image js w) \<or> js_get js i ''image_url'' \<noteq> None
          \<or> (\<exists>w. js_get js i ''source'' = Some w \<and> get_str js w ''type'' = Some ''base64'')) \<longleftrightarrow> has_image js v"
        using None Some by (subst has_image_unfold[of js v]) auto
      finally show ?thesis .
    qed (use None unfold in \<open>auto split: option.splits\<close>)
  qed (use unfold in auto)
qed

lemma vision_total:
  assumes "finite_json js sz"
  shows "detect_vision_required js request = Some (case get_array js request ''messages'' of
      Some messages \<Rightarrow> \<exists>msg\<in>set messages. \<exists>c. js_get js msg ''content'' = Some c \<and> has_image js c
    | None \<Rightarrow> \<exists>c. js_get js request ''content'' = Some c \<and> has_image js c)"
proof -
  have "optional_content_image js v = Some (\<exists>c. js_get js v ''content'' = Some c \<and> has_image js c)" for v
    using content_contains_image_total[OF assms] by (auto simp: optional_content_image_def split: option.splits)
  then show ?thesis
    by (auto simp: detect_vision_required_def any_opt_Some split: option.splits)
qed

section \<open>Token counts are exact\<close>

text \<open>The text lengths a request is charged for, and their sum.\<close>

definition part_texts :: "'v json_api \<Rightarrow> 'v list \<Rightarrow> string list" where
  "part_texts js parts = List.map_filter (\<lambda>part. get_str js part ''text'') parts"

definition message_texts :: "'v json_api \<Rightarrow> 'v \<Rightarrow> string list" where
  "message_texts js msg = (case js_get js msg ''content'' of
     None \<Rightarrow> []
   | Some content \<Rightarrow> (case js_str js content of
       Some s \<Rightarrow> [s] | None \<Rightarrow> (case js_array js content of Some parts \<Rightarrow> part_texts js parts | None \<Rightarrow> [])))"

definition gemini_texts :: "'v json_api \<Rightarrow> 'v \<Rightarrow> string list" where
  "gemini_texts js content = (case get_array js content ''parts'' of Some parts \<Rightarrow> part_texts js parts | None \<Rightarrow> [])"

definition request_texts :: "'v json_api \<Rightarrow> 'v \<Rightarrow> string list" where
  "request_texts js request =
     (case get_array js request ''messages'' of
        Some messages \<Rightarrow> concat (map (message_texts js) messages)
      | None \<Rightarrow> (case get_array js request ''contents'' of
          Some contents \<Rightarrow> concat (map (gemini_texts js) contents)
        | None \<Rightarrow> (case get_str js request ''prompt'' of Some s \<Rightarrow> [s] | None \<Rightarrow> [])))
     @ (case get_str js request ''system'' of Some s \<Rightarrow> [s] | None \<Rightarrow> [])"

definition text_bytes :: "string list \<Rightarrow> nat" where "text_bytes ts = sum_list (map length ts)"

lemma text_bytes_simps [simp]: "text_bytes [] = 0" "text_bytes (t # ts) = length t + text_bytes ts"
  "text_bytes (ts @ us) = text_bytes ts + text_bytes us"
  by (simp_all add: text_bytes_def)

lemma fold_wrap_add:
  "fold (\<lambda>x a. wrap_add_u64 a (f x)) xs a mod 2 ^ 64 = (a + sum_list (map f xs)) mod 2 ^ 64"
  by (induction xs arbitrary: a) (simp_all add: wrap_add_u64_def mod_simps add.assoc)

lemma sum_mod_cong: "(\<And>x. x \<in> set xs \<Longrightarrow> f x mod m = g x mod m) \<Longrightarrow>
    sum_list (map f xs) mod m = sum_list (map g xs) mod (m :: nat)"
  by (induction xs) (auto intro: mod_add_cong)

lemma part_texts_bytes: "sum_list (map (\<lambda>p. text_len (get_str js p ''text'')) parts) = text_bytes (part_texts js parts)"
  by (induction parts) (auto simp: part_texts_def text_len_def List.map_filter_simps split: option.splits)

lemma message_chars: "extract_chars_from_message js msg mod 2 ^ 64 = text_bytes (message_texts js msg) mod 2 ^ 64"
  using fold_wrap_add[of "\<lambda>p. text_len (get_str js p ''text'')" _ 0]
  by (auto simp: extract_chars_from_message_def message_texts_def add_texts_def part_texts_bytes split: option.splits)

lemma gemini_chars: "extract_chars_from_gemini_content js c mod 2 ^ 64 = text_bytes (gemini_texts js c) mod 2 ^ 64"
  using fold_wrap_add[of "\<lambda>p. text_len (get_str js p ''text'')" _ 0]
  by (auto simp: extract_chars_from_gemini_content_def gemini_texts_def add_texts_def part_texts_bytes split: option.splits)

lemma text_bytes_concat: "text_bytes (concat (map f xs)) = sum_list (map (\<lambda>x. text_bytes (f x)) xs)"
  by (induction xs) simp_all

lemma fold_text_bytes:
  assumes "\<And>x. f x mod 2 ^ 64 = text_bytes (g x) mod 2 ^ 64"
  shows "(fold (\<lambda>x a. wrap_add_u64 a (f x)) xs 0 + n) mod 2 ^ 64 = (text_bytes (concat (map g xs)) + n) mod 2 ^ 64"
proof (rule mod_add_cong[OF _ refl])
  show "fold (\<lambda>x a. wrap_add_u64 a (f x)) xs 0 mod 2 ^ 64 = text_bytes (concat (map g xs)) mod 2 ^ 64"
    unfolding fold_wrap_add text_bytes_concat add_0 by (rule sum_mod_cong) (rule assms)
qed

lemma request_chars_bytes: "request_chars js request = text_bytes (request_texts js request) mod 2 ^ 64"
proof -
  let ?sys = "get_str js request ''system''"
  have sys: "text_len ?sys = text_bytes (case ?sys of Some s \<Rightarrow> [s] | None \<Rightarrow> [])"
    and prompt: "text_len (get_str js request ''prompt'') = text_bytes (case get_str js request ''prompt'' of Some s \<Rightarrow> [s] | None \<Rightarrow> [])"
    by (simp_all add: text_len_def split: option.splits)
  show ?thesis
  proof (cases "get_array js request ''messages''")
    case (Some messages)
    then show ?thesis
      unfolding request_chars_def request_texts_def wrap_add_u64_def[of _ "text_len ?sys"] Let_def
      by (simp only: option.case fold_text_bytes[OF message_chars] text_bytes_simps sys)
  next
    case none: None
    show ?thesis
    proof (cases "get_array js request ''contents''")
      case (Some contents)
      then show ?thesis
        unfolding request_chars_def request_texts_def wrap_add_u64_def[of _ "text_len ?sys"] Let_def none
        by (simp only: option.case fold_text_bytes[OF gemini_chars] text_bytes_simps sys)
    next
      case None
      then show ?thesis
        unfolding request_chars_def request_texts_def wrap_add_u64_def[of _ "text_len ?sys"] Let_def none
        by (simp only: option.case text_bytes_simps sys prompt)
    qed
  qed
qed

lemma ceil_quarter: "\<lceil>rat_of_nat n / 4\<rceil> = int ((n + 3) div 4)"
proof (rule ceiling_unique)
  have "real_of_nat n \<le> 4 * real_of_nat ((n + 3) div 4)" by linarith
  have "4 * ((n + 3) div 4) < n + 4" "n \<le> 4 * ((n + 3) div 4)" by linarith+
  then have "rat_of_nat (4 * ((n + 3) div 4)) < of_nat (n + 4)" "rat_of_nat n \<le> of_nat (4 * ((n + 3) div 4))"
    by (simp_all only: of_nat_less_iff of_nat_le_iff)
  then show "rat_of_int (int ((n + 3) div 4)) - 1 < rat_of_nat n / 4" "rat_of_nat n / 4 \<le> rat_of_int (int ((n + 3) div 4))"
    by (simp_all add: field_simps)
qed

lemma fceil_as_mono: "0 \<le> b \<Longrightarrow> x \<le> y \<Longrightarrow> fceil_as b x \<le> fceil_as b y"
  by (cases x; cases y) (auto simp: fceil_as_def min_def max_def dest: ceiling_mono)

lemma fdiv_chars_mono: "x \<le> y \<Longrightarrow> fdiv x chars_per_token \<le> fdiv y chars_per_token"
proof -
  have "f64_of q \<le> FPInf" "FNInf \<le> f64_of q" for q
    using f64_of_not_NaN[of q] by (cases "f64_of q"; simp)+
  then show "x \<le> y \<Longrightarrow> ?thesis"
    by (cases x; cases y) (auto simp: chars_per_token_def intro: f64_of_mono)
qed

lemma fceil_as_le: "0 \<le> b \<Longrightarrow> fceil_as b x \<le> b"
  by (cases x) (simp_all add: fceil_as_def)

text \<open>Below \<open>2 ^ 53\<close> the division is exact, from there on the cast saturates.\<close>

lemma input_exact: "nat (fceil_as (int u32_max) (fdiv (f64_nat n) chars_per_token)) = min u32_max ((n + 3) div 4)"
proof -
  have exact: "fceil_as (int u32_max) (fdiv (f64_nat k) chars_per_token) = int (min u32_max ((k + 3) div 4))"
    if k: "k \<le> 2 ^ 53" for k
  proof -
    have "rnd (of_int (int k) * 2 powi (- 2)) = of_int (int k) * 2 powi (- 2)"
      using k by (intro rnd_scaled_le) simp_all
    then have "rnd (rat_of_nat k / 4) = rat_of_nat k / 4"
      by (simp add: power_int_minus)
    moreover have "rat_of_nat k / 4 \<le> 2 ^ 53"
    proof -
      have "rat_of_nat k \<le> of_nat (2 ^ 53)" using k by (simp only: of_nat_le_iff)
      then show ?thesis by simp
    qed
    ultimately have "f64_of (rat_of_nat k / 4) = FFin (rat_of_nat k / 4)"
      using f64_of_finite[of "rat_of_nat k / 4"] by simp
    then have "fdiv (f64_nat k) chars_per_token = FFin (rat_of_nat k / 4)"
      unfolding f64_nat_exact[OF k] chars_per_token_def by simp
    then show ?thesis
      by (simp add: fceil_as_def ceil_quarter)
  qed
  show ?thesis
  proof (cases "n \<le> 2 ^ 53")
    case True
    then show ?thesis unfolding exact[OF True] by simp
  next
    case False
    have "f64_nat (2 ^ 53) \<le> f64_nat n"
      using False by (intro f64_of_mono) (simp only: of_nat_le_iff)
    then have "fceil_as (int u32_max) (fdiv (f64_nat (2 ^ 53)) chars_per_token) \<le> fceil_as (int u32_max) (fdiv (f64_nat n) chars_per_token)"
      by (intro fceil_as_mono fdiv_chars_mono) simp_all
    moreover have "fceil_as (int u32_max) (fdiv (f64_nat n) chars_per_token) \<le> int u32_max"
      by (intro fceil_as_le) simp
    ultimately have "fceil_as (int u32_max) (fdiv (f64_nat n) chars_per_token) = int u32_max"
      unfolding exact[OF order.refl] by (simp add: u32_max_def)
    then show ?thesis
      using False by (simp add: u32_max_def)
  qed
qed

text \<open>The estimate in integers: a quarter of the bytes of the texts rounded up, and the output.\<close>

definition token_bound :: "'v json_api \<Rightarrow> 'v \<Rightarrow> nat" where
  "token_bound js request =
     min u32_max ((text_bytes (request_texts js request) mod 2 ^ 64 + 3) div 4 + estimate_output js request)"

lemma estimate_tokens_exact: "estimate_tokens js request = token_bound js request"
proof -
  have cap: "min m (min m a + b) = min m (a + b)" for m a b :: nat
    by (simp add: min_def)
  show ?thesis
    unfolding estimate_tokens_def token_bound_def sat_add_u32_def estimate_input_def input_exact request_chars_bytes cap ..
qed

section \<open>Properties\<close>

text \<open>C34. The classifier returns for every finite JSON value; it asks for vision exactly if a message
  (or the request's own content) holds an image, and its token estimate is exact integer
  arithmetic: a quarter of the bytes of the texts, rounded up, plus the output limit, capped at
  the 32-bit maximum, although the code computes it in binary64. It is bytes that count, not the characters that
  the comments and a test of the code speak of: for texts beyond ASCII these differ (\<open>multibyte_estimate\<close>).\<close>

theorem classify_exact:
  assumes "finite_json js sz"
  shows "\<exists>c. classify js request = Some c \<and> request_format c = detect_format js request
    \<and> estimated_tokens c = token_bound js request
    \<and> rc_vision (required_caps c) = (case get_array js request ''messages'' of
        Some messages \<Rightarrow> list_ex (\<lambda>msg. case js_get js msg ''content'' of Some v \<Rightarrow> has_image js v | None \<Rightarrow> False) messages
      | None \<Rightarrow> (case js_get js request ''content'' of Some v \<Rightarrow> has_image js v | None \<Rightarrow> False))"
  using vision_total[OF assms, of request]
  by (auto simp: classify_def Let_def estimate_tokens_exact list_ex_iff split: option.splits)

text \<open>An instance of the accessors: finite JSON trees.\<close>

datatype json = JNull | JBool bool | JNum nat | JFloat f64 | JStr string | JArr "json list" | JObj "(string \<times> json) list"

definition json_tree :: "json json_api" where
  "json_tree = \<lparr>js_get = (\<lambda>v k. case v of JObj fs \<Rightarrow> map_of fs k | _ \<Rightarrow> None),
     js_array = (\<lambda>v. case v of JArr vs \<Rightarrow> Some vs | _ \<Rightarrow> None), js_str = (\<lambda>v. case v of JStr s \<Rightarrow> Some s | _ \<Rightarrow> None),
     js_bool = (\<lambda>v. case v of JBool b \<Rightarrow> Some b | _ \<Rightarrow> None), js_u64 = (\<lambda>v. case v of JNum n \<Rightarrow> Some n | _ \<Rightarrow> None),
     js_is_null = (\<lambda>v. v = JNull), js_object = (\<lambda>v. case v of JObj fs \<Rightarrow> Some (map_of fs) | _ \<Rightarrow> None)\<rparr>"

lemma finite_json_tree: "finite_json json_tree size"
proof -
  have "size w < size (JObj fs)" if "map_of fs k = Some w" for fs k and w :: json
  proof -
    have "(k, w) \<in> set fs" using that by (rule map_of_SomeD)
    then have "size_prod (\<lambda>_. 0) size (k, w) \<le> size_list (size_prod (\<lambda>_. 0) size) fs"
      by (rule size_list_estimation') simp
    then show ?thesis by simp
  qed
  moreover have "size w < size (JArr vs)" if "w \<in> set vs" for vs and w :: json
    using size_list_estimation'[OF that order.refl, of size] by simp
  ultimately show ?thesis
    by (auto simp: finite_json_def json_tree_def split: json.splits)
qed

definition image_item :: json where
  "image_item = JObj [(''type'', JStr ''image_url''), (''image_url'', JObj [(''url'', JStr ''x'')])]"

definition sample_json_request :: json where
  "sample_json_request = JObj [(''messages'', JArr [JObj [(''role'', JStr ''user''), (''content'',
       JArr [JObj [(''type'', JStr ''text''), (''text'', JStr ''what is it?'')], image_item])]]),
     (''max_tokens'', JNum 100)]"

theorem classify_exact_witness:
  "\<exists>c. classify json_tree sample_json_request = Some c \<and> request_format c = OpenAIFormat \<and> estimated_tokens c = 103
    \<and> rc_vision (required_caps c)"
proof -
  have "has_image json_tree (JArr [x, image_item])" for x
    by (rule typed_item[where vs = "[x, image_item]" and i = image_item])
      (simp_all add: json_tree_def image_type_def get_str_def image_item_def)
  note image = this
  have "token_bound json_tree sample_json_request = 103"
    by (simp add: token_bound_def request_texts_def message_texts_def part_texts_def List.map_filter_simps sample_json_request_def json_tree_def
        image_item_def get_array_def get_str_def estimate_output_def u32_max_def)
  moreover have "detect_format json_tree sample_json_request = OpenAIFormat"
    by (simp add: detect_format_def is_gemini_format_def is_anthropic_format_def is_openai_format_def get_array_def
        sample_json_request_def json_tree_def)
  ultimately show ?thesis
    using classify_exact[OF finite_json_tree, of sample_json_request]
    by (auto simp: sample_json_request_def get_array_def image[unfolded json_tree_def] json_tree_def)
qed

text \<open>The characters of a UTF-8 text are its bytes that are no continuation bytes. Eleven characters of
  three bytes, as in the test that expects characters to be counted, have the input estimate of 33 ASCII letters:
  nine tokens instead of three, with the default output 521.\<close>

definition utf8_chars :: "string \<Rightarrow> nat" where
  "utf8_chars s = length (filter (\<lambda>c. of_char c < (128::nat) \<or> 192 \<le> (of_char c :: nat)) s)"

definition multibyte_text :: string where
  "multibyte_text = concat (replicate 11 [char_of (228::nat), char_of (189::nat), char_of (160::nat)])"

theorem multibyte_estimate:
  "utf8_chars multibyte_text = 11
   \<and> (\<exists>c. classify json_tree (JObj [(''prompt'', JStr multibyte_text)]) = Some c \<and> estimated_tokens c = 9 + 512)
   \<and> (\<exists>c. classify json_tree (JObj [(''prompt'', JStr (replicate 11 CHR ''x''))]) = Some c \<and> estimated_tokens c = 3 + 512)"
proof -
  have bound: "token_bound json_tree (JObj [(''prompt'', JStr t)]) = min u32_max ((length t mod 2 ^ 64 + 3) div 4 + 512)" for t
    by (simp add: token_bound_def request_texts_def json_tree_def get_array_def get_str_def estimate_output_def
        default_output_tokens_def text_bytes_def)
  have "length multibyte_text = 33" by (simp add: multibyte_text_def length_concat sum_list_replicate)
  moreover have "utf8_chars multibyte_text = 11" by (simp add: utf8_chars_def multibyte_text_def filter_concat length_concat sum_list_replicate)
  moreover have est: "\<exists>c. classify json_tree (JObj [(''prompt'', JStr t)]) = Some c
      \<and> estimated_tokens c = token_bound json_tree (JObj [(''prompt'', JStr t)])" for t
    using vision_total[OF finite_json_tree, of "JObj [(''prompt'', JStr t)]"]
    by (auto simp: classify_def Let_def estimate_tokens_exact)
  ultimately show ?thesis
    using est[of multibyte_text] est[of "replicate 11 CHR ''x''"] by (simp add: bound u32_max_def)
qed

text \<open>Images of a Gemini request are not seen: without a \<open>messages\<close> array and a \<open>content\<close> field, as in
  the Gemini format, no request requires vision, whatever its \<open>contents\<close> hold.\<close>

theorem gemini_images_ignored:
  assumes "get_array js request ''contents'' \<noteq> None" and "get_array js request ''messages'' = None"
    and "js_get js request ''content'' = None"
  shows "\<exists>c. classify js request = Some c \<and> request_format c = GeminiFormat \<and> \<not> rc_vision (required_caps c)"
  using assms by (simp add: classify_def detect_vision_required_def optional_content_image_def Let_def detect_format_def is_gemini_format_def)

theorem gemini_images_ignored_witness:
  "\<exists>c. classify json_tree (JObj [(''contents'', JArr [JObj [(''parts'', JArr [JObj [(''inline_data'',
     JObj [(''mime_type'', JStr ''image/png'')])]])]])]) = Some c \<and> request_format c = GeminiFormat \<and> \<not> rc_vision (required_caps c)"
  by (rule gemini_images_ignored) (simp_all add: json_tree_def get_array_def)

text \<open>A null \<open>max_tokens\<close> hides \<open>max_completion_tokens\<close>, and a request with tools requires them even if
  \<open>tool_choice\<close> disables them.\<close>

lemma null_max_tokens_default:
  "js_get js request ''max_tokens'' = Some v \<Longrightarrow> js_u64 js v = None \<Longrightarrow> estimate_output js request = default_output_tokens"
  by (simp add: estimate_output_def)

lemma disabled_tools_required:
  "get_array js request ''tools'' = Some (t # ts) \<Longrightarrow> get_str js request ''tool_choice'' = Some ''none'' \<Longrightarrow>
    is_tools_disabled js request \<and> detect_tools_required js request"
  by (simp add: is_tools_disabled_def detect_tools_required_def)

end
