(* ===== verification/Registry.thy ===== *)
theory Registry
  imports ModelInfo
begin

text \<open>
  The model registry (src/registry/registry/{mod,operations}.rs) and its static fetcher
  (src/registry/fetcher.rs): a cache of model records with a time to live over a fetcher. Here an
  operation runs while no other task fetches the same model; concurrent fetches are in theory
  Coalesce. A fetcher is the trait's two operations the registry calls, over a state of its own
  (\<open>'w\<close>). An operation takes the clock readings it makes; the order in which a hash map is iterated
  is the order of the list. Boxed errors keep the value whose text the code puts in the box.
\<close>

section \<open>Fetchers\<close>

record 'w fetcher =
  fetch_model :: "string \<Rightarrow> 'w \<Rightarrow> (string + model_info option) \<times> 'w"
  list_all_models :: "'w \<Rightarrow> (string + model_info hmap) \<times> 'w"

record static_fetcher =
  sf_models :: "model_info hmap"

definition static_model :: "string \<Rightarrow> string \<Rightarrow> string \<Rightarrow> nat \<Rightarrow> nat \<Rightarrow> rat \<Rightarrow> rat \<Rightarrow> bool \<Rightarrow> nat \<Rightarrow> nat \<Rightarrow> string \<times> model_info" where
  "static_model mid name provider window out inp outp thinking rpm tpm =
     (mid, \<lparr>mi_id = mid, mi_name = name, mi_provider = provider, context_window = window, max_output_tokens = out,
        input_price_per_million = f64_of inp, output_price_per_million = f64_of outp,
        mi_capabilities = \<lparr>cap_streaming = True, cap_tools = True, cap_vision = True, cap_thinking = thinking\<rparr>,
        mi_rate_limits = \<lparr>requests_per_minute = rpm, tokens_per_minute = tpm\<rparr>, mi_source = StaticSource\<rparr>)"

definition build_models :: "model_info hmap" where
  "build_models =
    [static_model ''claude-sonnet-4-20250514'' ''Claude Sonnet 4'' ''anthropic'' 200000 8192 3 15 False 60 300000,
     static_model ''claude-opus-4-20250514'' ''Claude Opus 4'' ''anthropic'' 200000 8192 15 75 True 60 300000,
     static_model ''gpt-4o'' ''GPT-4o'' ''openai'' 128000 4096 (5 / 2) 10 False 500 150000,
     static_model ''gpt-4-turbo'' ''GPT-4 Turbo'' ''openai'' 128000 4096 (1 / 2) 2 False 500 300000,
     static_model ''gemini-2.5-pro'' ''Gemini 2.5 Pro'' ''google'' 1000000 8192 (5 / 4) 5 False 60 120000,
     static_model ''gemini-2.5-flash'' ''Gemini 2.5 Flash'' ''google'' 1000000 8192 (75 / 1000) (30 / 100) False 100 1000000]"

definition static_fetcher_new :: static_fetcher where
  "static_fetcher_new = \<lparr>sf_models = build_models\<rparr>"

definition static_fetch :: "string \<Rightarrow> static_fetcher \<Rightarrow> (string + model_info option) \<times> static_fetcher" where
  "static_fetch model_id s = (Inr (hm_get (sf_models s) model_id), s)"

fun collect_models :: "model_info hmap \<Rightarrow> string list \<Rightarrow> model_info hmap \<Rightarrow> model_info hmap" where
  "collect_models models [] result = result"
| "collect_models models (model_id # ids) result =
     collect_models models ids (case hm_get models model_id of Some m \<Rightarrow> hm_insert model_id m result | None \<Rightarrow> result)"

definition static_fetch_multiple :: "string list \<Rightarrow> static_fetcher \<Rightarrow> string + model_info hmap" where
  "static_fetch_multiple model_ids s = Inr (collect_models (sf_models s) model_ids [])"

definition static_list_all :: "static_fetcher \<Rightarrow> (string + model_info hmap) \<times> static_fetcher" where
  "static_list_all s = (Inr (sf_models s), s)"

definition static_fetcher_ops :: "static_fetcher fetcher" where
  "static_fetcher_ops = \<lparr>fetch_model = static_fetch, list_all_models = static_list_all\<rparr>"

section \<open>The registry\<close>

record cached_model_info =
  cm_info :: model_info
  cm_expires_at :: time

record registry_config =
  rcfg_ttl :: time
  rcfg_enable_background_refresh :: bool
  rcfg_refresh_interval :: time

definition default_registry_config :: registry_config where
  "default_registry_config = (let ttl = seconds 3600 in
     \<lparr>rcfg_ttl = ttl, rcfg_enable_background_refresh = False, rcfg_refresh_interval = ttl div 2\<rparr>)"

record registry =
  rg_cache :: "cached_model_info hmap"
  rg_ttl :: time

definition registry_with_config :: "registry_config \<Rightarrow> registry" where
  "registry_with_config cfg = \<lparr>rg_cache = [], rg_ttl = rcfg_ttl cfg\<rparr>"

definition registry_new :: registry where "registry_new = registry_with_config default_registry_config"

datatype registry_error = EmptyModelId | ValidationFailed model_info_error | FetchFailed string

definition cache_model :: "string \<Rightarrow> model_info \<Rightarrow> time \<Rightarrow> registry \<Rightarrow> registry" where
  "cache_model mid info expires r = r\<lparr>rg_cache := hm_insert mid \<lparr>cm_info = info, cm_expires_at = expires\<rparr> (rg_cache r)\<rparr>"

definition fetch_and_cache :: "'w fetcher \<Rightarrow> time \<Rightarrow> string \<Rightarrow> 'w \<times> registry \<Rightarrow> (registry_error + model_info option) \<times> ('w \<times> registry)" where
  "fetch_and_cache fetcher now model_id st = (case st of (w, r) \<Rightarrow> (case fetch_model fetcher model_id w of
       (Inr (Some info), w') \<Rightarrow> (case model_validate info of
           Inl e \<Rightarrow> (Inl (ValidationFailed e), (w', r))
         | Inr _ \<Rightarrow> (Inr (Some info), (w', cache_model model_id info (now + rg_ttl r) r)))
     | (Inr None, w') \<Rightarrow> (Inr None, (w', r))
     | (Inl e, w') \<Rightarrow> (Inl (FetchFailed e), (w', r))))"

definition fresh_model :: "time \<Rightarrow> registry \<Rightarrow> string \<Rightarrow> model_info option" where
  "fresh_model now r model_id = (case hm_get (rg_cache r) model_id of
     Some cached \<Rightarrow> (if now < cm_expires_at cached then Some (cm_info cached) else None) | None \<Rightarrow> None)"

definition model_get :: "'w fetcher \<Rightarrow> time \<times> time \<Rightarrow> string \<Rightarrow> 'w \<times> registry \<Rightarrow> (registry_error + model_info option) \<times> ('w \<times> registry)" where
  "model_get fetcher clock model_id st =
     (if model_id = [] then (Inl EmptyModelId, st)
      else case fresh_model (fst clock) (snd st) model_id of
          Some info \<Rightarrow> (Inr (Some info), st)
        | None \<Rightarrow> fetch_and_cache fetcher (snd clock) model_id st)"

fun refresh_each :: "'w fetcher \<Rightarrow> (nat \<Rightarrow> time \<times> time) \<Rightarrow> string list \<Rightarrow> 'w \<times> registry \<Rightarrow> 'w \<times> registry" where
  "refresh_each fetcher clocks [] st = st"
| "refresh_each fetcher clocks (mid # ids) st =
     refresh_each fetcher clocks ids (snd (model_get fetcher (clocks (length ids)) mid st))"

text \<open>The spawned tasks of \<open>get_multiple\<close>, one after the other. The first argument of a schedule is the order in which they
  are joined; the first error ends the call and aborts the tasks that are left, but some of them, the second
  argument says which, have run by then.\<close>

type_synonym schedule = "(string list \<Rightarrow> string list) \<times> (string list \<Rightarrow> string list)"

fun run_gets :: "'w fetcher \<Rightarrow> (string list \<Rightarrow> string list) \<Rightarrow> (nat \<Rightarrow> time \<times> time) \<Rightarrow> string list \<Rightarrow> model_info hmap \<Rightarrow> 'w \<times> registry
    \<Rightarrow> (registry_error + model_info hmap) \<times> ('w \<times> registry)" where
  "run_gets fetcher late clocks [] result st = (Inr result, st)"
| "run_gets fetcher late clocks (mid # ids) result st = (case model_get fetcher (clocks (length ids)) mid st of
       (Inl e, st') \<Rightarrow> (Inl e, refresh_each fetcher clocks (late ids) st')
     | (Inr None, st') \<Rightarrow> run_gets fetcher late clocks ids result st'
     | (Inr (Some info), st') \<Rightarrow> run_gets fetcher late clocks ids (hm_insert mid info result) st')"

definition to_fetch :: "time \<Rightarrow> registry \<Rightarrow> string list \<Rightarrow> string list" where
  "to_fetch now r model_ids = filter (\<lambda>mid. fresh_model now r mid = None) (filter (\<lambda>mid. mid \<noteq> []) model_ids)"

definition cached_results :: "time \<Rightarrow> registry \<Rightarrow> string list \<Rightarrow> model_info hmap" where
  "cached_results now r model_ids =
     fold (\<lambda>mid result. case fresh_model now r mid of Some info \<Rightarrow> hm_insert mid info result | None \<Rightarrow> result)
       (filter (\<lambda>mid. mid \<noteq> []) model_ids) []"

definition get_multiple :: "'w fetcher \<Rightarrow> schedule \<Rightarrow> time \<Rightarrow> (nat \<Rightarrow> time \<times> time) \<Rightarrow> string list \<Rightarrow> 'w \<times> registry
    \<Rightarrow> (registry_error + model_info hmap) \<times> ('w \<times> registry)" where
  "get_multiple fetcher order now clocks model_ids st =
     (if model_ids = [] then (Inr [], st)
      else run_gets fetcher (snd order) clocks (fst order (to_fetch now (snd st) model_ids)) (cached_results now (snd st) model_ids) st)"

fun insert_valid_models :: "time \<Rightarrow> model_info hmap \<Rightarrow> registry \<Rightarrow> registry" where
  "insert_valid_models expires [] r = r"
| "insert_valid_models expires ((mid, info) # models) r =
     insert_valid_models expires models (case model_validate info of Inl _ \<Rightarrow> r | Inr _ \<Rightarrow> cache_model mid info expires r)"

definition refresh :: "'w fetcher \<Rightarrow> time \<Rightarrow> (nat \<Rightarrow> time \<times> time) \<Rightarrow> string list \<Rightarrow> 'w \<times> registry \<Rightarrow> (registry_error + unit) \<times> ('w \<times> registry)" where
  "refresh fetcher now clocks model_ids st =
     (if model_ids = [] then (case list_all_models fetcher (fst st) of
           (Inl e, w) \<Rightarrow> (Inl (FetchFailed e), (w, snd st))
         | (Inr models, w) \<Rightarrow> (Inr (), (w, insert_valid_models (now + rg_ttl (snd st)) models (snd st))))
      else (Inr (), refresh_each fetcher clocks model_ids st))"

definition invalidate :: "string list \<Rightarrow> registry \<Rightarrow> registry" where
  "invalidate model_ids r =
     (if model_ids = [] then r\<lparr>rg_cache := []\<rparr> else r\<lparr>rg_cache := fold hm_remove model_ids (rg_cache r)\<rparr>)"

definition cached_count :: "time \<Rightarrow> registry \<Rightarrow> nat" where
  "cached_count now r = length (filter (\<lambda>c. now < cm_expires_at c) (map snd (rg_cache r)))"

definition cached_ids :: "registry \<Rightarrow> string list" where "cached_ids r = map fst (rg_cache r)"

definition drop_expired :: "time \<Rightarrow> registry \<Rightarrow> registry" where
  "drop_expired now r = r\<lparr>rg_cache := hm_retain (\<lambda>cached. now < cm_expires_at cached) (rg_cache r)\<rparr>"

definition registry_cleanup_expired :: "time \<Rightarrow> registry \<Rightarrow> nat \<times> registry" where
  "registry_cleanup_expired now r =
     (let initial_len = length (rg_cache r); r' = drop_expired now r in (initial_len - length (rg_cache r'), r'))"

text \<open>One tick of the background task; it holds the cache for all of it.\<close>

definition background_tick :: "'w fetcher \<Rightarrow> time \<Rightarrow> 'w \<times> registry \<Rightarrow> 'w \<times> registry" where
  "background_tick fetcher now st = (case list_all_models fetcher (fst st) of
     (res, w) \<Rightarrow> (w, drop_expired now (case res of
         Inr models \<Rightarrow> insert_valid_models (now + rg_ttl (snd st)) models (snd st) | Inl _ \<Rightarrow> snd st)))"

section \<open>Queries\<close>

definition find_models :: "(model_info \<Rightarrow> bool) \<Rightarrow> time \<Rightarrow> registry \<Rightarrow> model_info list" where
  "find_models P now r = map cm_info (filter (\<lambda>c. now < cm_expires_at c \<and> P (cm_info c)) (map snd (rg_cache r)))"

definition find_by_capability :: "string \<Rightarrow> time \<Rightarrow> registry \<Rightarrow> model_info list" where
  "find_by_capability capability = find_models (\<lambda>m. supports_capability m capability)"
definition find_by_provider :: "string \<Rightarrow> time \<Rightarrow> registry \<Rightarrow> model_info list" where
  "find_by_provider provider = find_models (\<lambda>m. mi_provider m = provider)"
definition filter_by_capability :: "capability_category \<Rightarrow> time \<Rightarrow> registry \<Rightarrow> model_info list" where
  "filter_by_capability cap = find_models (\<lambda>m. has_any_capability m [cap])"
definition filter_by_tier :: "tier_category \<Rightarrow> time \<Rightarrow> registry \<Rightarrow> model_info list" where
  "filter_by_tier tier = find_models (\<lambda>m. is_in_tier m tier)"
definition filter_by_cost :: "cost_category \<Rightarrow> time \<Rightarrow> registry \<Rightarrow> model_info list" where
  "filter_by_cost cost = find_models (\<lambda>m. is_in_cost_range m cost)"
definition filter_by_context_window :: "context_window_category \<Rightarrow> time \<Rightarrow> registry \<Rightarrow> model_info list" where
  "filter_by_context_window ctx = find_models (\<lambda>m. is_in_context_range m ctx)"
definition filter_by_provider :: "provider_category \<Rightarrow> time \<Rightarrow> registry \<Rightarrow> model_info list" where
  "filter_by_provider provider = find_models (\<lambda>m. is_from_provider m provider)"

definition estimate_costs :: "'w fetcher \<Rightarrow> schedule \<Rightarrow> time \<Rightarrow> (nat \<Rightarrow> time \<times> time) \<Rightarrow> string list \<Rightarrow> nat \<Rightarrow> nat
    \<Rightarrow> 'w \<times> registry \<Rightarrow> f64 hmap \<times> ('w \<times> registry)" where
  "estimate_costs fetcher order now clocks model_ids input_tokens output_tokens st =
     (case get_multiple fetcher order now clocks model_ids st of
        (Inl _, st') \<Rightarrow> ([], st')
      | (Inr models, st') \<Rightarrow>
          (fold (\<lambda>(mid, m) costs. hm_insert mid (estimate_cost m input_tokens output_tokens) costs) models [], st'))"

text \<open>\<open>Iterator::min_by\<close>: of equal elements the first one wins.\<close>

fun min_by :: "('a \<Rightarrow> 'a \<Rightarrow> bool) \<Rightarrow> 'a list \<Rightarrow> 'a option" where
  "min_by gt [] = None"
| "min_by gt (x # xs) = Some (fold (\<lambda>y m. if gt m y then y else m) xs x)"

definition best_fit_cost :: "nat \<Rightarrow> model_info \<Rightarrow> f64" where
  "best_fit_cost tokens m = estimate_cost m
     (nat (ftrunc_as (int u64_max) (fmul (f64_nat tokens) (f64_of (7 / 10)))))
     (nat (ftrunc_as (int u64_max) (fmul (f64_nat tokens) (f64_of (3 / 10)))))"

definition find_best_fit :: "nat \<Rightarrow> time \<Rightarrow> registry \<Rightarrow> model_info option" where
  "find_best_fit tokens now r = min_by (\<lambda>a b. fcmp_or_equal (best_fit_cost tokens a) (best_fit_cost tokens b) = Greater)
     (find_models (\<lambda>m. can_fit_context m tokens) now r)"

section \<open>What the cache holds\<close>

text \<open>Every entry has passed the validation and expires at most a time to live after the latest clock
  reading.\<close>

definition entry_valid :: "time \<Rightarrow> cached_model_info \<Rightarrow> bool" where
  "entry_valid bound c \<longleftrightarrow> model_validate (cm_info c) = Inr () \<and> cm_expires_at c \<le> bound"

definition cache_inv :: "time \<Rightarrow> time \<Rightarrow> registry \<Rightarrow> bool" where
  "cache_inv latest ttl r \<longleftrightarrow> hm_ok (rg_cache r) \<and> rg_ttl r = ttl \<and> (\<forall>(mid, c)\<in>set (rg_cache r). entry_valid (latest + ttl) c)"

lemma cache_inv_insert:
  "cache_inv t ttl r \<Longrightarrow> model_validate info = Inr () \<Longrightarrow> e \<le> t + ttl \<Longrightarrow> cache_inv t ttl (cache_model mid info e r)"
  by (auto simp: cache_inv_def cache_model_def entry_valid_def hm_in_insert split: if_splits)

lemma cache_inv_sub: "cache_inv t ttl r \<Longrightarrow> hm_ok c \<Longrightarrow> set c \<subseteq> set (rg_cache r) \<Longrightarrow> cache_inv t ttl (r\<lparr>rg_cache := c\<rparr>)"
  by (auto simp: cache_inv_def)

lemma cache_inv_fresh:
  assumes "cache_inv t ttl r" and "fresh_model now r mid = Some info"
  shows "model_validate info = Inr () \<and> now < t + ttl"
proof -
  obtain c where "hm_get (rg_cache r) mid = Some c" "cm_info c = info" "now < cm_expires_at c"
    using assms(2) by (auto simp: fresh_model_def split: option.splits if_splits)
  then show ?thesis
    using assms(1) by (force simp: cache_inv_def entry_valid_def dest: map_of_SomeD)
qed

lemma fetch_and_cache_inv:
  assumes "cache_inv t ttl (snd st)" and "now \<le> t"
  shows "cache_inv t ttl (snd (snd (fetch_and_cache fetcher now mid st)))"
proof -
  have "now + rg_ttl (snd st) \<le> t + ttl" using assms by (simp add: cache_inv_def)
  then show ?thesis
    using assms cache_inv_insert by (cases st) (auto simp: fetch_and_cache_def split: sum.splits option.splits prod.splits)
qed

lemma fetched_valid: "fst (fetch_and_cache fetcher now mid st) = Inr (Some info) \<Longrightarrow> model_validate info = Inr ()"
  by (cases st) (auto simp: fetch_and_cache_def split: sum.splits option.splits prod.splits)

lemma model_get_inv:
  "cache_inv t ttl (snd st) \<Longrightarrow> snd clock \<le> t \<Longrightarrow> cache_inv t ttl (snd (snd (model_get fetcher clock mid st)))"
  by (simp add: model_get_def fetch_and_cache_inv split: option.split)

lemma model_get_valid:
  "cache_inv t ttl (snd st) \<Longrightarrow> fst (model_get fetcher clock mid st) = Inr (Some info) \<Longrightarrow> model_validate info = Inr ()"
  by (auto simp: model_get_def fetched_valid dest: cache_inv_fresh split: if_splits option.splits)

lemma refresh_each_inv:
  assumes "\<forall>n. snd (clocks n) \<le> t"
  shows "cache_inv t ttl (snd st) \<Longrightarrow> cache_inv t ttl (snd (refresh_each fetcher clocks ids st))"
  by (induction ids arbitrary: st) (simp_all add: model_get_inv assms)

lemma run_gets_inv:
  assumes "\<forall>n. snd (clocks n) \<le> t"
  shows "cache_inv t ttl (snd st) \<Longrightarrow> cache_inv t ttl (snd (snd (run_gets fetcher late clocks ids result st)))"
proof (induction ids arbitrary: result st)
  case (Cons mid ids)
  let ?g = "model_get fetcher (clocks (length ids)) mid st"
  have "cache_inv t ttl (snd (snd ?g))"
    using Cons.prems assms by (intro model_get_inv) simp_all
  then show ?case
    using Cons.IH[of "snd ?g"] refresh_each_inv[OF assms, of ttl "snd ?g"] by (auto split: prod.split sum.split option.split)
qed simp

lemma insert_valid_models_inv:
  "cache_inv t ttl r \<Longrightarrow> e \<le> t + ttl \<Longrightarrow> cache_inv t ttl (insert_valid_models e models r)"
  by (induction e models r rule: insert_valid_models.induct) (auto simp: cache_inv_insert split: sum.split)

lemma drop_expired_inv: "cache_inv t ttl r \<Longrightarrow> cache_inv t ttl (drop_expired now r)"
  by (auto simp: drop_expired_def hm_retain_def hm_ok_filter cache_inv_def)

lemma fold_remove_sub: "hm_ok c \<Longrightarrow> hm_ok (fold hm_remove ids c) \<and> set (fold hm_remove ids c) \<subseteq> set c"
proof (induction ids arbitrary: c)
  case (Cons i ids)
  have "set (hm_remove i c) \<subseteq> set c" by (auto simp: AList.delete_eq)
  with Cons.IH[of "hm_remove i c"] Cons.prems show ?case by auto
qed simp

lemma invalidate_inv: "cache_inv t ttl r \<Longrightarrow> cache_inv t ttl (invalidate ids r)"
  using fold_remove_sub[of "rg_cache r" ids]
  by (auto simp: invalidate_def cache_inv_def intro: cache_inv_sub)

lemmas registry_inv = model_get_inv run_gets_inv refresh_each_inv insert_valid_models_inv drop_expired_inv invalidate_inv

section \<open>Runs of the registry\<close>

datatype registry_op =
    GetModel string | GetMultiple "string list" | Refresh "string list" | Invalidate "string list" | Cleanup | Tick

text \<open>A step is an operation with the clock readings it makes.\<close>

type_synonym readings = "time \<times> (nat \<Rightarrow> time \<times> time)"

fun cache_step :: "'w fetcher \<Rightarrow> schedule \<Rightarrow> readings \<times> registry_op \<Rightarrow> 'w \<times> registry \<Rightarrow> 'w \<times> registry" where
  "cache_step fetcher order ((now, clocks), GetModel mid) st = snd (model_get fetcher (clocks 0) mid st)"
| "cache_step fetcher order ((now, clocks), GetMultiple ids) st = snd (get_multiple fetcher order now clocks ids st)"
| "cache_step fetcher order ((now, clocks), Refresh ids) st = snd (refresh fetcher now clocks ids st)"
| "cache_step fetcher order ((now, clocks), Invalidate ids) (w, r) = (w, invalidate ids r)"
| "cache_step fetcher order ((now, clocks), Cleanup) (w, r) = (w, snd (registry_cleanup_expired now r))"
| "cache_step fetcher order ((now, clocks), Tick) st = background_tick fetcher now st"

definition before :: "time \<Rightarrow> readings \<times> registry_op \<Rightarrow> bool" where
  "before t s \<longleftrightarrow> fst (fst s) \<le> t \<and> (\<forall>n. snd (snd (fst s) n) \<le> t)"

lemma cache_step_inv:
  assumes "cache_inv t ttl (snd st)" and "before t s"
  shows "cache_inv t ttl (snd (cache_step fetcher order s st))"
proof -
  obtain now clocks opn where s: "s = ((now, clocks), opn)" by (metis prod.exhaust)
  have t: "now \<le> t" "\<forall>n. snd (clocks n) \<le> t" using assms(2) s by (auto simp: before_def)
  have e: "now + rg_ttl (snd st) \<le> t + ttl" using assms(1) t by (simp add: cache_inv_def)
  show ?thesis
    unfolding s using assms(1) t e
    by (cases opn; cases st)
      (auto simp: get_multiple_def refresh_def registry_cleanup_expired_def Let_def background_tick_def registry_inv
        split: prod.split sum.split)
qed

definition registry_run :: "'w fetcher \<Rightarrow> schedule \<Rightarrow> (readings \<times> registry_op) list \<Rightarrow> registry_config \<Rightarrow> 'w \<Rightarrow> 'w \<times> registry" where
  "registry_run fetcher order steps cfg w = fold (cache_step fetcher order) steps (w, registry_with_config cfg)"

lemma registry_run_inv:
  assumes "list_all (before t) steps"
  shows "cache_inv t (rcfg_ttl cfg) (snd (registry_run fetcher order steps cfg w))"
proof -
  have "cache_inv t ttl (snd (fold (cache_step fetcher order) steps st))" if "cache_inv t ttl (snd st)" for ttl st
    using that assms by (induction steps arbitrary: st) (simp_all add: cache_step_inv)
  moreover have "cache_inv t (rcfg_ttl cfg) (snd (w, registry_with_config cfg))"
    by (simp add: registry_with_config_def cache_inv_def)
  ultimately show ?thesis
    unfolding registry_run_def by blast
qed

text \<open>C33. The registry only hands out validated models and none for longer than its time to live:
  after any operations, whatever the fetcher does, a model returned by \<open>get\<close> has passed the
  validation, and a \<open>get\<close> made a time to live or more after all of them asks the fetcher.\<close>

theorem registry_serves_valid_fresh_models:
  assumes "list_all (before t) steps" and "registry_run fetcher order steps cfg w = st"
  shows "(fst (model_get fetcher clock mid st) = Inr (Some info) \<longrightarrow> model_validate info = Inr ())
    \<and> (t + rcfg_ttl cfg \<le> fst clock \<and> mid \<noteq> [] \<longrightarrow>
        model_get fetcher clock mid st = fetch_and_cache fetcher (snd clock) mid st)"
proof -
  have inv: "cache_inv t (rcfg_ttl cfg) (snd st)"
    using registry_run_inv[OF assms(1), of cfg fetcher order w] assms(2) by simp
  have "fresh_model (fst clock) (snd st) mid = None" if "t + rcfg_ttl cfg \<le> fst clock"
    using cache_inv_fresh[OF inv, of "fst clock" mid] that by (cases "fresh_model (fst clock) (snd st) mid") auto
  then show ?thesis
    using model_get_valid[OF inv] by (auto simp: model_get_def)
qed

text \<open>The models of the static fetcher pass the validation, so that a registry over it serves them.\<close>

lemma f64_of_not_negative: "0 \<le> q \<Longrightarrow> \<not> f64_of q < f64_0"
  by (simp add: f64_not_less f64_of_nonneg)

lemma static_models_valid: "(mid, m) \<in> set build_models \<Longrightarrow> mi_id m = mid \<and> mid \<noteq> [] \<and> model_validate m = Inr ()"
  by (auto simp: build_models_def static_model_def model_validate_def f64_of_not_negative)

lemma static_models_ok: "hm_ok build_models"
  by (simp add: hm_ok_def build_models_def static_model_def)

lemma static_registry_get:
  assumes "hm_get build_models mid = Some m" and "fst st = static_fetcher_new" and "fresh_model (fst clock) (snd st) mid = None"
  shows "fst (model_get static_fetcher_ops clock mid st) = Inr (Some m)"
  using assms static_models_valid[OF map_of_SomeD[OF assms(1)]]
  by (cases st) (simp add: model_get_def fetch_and_cache_def static_fetcher_ops_def static_fetch_def static_fetcher_new_def)

theorem registry_serves_valid_fresh_models_witness:
  "\<exists>info. fst (model_get static_fetcher_ops (10, 10) ''gpt-4o''
      (registry_run static_fetcher_ops (rev, id) [((0, \<lambda>n. (1, 2)), Invalidate []), ((3, \<lambda>n. (4, 5)), Cleanup)]
        default_registry_config static_fetcher_new)) = Inr (Some info) \<and> model_validate info = Inr ()"
proof -
  let ?steps = "[((0, \<lambda>n. (1, 2)), Invalidate []), ((3, \<lambda>n. (4, 5)), Cleanup)]"
  let ?st = "registry_run static_fetcher_ops (rev, id) ?steps default_registry_config static_fetcher_new"
  obtain info where info: "hm_get build_models ''gpt-4o'' = Some info"
    by (simp add: build_models_def static_model_def)
  have "fst ?st = static_fetcher_new" "rg_cache (snd ?st) = []"
    by (simp_all add: registry_run_def registry_with_config_def invalidate_def registry_cleanup_expired_def drop_expired_def
        hm_retain_def Let_def)
  then have g: "fst (model_get static_fetcher_ops (10, 10) ''gpt-4o'' ?st) = Inr (Some info)"
    by (intro static_registry_get[OF info]) (simp_all add: fresh_model_def)
  have "list_all (before 5) ?steps" by (simp add: before_def)
  then have "fst (model_get static_fetcher_ops (10, 10) ''gpt-4o'' ?st) = Inr (Some info) \<longrightarrow> model_validate info = Inr ()"
    by (rule registry_serves_valid_fresh_models[OF _ refl, THEN conjunct1])
  with g show ?thesis by blast
qed

section \<open>The cheapest model that fits\<close>

lemma min_by_in: "min_by gt xs = Some y \<Longrightarrow> y \<in> set xs"
proof -
  have "fold (\<lambda>y m. if gt m y then y else m) zs x \<in> set (x # zs)" for zs x
    by (induction zs arbitrary: x) auto
  then show "min_by gt xs = Some y \<Longrightarrow> y \<in> set xs"
    by (cases xs) fastforce+
qed

lemma min_by_None_iff [simp]: "min_by gt xs = None \<longleftrightarrow> xs = []"
  by (cases xs) auto

lemma min_by_least:
  fixes key :: "'a \<Rightarrow> f64"
  assumes "\<And>x. x \<in> set xs \<Longrightarrow> key x \<noteq> FNaN" and "min_by (\<lambda>a b. fcmp_or_equal (key a) (key b) = Greater) xs = Some m"
    and "x \<in> set xs"
  shows "key m \<le> key x"
proof -
  let ?pick = "\<lambda>y m. if fcmp_or_equal (key m) (key y) = Greater then y else m"
  have "key (fold ?pick zs z) \<le> key x" if "\<forall>x\<in>set (z # zs). key x \<noteq> FNaN" "x \<in> set (z # zs)" for z zs x
    using that
  proof (induction zs arbitrary: z x)
    case Nil
    then show ?case by (simp add: f64_le_refl)
  next
    case (Cons y zs)
    let ?m = "?pick y z"
    have m: "key ?m \<le> key z" "key ?m \<le> key y" "key ?m \<noteq> FNaN"
      using Cons.prems(1) by (auto simp: ordering_cases f64_le_refl f64_less_le f64_not_less)
    have hyp: "\<forall>x\<in>set (?m # zs). key x \<noteq> FNaN" using Cons.prems(1) m(3) by auto
    consider "x = z" | "x = y" | "x \<in> set (?m # zs)" using Cons.prems(2) by auto
    then show ?case
    proof cases
      case 3
      then show ?thesis using Cons.IH[OF hyp] by simp
    qed (use Cons.IH[OF hyp, of ?m] m in \<open>auto intro: f64_le_trans\<close>)
  qed
  then show ?thesis
    using assms by (cases xs) auto
qed

text \<open>\<open>find_best_fit\<close> returns an unexpired cached model whose context window holds the tokens, and
  none of those costs less; it returns none exactly if no unexpired cached model fits. Costs are the
  binary64 estimates of the code and must not be NaN.\<close>

theorem find_best_fit_cheapest:
  assumes "\<forall>m\<in>set (find_models (\<lambda>m. can_fit_context m tokens) now r). best_fit_cost tokens m \<noteq> FNaN"
  shows "case find_best_fit tokens now r of
      None \<Rightarrow> find_models (\<lambda>m. can_fit_context m tokens) now r = []
    | Some m \<Rightarrow> m \<in> set (find_models (\<lambda>m. can_fit_context m tokens) now r)
        \<and> list_all (\<lambda>m'. best_fit_cost tokens m \<le> best_fit_cost tokens m') (find_models (\<lambda>m. can_fit_context m tokens) now r)"
  unfolding find_best_fit_def list_all_iff
  using assms min_by_in min_by_least[where key = "best_fit_cost tokens"] by (fastforce split: option.split)

text \<open>A registry filled from the static fetcher: the cheaper of its two fitting models is chosen.\<close>

definition sample_registry :: registry where
  "sample_registry = \<lparr>rg_cache = map (\<lambda>(mid, m). (mid, \<lparr>cm_info = m, cm_expires_at = 100\<rparr>)) build_models, rg_ttl = 100\<rparr>"

lemma sample_fits: "map mi_id (find_models (\<lambda>m. can_fit_context m 500000) 0 sample_registry) = [''gemini-2.5-pro'', ''gemini-2.5-flash'']"
  by (simp add: find_models_def sample_registry_def build_models_def static_model_def can_fit_context_def)

lemma f64_of_u64:
  assumes "0 \<le> q" and "q \<le> 2 ^ 64"
  shows "\<exists>r. f64_of q = FFin r \<and> 0 \<le> r \<and> r \<le> 2 ^ 64"
proof -
  have "rnd (2 ^ 64) = (2 ^ 64 :: rat)" using rnd_scaled_le[of 1 64] by simp
  then have hi: "rnd q \<le> 2 ^ 64" using rnd_mono[OF assms(2)] by simp
  have lo: "0 \<le> rnd q" by (rule rnd_nonneg[OF assms(1)])
  have "(2 ^ 64 :: rat) < 2 ^ 1024" by (rule power_strict_increasing) simp_all
  then have "\<not> 2 ^ 1024 \<le> rnd q" "\<not> rnd q \<le> - (2 ^ 1024)" using hi lo by linarith+
  then show ?thesis using hi lo by (simp only: f64_of_def Let_def if_False) blast
qed

definition price_ok :: "f64 \<Rightarrow> bool" where
  "price_ok x \<longleftrightarrow> (\<exists>a. x = FFin a \<and> 0 \<le> a)"

lemma price_ok_of: "0 \<le> q \<Longrightarrow> q \<le> 2 ^ 64 \<Longrightarrow> price_ok (f64_of q)"
  using f64_of_u64[of q] by (auto simp: price_ok_def)

lemma static_prices: "(mid, m) \<in> set build_models \<Longrightarrow> price_ok (input_price_per_million m) \<and> price_ok (output_price_per_million m)"
  by (auto simp: build_models_def static_model_def price_ok_of)

lemma estimate_cost_nonneg:
  assumes "n \<le> u64_max" and "k \<le> u64_max"
    and "price_ok (input_price_per_million m)" and "price_ok (output_price_per_million m)"
  shows "f64_0 \<le> estimate_cost m n k"
proof -
  have per_million: "\<exists>r. fdiv (f64_nat i) (f64_nat 1000000) = FFin r \<and> 0 \<le> r" if "i \<le> u64_max" for i
  proof -
    have "(of_nat i :: rat) \<le> of_nat (2 ^ 64)" using that by (intro of_nat_mono) (simp add: u64_max_def)
    then obtain q where q: "f64_nat i = FFin q" "0 \<le> q" "q \<le> 2 ^ 64" using f64_of_u64[of "of_nat i"] by auto
    then obtain r where "f64_of (q / 1000000) = FFin r" "0 \<le> r" using f64_of_u64[of "q / 1000000"] by force
    then show ?thesis using q f64_nat_exact[of 1000000] by simp
  qed
  obtain x y where "fdiv (f64_nat n) (f64_nat 1000000) = FFin x" "0 \<le> x" "fdiv (f64_nat k) (f64_nat 1000000) = FFin y" "0 \<le> y"
    using per_million assms(1,2) by blast
  then show ?thesis
    unfolding estimate_cost_def Let_def using assms(3-)
    by (auto simp: price_ok_def fmul_FFin intro!: fadd_nonneg f64_of_nonneg)
qed

lemma best_fit_cost_not_NaN:
  assumes "price_ok (input_price_per_million m)" and "price_ok (output_price_per_million m)"
  shows "best_fit_cost tokens m \<noteq> FNaN"
proof -
  have "nat (ftrunc_as (int u64_max) x) \<le> u64_max" for x
    by (cases x) (simp_all add: ftrunc_as_def)
  then have "f64_0 \<le> best_fit_cost tokens m"
    unfolding best_fit_cost_def by (intro estimate_cost_nonneg assms)
  then show ?thesis using f64_le_not_NaN by blast
qed

theorem find_best_fit_cheapest_witness:
  "\<exists>m. find_best_fit 500000 0 sample_registry = Some m \<and> mi_id m \<in> {''gemini-2.5-pro'', ''gemini-2.5-flash''}
    \<and> list_all (\<lambda>m'. best_fit_cost 500000 m \<le> best_fit_cost 500000 m')
        (find_models (\<lambda>m. can_fit_context m 500000) 0 sample_registry)"
proof -
  let ?ms = "find_models (\<lambda>m. can_fit_context m 500000) 0 sample_registry"
  have "\<exists>mid. (mid, m) \<in> set build_models" if "m \<in> set ?ms" for m
    using that by (auto simp: find_models_def sample_registry_def)
  then have "\<forall>m\<in>set ?ms. best_fit_cost 500000 m \<noteq> FNaN"
    using static_prices best_fit_cost_not_NaN by blast
  note best = find_best_fit_cheapest[OF this]
  have ids: "mi_id ` set ?ms = {''gemini-2.5-pro'', ''gemini-2.5-flash''}"
    using arg_cong[OF sample_fits, of set] by simp
  obtain m where "find_best_fit 500000 0 sample_registry = Some m"
    using best sample_fits by (cases "find_best_fit 500000 0 sample_registry") auto
  then show ?thesis using best ids by auto
qed

section \<open>Refreshing and several models at once\<close>

text \<open>Refreshing given models does not refresh unexpired ones: as long as the cache entries of all
  of them are unexpired, \<open>refresh\<close> changes nothing and asks the fetcher for nothing.\<close>

theorem refresh_keeps_unexpired:
  assumes "model_ids \<noteq> []" and "list_all (\<lambda>mid. mid = [] \<or> fresh_model latest (snd st) mid \<noteq> None) model_ids"
    and "\<And>n. fst (clocks n) \<le> latest"
  shows "refresh fetcher now clocks model_ids st = (Inr (), st)"
proof -
  have "refresh_each fetcher clocks ids st = st"
    if "list_all (\<lambda>mid. mid = [] \<or> fresh_model latest (snd st) mid \<noteq> None) ids" for ids
    using that
  proof (induction ids)
    case (Cons mid ids)
    have "fresh_model (fst (clocks (length ids))) (snd st) mid \<noteq> None \<or> mid = []"
      using Cons.prems assms(3)[of "length ids"] by (auto simp: fresh_model_def split: option.splits if_splits)
    then have "snd (model_get fetcher (clocks (length ids)) mid st) = st"
      by (auto simp: model_get_def split: option.split)
    then show ?case using Cons by simp
  qed simp
  then show ?thesis
    using assms(1,2) by (simp add: refresh_def)
qed

theorem refresh_keeps_unexpired_witness:
  "refresh static_fetcher_ops 5 (\<lambda>n. (5, 6)) [''gpt-4o''] (static_fetcher_new, sample_registry)
    = (Inr (), (static_fetcher_new, sample_registry))"
  by (rule refresh_keeps_unexpired[where latest = 50])
    (simp_all add: fresh_model_def sample_registry_def build_models_def static_model_def)

text \<open>What one model's lookup gives with a fetcher whose answers depend only on the model.\<close>

definition stateless :: "'w fetcher \<Rightarrow> (string \<Rightarrow> string + model_info option) \<Rightarrow> bool" where
  "stateless fetcher g \<longleftrightarrow> (\<forall>mid w. fetch_model fetcher mid w = (g mid, w))"

definition fetch_verdict :: "(string \<Rightarrow> string + model_info option) \<Rightarrow> string \<Rightarrow> registry_error + model_info option" where
  "fetch_verdict g mid = (case g mid of
     Inl e \<Rightarrow> Inl (FetchFailed e) | Inr None \<Rightarrow> Inr None
   | Inr (Some info) \<Rightarrow> (case model_validate info of Inl e \<Rightarrow> Inl (ValidationFailed e) | Inr _ \<Rightarrow> Inr (Some info)))"

definition lookup_model :: "(string \<Rightarrow> string + model_info option) \<Rightarrow> time \<Rightarrow> registry \<Rightarrow> string \<Rightarrow> registry_error + model_info option" where
  "lookup_model g now r mid = (case fresh_model now r mid of Some info \<Rightarrow> Inr (Some info) | None \<Rightarrow> fetch_verdict g mid)"

text \<open>While the tasks run, a model that had no unexpired entry has none, or the one just fetched.\<close>

definition refetched :: "(string \<Rightarrow> string + model_info option) \<Rightarrow> time \<Rightarrow> string set \<Rightarrow> registry \<Rightarrow> bool" where
  "refetched g now missing r \<longleftrightarrow> (\<forall>mid\<in>missing. \<forall>t\<ge>now. fresh_model t r mid = None \<or> fetch_verdict g mid = Inr (fresh_model t r mid))"

lemma fresh_cache_model:
  "fresh_model t (cache_model mid info e r) mid' = (if mid' = mid then (if t < e then Some info else None) else fresh_model t r mid')"
  by (simp add: fresh_model_def cache_model_def store_simps)

lemma fresh_later: "fresh_model now r mid = None \<Longrightarrow> now \<le> t \<Longrightarrow> fresh_model t r mid = None"
  by (auto simp: fresh_model_def split: option.splits if_splits)

lemma model_get_refetched:
  assumes "stateless fetcher g" and "refetched g now missing (snd st)" and "mid \<in> missing" "mid \<noteq> []" and "now \<le> fst clock"
  shows "fst (model_get fetcher clock mid st) = fetch_verdict g mid \<and> refetched g now missing (snd (snd (model_get fetcher clock mid st)))"
proof (cases "fresh_model (fst clock) (snd st) mid")
  case None
  obtain w r where st: "st = (w, r)" by (cases st)
  have f: "fetch_model fetcher mid w = (g mid, w)" using assms(1) by (simp add: stateless_def)
  have "refetched g now missing (cache_model mid info e r)" if "fetch_verdict g mid = Inr (Some info)" for info e
    using assms(2) that unfolding refetched_def st fresh_cache_model by auto
  then show ?thesis
    using None assms(2,4) st f by (auto simp: model_get_def fetch_and_cache_def fetch_verdict_def split: sum.splits option.splits)
next
  case (Some info)
  then have "fetch_verdict g mid = Inr (Some info)"
    using assms(2,3,5) unfolding refetched_def by (metis option.distinct(1))
  then show ?thesis
    using Some assms(2,4) by (simp add: model_get_def)
qed

definition gets_verdict :: "(string \<Rightarrow> string + model_info option) \<Rightarrow> string list \<Rightarrow> model_info hmap \<Rightarrow> registry_error + model_info hmap \<Rightarrow> bool" where
  "gets_verdict g ids result out \<longleftrightarrow> (case out of
       Inl e \<Rightarrow> \<exists>mid\<in>set ids. fetch_verdict g mid = Inl e
     | Inr m \<Rightarrow> (\<forall>mid\<in>set ids. \<exists>x. fetch_verdict g mid = Inr x)
         \<and> (\<forall>mid. hm_get m mid = (if mid \<in> set ids \<and> fetch_verdict g mid \<noteq> Inr None
              then (case fetch_verdict g mid of Inr x \<Rightarrow> x | Inl _ \<Rightarrow> None) else hm_get result mid)))"

lemma gets_verdict_Cons:
  assumes "fetch_verdict g mid = Inr x" and "gets_verdict g ids (case x of None \<Rightarrow> result | Some info \<Rightarrow> hm_insert mid info result) out"
  shows "gets_verdict g (mid # ids) result out"
proof (cases out)
  case (Inl e)
  then show ?thesis using assms by (auto simp: gets_verdict_def)
next
  case (Inr m)
  show ?thesis
  proof (cases x)
    case None
    then show ?thesis using assms Inr by (simp add: gets_verdict_def)
  next
    case (Some info)
    then show ?thesis using assms Inr by (simp add: gets_verdict_def store_simps)
  qed
qed

lemma run_gets_spec:
  assumes "stateless fetcher g" and "\<And>n. now \<le> fst (clocks n)" and "[] \<notin> missing"
  shows "set ids \<subseteq> missing \<Longrightarrow> refetched g now missing (snd st) \<Longrightarrow> gets_verdict g ids result (fst (run_gets fetcher late clocks ids result st))"
proof (induction ids arbitrary: result st)
  case Nil
  show ?case by (simp add: gets_verdict_def)
next
  case (Cons mid ids)
  let ?g = "model_get fetcher (clocks (length ids)) mid st"
  have mid: "mid \<in> missing" "mid \<noteq> []" using Cons.prems(1) assms(3) by auto
  have g: "fst ?g = fetch_verdict g mid" "refetched g now missing (snd (snd ?g))"
    using model_get_refetched[OF assms(1) Cons.prems(2) mid assms(2)] by simp_all
  obtain st' where st': "?g = (fetch_verdict g mid, st')" using g(1) by (metis prod.collapse)
  show ?case
  proof (cases "fetch_verdict g mid")
    case (Inl e)
    then show ?thesis using st' by (simp add: gets_verdict_def)
  next
    case (Inr x)
    let ?result = "case x of None \<Rightarrow> result | Some info \<Rightarrow> hm_insert mid info result"
    have "run_gets fetcher late clocks (mid # ids) result st = run_gets fetcher late clocks ids ?result st'"
      using st' Inr by (simp split: option.split)
    moreover have "gets_verdict g ids ?result (fst (run_gets fetcher late clocks ids ?result st'))"
      using Cons.prems(1) g(2) st' by (intro Cons.IH) simp_all
    ultimately show ?thesis by (simp add: gets_verdict_Cons[OF Inr])
  qed
qed

lemma run_gets_ok: "hm_ok result \<Longrightarrow> fst (run_gets fetcher late clocks ids result st) = Inr m \<Longrightarrow> hm_ok m"
proof (induction ids arbitrary: result st)
  case (Cons mid ids)
  obtain res st' where g: "model_get fetcher (clocks (length ids)) mid st = (res, st')"
    by (cases "model_get fetcher (clocks (length ids)) mid st")
  then show ?case
    using Cons.IH[of result st'] Cons.IH[of "hm_insert mid (the (projr res)) result" st'] Cons.prems
    by (auto split: sum.splits option.splits)
qed simp

lemma cached_results_ok: "hm_ok (cached_results now r ids)"
proof -
  have "hm_ok (fold (\<lambda>mid result. case fresh_model now r mid of Some info \<Rightarrow> hm_insert mid info result | None \<Rightarrow> result) xs m)"
    if "hm_ok m" for xs m
    using that by (induction xs arbitrary: m) (auto split: option.split)
  then show ?thesis by (simp add: cached_results_def)
qed

lemma cached_results_get:
  "hm_get (cached_results now r ids) mid = (if mid \<in> set ids \<and> mid \<noteq> [] then fresh_model now r mid else None)"
proof -
  have "hm_get (fold (\<lambda>mid result. case fresh_model now r mid of Some info \<Rightarrow> hm_insert mid info result | None \<Rightarrow> result) xs m) mid
      = (if mid \<in> set xs \<and> fresh_model now r mid \<noteq> None then fresh_model now r mid else hm_get m mid)" for xs m
    by (induction xs arbitrary: m) (auto simp: store_simps split: option.split)
  then show ?thesis by (auto simp: cached_results_def)
qed

lemma get_multiple_spec:
  assumes "stateless fetcher g" and "\<And>n. now \<le> fst (clocks n)" and "\<And>xs. set (fst order xs) = set xs"
  shows "case fst (get_multiple fetcher order now clocks ids st) of
      Inl e \<Rightarrow> \<exists>mid\<in>set ids. mid \<noteq> [] \<and> lookup_model g now (snd st) mid = Inl e
    | Inr m \<Rightarrow> hm_ok m \<and> (\<forall>mid\<in>set ids. mid \<noteq> [] \<longrightarrow> lookup_model g now (snd st) mid = Inr (hm_get m mid))
        \<and> (\<forall>mid. mid \<notin> set ids \<or> mid = [] \<longrightarrow> hm_get m mid = None)"
proof -
  let ?r = "snd st" and ?todo = "to_fetch now (snd st) ids" and ?cached = "cached_results now (snd st) ids"
  have todo: "set ?todo = {mid \<in> set ids. mid \<noteq> [] \<and> fresh_model now ?r mid = None}" by (auto simp: to_fetch_def)
  have "refetched g now (set ?todo) ?r"
    using fresh_later by (auto simp: refetched_def todo)
  then have "gets_verdict g (fst order ?todo) ?cached (fst (run_gets fetcher (snd order) clocks (fst order ?todo) ?cached st))"
    using run_gets_spec[where clocks = clocks and missing = "set ?todo" and late = "snd order" and ids = "fst order ?todo" and st = st and result = ?cached,
        OF assms(1,2)] by (simp add: assms(3) todo)
  then have run: "gets_verdict g ?todo ?cached (fst (run_gets fetcher (snd order) clocks (fst order ?todo) ?cached st))"
    by (simp add: gets_verdict_def assms(3) cong: sum.case_cong)
  show ?thesis
  proof (cases "ids = []")
    case True
    then show ?thesis by (simp add: get_multiple_def)
  next
    case False
    show ?thesis
    proof (cases "fst (run_gets fetcher (snd order) clocks (fst order ?todo) ?cached st)")
      case (Inl e)
      then show ?thesis using run False by (auto simp: get_multiple_def lookup_model_def todo gets_verdict_def)
    next
      case (Inr m)
      have get: "hm_get m mid = (if mid \<in> set ?todo \<and> fetch_verdict g mid \<noteq> Inr None
          then (case fetch_verdict g mid of Inr x \<Rightarrow> x | Inl _ \<Rightarrow> None) else hm_get ?cached mid)" for mid
        using run Inr by (simp add: gets_verdict_def)
      have ok: "\<exists>x. fetch_verdict g mid = Inr x" if "mid \<in> set ?todo" for mid
        using run Inr that by (simp add: gets_verdict_def)
      have "lookup_model g now ?r mid = Inr (hm_get m mid)" if "mid \<in> set ids" "mid \<noteq> []" for mid
        using ok[of mid] that by (auto simp: get cached_results_get lookup_model_def todo split: option.splits)
      moreover have "hm_get m mid = None" if "mid \<notin> set ids \<or> mid = []" for mid
        using that by (auto simp: get cached_results_get todo)
      moreover have "hm_ok m" using run_gets_ok[OF cached_results_ok Inr] .
      ultimately show ?thesis using False Inr by (simp add: get_multiple_def)
    qed
  qed
qed

lemma cost_map_get:
  "hm_ok ms \<Longrightarrow> hm_get (fold (\<lambda>(mid, m) costs. hm_insert mid (f m) costs) ms acc) mid =
    (case hm_get ms mid of Some m \<Rightarrow> Some (f m) | None \<Rightarrow> hm_get acc mid)"
proof (induction ms arbitrary: acc)
  case (Cons p ms)
  obtain k v where p: "p = (k, v)" by (cases p)
  have "hm_ok ms" "hm_get ms k = None"
    using Cons.prems p by (simp_all add: hm_ok_def map_of_eq_None_iff)
  then show ?case
    using Cons.IH p by (simp add: store_simps split: option.split)
qed simp

text \<open>With a fetcher whose answers do not depend on its state, in whatever order the tasks of the
  models end: if the lookup of one of them fails, \<open>estimate_costs\<close> returns no cost at all, and
  otherwise exactly the costs of the models that exist.\<close>

theorem estimate_costs_all_or_nothing:
  assumes "stateless fetcher g" and "\<And>n. now \<le> fst (clocks n)" and "\<And>xs. set (fst order xs) = set xs"
  shows "hm_get (fst (estimate_costs fetcher order now clocks ids inp outp st)) mid =
    (if (\<exists>i\<in>set ids. i \<noteq> [] \<and> (\<exists>e. lookup_model g now (snd st) i = Inl e)) \<or> mid \<notin> set ids \<or> mid = [] then None
     else case lookup_model g now (snd st) mid of Inr (Some m) \<Rightarrow> Some (estimate_cost m inp outp) | _ \<Rightarrow> None)"
proof -
  note spec = get_multiple_spec[where clocks = clocks and ids = ids and st = st, OF assms]
  obtain res st' where gm: "get_multiple fetcher order now clocks ids st = (res, st')"
    by (cases "get_multiple fetcher order now clocks ids st")
  show ?thesis
  proof (cases res)
    case (Inl e)
    then show ?thesis using spec gm by (auto simp: estimate_costs_def)
  next
    case (Inr ms)
    then have ok: "hm_ok ms" "\<And>i. i \<in> set ids \<Longrightarrow> i \<noteq> [] \<Longrightarrow> lookup_model g now (snd st) i = Inr (hm_get ms i)"
      and none: "mid \<notin> set ids \<or> mid = [] \<Longrightarrow> hm_get ms mid = None"
      using spec gm by auto
    have "hm_get (fst (estimate_costs fetcher order now clocks ids inp outp st)) mid
        = map_option (\<lambda>m. estimate_cost m inp outp) (hm_get ms mid)"
      using gm Inr cost_map_get[OF ok(1), of "\<lambda>m. estimate_cost m inp outp" "[]" mid]
      by (simp add: estimate_costs_def split: option.splits)
    then show ?thesis using ok(2) none by (cases "mid \<in> set ids \<and> mid \<noteq> []") (auto split: option.split)
  qed
qed

text \<open>A fetcher that fails for the models it does not know.\<close>

definition failing_fetcher :: "unit fetcher" where
  "failing_fetcher = \<lparr>fetch_model = (\<lambda>mid w. (case hm_get build_models mid of Some m \<Rightarrow> Inr (Some m) | None \<Rightarrow> Inl ''down'', w)),
     list_all_models = (\<lambda>w. (Inr build_models, w))\<rparr>"

theorem estimate_costs_all_or_nothing_witness:
  "hm_get (fst (estimate_costs failing_fetcher (rev, id) 0 (\<lambda>n. (1, 2)) [''gpt-4o'', ''x''] 10 10 ((), registry_new))) ''gpt-4o'' = None"
proof -
  let ?g = "\<lambda>mid. case hm_get build_models mid of Some m \<Rightarrow> Inr (Some m) | None \<Rightarrow> Inl ''down''"
  have "stateless failing_fetcher ?g" by (simp add: stateless_def failing_fetcher_def)
  moreover have "lookup_model ?g 0 registry_new ''x'' = Inl (FetchFailed ''down'')"
    by (simp add: lookup_model_def fresh_model_def registry_new_def registry_with_config_def fetch_verdict_def build_models_def
        static_model_def)
  ultimately show ?thesis
    by (subst estimate_costs_all_or_nothing) auto
qed

end
