(* ===== verification/Coalesce.thy ===== *)
theory Coalesce
  imports Registry
begin

text \<open>
  Concurrent \<open>get\<close> calls of the model registry (src/registry/registry/operations.rs): tasks that miss
  the cache coalesce through the map \<open>pending_fetches\<close> behind its mutex, and those that find a fetch under
  way wait for its message on a broadcast channel. The steps are the atomic sections of the code. Of the
  libraries this is used: one task holds the mutex at a time and \<open>try_lock\<close> succeeds exactly if none does;
  a receiver gets a message that is sent after it subscribed, and the error of a closed channel if there is
  none for it and no sender is left. A sender is in the map and with the task that leads the fetch.
\<close>

section \<open>Tasks and steps\<close>

type_synonym answer = "registry_error + model_info option"

datatype reply = Answer answer | ChannelClosed

text \<open>A task makes one call. It has missed the cache and wants the mutex, holds it, waits on the channel of a
  leader (and subscribed before the message was sent, or not), fetches as the leader, has sent its message while
  its \<open>FetchGuard\<close> is still alive, has returned, or was dropped at one of its awaits.\<close>

datatype task = Idle | Wants string | Holds string | Waits nat string bool
  | Fetches string | Sent string answer | Done string reply | Cancelled

text \<open>A channel has the name of the task that leads its fetch. The last field is the fetcher and the cache.\<close>

record 'w coalescer =
  co_pending :: "nat hmap"
  co_lock :: "nat option"
  co_sent :: "nat \<Rightarrow> answer option"
  co_tasks :: "nat \<Rightarrow> task"
  co_world :: "'w \<times> registry"

definition co_init :: "'w \<Rightarrow> registry_config \<Rightarrow> 'w coalescer" where
  "co_init w cfg = \<lparr>co_pending = [], co_lock = None, co_sent = (\<lambda>_. None), co_tasks = (\<lambda>_. Idle),
     co_world = (w, registry_with_config cfg)\<rparr>"

definition goto :: "nat \<Rightarrow> task \<Rightarrow> 'w coalescer \<Rightarrow> 'w coalescer" where
  "goto t pc s = s\<lparr>co_tasks := (co_tasks s)(t := pc)\<rparr>"

definition leads :: "'w coalescer \<Rightarrow> nat \<Rightarrow> string \<Rightarrow> bool" where
  "leads s t mid \<longleftrightarrow> co_tasks s t = Fetches mid \<or> (\<exists>a. co_tasks s t = Sent mid a)"

text \<open>Under the mutex: subscribe to the fetch that is under way, or insert a channel and lead.\<close>

definition join_or_lead :: "nat \<Rightarrow> string \<Rightarrow> 'w coalescer \<Rightarrow> 'w coalescer" where
  "join_or_lead t mid s = (case hm_get (co_pending s) mid of
       Some channel \<Rightarrow> goto t (Waits channel mid (co_sent s channel = None)) (s\<lparr>co_lock := None\<rparr>)
     | None \<Rightarrow> goto t (Fetches mid) (s\<lparr>co_lock := None, co_pending := hm_insert mid t (co_pending s)\<rparr>))"

text \<open>The fetch ends: a valid model is cached, and the result is sent to those that have subscribed.\<close>

definition fetch_and_send :: "'w fetcher \<Rightarrow> time \<Rightarrow> nat \<Rightarrow> string \<Rightarrow> 'w coalescer \<Rightarrow> 'w coalescer" where
  "fetch_and_send fetcher now t mid s = (case fetch_and_cache fetcher now mid (co_world s) of
     (a, world) \<Rightarrow> goto t (Sent mid a) (s\<lparr>co_sent := (co_sent s)(t := Some a), co_world := world\<rparr>))"

text \<open>Dropping the guard of a fetch only tries to take the mutex.\<close>

definition drop_guard :: "string \<Rightarrow> 'w coalescer \<Rightarrow> 'w coalescer" where
  "drop_guard mid s = (if co_lock s = None then s\<lparr>co_pending := hm_remove mid (co_pending s)\<rparr> else s)"

text \<open>No message for the receiver and no sender left.\<close>

definition channel_closed :: "'w coalescer \<Rightarrow> nat \<Rightarrow> string \<Rightarrow> bool \<Rightarrow> bool" where
  "channel_closed s channel mid early \<longleftrightarrow> (early \<longrightarrow> co_sent s channel = None)
     \<and> hm_get (co_pending s) mid \<noteq> Some channel \<and> \<not> leads s channel mid"

inductive co_move :: "'w fetcher \<Rightarrow> 'w coalescer \<Rightarrow> 'w coalescer \<Rightarrow> bool" for fetcher where
  empty: "co_tasks s t = Idle \<Longrightarrow> co_move fetcher s (goto t (Done [] (Answer (Inl EmptyModelId))) s)"
| hit: "co_tasks s t = Idle \<Longrightarrow> mid \<noteq> [] \<Longrightarrow> fresh_model now (snd (co_world s)) mid = Some info
    \<Longrightarrow> co_move fetcher s (goto t (Done mid (Answer (Inr (Some info)))) s)"
| miss: "co_tasks s t = Idle \<Longrightarrow> mid \<noteq> [] \<Longrightarrow> fresh_model now (snd (co_world s)) mid = None
    \<Longrightarrow> co_move fetcher s (goto t (Wants mid) s)"
| acquire: "co_tasks s t = Wants mid \<Longrightarrow> co_lock s = None
    \<Longrightarrow> co_move fetcher s (goto t (Holds mid) (s\<lparr>co_lock := Some t\<rparr>))"
| decide: "co_tasks s t = Holds mid \<Longrightarrow> co_move fetcher s (join_or_lead t mid s)"
| fetch: "co_tasks s t = Fetches mid \<Longrightarrow> co_move fetcher s (fetch_and_send fetcher now t mid s)"
| finish: "co_tasks s t = Sent mid a \<Longrightarrow> co_move fetcher s (goto t (Done mid (Answer a)) (drop_guard mid s))"
| receive: "co_tasks s t = Waits channel mid True \<Longrightarrow> co_sent s channel = Some a
    \<Longrightarrow> co_move fetcher s (goto t (Done mid (Answer a)) s)"
| closed: "co_tasks s t = Waits channel mid early \<Longrightarrow> channel_closed s channel mid early
    \<Longrightarrow> co_move fetcher s (goto t (Done mid ChannelClosed) s)"
| invalidated: "co_move fetcher s (s\<lparr>co_world := (fst (co_world s), invalidate ids (snd (co_world s)))\<rparr>)"
| cleaned: "co_move fetcher s (s\<lparr>co_world := (fst (co_world s), snd (registry_cleanup_expired now (snd (co_world s))))\<rparr>)"
| ticked: "co_move fetcher s (s\<lparr>co_world := background_tick fetcher now (co_world s)\<rparr>)"

text \<open>The future of a \<open>get\<close> is dropped at an await: of the mutex, which it may have been handed without being polled
  since, of the message, or of the fetch, where the fetcher is left in any state and the guard is dropped.\<close>

inductive co_cancel :: "'w coalescer \<Rightarrow> 'w coalescer \<Rightarrow> bool" where
  cancel_lock: "co_tasks s t = Wants mid \<Longrightarrow> co_cancel s (goto t Cancelled s)"
| cancel_handed: "co_tasks s t = Holds mid \<Longrightarrow> co_cancel s (goto t Cancelled (s\<lparr>co_lock := None\<rparr>))"
| cancel_wait: "co_tasks s t = Waits channel mid early \<Longrightarrow> co_cancel s (goto t Cancelled s)"
| cancel_fetch: "co_tasks s t = Fetches mid
    \<Longrightarrow> co_cancel s (goto t Cancelled (drop_guard mid (s\<lparr>co_world := (w, snd (co_world s))\<rparr>)))"

definition co_step :: "'w fetcher \<Rightarrow> 'w coalescer \<Rightarrow> 'w coalescer \<Rightarrow> bool" where
  "co_step fetcher s s' \<longleftrightarrow> co_move fetcher s s' \<or> co_cancel s s'"

abbreviation co_moves :: "'w fetcher \<Rightarrow> 'w coalescer \<Rightarrow> 'w coalescer \<Rightarrow> bool" where
  "co_moves fetcher \<equiv> (co_move fetcher)\<^sup>*\<^sup>*"

abbreviation co_steps :: "'w fetcher \<Rightarrow> 'w coalescer \<Rightarrow> 'w coalescer \<Rightarrow> bool" where
  "co_steps fetcher \<equiv> (co_step fetcher)\<^sup>*\<^sup>*"

lemma co_step_cases [consumes 1, case_names move cancel]:
  "co_step fetcher s s' \<Longrightarrow> (co_move fetcher s s' \<Longrightarrow> P) \<Longrightarrow> (co_cancel s s' \<Longrightarrow> P) \<Longrightarrow> P"
  by (auto simp: co_step_def)

lemma moves_are_steps: "co_moves fetcher s s' \<Longrightarrow> co_steps fetcher s s'"
  by (induction rule: rtranclp_induct) (auto simp: co_step_def intro: rtranclp.rtrancl_into_rtrancl)

text \<open>What the steps leave alone, and what they set.\<close>

lemma goto_fields [simp]:
  "co_tasks (goto t pc s) = (co_tasks s)(t := pc)" "co_pending (goto t pc s) = co_pending s"
  "co_lock (goto t pc s) = co_lock s" "co_sent (goto t pc s) = co_sent s" "co_world (goto t pc s) = co_world s"
  by (simp_all add: goto_def)

lemma drop_guard_fields [simp]:
  "co_tasks (drop_guard mid s) = co_tasks s" "co_lock (drop_guard mid s) = co_lock s"
  "co_sent (drop_guard mid s) = co_sent s" "co_world (drop_guard mid s) = co_world s"
  by (simp_all add: drop_guard_def)

lemma fetch_and_send_fields [simp]:
  "co_tasks (fetch_and_send fetcher now t mid s) = (co_tasks s)(t := Sent mid (fst (fetch_and_cache fetcher now mid (co_world s))))"
  "co_sent (fetch_and_send fetcher now t mid s) = (co_sent s)(t := Some (fst (fetch_and_cache fetcher now mid (co_world s))))"
  "co_world (fetch_and_send fetcher now t mid s) = snd (fetch_and_cache fetcher now mid (co_world s))"
  "co_pending (fetch_and_send fetcher now t mid s) = co_pending s" "co_lock (fetch_and_send fetcher now t mid s) = co_lock s"
  by (simp_all add: fetch_and_send_def split: prod.split)

section \<open>What holds of all runs\<close>

text \<open>The channel of a model belongs to a task that fetches it, has sent (and returned) an answer, or was
  dropped before it could.\<close>

fun channel_state :: "answer option \<Rightarrow> task \<Rightarrow> string \<Rightarrow> bool" where
  "channel_state None pc mid \<longleftrightarrow> pc = Fetches mid \<or> pc = Cancelled"
| "channel_state (Some a) pc mid \<longleftrightarrow> pc = Sent mid a \<or> pc = Done mid (Answer a)"

definition channel_of :: "'w coalescer \<Rightarrow> nat \<Rightarrow> string \<Rightarrow> bool" where
  "channel_of s c mid \<longleftrightarrow> channel_state (co_sent s c) (co_tasks s c) mid"

fun task_ok :: "'w coalescer \<Rightarrow> nat \<Rightarrow> task \<Rightarrow> bool" where
  "task_ok s t Idle \<longleftrightarrow> co_sent s t = None"
| "task_ok s t (Wants mid) \<longleftrightarrow> co_sent s t = None"
| "task_ok s t (Holds mid) \<longleftrightarrow> co_sent s t = None \<and> co_lock s = Some t"
| "task_ok s t (Waits c mid early) \<longleftrightarrow> co_sent s t = None \<and> channel_of s c mid \<and> (early \<or> co_sent s c \<noteq> None)"
| "task_ok s t (Fetches mid) \<longleftrightarrow> co_sent s t = None \<and> hm_get (co_pending s) mid = Some t"
| "task_ok s t (Sent mid a) \<longleftrightarrow> co_sent s t = Some a \<and> hm_get (co_pending s) mid = Some t"
| "task_ok s t (Done mid r) \<longleftrightarrow> (\<forall>a. co_sent s t = Some a \<longrightarrow> r = Answer a)"
| "task_ok s t Cancelled \<longleftrightarrow> co_sent s t = None"

definition co_inv :: "'w coalescer \<Rightarrow> bool" where
  "co_inv s \<longleftrightarrow> (\<forall>t. task_ok s t (co_tasks s t)) \<and> (\<forall>mid c. hm_get (co_pending s) mid = Some c \<longrightarrow> channel_of s c mid)"

lemma co_invD:
  "co_inv s \<Longrightarrow> co_tasks s t = pc \<Longrightarrow> task_ok s t pc"
  "co_inv s \<Longrightarrow> hm_get (co_pending s) mid = Some c \<Longrightarrow> channel_of s c mid"
  by (auto simp: co_inv_def)

text \<open>Dropping the guard of a leader takes its own entry at most.\<close>

lemma drop_guard_pending:
  "hm_get (co_pending (drop_guard mid s)) m = (if m = mid \<and> co_lock s = None then None else hm_get (co_pending s) m)"
  by (simp add: drop_guard_def hm_get_remove)

text \<open>A step changes one task; the others keep the invariant if it leaves what is theirs.\<close>

lemma co_inv_change:
  assumes inv: "co_inv s" and tasks: "co_tasks s' = (co_tasks s)(t := pc)"
    and sent: "\<And>u. u \<noteq> t \<Longrightarrow> co_sent s' u = co_sent s u"
    and lock: "\<And>u. u \<noteq> t \<Longrightarrow> co_lock s = Some u \<Longrightarrow> co_lock s' = Some u"
    and pending: "\<And>m u. u \<noteq> t \<Longrightarrow> hm_get (co_pending s') m = Some u \<longleftrightarrow> hm_get (co_pending s) m = Some u"
    and chan: "\<And>m. channel_of s t m \<Longrightarrow> channel_of s' t m"
    and own: "task_ok s' t pc" "\<And>m. hm_get (co_pending s') m = Some t \<Longrightarrow> channel_of s' t m"
    and kept: "co_sent s t \<noteq> None \<Longrightarrow> co_sent s' t \<noteq> None"
  shows "co_inv s'"
proof -
  have chan': "channel_of s' c m" if "channel_of s c m" for c m
    using that chan sent tasks by (cases "c = t") (simp_all add: channel_of_def)
  have kept': "co_sent s' c \<noteq> None" if "co_sent s c \<noteq> None" for c
    using that kept sent by (cases "c = t") simp_all
  have "task_ok s' u (co_tasks s' u)" for u
  proof (cases "u = t")
    case False
    then have "task_ok s u (co_tasks s u)" "co_tasks s' u = co_tasks s u" using inv tasks by (simp_all add: co_inv_def)
    then show ?thesis
      using False sent lock pending chan' kept' by (cases "co_tasks s u") auto
  qed (simp add: tasks own)
  moreover have "channel_of s' c m" if "hm_get (co_pending s') m = Some c" for c m
    using that own(2) pending chan' inv by (cases "c = t") (simp_all add: co_inv_def)
  ultimately show ?thesis by (simp add: co_inv_def)
qed

text \<open>The steps of a task that has not sent anything and leads nothing.\<close>

lemma co_inv_goto:
  assumes "co_inv s" and "co_sent s t = None" and "\<And>m. \<not> channel_of s t m" and "task_ok s t pc"
  shows "co_inv (goto t pc s)"
proof (rule co_inv_change[OF assms(1), where t = t and pc = pc])
  show "task_ok (goto t pc s) t pc"
    using assms by (cases pc) (auto simp: channel_of_def)
qed (use assms in \<open>auto dest: co_invD\<close>)

lemma co_inv_world: "co_inv (s\<lparr>co_world := w\<rparr>) \<longleftrightarrow> co_inv s"
proof -
  have "task_ok (s\<lparr>co_world := w\<rparr>) t pc \<longleftrightarrow> task_ok s t pc" for t pc
    by (cases pc) (simp_all add: channel_of_def)
  then show ?thesis by (simp add: co_inv_def channel_of_def)
qed

lemma not_started:
  "co_inv s \<Longrightarrow> co_tasks s t \<in> {Idle, Wants m, Holds m, Waits c m e} \<Longrightarrow> co_sent s t = None"
  "co_inv s \<Longrightarrow> co_tasks s t \<in> {Idle, Wants m, Holds m, Waits c m e} \<Longrightarrow> \<not> channel_of s t m'"
  by (auto simp: channel_of_def dest: co_invD)

lemma leads_ok: "co_inv s \<Longrightarrow> leads s t mid \<Longrightarrow> hm_get (co_pending s) mid = Some t"
  by (auto simp: leads_def dest: co_invD)

lemma leads_one: "co_inv s \<Longrightarrow> hm_get (co_pending s) m = Some t \<Longrightarrow> leads s t mid \<Longrightarrow> m = mid"
  by (drule (1) co_invD(2)) (cases "co_sent s t"; auto simp: leads_def channel_of_def)

lemma leads_channel: "leads s t mid \<Longrightarrow> channel_of s t m \<Longrightarrow> m = mid"
  by (cases "co_sent s t") (auto simp: leads_def channel_of_def)

lemma co_inv_drop_guard:
  assumes inv: "co_inv s" and lead: "leads s t mid" and own: "task_ok s' t pc" "channel_state (co_sent s t) pc mid"
    and s': "co_tasks s' = (co_tasks s)(t := pc)" "co_sent s' = co_sent s" "co_lock s' = co_lock s"
      "co_pending s' = co_pending (drop_guard mid s)"
  shows "co_inv s'"
proof (rule co_inv_change[OF inv s'(1)])
  note pending = leads_ok[OF inv lead] leads_one[OF inv _ lead] leads_channel[OF lead]
  have now: "channel_of s' t mid" using own(2) s' by (simp add: channel_of_def)
  show "hm_get (co_pending s') m = Some u \<longleftrightarrow> hm_get (co_pending s) m = Some u" if "u \<noteq> t" for m u
    using pending(1) that s'(4) by (auto simp: drop_guard_pending)
  show "channel_of s' t m" if "channel_of s t m" for m
    using pending(3)[OF that] now by simp
  show "channel_of s' t m" if "hm_get (co_pending s') m = Some t" for m
    using that pending(2)[of m] now s'(4) by (auto simp: drop_guard_pending split: if_splits)
qed (use own s' in simp_all)

lemma co_inv_acquire:
  assumes "co_inv s" and "co_tasks s t = Wants mid" and "co_lock s = None"
  shows "co_inv (goto t (Holds mid) (s\<lparr>co_lock := Some t\<rparr>))"
proof (rule co_inv_change[OF assms(1), where t = t and pc = "Holds mid"])
qed (use assms not_started[OF assms(1), of t mid] in \<open>auto dest: co_invD\<close>)

lemma co_inv_decide:
  assumes "co_inv s" and "co_tasks s t = Holds mid"
  shows "co_inv (join_or_lead t mid s)"
proof -
  have lock: "co_lock s = Some t" using assms by (auto dest: co_invD)
  note quiet = not_started(1)[OF assms(1), of t mid] not_started(2)[OF assms(1), of t mid]
  have none: "hm_get (co_pending s) m \<noteq> Some t" for m using quiet assms by (auto dest: co_invD)
  show ?thesis
  proof (cases "hm_get (co_pending s) mid")
    case None
    then show ?thesis
      unfolding join_or_lead_def
      using quiet assms lock none
      by (intro co_inv_change[OF assms(1), where t = t and pc = "Fetches mid"])
        (auto simp: hm_get_insert channel_of_def split: if_splits)
  next
    case (Some c)
    then have "channel_of s c mid" "c \<noteq> t" using assms none by (auto dest: co_invD)
    with Some show ?thesis
      unfolding join_or_lead_def
      using quiet assms lock none
      by (intro co_inv_change[OF assms(1), where t = t and pc = "Waits c mid (co_sent s c = None)"])
        (auto simp: channel_of_def split: if_splits)
  qed
qed

lemma co_inv_fetch:
  assumes "co_inv s" and "co_tasks s t = Fetches mid"
  shows "co_inv (fetch_and_send fetcher now t mid s)"
proof -
  have lead: "leads s t mid" using assms by (simp add: leads_def)
  note pending = leads_ok[OF assms(1) lead] leads_one[OF assms(1) _ lead] leads_channel[OF lead]
  show ?thesis
  proof (rule co_inv_change[OF assms(1), where t = t and pc = "Sent mid (fst (fetch_and_cache fetcher now mid (co_world s)))"])
    show "channel_of (fetch_and_send fetcher now t mid s) t m" if "channel_of s t m" for m
      using pending(3)[OF that] by (simp add: channel_of_def)
    show "channel_of (fetch_and_send fetcher now t mid s) t m"
      if "hm_get (co_pending (fetch_and_send fetcher now t mid s)) m = Some t" for m
      using pending(2)[of m] that by (simp add: channel_of_def)
  qed (use pending(1) in simp_all)
qed

lemma co_inv_move: "co_move fetcher s s' \<Longrightarrow> co_inv s \<Longrightarrow> co_inv s'"
proof (induction rule: co_move.induct)
  case (finish s t mid a)
  then have "leads s t mid" "co_sent s t = Some a" by (auto simp: leads_def dest: co_invD)
  then show ?case
    using finish by (intro co_inv_drop_guard[OF finish(2), of t mid _ "Done mid (Answer a)"]) simp_all
next
  case (receive s t channel mid a)
  then show ?case using not_started[of s t mid channel True] by (intro co_inv_goto) auto
next
  case (closed s t channel mid early)
  then show ?case using not_started[of s t mid channel early] by (intro co_inv_goto) auto
next
  case (empty s t)
  then show ?case using not_started[of s t] by (intro co_inv_goto) auto
next
  case (hit s t mid now info)
  then show ?case using not_started[of s t] by (intro co_inv_goto) auto
next
  case (miss s t mid now)
  then show ?case using not_started[of s t] by (intro co_inv_goto) auto
qed (simp_all add: co_inv_world co_inv_acquire co_inv_decide co_inv_fetch)

lemma co_inv_cancel: "co_cancel s s' \<Longrightarrow> co_inv s \<Longrightarrow> co_inv s'"
proof (induction rule: co_cancel.induct)
  case (cancel_lock s t mid)
  then show ?case using not_started[of s t mid] by (intro co_inv_goto) auto
next
  case (cancel_handed s t mid)
  have idle: "co_sent s t = None" "\<not> channel_of s t m" "co_lock s = Some t" for m
    using not_started[OF cancel_handed(2), where t = t and m = mid] co_invD(1)[OF cancel_handed(2,1)] cancel_handed(1) by auto
  show ?case
    by (rule co_inv_change[OF cancel_handed(2), where t = t and pc = Cancelled])
      (use idle co_invD(2)[OF cancel_handed(2)] in \<open>auto\<close>)
next
  case (cancel_wait s t channel mid early)
  then show ?case using not_started[of s t mid channel early] by (intro co_inv_goto) auto
next
  case (cancel_fetch s t mid w)
  then have "leads s t mid" "co_sent s t = None" by (auto simp: leads_def dest: co_invD)
  then show ?case
    using cancel_fetch by (intro co_inv_drop_guard[OF cancel_fetch(2), of t mid _ Cancelled]) (simp_all add: drop_guard_def)
qed

lemma co_inv_init: "co_inv (co_init w cfg)"
  by (simp add: co_inv_def co_init_def)

lemma co_inv_reachable: "co_steps fetcher (co_init w cfg) s \<Longrightarrow> co_inv s"
  by (induction rule: rtranclp_induct) (auto simp: co_step_def intro: co_inv_init co_inv_move co_inv_cancel)

text \<open>C29. Fetches are coalesced and the mutex is exclusive: in every reachable state at most one task
  leads the fetch of a given model, its channel is the pending one, and at most one task is in the
  critical section.\<close>

theorem one_fetch_per_model:
  assumes "co_steps fetcher (co_init w cfg) s"
  shows "(leads s t mid \<and> leads s u mid \<longrightarrow> t = u \<and> hm_get (co_pending s) mid = Some t)
    \<and> (co_tasks s t = Holds mid \<and> co_tasks s u = Holds mid' \<longrightarrow> t = u)"
proof -
  note inv = co_inv_reachable[OF assms]
  show ?thesis
    using leads_ok[OF inv, of t mid] leads_ok[OF inv, of u mid] co_invD(1)[OF inv, of t "Holds mid"] co_invD(1)[OF inv, of u "Holds mid'"]
    by auto
qed

section \<open>What a \<open>get\<close> answers\<close>

lemma cache_inv_later: "cache_inv t ttl r \<Longrightarrow> t \<le> t' \<Longrightarrow> cache_inv t' ttl r"
  by (fastforce simp: cache_inv_def entry_valid_def)

definition answer_ok :: "answer \<Rightarrow> bool" where
  "answer_ok a \<longleftrightarrow> (\<forall>info. a = Inr (Some info) \<longrightarrow> model_validate info = Inr ())"

fun task_valid :: "task \<Rightarrow> bool" where
  "task_valid (Sent mid a) \<longleftrightarrow> answer_ok a"
| "task_valid (Done mid (Answer a)) \<longleftrightarrow> answer_ok a"
| "task_valid _ \<longleftrightarrow> True"

definition world_valid :: "'w \<times> registry \<Rightarrow> bool" where
  "world_valid st \<longleftrightarrow> (\<exists>latest ttl. cache_inv latest ttl (snd st))"

definition co_valid :: "'w coalescer \<Rightarrow> bool" where
  "co_valid s \<longleftrightarrow> world_valid (co_world s) \<and> (\<forall>t a. co_sent s t = Some a \<longrightarrow> answer_ok a) \<and> (\<forall>t. task_valid (co_tasks s t))"

lemma world_valid_kept:
  assumes "world_valid st"
  shows "world_valid (snd (fetch_and_cache fetcher now mid st))" "world_valid (background_tick fetcher now st)"
    "world_valid (fst st, invalidate ids (snd st))" "world_valid (fst st, snd (registry_cleanup_expired now (snd st)))"
    "world_valid (w, snd st)"
proof -
  obtain t ttl where "cache_inv t ttl (snd st)" using assms by (auto simp: world_valid_def)
  then have inv: "cache_inv (max t now) ttl (snd st)" by (rule cache_inv_later) simp
  note step = cache_step_inv[OF inv, of "((now, \<lambda>_. (now, now)), opn)" fetcher "(id, id)" for opn]
  show "world_valid (snd (fetch_and_cache fetcher now mid st))"
    using fetch_and_cache_inv[OF inv, of now fetcher mid] by (auto simp: world_valid_def)
  show "world_valid (background_tick fetcher now st)" using step[of Tick] by (auto simp: world_valid_def before_def)
  show "world_valid (fst st, invalidate ids (snd st))" using invalidate_inv[OF inv] by (auto simp: world_valid_def)
  show "world_valid (fst st, snd (registry_cleanup_expired now (snd st)))"
    using drop_expired_inv[OF inv] by (auto simp: world_valid_def registry_cleanup_expired_def Let_def)
  show "world_valid (w, snd st)" using inv by (auto simp: world_valid_def)
qed

lemma co_valid_init: "co_valid (co_init w cfg)"
  by (auto simp: co_valid_def co_init_def world_valid_def registry_with_config_def cache_inv_def)

lemma co_valid_move: "co_move fetcher s s' \<Longrightarrow> co_valid s \<Longrightarrow> co_valid s'"
proof (induction rule: co_move.induct)
  case (hit s t mid now info)
  then have "model_validate info = Inr ()" by (auto simp: co_valid_def world_valid_def dest: cache_inv_fresh)
  with hit show ?case by (simp add: co_valid_def answer_ok_def)
next
  case (decide s t mid)
  then show ?case by (auto simp: co_valid_def join_or_lead_def split: option.split)
next
  case (fetch s t mid now)
  have "answer_ok (fst (fetch_and_cache fetcher now mid (co_world s)))"
    by (simp add: answer_ok_def fetched_valid)
  with fetch show ?case by (simp add: co_valid_def world_valid_kept)
next
  case (finish s t mid a)
  then have "task_valid (co_tasks s t)" unfolding co_valid_def by blast
  with finish show ?case by (simp add: co_valid_def)
qed (auto simp: co_valid_def world_valid_kept answer_ok_def)

lemma co_valid_cancel: "co_cancel s s' \<Longrightarrow> co_valid s \<Longrightarrow> co_valid s'"
  by (induction rule: co_cancel.induct) (simp_all add: co_valid_def world_valid_kept)

lemma co_valid_reachable: "co_steps fetcher (co_init w cfg) s \<Longrightarrow> co_valid s"
  by (induction rule: rtranclp_induct) (auto simp: co_step_def intro: co_valid_init co_valid_move co_valid_cancel)

text \<open>Whatever the tasks do and whenever they are dropped, a model that a \<open>get\<close> returns has passed the validation.\<close>

theorem concurrent_gets_valid:
  assumes "co_steps fetcher (co_init w cfg) s" and "co_tasks s t = Done mid (Answer (Inr (Some info)))"
  shows "model_validate info = Inr ()"
proof -
  have "task_valid (co_tasks s t)" using co_valid_reachable[OF assms(1)] by (simp add: co_valid_def)
  then show ?thesis using assms(2) by (simp add: answer_ok_def)
qed

text \<open>As long as no task is dropped, none is ever \<open>Cancelled\<close>.\<close>

lemma nothing_cancelled: "co_moves fetcher (co_init w cfg) s \<Longrightarrow> co_tasks s t \<noteq> Cancelled"
proof (induction rule: rtranclp_induct)
  case (step y z)
  from step(2,3) show ?case
    by (induction rule: co_move.induct) (auto simp: join_or_lead_def split: option.split)
qed (simp add: co_init_def)

section \<open>Who waited gets the leader's answer\<close>

text \<open>The task waits, or it has the answer of the leader, which the leader returns as well.\<close>

definition served :: "'w coalescer \<Rightarrow> nat \<Rightarrow> nat \<Rightarrow> string \<Rightarrow> bool" where
  "served s t c mid \<longleftrightarrow> co_tasks s t = Waits c mid True \<or>
     (\<exists>a. co_tasks s t = Done mid (Answer a) \<and> (co_tasks s c = Sent mid a \<or> co_tasks s c = Done mid (Answer a)))"

lemma served_move:
  assumes "co_inv s" and "\<And>u. co_tasks s u \<noteq> Cancelled" and "co_move fetcher s s'" and "served s t c mid"
  shows "served s' t c mid"
proof -
  have open_channel: "co_tasks s t = Waits c mid True \<Longrightarrow> \<not> channel_closed s c mid True"
    using co_invD(1)[OF assms(1)] assms(2)[of c]
    by (cases "co_sent s c") (fastforce simp: channel_closed_def channel_of_def leads_def)+
  have sent: "channel_of s c mid \<Longrightarrow> co_sent s c = Some a \<Longrightarrow> co_tasks s c = Sent mid a \<or> co_tasks s c = Done mid (Answer a)" for a
    by (simp add: channel_of_def)
  from assms(3,1,4) open_channel sent show ?thesis
  proof (induction rule: co_move.induct)
    case (receive s u channel m a)
    then have "channel_of s channel m" by (auto dest: co_invD)
    with receive show ?case by (auto simp: served_def channel_of_def)
  qed (auto simp: served_def join_or_lead_def split: option.split)
qed

text \<open>C28. Who waited gets the leader's answer: as long as no task is dropped, a task that has joined a fetch
  before its result was sent either still waits, and can receive the result once it is sent, or has returned
  exactly the answer of the task that fetched.\<close>

theorem waiters_get_the_leaders_answer:
  assumes "co_moves fetcher (co_init w cfg) s" and "co_tasks s t = Waits c mid True" and "co_moves fetcher s s'"
  shows "if co_tasks s' t = Waits c mid True
    then \<forall>a. co_sent s' c = Some a \<longrightarrow> co_move fetcher s' (goto t (Done mid (Answer a)) s')
    else \<exists>a. co_tasks s' t = Done mid (Answer a) \<and> (co_tasks s' c = Sent mid a \<or> co_tasks s' c = Done mid (Answer a))"
proof -
  have "served s' t c mid"
    using assms(3)
  proof (induction rule: rtranclp_induct)
    case base
    then show ?case using assms(2) by (simp add: served_def)
  next
    case (step y z)
    have y: "co_moves fetcher (co_init w cfg) y" using assms(1) step.hyps(1) by simp
    show ?case
      using served_move[OF co_inv_reachable[OF moves_are_steps[OF y]] nothing_cancelled[OF y] step.hyps(2) step.IH] .
  qed
  then show ?thesis by (auto simp: served_def intro: receive)
qed

section \<open>A single caller\<close>

text \<open>With no other task at the model, the steps of a call come to what \<open>model_get\<close> of theory Registry says.\<close>

theorem alone_is_model_get:
  assumes "co_tasks s t = Idle" and "co_lock s = None" and "hm_get (co_pending s) mid = None"
  shows "\<exists>s'. co_moves fetcher s s' \<and> co_world s' = snd (model_get fetcher clock mid (co_world s))
    \<and> co_tasks s' = (co_tasks s)(t := Done mid (Answer (fst (model_get fetcher clock mid (co_world s)))))
    \<and> co_lock s' = None \<and> hm_get (co_pending s') = hm_get (co_pending s)"
proof (cases "mid = [] \<or> fresh_model (fst clock) (snd (co_world s)) mid \<noteq> None")
  case True
  define s' where "s' = goto t (Done mid (Answer (fst (model_get fetcher clock mid (co_world s))))) s"
  have "co_move fetcher s s'"
    using True assms(1) by (auto simp: s'_def model_get_def intro: empty hit)
  moreover have "co_world s' = snd (model_get fetcher clock mid (co_world s))"
    using True by (auto simp: s'_def model_get_def)
  ultimately show ?thesis
    using assms by (intro exI[of _ s'] conjI r_into_rtranclp) (simp_all add: s'_def)
next
  case False
  define s1 where "s1 = goto t (Wants mid) s"
  define s2 where "s2 = goto t (Holds mid) (s1\<lparr>co_lock := Some t\<rparr>)"
  define s3 where "s3 = join_or_lead t mid s2"
  define s4 where "s4 = fetch_and_send fetcher (snd clock) t mid s3"
  define a where "a = fst (fetch_and_cache fetcher (snd clock) mid (co_world s))"
  define s5 where "s5 = goto t (Done mid (Answer a)) (drop_guard mid s4)"
  have s3: "s3 = goto t (Fetches mid) (s2\<lparr>co_lock := None, co_pending := hm_insert mid t (co_pending s)\<rparr>)"
    using assms(3) by (simp add: s3_def join_or_lead_def s2_def s1_def)
  have get: "model_get fetcher clock mid (co_world s) = fetch_and_cache fetcher (snd clock) mid (co_world s)"
    using False by (simp add: model_get_def)
  have "co_move fetcher s s1" using False assms(1) by (auto simp: s1_def intro: miss)
  moreover have "co_move fetcher s1 s2" unfolding s2_def by (rule acquire) (simp_all add: s1_def assms(2))
  moreover have "co_move fetcher s2 s3" unfolding s3_def by (rule decide) (simp add: s2_def)
  moreover have "co_move fetcher s3 s4" unfolding s4_def by (rule fetch) (simp add: s3)
  moreover have "co_move fetcher s4 s5"
    unfolding s5_def by (rule finish) (simp add: s4_def s3 s2_def s1_def a_def)
  ultimately have "co_moves fetcher s s5" by (meson rtranclp.rtrancl_into_rtrancl r_into_rtranclp)
  moreover have "hm_get (co_pending s5) = hm_get (co_pending s)"
    using assms(3) by (auto simp: s5_def s4_def s3 drop_guard_pending hm_get_insert)
  ultimately show ?thesis
    unfolding get
    by (intro exI[of _ s5]) (auto simp: s5_def s4_def s3 s2_def s1_def a_def)
qed

section \<open>Two races\<close>

text \<open>Two tasks miss the cache; task 0 fetches and has sent its result, to which no task has subscribed, and
  task 1 takes the mutex before task 0 drops its guard.\<close>

definition both_missed :: "'w \<Rightarrow> registry_config \<Rightarrow> string \<Rightarrow> 'w coalescer" where
  "both_missed w cfg mid = goto 1 (Wants mid) (goto 0 (Wants mid) (co_init w cfg))"

definition sent_unheard :: "'w fetcher \<Rightarrow> 'w \<Rightarrow> registry_config \<Rightarrow> string \<Rightarrow> 'w coalescer" where
  "sent_unheard fetcher w cfg mid = goto 1 (Holds mid) ((fetch_and_send fetcher 0 0 mid (join_or_lead 0 mid
     (goto 0 (Holds mid) (both_missed w cfg mid\<lparr>co_lock := Some 0\<rparr>))))\<lparr>co_lock := Some 1\<rparr>)"

definition first_answer :: "'w fetcher \<Rightarrow> 'w \<Rightarrow> registry_config \<Rightarrow> string \<Rightarrow> answer" where
  "first_answer fetcher w cfg mid = fst (fetch_and_cache fetcher 0 mid (w, registry_with_config cfg))"

lemma both_missed_reachable:
  assumes "mid \<noteq> []"
  shows "co_moves fetcher (co_init w cfg) (both_missed w cfg mid)"
proof -
  have cold: "fresh_model 0 (registry_with_config cfg) mid = None" by (simp add: fresh_model_def registry_with_config_def)
  have "co_move fetcher (co_init w cfg) (goto 0 (Wants mid) (co_init w cfg))"
    by (rule miss[where now = 0]) (simp_all add: co_init_def assms cold)
  moreover have "co_move fetcher (goto 0 (Wants mid) (co_init w cfg)) (both_missed w cfg mid)"
    unfolding both_missed_def by (rule miss[where now = 0]) (simp_all add: co_init_def assms cold)
  ultimately show ?thesis by (meson rtranclp.rtrancl_into_rtrancl r_into_rtranclp)
qed

lemma sent_unheard_state [simp]:
  "co_tasks (sent_unheard fetcher w cfg mid) = (\<lambda>_. Idle)(0 := Sent mid (first_answer fetcher w cfg mid), 1 := Holds mid)"
  "co_pending (sent_unheard fetcher w cfg mid) = [(mid, 0)]" "co_lock (sent_unheard fetcher w cfg mid) = Some 1"
  "co_sent (sent_unheard fetcher w cfg mid) = (\<lambda>_. None)(0 := Some (first_answer fetcher w cfg mid))"
  by (auto simp: sent_unheard_def both_missed_def join_or_lead_def co_init_def first_answer_def)

lemma sent_unheard_reachable:
  assumes "mid \<noteq> []"
  shows "co_moves fetcher (co_init w cfg) (sent_unheard fetcher w cfg mid)"
proof -
  define s1 where "s1 = goto 0 (Holds mid) (both_missed w cfg mid\<lparr>co_lock := Some 0\<rparr>)"
  define s2 where "s2 = join_or_lead 0 mid s1"
  define s3 where "s3 = fetch_and_send fetcher 0 0 mid s2"
  have "co_move fetcher (both_missed w cfg mid) s1"
    unfolding s1_def by (rule acquire) (simp_all add: both_missed_def co_init_def)
  moreover have "co_move fetcher s1 s2" unfolding s2_def by (rule decide) (simp add: s1_def)
  moreover have "co_move fetcher s2 s3"
    unfolding s3_def by (rule fetch) (simp add: s2_def s1_def join_or_lead_def both_missed_def co_init_def)
  moreover have "co_move fetcher s3 (sent_unheard fetcher w cfg mid)"
    unfolding sent_unheard_def s1_def[symmetric] s2_def[symmetric] s3_def[symmetric]
    by (rule acquire) (simp_all add: s3_def s2_def s1_def join_or_lead_def both_missed_def co_init_def)
  ultimately show ?thesis using both_missed_reachable[OF assms] by (meson rtranclp.rtrancl_into_rtrancl)
qed

text \<open>C30. A \<open>get\<close> can fail although the fetch it joined succeeded and no task was dropped: a task that subscribes
  between the sending of the result and the end of the fetch gets the error of a closed channel.\<close>

theorem late_subscriber_fails:
  assumes "mid \<noteq> []" and "fst (fetch_model fetcher mid w) = Inr (Some info)" and "model_validate info = Inr ()"
  shows "\<exists>s. co_moves fetcher (co_init w cfg) s \<and> co_tasks s 0 = Done mid (Answer (Inr (Some info)))
    \<and> co_tasks s 1 = Done mid ChannelClosed"
proof -
  let ?s = "sent_unheard fetcher w cfg mid"
  define s1 where "s1 = join_or_lead 1 mid ?s"
  define s2 where "s2 = goto 0 (Done mid (Answer (first_answer fetcher w cfg mid))) (drop_guard mid s1)"
  define s3 where "s3 = goto 1 (Done mid ChannelClosed) s2"
  have answer: "first_answer fetcher w cfg mid = Inr (Some info)"
    using assms(2,3) by (auto simp: first_answer_def fetch_and_cache_def split: prod.split)
  have s1: "s1 = goto 1 (Waits 0 mid False) (?s\<lparr>co_lock := None\<rparr>)" by (simp add: s1_def join_or_lead_def)
  have "co_move fetcher ?s s1" unfolding s1_def by (rule decide) simp
  moreover have "co_move fetcher s1 s2" unfolding s2_def by (rule finish) (simp add: s1)
  moreover have "co_move fetcher s2 s3"
    unfolding s3_def
    by (rule closed[where channel = 0 and early = False]) (simp_all add: s2_def s1 channel_closed_def drop_guard_pending leads_def)
  ultimately have "co_moves fetcher (co_init w cfg) s3"
    using sent_unheard_reachable[OF assms(1)] by (meson rtranclp.rtrancl_into_rtrancl)
  moreover have "co_tasks s3 0 = Done mid (Answer (Inr (Some info)))" "co_tasks s3 1 = Done mid ChannelClosed"
    by (simp_all add: s3_def s2_def s1 answer)
  ultimately show ?thesis by blast
qed

text \<open>A pending entry whose fetch is over. It is never removed, and a task that finds it gets nothing.\<close>

definition orphaned :: "'w coalescer \<Rightarrow> nat \<Rightarrow> string \<Rightarrow> bool" where
  "orphaned s c mid \<longleftrightarrow> hm_get (co_pending s) mid = Some c \<and> \<not> leads s c mid"

definition in_vain :: "'w coalescer \<Rightarrow> nat \<Rightarrow> nat \<Rightarrow> string \<Rightarrow> bool" where
  "in_vain s t c mid \<longleftrightarrow> co_tasks s t \<in> {Wants mid, Holds mid, Cancelled}
     \<or> (\<exists>early. co_tasks s t = Waits c mid early \<and> (early \<longrightarrow> co_sent s c = None))"

lemma orphan_over: "co_inv s \<Longrightarrow> orphaned s c mid \<Longrightarrow> co_tasks s c = Cancelled \<or> (\<exists>r. co_tasks s c = Done mid r)"
  by (auto simp: orphaned_def channel_of_def leads_def dest!: co_invD(2)) (cases "co_sent s c"; auto)

lemma orphaned_step:
  assumes "co_step fetcher s s'" and "co_inv s" and "orphaned s c mid"
  shows "orphaned s' c mid \<and> (in_vain s t c mid \<longrightarrow> in_vain s' t c mid)"
proof -
  note facts = orphan_over[OF assms(2,3)]
  have other: "u \<noteq> c \<and> m \<noteq> mid" if "leads s u m" for u m
    using that facts leads_ok[OF assms(2) that] assms(3) by (auto simp: leads_def orphaned_def)
  have pend: "hm_get (co_pending s) mid = Some c" using assms(3) by (simp add: orphaned_def)
  show ?thesis
    using assms(1)
  proof (cases rule: co_step_cases)
    case move
    then show ?thesis
      using facts other pend
    proof (induction rule: co_move.induct)
      case (decide s u m)
      then show ?case
        by (auto simp: orphaned_def in_vain_def leads_def join_or_lead_def hm_get_insert split: option.split)
    next
      case (fetch s u m now)
      then have "leads s u m" by (simp add: leads_def)
      with fetch show ?case by (fastforce simp: orphaned_def in_vain_def leads_def)
    next
      case (finish s u m a)
      then have "leads s u m" by (simp add: leads_def)
      with finish show ?case by (fastforce simp: orphaned_def in_vain_def leads_def drop_guard_pending)
    next
      case (closed s u channel m early)
      then show ?case by (fastforce simp: orphaned_def in_vain_def leads_def channel_closed_def)
    qed (auto simp: orphaned_def in_vain_def leads_def)
  next
    case cancel
    then show ?thesis
      using facts other pend
    proof (induction rule: co_cancel.induct)
      case (cancel_fetch s u m w)
      then have "leads s u m" by (simp add: leads_def)
      with cancel_fetch show ?case
        by (fastforce simp: orphaned_def in_vain_def leads_def drop_guard_def hm_get_remove)
    qed (auto simp: orphaned_def in_vain_def leads_def)
  qed
qed

lemma orphaned_steps:
  assumes "co_steps fetcher s s'" and "co_inv s" and "orphaned s c mid"
  shows "co_inv s' \<and> orphaned s' c mid \<and> (in_vain s t c mid \<longrightarrow> in_vain s' t c mid)"
  using assms
proof (induction rule: rtranclp_induct)
  case (step y z)
  then have "co_inv z" by (auto simp: co_step_def intro: co_inv_move co_inv_cancel)
  with step show ?case using orphaned_step[OF step.hyps(2)] by blast
qed simp

text \<open>C31. A guard that finds the mutex taken leaves its entry behind, and the registry never recovers: for
  every model there is a state, reachable without dropping any task, from which on, whatever the tasks do, the
  model stays pending, is never fetched, and no call that misses the cache for it ever returns.\<close>

theorem orphaned_fetch_is_permanent:
  assumes "mid \<noteq> []"
  shows "\<exists>s. co_moves fetcher (co_init w cfg) s \<and> (\<forall>s' t. co_steps fetcher s s' \<longrightarrow>
      hm_get (co_pending s') mid \<noteq> None \<and> \<not> leads s' t mid
      \<and> (co_tasks s' t = Wants mid \<longrightarrow> (\<forall>s'' m r. co_steps fetcher s' s'' \<longrightarrow> co_tasks s'' t \<noteq> Done m r)))"
proof -
  let ?s = "sent_unheard fetcher w cfg mid"
  define s where "s = goto 0 (Done mid (Answer (first_answer fetcher w cfg mid))) (drop_guard mid ?s)"
  have "co_move fetcher ?s s" unfolding s_def by (rule finish) simp
  then have reach: "co_moves fetcher (co_init w cfg) s"
    using sent_unheard_reachable[OF assms] by (meson rtranclp.rtrancl_into_rtrancl)
  then have inv: "co_inv s" by (rule co_inv_reachable[OF moves_are_steps])
  have orphan: "orphaned s 0 mid" by (simp add: orphaned_def s_def leads_def drop_guard_def)
  have "hm_get (co_pending s') mid \<noteq> None \<and> \<not> leads s' t mid
      \<and> (co_tasks s' t = Wants mid \<longrightarrow> (\<forall>s'' m r. co_steps fetcher s' s'' \<longrightarrow> co_tasks s'' t \<noteq> Done m r))"
    if "co_steps fetcher s s'" for s' t
  proof -
    have s': "co_inv s'" "orphaned s' 0 mid" using orphaned_steps[OF that inv orphan] by auto
    have "co_tasks s'' t \<noteq> Done m r" if "co_tasks s' t = Wants mid" "co_steps fetcher s' s''" for s'' m r
      using orphaned_steps[OF that(2) s', of t] that(1) by (auto simp: in_vain_def)
    moreover have "\<not> leads s' t mid" using s' leads_ok[of s' t mid] by (auto simp: orphaned_def)
    ultimately show ?thesis using s'(2) by (auto simp: orphaned_def)
  qed
  with reach show ?thesis by blast
qed

section \<open>On the static fetcher\<close>

definition static_start :: "static_fetcher coalescer" where
  "static_start = co_init static_fetcher_new default_registry_config"

theorem one_fetch_per_model_witness:
  "leads (sent_unheard static_fetcher_ops static_fetcher_new default_registry_config ''gpt-4o'') 0 ''gpt-4o''
   \<and> (0 = (0::nat) \<and> hm_get (co_pending (sent_unheard static_fetcher_ops static_fetcher_new default_registry_config ''gpt-4o'')) ''gpt-4o'' = Some 0)"
  using one_fetch_per_model[OF moves_are_steps[OF sent_unheard_reachable], of "''gpt-4o''" static_fetcher_ops static_fetcher_new default_registry_config 0 "''gpt-4o''" 0]
  by (simp add: leads_def)

theorem orphaned_fetch_is_permanent_witness:
  "\<exists>s. co_moves static_fetcher_ops static_start s \<and> (\<forall>s' t. co_steps static_fetcher_ops s s' \<longrightarrow>
      hm_get (co_pending s') ''gpt-4o'' \<noteq> None \<and> \<not> leads s' t ''gpt-4o''
      \<and> (co_tasks s' t = Wants ''gpt-4o'' \<longrightarrow> (\<forall>s'' m r. co_steps static_fetcher_ops s' s'' \<longrightarrow> co_tasks s'' t \<noteq> Done m r)))"
  unfolding static_start_def by (rule orphaned_fetch_is_permanent) simp

theorem late_subscriber_fails_witness:
  "\<exists>s info. co_moves static_fetcher_ops static_start s \<and> co_tasks s 0 = Done ''gpt-4o'' (Answer (Inr (Some info)))
    \<and> co_tasks s 1 = Done ''gpt-4o'' ChannelClosed"
proof -
  obtain info where info: "hm_get build_models ''gpt-4o'' = Some info"
    by (simp add: build_models_def static_model_def)
  have "fst (fetch_model static_fetcher_ops ''gpt-4o'' static_fetcher_new) = Inr (Some info)"
    by (simp add: static_fetcher_ops_def static_fetch_def static_fetcher_new_def info)
  moreover have "model_validate info = Inr ()" using static_models_valid[OF map_of_SomeD[OF info]] by simp
  ultimately show ?thesis
    unfolding static_start_def
    using late_subscriber_fails[of "''gpt-4o''" static_fetcher_ops static_fetcher_new info default_registry_config] by auto
qed

text \<open>Task 1 joins the fetch of task 0 before its result is sent.\<close>

definition joined :: "static_fetcher coalescer" where
  "joined = join_or_lead 1 ''m'' (goto 1 (Holds ''m'') (join_or_lead 0 ''m''
     (goto 0 (Holds ''m'') (both_missed static_fetcher_new default_registry_config ''m''\<lparr>co_lock := Some 0\<rparr>))\<lparr>co_lock := Some 1\<rparr>))"

lemma joined_reachable: "co_moves static_fetcher_ops static_start joined"
proof -
  define s1 where "s1 = goto 0 (Holds ''m'') (both_missed static_fetcher_new default_registry_config ''m''\<lparr>co_lock := Some 0\<rparr>)"
  define s2 where "s2 = join_or_lead 0 ''m'' s1"
  define s3 where "s3 = goto 1 (Holds ''m'') (s2\<lparr>co_lock := Some 1\<rparr>)"
  have "co_move static_fetcher_ops (both_missed static_fetcher_new default_registry_config ''m'') s1"
    unfolding s1_def by (rule acquire) (simp_all add: both_missed_def co_init_def)
  moreover have "co_move static_fetcher_ops s1 s2" unfolding s2_def by (rule decide) (simp add: s1_def)
  moreover have "co_move static_fetcher_ops s2 s3"
    unfolding s3_def by (rule acquire) (simp_all add: s2_def s1_def join_or_lead_def both_missed_def co_init_def)
  moreover have "co_move static_fetcher_ops s3 joined"
    unfolding joined_def s1_def[symmetric] s2_def[symmetric] s3_def[symmetric] by (rule decide) (simp add: s3_def)
  moreover have "co_moves static_fetcher_ops static_start (both_missed static_fetcher_new default_registry_config ''m'')"
    unfolding static_start_def by (rule both_missed_reachable) simp
  ultimately show ?thesis by (meson rtranclp.rtrancl_into_rtrancl)
qed

theorem waiters_get_the_leaders_answer_witness:
  "\<exists>s a. co_moves static_fetcher_ops joined s \<and> co_tasks s 1 = Done ''m'' (Answer a)
    \<and> (co_tasks s 0 = Sent ''m'' a \<or> co_tasks s 0 = Done ''m'' (Answer a))"
proof -
  define s1 where "s1 = fetch_and_send static_fetcher_ops 0 0 ''m'' joined"
  define s2 where "s2 = goto 1 (Done ''m'' (Answer (Inr None))) s1"
  have tasks: "co_tasks joined 0 = Fetches ''m''" "co_tasks joined 1 = Waits 0 ''m'' True"
    by (simp_all add: joined_def join_or_lead_def both_missed_def co_init_def)
  have "co_world joined = (static_fetcher_new, registry_with_config default_registry_config)"
    by (simp add: joined_def join_or_lead_def both_missed_def co_init_def)
  then have answer: "fst (fetch_and_cache static_fetcher_ops 0 ''m'' (co_world joined)) = Inr None"
    by (simp add: fetch_and_cache_def static_fetcher_ops_def static_fetch_def static_fetcher_new_def build_models_def static_model_def)
  have "co_move static_fetcher_ops joined s1" unfolding s1_def by (rule fetch) (rule tasks)
  moreover have "co_move static_fetcher_ops s1 s2"
    unfolding s2_def by (rule receive[where channel = 0]) (simp_all add: s1_def tasks(1) tasks(2)[simplified] answer)
  ultimately have run: "co_moves static_fetcher_ops joined s2" by (meson rtranclp.rtrancl_into_rtrancl r_into_rtranclp)
  have "co_tasks s2 1 \<noteq> Waits 0 ''m'' True" by (simp add: s2_def)
  then have "\<exists>a. co_tasks s2 1 = Done ''m'' (Answer a) \<and> (co_tasks s2 0 = Sent ''m'' a \<or> co_tasks s2 0 = Done ''m'' (Answer a))"
    using waiters_get_the_leaders_answer[OF joined_reachable[unfolded static_start_def] tasks(2) run] by simp
  with run show ?thesis by blast
qed

end
