(* ===== verification/Lifecycle.thy ===== *)
theory Lifecycle
  imports Registry
begin

text \<open>
  The handles of a model registry and its background task (src/registry/registry/mod.rs, operations.rs): a
  registry made with background refresh owns the task, clones share its cache but never the task, and dropping
  the owner cancels the token and aborts the task. Of tokio this is used: \<open>interval\<close> panics on a period of
  zero, which ends the spawned task only; \<open>select!\<close> takes any branch that is ready, so that a tick can be taken
  although the token is cancelled; a task is suspended only where it yields, at an await, and an aborted task that
  is suspended is dropped and never polled again, whereas one that is being polled goes on until it yields.
\<close>

section \<open>Handles, the task, and its steps\<close>

text \<open>Where the task is: at \<open>select!\<close>, with a tick taken but without the lock, refreshing, or ended.\<close>

datatype background = NoTask | Waiting | Locking | Ticking time | Ended

text \<open>A handle is a number; the one \<open>with_config\<close> returns is 0. The shutdown token is shared by all of them.\<close>

record 'w handles =
  hd_live :: "nat set"
  hd_owner :: "nat option"
  hd_cancelled :: bool
  hd_aborted :: bool
  hd_task :: background
  hd_polled :: bool
  hd_world :: "'w \<times> registry"

definition num_milliseconds :: "time \<Rightarrow> int" where "num_milliseconds d = sgn d * (\<bar>d\<bar> div 1000000)"

text \<open>Spawning the task; its period is a whole number of milliseconds.\<close>

definition start_background_refresh :: "time \<Rightarrow> 'w handles \<Rightarrow> 'w handles" where
  "start_background_refresh interval h =
     h\<lparr>hd_owner := Some 0, hd_task := (if max 0 (num_milliseconds interval) = 0 then Ended else Waiting)\<rparr>"

definition handles_with_config :: "registry_config \<Rightarrow> 'w \<Rightarrow> 'w handles" where
  "handles_with_config cfg w =
     (let h = \<lparr>hd_live = {0}, hd_owner = None, hd_cancelled = False, hd_aborted = False, hd_task = NoTask,
        hd_polled = False, hd_world = (w, registry_with_config cfg)\<rparr>
      in if rcfg_enable_background_refresh cfg then start_background_refresh (rcfg_refresh_interval cfg) h else h)"

definition clone_registry :: "nat \<Rightarrow> 'w handles \<Rightarrow> 'w handles" where
  "clone_registry j h = h\<lparr>hd_live := insert j (hd_live h)\<rparr>"

definition drop_registry :: "nat \<Rightarrow> 'w handles \<Rightarrow> 'w handles" where
  "drop_registry i h = (let h' = h\<lparr>hd_live := hd_live h - {i}\<rparr> in
     if hd_owner h = Some i then h'\<lparr>hd_owner := None, hd_cancelled := True\<rparr> else h')"

definition abort_task :: "'w handles \<Rightarrow> 'w handles" where
  "abort_task h = h\<lparr>hd_aborted := True\<rparr>"

definition ticking :: "'w handles \<Rightarrow> bool" where "ticking h \<longleftrightarrow> (\<exists>now. hd_task h = Ticking now)"

definition task_alive :: "'w handles \<Rightarrow> bool" where "task_alive h \<longleftrightarrow> hd_task h \<notin> {NoTask, Ended}"

text \<open>Names of handles are not used twice. Any live handle may be cloned or dropped at any time, and used when no
  refresh is under way: a refresh holds the write lock of the cache from its reading of the clock to its end,
  the call of the fetcher included. Dropping the owner is two calls, and the task may run in between.\<close>

inductive handle_step :: "'w fetcher \<Rightarrow> nat \<times> 'w handles \<Rightarrow> nat \<times> 'w handles \<Rightarrow> bool" for fetcher where
  clone: "i \<in> hd_live h \<Longrightarrow> handle_step fetcher (n, h) (Suc n, clone_registry n h)"
| use_handle: "i \<in> hd_live h \<Longrightarrow> \<not> ticking h \<Longrightarrow> handle_step fetcher (n, h) (n, h\<lparr>hd_world := cache_step fetcher order op (hd_world h)\<rparr>)"
| drop_handle: "i \<in> hd_live h \<Longrightarrow> handle_step fetcher (n, h) (n, drop_registry i h)"
| abort: "hd_cancelled h \<Longrightarrow> handle_step fetcher (n, h) (n, abort_task h)"
| wake: "task_alive h \<Longrightarrow> \<not> hd_aborted h \<Longrightarrow> handle_step fetcher (n, h) (n, h\<lparr>hd_polled := True\<rparr>)"
| yields: "hd_polled h \<Longrightarrow> handle_step fetcher (n, h) (n, h\<lparr>hd_polled := False\<rparr>)"
| tick: "hd_polled h \<Longrightarrow> hd_task h = Waiting \<Longrightarrow> handle_step fetcher (n, h) (n, h\<lparr>hd_task := Locking\<rparr>)"
| locked: "hd_polled h \<Longrightarrow> hd_task h = Locking \<Longrightarrow> handle_step fetcher (n, h) (n, h\<lparr>hd_task := Ticking now\<rparr>)"
| refreshed: "hd_polled h \<Longrightarrow> hd_task h = Ticking now
    \<Longrightarrow> handle_step fetcher (n, h) (n, h\<lparr>hd_task := Waiting, hd_world := background_tick fetcher now (hd_world h)\<rparr>)"
| break: "hd_polled h \<Longrightarrow> hd_task h = Waiting \<Longrightarrow> hd_cancelled h \<Longrightarrow> handle_step fetcher (n, h) (n, h\<lparr>hd_task := Ended\<rparr>)"
| reap: "\<not> hd_polled h \<Longrightarrow> hd_aborted h \<Longrightarrow> task_alive h \<Longrightarrow> handle_step fetcher (n, h) (n, h\<lparr>hd_task := Ended\<rparr>)"

abbreviation handle_steps :: "'w fetcher \<Rightarrow> nat \<times> 'w handles \<Rightarrow> nat \<times> 'w handles \<Rightarrow> bool" where
  "handle_steps fetcher \<equiv> (handle_step fetcher)\<^sup>*\<^sup>*"

section \<open>The task lives as long as its owner\<close>

definition handle_inv :: "nat \<times> 'w handles \<Rightarrow> bool" where
  "handle_inv x \<longleftrightarrow> (case x of (n, h) \<Rightarrow> 0 < n \<and> (\<forall>i\<in>hd_live h. i < n)
     \<and> (if 0 \<in> hd_live h then hd_owner h = Some 0 \<and> \<not> hd_cancelled h \<and> \<not> hd_aborted h \<and> task_alive h
        else hd_owner h = None \<and> hd_cancelled h))"

lemma handle_inv_step: "handle_step fetcher x y \<Longrightarrow> handle_inv x \<Longrightarrow> handle_inv y"
  by (induction rule: handle_step.induct)
    (auto simp: handle_inv_def clone_registry_def drop_registry_def abort_task_def task_alive_def Let_def
      split: if_splits intro: less_SucI)

lemma handle_inv_init:
  "rcfg_enable_background_refresh cfg \<Longrightarrow> 1000000 \<le> rcfg_refresh_interval cfg \<Longrightarrow> handle_inv (1, handles_with_config cfg w)"
  by (auto simp: handle_inv_def task_alive_def handles_with_config_def start_background_refresh_def num_milliseconds_def Let_def)

lemma handle_inv_steps: "handle_steps fetcher x y \<Longrightarrow> handle_inv x \<Longrightarrow> handle_inv y"
  by (induction rule: rtranclp_induct) (auto intro: handle_inv_step)

text \<open>Without a task that can start a refresh, the cache is what the handles make of it.\<close>

definition used :: "'w fetcher \<Rightarrow> (schedule \<times> (readings \<times> registry_op)) list \<Rightarrow> 'w \<times> registry \<Rightarrow> 'w \<times> registry" where
  "used fetcher ops = fold (\<lambda>(order, op). cache_step fetcher order op) ops"

definition retired :: "'w handles \<Rightarrow> bool" where
  "retired h \<longleftrightarrow> \<not> task_alive h \<or> hd_aborted h \<and> \<not> hd_polled h"

lemma retired_step:
  assumes "handle_step fetcher (n, h) (n', h')" and "retired h"
  shows "retired h' \<and> (\<exists>ops. hd_world h' = used fetcher ops (hd_world h))"
proof -
  have none: "\<exists>ops. w = used fetcher ops w" for w :: "'a \<times> registry"
    by (rule exI[of _ "[]"]) (simp add: used_def)
  have one: "\<exists>ops. cache_step fetcher order op w = used fetcher ops w" for order op and w :: "'a \<times> registry"
    by (rule exI[of _ "[(order, op)]"]) (simp add: used_def)
  show ?thesis
    using assms(1)
    by (cases rule: handle_step.cases)
      (use assms(2) in \<open>auto simp: retired_def task_alive_def clone_registry_def drop_registry_def abort_task_def Let_def
        intro: none one\<close>)
qed

lemma retired_steps:
  assumes "handle_steps fetcher (n, h) x" and "retired h"
  shows "retired (snd x) \<and> (\<exists>ops. hd_world (snd x) = used fetcher ops (hd_world h))"
  using assms
proof (induction rule: rtranclp_induct)
  case base
  then show ?case by (auto simp: used_def intro: exI[of _ "[]"])
next
  case (step y z)
  then obtain ops where y: "retired (snd y)" "hd_world (snd y) = used fetcher ops (hd_world h)" by auto
  obtain ops' where z: "retired (snd z)" "hd_world (snd z) = used fetcher ops' (hd_world (snd y))"
    using retired_step[of fetcher "fst y" "snd y" "fst z" "snd z"] step.hyps(2) y(1) by auto
  have "hd_world (snd z) = used fetcher (ops @ ops') (hd_world h)" using y(2) z(2) by (simp add: used_def)
  with z(1) show ?case by blast
qed

text \<open>C32. With a refresh interval of at least a millisecond, the background task of a registry lives as long as the
  handle that was created with it, whatever clones are made, used and dropped: as long as that handle is alive, the
  task has not ended and is not told to; once that handle has been dropped, the task aborted, and it is not just being
  polled, the cache is never refreshed again, a refresh that was under way included, and only changes by what the
  clones that are left do. (A task that is being polled when it is aborted goes on until it yields.)\<close>

theorem background_task_follows_owner:
  assumes "rcfg_enable_background_refresh cfg" and "1000000 \<le> rcfg_refresh_interval cfg"
    and "handle_steps fetcher (1, handles_with_config cfg w) (n, h)"
  shows "if 0 \<in> hd_live h then \<not> hd_cancelled h \<and> \<not> hd_aborted h \<and> hd_task h \<noteq> NoTask \<and> hd_task h \<noteq> Ended
    else hd_cancelled h \<and> (hd_aborted h \<and> \<not> hd_polled h \<longrightarrow> (\<forall>n' h'. handle_steps fetcher (n, h) (n', h') \<longrightarrow>
      (\<exists>ops. hd_world h' = used fetcher ops (hd_world h))))"
proof -
  have inv: "handle_inv (n, h)"
    using handle_inv_steps[OF assms(3) handle_inv_init[OF assms(1,2)]] .
  have "\<exists>ops. hd_world h' = used fetcher ops (hd_world h)"
    if "hd_aborted h" "\<not> hd_polled h" "handle_steps fetcher (n, h) (n', h')" for n' h'
    using retired_steps[OF that(3)] that(1,2) by (simp add: retired_def)
  then show ?thesis using inv by (auto simp: handle_inv_def task_alive_def)
qed

text \<open>What happens while the task is being polled: a refresh can even start after the owner has been dropped and
  the task aborted.\<close>

lemma polled_refresh:
  assumes "hd_polled h" and "hd_task h = Waiting"
  shows "handle_steps fetcher (n, h) (n, h\<lparr>hd_world := background_tick fetcher now (hd_world h)\<rparr>)"
proof -
  have "handle_step fetcher (n, h) (n, h\<lparr>hd_task := Locking\<rparr>)" using assms by (rule tick)
  moreover have "handle_step fetcher (n, h\<lparr>hd_task := Locking\<rparr>) (n, h\<lparr>hd_task := Ticking now\<rparr>)"
    using locked[of "h\<lparr>hd_task := Locking\<rparr>" fetcher n now] assms by simp
  moreover have "handle_step fetcher (n, h\<lparr>hd_task := Ticking now\<rparr>) (n, h\<lparr>hd_world := background_tick fetcher now (hd_world h)\<rparr>)"
    using refreshed[of "h\<lparr>hd_task := Ticking now\<rparr>" now fetcher n] assms by (cases h) simp
  ultimately show ?thesis by (meson converse_rtranclp_into_rtranclp rtranclp.rtrancl_refl)
qed

theorem late_refresh:
  assumes "rcfg_enable_background_refresh cfg" and "1000000 \<le> rcfg_refresh_interval cfg"
  shows "\<exists>h. handle_steps fetcher (1, handles_with_config cfg w) (1, h) \<and> hd_live h = {} \<and> hd_cancelled h \<and> hd_aborted h
    \<and> hd_task h = Waiting \<and> handle_steps fetcher (1, h) (1, h\<lparr>hd_world := background_tick fetcher now (hd_world h)\<rparr>)"
proof -
  let ?h0 = "handles_with_config cfg w"
  let ?h1 = "?h0\<lparr>hd_polled := True\<rparr>"
  let ?h2 = "drop_registry 0 ?h1"
  let ?h3 = "abort_task ?h2"
  have live: "hd_live ?h0 = {0}" "hd_owner ?h0 = Some 0" "hd_task ?h0 = Waiting" "\<not> hd_aborted ?h0"
    using assms by (auto simp: handles_with_config_def start_background_refresh_def num_milliseconds_def Let_def)
  have "handle_step fetcher (1, ?h0) (1, ?h1)" by (rule wake) (simp_all add: live task_alive_def)
  moreover have "handle_step fetcher (1, ?h1) (1, ?h2)" by (rule drop_handle) (simp add: live)
  moreover have "handle_step fetcher (1, ?h2) (1, ?h3)" by (rule abort) (simp add: drop_registry_def live Let_def)
  ultimately have reach: "handle_steps fetcher (1, ?h0) (1, ?h3)" by (meson converse_rtranclp_into_rtranclp rtranclp.rtrancl_refl)
  have h3: "hd_live ?h3 = {}" "hd_cancelled ?h3" "hd_aborted ?h3" "hd_task ?h3 = Waiting" "hd_polled ?h3"
    by (simp_all add: abort_task_def drop_registry_def live Let_def)
  have "handle_steps fetcher (1, ?h3) (1, ?h3\<lparr>hd_world := background_tick fetcher now (hd_world ?h3)\<rparr>)"
    using h3(5,4) by (rule polled_refresh)
  with reach h3 show ?thesis by blast
qed

text \<open>A refresh interval below a millisecond ends the task when it starts: nothing is ever refreshed.\<close>

theorem short_interval_never_refreshes:
  assumes "rcfg_refresh_interval cfg < 1000000" and "handle_steps fetcher (1, handles_with_config cfg w) (n, h)"
  shows "\<exists>ops. hd_world h = used fetcher ops (w, registry_with_config cfg)"
proof -
  have "\<not> 1 \<le> num_milliseconds (rcfg_refresh_interval cfg)"
    using assms(1) by (auto simp: num_milliseconds_def sgn_if)
  then have "retired (handles_with_config cfg w)" "hd_world (handles_with_config cfg w) = (w, registry_with_config cfg)"
    by (simp_all add: retired_def task_alive_def handles_with_config_def start_background_refresh_def Let_def)
  then show ?thesis using retired_steps[OF assms(2)] by auto
qed

section \<open>What a refresh is worth\<close>

text \<open>A model the refresh at \<open>t\<close> cached stays fresh for a time to live under lookups, clean-ups and later refreshes,
  so that refreshes at intervals below the time to live (half of it by default) leave \<open>get\<close> no reason to fetch.\<close>

definition kept :: "time \<Rightarrow> string \<Rightarrow> registry \<Rightarrow> bool" where
  "kept t mid r \<longleftrightarrow> hm_ok (rg_cache r) \<and> (\<exists>c. hm_get (rg_cache r) mid = Some c \<and> t + rg_ttl r \<le> cm_expires_at c)"

lemma kept_fresh: "kept t mid r \<Longrightarrow> now < t + rg_ttl r \<Longrightarrow> fresh_model now r mid \<noteq> None"
  by (auto simp: kept_def fresh_model_def)

lemma kept_cache_model: "kept t mid r \<Longrightarrow> t + rg_ttl r \<le> expires \<Longrightarrow> kept t mid (cache_model m info expires r)"
  by (auto simp: kept_def cache_model_def store_simps)

lemma cache_model_ttl [simp]: "rg_ttl (cache_model m info expires r) = rg_ttl r"
  by (simp add: cache_model_def)

lemma kept_insert_valid: "kept t mid r \<Longrightarrow> t + rg_ttl r \<le> expires \<Longrightarrow> kept t mid (insert_valid_models expires models r)"
  by (induction expires models r rule: insert_valid_models.induct) (auto simp: kept_cache_model split: sum.split)

lemma insert_valid_ttl [simp]: "rg_ttl (insert_valid_models expires models r) = rg_ttl r"
  by (induction expires models r rule: insert_valid_models.induct) (auto split: sum.split)

lemma kept_drop_expired: "kept t mid r \<Longrightarrow> now < t + rg_ttl r \<Longrightarrow> kept t mid (drop_expired now r)"
  by (fastforce simp: kept_def drop_expired_def hm_get_retain hm_ok_retain)

lemma drop_expired_ttl [simp]: "rg_ttl (drop_expired now r) = rg_ttl r"
  by (simp add: drop_expired_def)

lemma fetch_and_cache_ttl [simp]: "rg_ttl (snd (snd (fetch_and_cache fetcher now m st))) = rg_ttl (snd st)"
  by (cases st) (auto simp: fetch_and_cache_def split: sum.splits option.splits prod.splits)

lemma kept_fetch:
  "kept t mid (snd st) \<Longrightarrow> t \<le> now \<Longrightarrow> kept t mid (snd (snd (fetch_and_cache fetcher now m st)))"
  by (cases st) (auto simp: fetch_and_cache_def kept_cache_model split: sum.splits option.splits prod.splits)

lemma kept_get:
  "kept t mid (snd st) \<Longrightarrow> t \<le> snd clock \<Longrightarrow> kept t mid (snd (snd (model_get fetcher clock m st)))
     \<and> rg_ttl (snd (snd (model_get fetcher clock m st))) = rg_ttl (snd st)"
  by (auto simp: model_get_def kept_fetch split: option.split)

fun during :: "time \<Rightarrow> time \<Rightarrow> readings \<times> registry_op \<Rightarrow> bool" where
  "during t u ((now, clocks), GetModel mid) \<longleftrightarrow> t \<le> snd (clocks 0)"
| "during t u ((now, clocks), Cleanup) \<longleftrightarrow> now < u"
| "during t u ((now, clocks), Tick) \<longleftrightarrow> t \<le> now \<and> now < u"
| "during t u _ \<longleftrightarrow> False"

lemma kept_step:
  assumes "kept t mid (snd st)" and "during t (t + rg_ttl (snd st)) op"
  shows "kept t mid (snd (cache_step fetcher order op st)) \<and> rg_ttl (snd (cache_step fetcher order op st)) = rg_ttl (snd st)"
  using assms
  by (cases "(t, t + rg_ttl (snd st), op)" rule: during.cases; cases st)
    (auto simp: kept_get registry_cleanup_expired_def Let_def kept_drop_expired kept_insert_valid background_tick_def
      split: prod.split sum.split)

lemma refresh_keeps:
  assumes "list_all_models fetcher w = (Inr models, w')" and "(mid, info) \<in> set models" and "model_validate info = Inr ()"
    and "hm_ok (rg_cache r)" and "0 < rg_ttl r"
  shows "kept t mid (snd (background_tick fetcher t (w, r))) \<and> rg_ttl (snd (background_tick fetcher t (w, r))) = rg_ttl r"
proof -
  have "kept t mid (insert_valid_models (t + rg_ttl r) models r')" if "hm_ok (rg_cache r')" "rg_ttl r' = rg_ttl r" for r'
    using that assms(2)
  proof (induction models arbitrary: r')
    case (Cons x xs)
    let ?r = "case model_validate (snd x) of Inl _ \<Rightarrow> r' | Inr _ \<Rightarrow> cache_model (fst x) (snd x) (t + rg_ttl r) r'"
    have r: "hm_ok (rg_cache ?r)" "rg_ttl ?r = rg_ttl r"
      using Cons.prems by (auto simp: cache_model_def split: sum.split)
    have step: "insert_valid_models (t + rg_ttl r) (x # xs) r' = insert_valid_models (t + rg_ttl r) xs ?r"
      by (cases x) (simp cong: sum.case_cong)
    show ?case
    proof (cases "(mid, info) \<in> set xs")
      case True
      then show ?thesis unfolding step using Cons.IH[OF r] by simp
    next
      case False
      then have "kept t mid ?r"
        using Cons.prems assms(3) by (auto simp: kept_def cache_model_def store_simps)
      then show ?thesis unfolding step by (rule kept_insert_valid) (simp add: r)
    qed
  qed simp
  then have "kept t mid (insert_valid_models (t + rg_ttl r) models r)" using assms(4) by simp
  then have "kept t mid (drop_expired t (insert_valid_models (t + rg_ttl r) models r))"
    by (rule kept_drop_expired) (simp add: assms(5))
  then show ?thesis using assms(1) by (simp add: background_tick_def)
qed

theorem refreshed_model_stays_fresh:
  assumes "list_all_models fetcher w = (Inr models, w')" and "(mid, info) \<in> set models" and "model_validate info = Inr ()"
    and "hm_ok (rg_cache r)" and "0 < rg_ttl r"
    and "list_all (during t (t + rg_ttl r)) ops" and "now < t + rg_ttl r"
  shows "fresh_model now (snd (fold (cache_step fetcher order) ops (background_tick fetcher t (w, r)))) mid \<noteq> None"
proof -
  have "kept t mid (snd (fold (cache_step fetcher order) ops st))
      \<and> rg_ttl (snd (fold (cache_step fetcher order) ops st)) = rg_ttl (snd st)"
    if "kept t mid (snd st)" "list_all (during t (t + rg_ttl (snd st))) ops" for st
    using that
  proof (induction ops arbitrary: st)
    case (Cons op ops)
    then show ?case using kept_step[of t mid st op fetcher order] Cons.IH[of "cache_step fetcher order op st"] by simp
  qed simp
  then show ?thesis using refresh_keeps[OF assms(1-5), of t] assms(6,7) by (intro kept_fresh) simp_all
qed

theorem background_task_follows_owner_witness:
  "hd_task (drop_registry 1 (clone_registry 1
     (handles_with_config (default_registry_config\<lparr>rcfg_enable_background_refresh := True\<rparr>) static_fetcher_new))) \<noteq> Ended"
proof -
  let ?cfg = "default_registry_config\<lparr>rcfg_enable_background_refresh := True\<rparr>"
  let ?start = "handles_with_config ?cfg static_fetcher_new"
  let ?h = "drop_registry 1 (clone_registry 1 ?start)"
  have cfg: "rcfg_enable_background_refresh ?cfg" "1000000 \<le> rcfg_refresh_interval ?cfg"
    by (simp_all add: default_registry_config_def Let_def seconds_def nanos_per_second_def)
  have live: "hd_live ?start = {0}" by (simp add: handles_with_config_def start_background_refresh_def Let_def)
  have "handle_step static_fetcher_ops (1, ?start) (2, clone_registry 1 ?start)"
    using clone[of 0 ?start static_fetcher_ops 1] live by (simp add: numeral_2_eq_2)
  moreover have "handle_step static_fetcher_ops (2, clone_registry 1 ?start) (2, ?h)"
    by (rule drop_handle) (simp add: clone_registry_def)
  ultimately have reach: "handle_steps static_fetcher_ops (1, ?start) (2, ?h)" by simp
  have "0 \<in> hd_live ?h"
    using live by (simp add: drop_registry_def clone_registry_def Let_def)
  then show ?thesis
    using background_task_follows_owner[OF cfg reach] by auto
qed

theorem late_refresh_witness:
  "\<exists>h. handle_steps static_fetcher_ops
      (1, handles_with_config (default_registry_config\<lparr>rcfg_enable_background_refresh := True\<rparr>) static_fetcher_new) (1, h)
    \<and> hd_live h = {} \<and> hd_aborted h \<and> handle_steps static_fetcher_ops (1, h) (1, h\<lparr>hd_world := background_tick static_fetcher_ops 0 (hd_world h)\<rparr>)"
  using late_refresh[of "default_registry_config\<lparr>rcfg_enable_background_refresh := True\<rparr>" static_fetcher_ops static_fetcher_new 0]
  by (auto simp: default_registry_config_def Let_def seconds_def nanos_per_second_def)

theorem refreshed_model_stays_fresh_witness:
  "fresh_model 3500000000000 (snd (fold (cache_step static_fetcher_ops (rev, id))
      [((1800000000000, \<lambda>n. (1800000000000, 1800000000000)), Cleanup), ((1, \<lambda>n. (1, 2000000000000)), GetModel ''x'')]
      (background_tick static_fetcher_ops 0 (static_fetcher_new, registry_new)))) ''gpt-4o'' \<noteq> None"
proof -
  let ?ops = "[((1800000000000, \<lambda>n. (1800000000000, 1800000000000)), Cleanup), ((1, \<lambda>n. (1, 2000000000000)), GetModel ''x'')]"
  obtain info where info: "(''gpt-4o'', info) \<in> set build_models"
    by (auto simp: build_models_def static_model_def)
  have ttl: "rg_ttl registry_new = 3600000000000" "hm_ok (rg_cache registry_new)"
    by (simp_all add: registry_new_def registry_with_config_def default_registry_config_def Let_def seconds_def nanos_per_second_def hm_ok_def)
  show ?thesis
    by (rule refreshed_model_stays_fresh[of static_fetcher_ops static_fetcher_new build_models static_fetcher_new _ info])
      (use info static_models_valid[OF info] ttl in
        \<open>simp_all add: static_fetcher_ops_def static_list_all_def static_fetcher_new_def\<close>)
qed

end
