(* ===== verification/Reasoning.thy ===== *)
theory Reasoning
  imports Prelude
begin

text \<open>
  Inference of reasoning capability from model names and token limits (src/routing/reasoning.rs),
  with its cache. Model names are ASCII where the code lower-cases them.
\<close>

section \<open>State and operations\<close>

datatype reasoning_capability = NoReasoning | BasicReasoning | ExtendedReasoning | HighReasoning

record reasoning_request =
  rr_model :: string
  rr_reasoning_flag :: "bool option"
  rr_max_tokens :: "nat option"
  rr_hints :: "string hmap"

record reasoning_inference =
  ri_model_cache :: "reasoning_capability hmap"
  ri_reasoning_families :: "string list"

definition reasoning_new :: reasoning_inference where
  "reasoning_new = \<lparr>ri_model_cache = [], ri_reasoning_families = [''o1'', ''o1-'', ''claude-thinking'', ''reasoning'']\<rparr>"

definition reasoning_clone :: "reasoning_inference \<Rightarrow> reasoning_inference" where
  "reasoning_clone ri = \<lparr>ri_model_cache = [], ri_reasoning_families = ri_reasoning_families ri\<rparr>"

definition infer_from_model_family :: "reasoning_inference \<Rightarrow> string \<Rightarrow> reasoning_capability" where
  "infer_from_model_family ri model =
     (let model_lower = to_lowercase model
      in if starts_with model_lower ''o1''
         then (if str_contains model_lower ''pro'' \<or> ends_with model_lower ''preview'' then HighReasoning else ExtendedReasoning)
         else if list_ex (str_contains model_lower) (ri_reasoning_families ri) then ExtendedReasoning
         else if str_contains model_lower ''claude'' \<and> str_contains model_lower ''thinking'' then ExtendedReasoning
         else NoReasoning)"

definition enhance_from_tokens :: "reasoning_capability \<Rightarrow> nat option \<Rightarrow> reasoning_capability" where
  "enhance_from_tokens base_capability max_tokens = (case max_tokens of
       Some tokens \<Rightarrow> (if 100000 \<le> tokens \<and> base_capability = NoReasoning then BasicReasoning else base_capability)
     | None \<Rightarrow> base_capability)"

definition infer_capability :: "reasoning_request \<Rightarrow> reasoning_inference \<Rightarrow> reasoning_capability \<times> reasoning_inference" where
  "infer_capability request ri = (case rr_reasoning_flag request of
       Some flag \<Rightarrow> (if flag then ExtendedReasoning else NoReasoning, ri)
     | None \<Rightarrow> (case hm_get (ri_model_cache ri) (rr_model request) of
         Some capability \<Rightarrow> (capability, ri)
       | None \<Rightarrow>
           (let capability = infer_from_model_family ri (rr_model request);
                capability = enhance_from_tokens capability (rr_max_tokens request)
            in (capability, ri\<lparr>ri_model_cache := hm_insert (rr_model request) capability (ri_model_cache ri)\<rparr>))))"

definition requires_reasoning :: "reasoning_request \<Rightarrow> reasoning_inference \<Rightarrow> bool \<times> reasoning_inference" where
  "requires_reasoning request ri = (case infer_capability request ri of
     (capability, ri') \<Rightarrow> (capability \<in> {BasicReasoning, ExtendedReasoning, HighReasoning}, ri'))"

fun capability_level :: "reasoning_capability \<Rightarrow> nat" where
  "capability_level NoReasoning = 0"
| "capability_level BasicReasoning = 1"
| "capability_level ExtendedReasoning = 2"
| "capability_level HighReasoning = 3"

definition clear_cache :: "reasoning_inference \<Rightarrow> reasoning_inference" where
  "clear_cache ri = ri\<lparr>ri_model_cache := []\<rparr>"

definition seed_capability :: "string \<Rightarrow> reasoning_capability \<Rightarrow> reasoning_inference \<Rightarrow> reasoning_inference" where
  "seed_capability model capability ri = ri\<lparr>ri_model_cache := hm_insert model capability (ri_model_cache ri)\<rparr>"

section \<open>What the cache remembers\<close>

text \<open>The first request without a flag for a model decides what all later ones are told.\<close>

definition infer_all :: "reasoning_request list \<Rightarrow> reasoning_inference \<Rightarrow> reasoning_inference" where
  "infer_all requests ri = fold (\<lambda>r ri. snd (infer_capability r ri)) requests ri"

definition first_unflagged :: "string \<Rightarrow> reasoning_request list \<Rightarrow> reasoning_request option" where
  "first_unflagged model requests = find (\<lambda>r. rr_model r = model \<and> rr_reasoning_flag r = None) requests"

lemma infer_capability_families [simp]: "ri_reasoning_families (snd (infer_capability r ri)) = ri_reasoning_families ri"
  by (simp add: infer_capability_def Let_def split: option.split)

lemma infer_all_families [simp]: "ri_reasoning_families (infer_all rs ri) = ri_reasoning_families ri"
  by (induction rs arbitrary: ri) (simp_all add: infer_all_def)

lemma family_cong: "ri_reasoning_families ri = ri_reasoning_families ri' \<Longrightarrow> infer_from_model_family ri = infer_from_model_family ri'"
  by (simp add: infer_from_model_family_def fun_eq_iff Let_def)

lemma infer_all_cache:
  "hm_get (ri_model_cache (infer_all rs ri)) model = (case hm_get (ri_model_cache ri) model of
     Some c \<Rightarrow> Some c
   | None \<Rightarrow> map_option (\<lambda>r. enhance_from_tokens (infer_from_model_family ri model) (rr_max_tokens r)) (first_unflagged model rs))"
proof (induction rs arbitrary: ri)
  case Nil
  show ?case by (simp add: infer_all_def first_unflagged_def split: option.split)
next
  case (Cons r rs)
  have fam: "infer_from_model_family (snd (infer_capability r ri)) = infer_from_model_family ri"
    by (rule family_cong) simp
  show ?case
    using Cons.IH[of "snd (infer_capability r ri)"] fam
    by (auto simp: infer_all_def first_unflagged_def infer_capability_def Let_def store_simps split: option.splits)
qed

text \<open>The capability a model gets is that of its name, raised to basic reasoning by the token limit
  of the first request for it that has no flag: every later request without a flag is told the
  same, whatever its own token limit.\<close>

theorem inference_keeps_first_answer:
  assumes "rr_reasoning_flag request = None"
  shows "fst (infer_capability request (infer_all requests reasoning_new)) =
    enhance_from_tokens (infer_from_model_family reasoning_new (rr_model request))
      (rr_max_tokens (case first_unflagged (rr_model request) requests of Some r \<Rightarrow> r | None \<Rightarrow> request))"
proof -
  have fam: "infer_from_model_family (infer_all requests reasoning_new) = infer_from_model_family reasoning_new"
    by (rule family_cong) simp
  have cache: "hm_get (ri_model_cache (infer_all requests reasoning_new)) (rr_model request) =
      map_option (\<lambda>r. enhance_from_tokens (infer_from_model_family reasoning_new (rr_model request)) (rr_max_tokens r))
        (first_unflagged (rr_model request) requests)"
    by (simp add: infer_all_cache reasoning_new_def)
  show ?thesis
    using assms by (simp add: infer_capability_def cache fam Let_def split: option.split)
qed

definition sample_reasoning :: "nat \<Rightarrow> reasoning_request" where
  "sample_reasoning tokens = \<lparr>rr_model = ''gpt-4'', rr_reasoning_flag = None, rr_max_tokens = Some tokens, rr_hints = []\<rparr>"

theorem inference_keeps_first_answer_witness:
  "fst (infer_capability (sample_reasoning 10) (infer_all [sample_reasoning 200000] reasoning_new)) = BasicReasoning
   \<and> fst (infer_capability (sample_reasoning 200000) (infer_all [sample_reasoning 10] reasoning_new)) = NoReasoning"
proof -
  have fam: "infer_from_model_family reasoning_new ''gpt-4'' = NoReasoning"
    by code_simp
  show ?thesis
    by (simp add: inference_keeps_first_answer sample_reasoning_def first_unflagged_def fam enhance_from_tokens_def)
qed

text \<open>The name of the model the type's documentation gives as an example of high reasoning has none.\<close>

lemma claude_opus_no_reasoning: "infer_from_model_family reasoning_new ''claude-3-opus'' = NoReasoning"
  by code_simp

lemma capability_level_inj: "capability_level a = capability_level b \<longleftrightarrow> a = b"
  by (cases a; cases b) simp_all

end
