(* ===== verification/Gateway.thy ===== *)
theory Gateway
  imports Ssrf
begin

text \<open>
  Configuration and access control of the gateway: expansion of environment variables
  (src/utils/env.rs), comparison of tokens (src/utils/security.rs) and the validated configuration
  (src/config.rs). The environment, the YAML parser, the URL parser and the constant-time
  comparison of the \<open>subtle\<close> crate are parameters. Strings are UTF-8 bytes.
\<close>

section \<open>Environment variables\<close>

text \<open>\<open>str::find\<close> and \<open>str::split_once\<close> for a pattern.\<close>

fun str_find :: "string \<Rightarrow> string \<Rightarrow> nat option" where
  "str_find pat [] = (if pat = [] then Some 0 else None)"
| "str_find pat (c # cs) = (if prefix pat (c # cs) then Some 0 else map_option Suc (str_find pat cs))"

definition split_once :: "string \<Rightarrow> string \<Rightarrow> (string \<times> string) option" where
  "split_once pat s = map_option (\<lambda>i. (take i s, drop (i + length pat) s)) (str_find pat s)"

lemma str_find_bound: "str_find pat s = Some i \<Longrightarrow> i + length pat \<le> length s"
  by (induction s arbitrary: i) (auto split: if_splits dest: prefix_length_le)

type_synonym env_vars = "string \<Rightarrow> string option"

definition expand_reference :: "env_vars \<Rightarrow> string \<Rightarrow> string" where
  "expand_reference env inner = (case split_once '':-'' inner of
       Some (var_name, dflt) \<Rightarrow> (case env var_name of Some v \<Rightarrow> v | None \<Rightarrow> dflt)
     | None \<Rightarrow> (case env inner of Some v \<Rightarrow> v | None \<Rightarrow> []))"

function expand_loop :: "env_vars \<Rightarrow> string \<Rightarrow> string \<Rightarrow> string" where
  "expand_loop env rest result = (case str_find ''${'' rest of
       None \<Rightarrow> result @ rest
     | Some start \<Rightarrow>
         (let result = result @ take start rest; rest = drop (start + 2) rest
          in case str_find ''}'' rest of
               Some end_pos \<Rightarrow>
                 (let inner = take end_pos rest; rest = drop (end_pos + 1) rest
                  in expand_loop env rest (result @ expand_reference env inner))
             | None \<Rightarrow> expand_loop env rest (result @ ''${'')))"
  by pat_completeness auto
termination
  by (relation "measure (\<lambda>(env, rest, result). length rest)") (auto dest!: str_find_bound)

declare expand_loop.simps [simp del]

definition expand_env_var :: "env_vars \<Rightarrow> string \<Rightarrow> string" where
  "expand_env_var env s = expand_loop env s []"

section \<open>Tokens\<close>

text \<open>\<open>ct_eq\<close> gives the \<open>Choice\<close> of two byte strings as the byte of \<open>unwrap_u8\<close>.\<close>

definition constant_time_token_matches :: "(string \<Rightarrow> string \<Rightarrow> 8 word) \<Rightarrow> string \<Rightarrow> string list \<Rightarrow> bool" where
  "constant_time_token_matches ct_eq token configured_tokens =
     (fold (\<lambda>configured result. result OR ct_eq configured token) configured_tokens 0 \<noteq> 0)"

text \<open>What the crate documents of \<open>ct_eq\<close> on slices: 1 if they are equal, 0 if not.\<close>

definition ct_eq_ok :: "(string \<Rightarrow> string \<Rightarrow> 8 word) \<Rightarrow> bool" where
  "ct_eq_ok ct_eq \<longleftrightarrow> (\<forall>a b. ct_eq a b = (if a = b then 1 else 0))"

lemma token_fold: "ct_eq_ok ct_eq \<Longrightarrow> fold (\<lambda>c r. r OR ct_eq c token) tokens r = 0 \<longleftrightarrow> r = 0 \<and> token \<notin> set tokens"
  by (induction tokens arbitrary: r) (auto simp: ct_eq_ok_def or_eq_0_iff)

lemma token_matches: "ct_eq_ok ct_eq \<Longrightarrow> constant_time_token_matches ct_eq token tokens \<longleftrightarrow> token \<in> set tokens"
  by (simp add: constant_time_token_matches_def token_fold)

section \<open>Configuration\<close>

record server_config =
  sv_port :: nat
  sv_host :: string
  sv_timeout_secs :: u64
  sv_auth_tokens :: "string list"
  sv_trust_proxy_headers :: bool

definition default_server_config :: server_config where
  "default_server_config = \<lparr>sv_port = 3000, sv_host = ''0.0.0.0'', sv_timeout_secs = 120, sv_auth_tokens = [],
     sv_trust_proxy_headers = False\<rparr>"

record credential_config =
  cc_id :: string
  cc_provider :: string
  cc_api_key :: string
  cc_base_url :: "string option"
  cc_organization :: "string option"
  cc_allowed_models :: "string list"
  cc_priority :: i32
  cc_daily_quota :: "u64 option"
  cc_rate_limit :: "u64 option"

record routing_policy_config =
  rp_strategy :: string
  rp_session_affinity :: bool
  rp_min_healthy_credentials :: nat
  rp_fallback_depth :: nat

definition default_routing_policy_config :: routing_policy_config where
  "default_routing_policy_config = \<lparr>rp_strategy = ''weighted'', rp_session_affinity = True,
     rp_min_healthy_credentials = 1, rp_fallback_depth = 2\<rparr>"

record provider_config =
  pc_enabled :: bool
  pc_base_url :: "string option"
  pc_timeout_secs :: "u64 option"
  pc_headers :: "string hmap"

record gateway_config =
  gc_server :: server_config
  gc_credentials :: "credential_config list"
  gc_routing :: routing_policy_config
  gc_providers :: "provider_config hmap"

definition default_gateway_config :: gateway_config where
  "default_gateway_config = \<lparr>gc_server = default_server_config, gc_credentials = [],
     gc_routing = default_routing_policy_config, gc_providers = []\<rparr>"

definition expand_credential :: "env_vars \<Rightarrow> credential_config \<Rightarrow> credential_config" where
  "expand_credential env cred = cred\<lparr>cc_api_key := expand_env_var env (cc_api_key cred),
     cc_base_url := map_option (expand_env_var env) (cc_base_url cred)\<rparr>"

definition expand_provider :: "env_vars \<Rightarrow> provider_config \<Rightarrow> provider_config" where
  "expand_provider env p = p\<lparr>pc_base_url := map_option (expand_env_var env) (pc_base_url p),
     pc_headers := map (\<lambda>(k, v). (k, expand_env_var env v)) (pc_headers p)\<rparr>"

definition expand_env_vars :: "env_vars \<Rightarrow> gateway_config \<Rightarrow> gateway_config" where
  "expand_env_vars env cfg = cfg\<lparr>gc_credentials := map (expand_credential env) (gc_credentials cfg),
     gc_providers := map (\<lambda>(k, p). (k, expand_provider env p)) (gc_providers cfg)\<rparr>"

datatype config_error =
    DuplicateCredential string
  | EmptyApiKey string
  | EmptyProvider string
  | ZeroDailyQuota string
  | ZeroRateLimit string
  | InvalidBaseUrl string ssrf_error
  | InvalidStrategy string
  | InvalidYaml string
  | UnreadableFile

definition check_credential :: "credential_config \<Rightarrow> config_error + unit" where
  "check_credential cred =
     (if cc_api_key cred = [] then Inl (EmptyApiKey (cc_id cred))
      else if cc_provider cred = [] then Inl (EmptyProvider (cc_id cred))
      else if cc_daily_quota cred = Some 0 then Inl (ZeroDailyQuota (cc_id cred))
      else if cc_rate_limit cred = Some 0 then Inl (ZeroRateLimit (cc_id cred))
      else Inr ())"

fun check_credentials :: "string list \<Rightarrow> credential_config list \<Rightarrow> config_error + unit" where
  "check_credentials seen_ids [] = Inr ()"
| "check_credentials seen_ids (cred # creds) =
     (if cc_id cred \<in> set seen_ids then Inl (DuplicateCredential (cc_id cred))
      else case check_credential cred of Inl e \<Rightarrow> Inl e | Inr _ \<Rightarrow> check_credentials (cc_id cred # seen_ids) creds)"

fun check_base_urls :: "url_parser \<Rightarrow> credential_config list \<Rightarrow> config_error + unit" where
  "check_base_urls parse_url [] = Inr ()"
| "check_base_urls parse_url (cred # creds) = (case cc_base_url cred of
       None \<Rightarrow> check_base_urls parse_url creds
     | Some url \<Rightarrow> (case validate_url_not_private parse_url url of
           Inl e \<Rightarrow> Inl (InvalidBaseUrl (cc_id cred) e)
         | Inr _ \<Rightarrow> check_base_urls parse_url creds))"

definition gateway_strategies :: "string list" where
  "gateway_strategies = [''weighted'', ''time_aware'', ''quota_aware'', ''adaptive'', ''policy_aware'']"

definition gateway_validate :: "url_parser \<Rightarrow> gateway_config \<Rightarrow> config_error + unit" where
  "gateway_validate parse_url cfg = (case check_credentials [] (gc_credentials cfg) of
       Inl e \<Rightarrow> Inl e
     | Inr _ \<Rightarrow> (case check_base_urls parse_url (gc_credentials cfg) of
         Inl e \<Rightarrow> Inl e
       | Inr _ \<Rightarrow> (if rp_strategy (gc_routing cfg) \<notin> set gateway_strategies
                   then Inl (InvalidStrategy (rp_strategy (gc_routing cfg))) else Inr ())))"

definition from_yaml :: "(string \<Rightarrow> string + gateway_config) \<Rightarrow> env_vars \<Rightarrow> url_parser \<Rightarrow> string \<Rightarrow> config_error + gateway_config" where
  "from_yaml parse_yaml env parse_url yaml = (case parse_yaml yaml of
       Inl e \<Rightarrow> Inl (InvalidYaml e)
     | Inr config \<Rightarrow>
         (let config = expand_env_vars env config
          in case gateway_validate parse_url config of Inl e \<Rightarrow> Inl e | Inr _ \<Rightarrow> Inr config))"

text \<open>Reading a file, and the file that is read at the start: the one of the variable, else the first default
  path that exists, else none; an error names the path.\<close>

definition from_file ::
  "(string \<Rightarrow> string option) \<Rightarrow> (string \<Rightarrow> string + gateway_config) \<Rightarrow> env_vars \<Rightarrow> url_parser \<Rightarrow> string \<Rightarrow> config_error + gateway_config" where
  "from_file read parse_yaml env parse_url path = (case read path of
       None \<Rightarrow> Inl UnreadableFile
     | Some content \<Rightarrow> from_yaml parse_yaml env parse_url content)"

definition default_paths :: "string list" where
  "default_paths = [''./gateway.yaml'', ''./config/gateway.yaml'', ''./gateway.yml'']"

definition config_path :: "env_vars \<Rightarrow> (string \<Rightarrow> bool) \<Rightarrow> string option" where
  "config_path env exists = (case env ''GATEWAY_CONFIG'' of Some path \<Rightarrow> Some path | None \<Rightarrow> List.find exists default_paths)"

definition load_config ::
  "(string \<Rightarrow> bool) \<Rightarrow> (string \<Rightarrow> string option) \<Rightarrow> (string \<Rightarrow> string + gateway_config) \<Rightarrow> env_vars \<Rightarrow> url_parser
    \<Rightarrow> string \<times> config_error + gateway_config" where
  "load_config exists read parse_yaml env parse_url = (case config_path env exists of
       Some path \<Rightarrow> (case from_file read parse_yaml env parse_url path of Inr config \<Rightarrow> Inr config | Inl e \<Rightarrow> Inl (path, e))
     | None \<Rightarrow> Inr default_gateway_config)"

definition credentials_for_provider :: "gateway_config \<Rightarrow> string \<Rightarrow> credential_config list" where
  "credentials_for_provider cfg provider = filter (\<lambda>c. cc_provider c = provider) (gc_credentials cfg)"

definition is_provider_enabled :: "gateway_config \<Rightarrow> string \<Rightarrow> bool" where
  "is_provider_enabled cfg provider = (case hm_get (gc_providers cfg) provider of Some p \<Rightarrow> pc_enabled p | None \<Rightarrow> True)"

definition is_auth_enabled :: "gateway_config \<Rightarrow> bool" where
  "is_auth_enabled cfg \<longleftrightarrow> sv_auth_tokens (gc_server cfg) \<noteq> []"

section \<open>What expansion does\<close>

lemma str_find_None: "str_find pat s = None \<longleftrightarrow> \<not> sublist pat s"
proof (induction s)
  case (Cons c cs)
  then show ?case by (auto simp: sublist_Cons_right)
qed simp

text \<open>The first marker after a text without one, and the first brace after a text without one.\<close>

lemma find_marker:
  "str_find ''${'' l = None \<Longrightarrow> str_find ''${'' (l @ ''${'' @ r) = Some (length l)"
proof (induction l)
  case (Cons c l)
  have "\<not> prefix ''${'' (c # l)" using Cons.prems by (auto split: if_splits)
  then have "\<not> prefix ''${'' ((c # l) @ ''${'' @ r)"
    by (cases l) auto
  then show ?case using Cons by (auto split: if_splits)
qed simp

lemma find_brace: "CHR ''}'' \<notin> set r \<Longrightarrow> str_find ''}'' (r @ CHR ''}'' # rest) = Some (length r)"
  by (induction r) auto

text \<open>A template: references, each after a literal text, and a literal tail.\<close>

definition render :: "(string \<times> string) list \<Rightarrow> string \<Rightarrow> string" where
  "render refs tail = concat (map (\<lambda>(l, r). l @ ''${'' @ r @ ''}'') refs) @ tail"

lemma expand_template:
  assumes "list_all (\<lambda>(l, r). str_find ''${'' l = None \<and> CHR ''}'' \<notin> set r) refs" and "str_find ''${'' tail = None"
  shows "expand_loop env (render refs tail) result =
    result @ concat (map (\<lambda>(l, r). l @ expand_reference env r) refs) @ tail"
  using assms(1)
proof (induction refs arbitrary: result)
  case Nil
  then show ?case using assms(2) by (simp add: expand_loop.simps render_def)
next
  case (Cons p refs)
  obtain l r where p: "p = (l, r)" by (cases p)
  have l: "str_find ''${'' l = None" and r: "CHR ''}'' \<notin> set r" using Cons.prems p by simp_all
  have shape: "render (p # refs) tail = l @ ''${'' @ (r @ CHR ''}'' # render refs tail)"
    by (simp add: render_def p)
  have "expand_loop env (render (p # refs) tail) result
      = expand_loop env (render refs tail) (result @ l @ expand_reference env r)"
    unfolding shape by (subst expand_loop.simps, subst find_marker[OF l]) (simp add: Let_def find_brace[OF r])
  then show ?case
    using Cons.IH Cons.prems p by simp
qed

text \<open>Expansion replaces the references of a template and nothing else: each by the value of its
  variable or, if that is not set, by its default or the empty string; values are not expanded
  again, and a text without the marker is unchanged.\<close>

theorem expand_env_var_template:
  assumes "list_all (\<lambda>(l, r). str_find ''${'' l = None \<and> CHR ''}'' \<notin> set r) refs" and "str_find ''${'' tail = None"
  shows "expand_env_var env (render refs tail) = concat (map (\<lambda>(l, r). l @ expand_reference env r) refs) @ tail"
  using expand_template[OF assms] by (simp add: expand_env_var_def)

theorem expand_env_var_template_witness:
  "expand_env_var [''HOST'' \<mapsto> ''h${X}''] (render [(''http://'', ''HOST:-localhost''), ('':'', ''PORT:-8080'')] ''/v1'')
    = ''http://h${X}:8080/v1''"
  by (subst expand_env_var_template) (simp_all add: expand_reference_def split_once_def)

section \<open>What validation establishes\<close>

definition credential_ok :: "url_parser \<Rightarrow> credential_config \<Rightarrow> bool" where
  "credential_ok parse_url cred \<longleftrightarrow> cc_api_key cred \<noteq> [] \<and> cc_provider cred \<noteq> []
     \<and> cc_daily_quota cred \<noteq> Some 0 \<and> cc_rate_limit cred \<noteq> Some 0
     \<and> (case cc_base_url cred of None \<Rightarrow> True | Some url \<Rightarrow>
          (case parse_url url of
             Inr (Some (Domain d)) \<Rightarrow> True
           | Inr (Some (Ipv4 a)) \<Rightarrow> \<not> reserved (V4 a)
           | Inr (Some (Ipv6 a)) \<Rightarrow> \<not> reserved (V6 a)
           | _ \<Rightarrow> False))"

lemma unit_Inr: "(x :: 'e + unit) = Inr () \<longleftrightarrow> \<not> isl x"
  by (cases x) auto

lemma check_credential_Inr: "check_credential cred = Inr u \<longleftrightarrow>
    cc_api_key cred \<noteq> [] \<and> cc_provider cred \<noteq> [] \<and> cc_daily_quota cred \<noteq> Some 0 \<and> cc_rate_limit cred \<noteq> Some 0"
  by (simp add: check_credential_def)

lemma check_credentials_Inr:
  "check_credentials seen creds = Inr u \<longleftrightarrow> distinct (map cc_id creds) \<and> set seen \<inter> set (map cc_id creds) = {}
    \<and> list_all (\<lambda>c. check_credential c = Inr ()) creds"
proof (induction seen creds rule: check_credentials.induct)
  case (2 seen cred creds)
  show ?case
  proof (cases "cc_id cred \<in> set seen \<or> isl (check_credential cred)")
    case True
    then show ?thesis by (cases "check_credential cred") auto
  next
    case False
    then have c: "check_credential cred = Inr ()" by (cases "check_credential cred") auto
    then show ?thesis using False 2[OF _ c] by auto
  qed
qed simp

lemma check_base_urls_Inr:
  "check_base_urls parse_url creds = Inr u \<longleftrightarrow>
    list_all (\<lambda>c. case cc_base_url c of None \<Rightarrow> True | Some url \<Rightarrow> validate_url_not_private parse_url url = Inr ()) creds"
  by (induction parse_url creds rule: check_base_urls.induct) (auto split: option.split sum.split)

lemma url_ok: "validate_url_not_private parse_url url = Inr () \<longleftrightarrow> (case parse_url url of
     Inr (Some (Domain d)) \<Rightarrow> True | Inr (Some (Ipv4 a)) \<Rightarrow> \<not> reserved (V4 a)
   | Inr (Some (Ipv6 a)) \<Rightarrow> \<not> reserved (V6 a) | _ \<Rightarrow> False)"
  by (auto simp: validate_url_not_private_def private_ip_is_reserved simp del: reserved.simps
      split: sum.splits option.splits host.splits)

lemma gateway_validate_parts:
  "gateway_validate parse_url cfg = Inr () \<longleftrightarrow> check_credentials [] (gc_credentials cfg) = Inr ()
    \<and> check_base_urls parse_url (gc_credentials cfg) = Inr () \<and> rp_strategy (gc_routing cfg) \<in> set gateway_strategies"
  by (auto simp: gateway_validate_def split: sum.splits)

lemma credentials_checked:
  "check_credentials [] creds = Inr () \<and> check_base_urls parse_url creds = Inr () \<longleftrightarrow>
     distinct (map cc_id creds) \<and> list_all (credential_ok parse_url) creds"
  unfolding check_credentials_Inr check_base_urls_Inr url_ok credential_ok_def check_credential_Inr
  by (auto simp: list_all_iff)

text \<open>C39. A configuration is valid exactly if its credential ids are distinct, every credential has a key,
  a provider, no zero quota or rate limit and no base URL into a reserved address block, and the
  routing strategy is a known one; nothing is asked of the providers' own base URLs.\<close>

theorem gateway_validate_exact:
  "gateway_validate parse_url cfg = Inr () \<longleftrightarrow> distinct (map cc_id (gc_credentials cfg))
    \<and> list_all (credential_ok parse_url) (gc_credentials cfg) \<and> rp_strategy (gc_routing cfg) \<in> set gateway_strategies"
  using gateway_validate_parts[of parse_url cfg] credentials_checked[of "gc_credentials cfg" parse_url] by blast

section \<open>What the gateway starts with\<close>

text \<open>The gateway starts only with a valid configuration: the defaults if no file is named and none of the
  default paths exists, else the expanded configuration of the file that is named or found first; a named file
  that is missing, unreadable or invalid is an error, never a fallback to another one or to the defaults.\<close>

theorem load_config_valid:
  "case load_config exists read parse_yaml env parse_url of
     Inr cfg \<Rightarrow> gateway_validate parse_url cfg = Inr ()
       \<and> (case config_path env exists of None \<Rightarrow> cfg = default_gateway_config
          | Some path \<Rightarrow> \<exists>content raw. read path = Some content \<and> parse_yaml content = Inr raw \<and> cfg = expand_env_vars env raw)
   | Inl (path, e) \<Rightarrow> config_path env exists = Some path
       \<and> (case read path of None \<Rightarrow> e = UnreadableFile | Some content \<Rightarrow> from_yaml parse_yaml env parse_url content = Inl e)"
proof -
  have defaults: "gateway_validate parse_url default_gateway_config = Inr ()"
    by (simp add: gateway_validate_def default_gateway_config_def default_routing_policy_config_def gateway_strategies_def)
  show ?thesis
    by (auto simp: load_config_def from_file_def from_yaml_def defaults Let_def split: option.splits sum.splits)
qed

end
