(* ===== verification/Routes.thy ===== *)
theory Routes
  imports Gateway Classification Executor RateLimit Registry
begin

text \<open>
  The assembled gateway: the application state (src/state.rs, \<open>build_app_state\<close> of src/lib.rs) and the
  middleware and handlers (src/routes.rs). Of a request the model keeps the headers the code reads
  (as the text \<open>to_str\<close> gives), the peer's address and the JSON body; parsing and printing of
  IP addresses is a parameter. The handlers give the data from which the JSON response is built.
\<close>

section \<open>Application state\<close>

record app_state =
  as_config :: gateway_config
  as_registry :: registry
  as_router :: router
  as_executor :: route_executor
  as_start_time :: time
  as_credentials :: "auth_info list"
  as_rate_limiter :: rate_limiter

definition build_app_state :: "time \<Rightarrow> gateway_config \<Rightarrow> u64 option \<Rightarrow> app_state" where
  "build_app_state now config rate_limit =
     (let smart_router = fold (\<lambda>cred r. router_add_credential (cc_id cred) (cc_allowed_models cred) r)
            (gc_credentials config) router_new;
          executor = executor_new default_executor_config metrics_new (health_new default_health_config);
          credentials = map (\<lambda>c. \<lparr>ai_id = cc_id c, ai_priority = Some (cc_priority c), ai_quota_exceeded = False,
            ai_unavailable = False, ai_model_states = []\<rparr>) (gc_credentials config);
          limit = (case rate_limit of Some l \<Rightarrow> l | None \<Rightarrow> default_rate_limit)
      in \<lparr>as_config = config, as_registry = registry_new, as_router = smart_router, as_executor = executor,
           as_start_time = now, as_credentials = credentials, as_rate_limiter = limiter_new limit\<rparr>)"

section \<open>Middleware\<close>

record http_request =
  rq_authorization :: "string option"
  rq_forwarded_for :: "string option"
  rq_real_ip :: "string option"
  rq_peer_ip :: string

datatype http_error =
    Forbidden
  | InvalidToken
  | MissingAuthorization
  | TooManyRequests
  | NoRouteAvailable
  | CredentialNotFound string

fun status_of :: "http_error \<Rightarrow> nat" where
  "status_of Forbidden = 403"
| "status_of InvalidToken = 401"
| "status_of MissingAuthorization = 401"
| "status_of TooManyRequests = 429"
| "status_of NoRouteAvailable = 503"
| "status_of (CredentialNotFound _) = 500"

definition strip_prefix :: "string \<Rightarrow> string \<Rightarrow> string option" where
  "strip_prefix pat s = (if prefix pat s then Some (drop (length pat) s) else None)"

definition bearer :: string where "bearer = ''Bearer ''"

text \<open>The middleware runs the next handler exactly if this is \<open>Inr\<close>.\<close>

definition auth_middleware :: "(string \<Rightarrow> string \<Rightarrow> 8 word) \<Rightarrow> env_vars \<Rightarrow> app_state \<Rightarrow> http_request \<Rightarrow> http_error + unit" where
  "auth_middleware ct_eq env st req =
     (let is_development = (case env ''GATEWAY_ENV'' of Some v \<Rightarrow> to_lowercase v = ''development'' | None \<Rightarrow> False);
          tokens = sv_auth_tokens (gc_server (as_config st))
      in if is_development \<and> tokens = [] then Inr ()
         else if tokens = [] then Inl Forbidden
         else case rq_authorization req of
             Some header \<Rightarrow> (case strip_prefix bearer header of
                 Some token \<Rightarrow> if constant_time_token_matches ct_eq token tokens then Inr () else Inl InvalidToken
               | None \<Rightarrow> Inl InvalidToken)
           | None \<Rightarrow> Inl MissingAuthorization)"

text \<open>\<open>parse_ip\<close> parses an address and prints it again.\<close>

definition client_ip :: "(string \<Rightarrow> string option) \<Rightarrow> app_state \<Rightarrow> http_request \<Rightarrow> string" where
  "client_ip parse_ip st req =
     (if sv_trust_proxy_headers (gc_server (as_config st))
      then let forwarded = Option.bind (rq_forwarded_for req) (\<lambda>v.
                 let s = trim (hd (split_on (CHR '','') v)) in if s = [] then None else parse_ip s)
           in case forwarded of
                Some ip \<Rightarrow> ip
              | None \<Rightarrow> (case Option.bind (rq_real_ip req) parse_ip of Some ip \<Rightarrow> ip | None \<Rightarrow> rq_peer_ip req)
      else rq_peer_ip req)"

definition rate_limit_middleware :: "(string \<Rightarrow> string option) \<Rightarrow> time \<Rightarrow> http_request \<Rightarrow> app_state \<Rightarrow> (http_error + unit) \<times> app_state" where
  "rate_limit_middleware parse_ip now req st =
     (case limiter_check now (client_ip parse_ip st req) (as_rate_limiter st) of
        (ok, limiter) \<Rightarrow> (if ok then Inr () else Inl TooManyRequests, st\<lparr>as_rate_limiter := limiter\<rparr>))"

section \<open>Handlers\<close>

record health_report =
  hs_status :: string
  hs_uptime_secs :: int
  hs_credential_count :: nat
  hs_healthy_count :: nat
  hs_degraded_count :: nat
  hs_unhealthy_count :: nat

definition health_check :: "time \<Rightarrow> app_state \<Rightarrow> health_report" where
  "health_check now st = (let credential_count = length (as_credentials st)
     in \<lparr>hs_status = ''healthy'', hs_uptime_secs = secs_since now (as_start_time st), hs_credential_count = credential_count,
          hs_healthy_count = credential_count, hs_degraded_count = 0, hs_unhealthy_count = 0\<rparr>)"

record model_entry =
  me_id :: string
  me_provider :: string
  me_capabilities :: "string list"
  me_context_window :: nat

definition credential_models :: "credential_config \<Rightarrow> model_entry list" where
  "credential_models cred =
     (if cc_allowed_models cred = []
      then [\<lparr>me_id = cc_provider cred @ '':*'', me_provider = cc_provider cred, me_capabilities = [''all''],
             me_context_window = 128000\<rparr>]
      else map (\<lambda>model_id. \<lparr>me_id = model_id, me_provider = cc_provider cred, me_capabilities = [],
             me_context_window = 128000\<rparr>) (cc_allowed_models cred))"

definition list_models :: "app_state \<Rightarrow> model_entry list \<times> nat \<times> string" where
  "list_models st =
     (let models = concat (map credential_models (gc_credentials (as_config st))); count = length models
      in (models, count, if count = 0 then ''No models configured. Add credentials to gateway.yaml''
                         else ''Models loaded from configuration''))"

text \<open>The sample request of \<open>route_request\<close> is a parameter, as all JSON is.\<close>

definition route_request :: "'v json_api \<Rightarrow> 'v \<Rightarrow> plan_env \<Rightarrow> app_state \<Rightarrow> (route_plan \<times> classified_request \<times> string) option \<times> app_state" where
  "route_request js sample env st =
     (case classify js sample of None \<Rightarrow> (None, st)
      | Some classified \<Rightarrow> (case plan env (as_router st) classified (as_credentials st) None of
          None \<Rightarrow> (None, st)
        | Some (route_plan, router) \<Rightarrow>
            (Some (route_plan, classified, if plan_primary route_plan \<noteq> None then ''Route planned successfully''
               else ''No suitable routes found - configure credentials in gateway.yaml''), st\<lparr>as_router := router\<rparr>)))"

record chat_response =
  cr_id :: string
  cr_created :: nat
  cr_model :: string
  cr_content :: string
  cr_prompt_tokens :: nat
  cr_completion_tokens :: nat
  cr_total_tokens :: nat
  cr_route :: route_plan_item
  cr_classified :: classified_request

text \<open>\<open>estimated_tokens + 50\<close> in \<open>u32\<close>: the sum wraps in release builds (and panics in debug builds).\<close>

definition wrap_add_u32 :: "nat \<Rightarrow> nat \<Rightarrow> nat" where "wrap_add_u32 a b = (a + b) mod 2 ^ 32"

definition mock_response :: "string \<Rightarrow> nat \<Rightarrow> string \<Rightarrow> route_plan_item \<Rightarrow> classified_request \<Rightarrow> chat_response" where
  "mock_response uuid created model_id primary classified =
     \<lparr>cr_id = ''chatcmpl-'' @ uuid, cr_created = created, cr_model = model_id,
      cr_content = ''[Gateway mock response - route: '' @ pi_credential_id primary @ '', provider: '' @ pi_provider primary @ '']'',
      cr_prompt_tokens = estimated_tokens classified, cr_completion_tokens = 50,
      cr_total_tokens = wrap_add_u32 (estimated_tokens classified) 50, cr_route = primary, cr_classified = classified\<rparr>"

text \<open>\<open>None\<close> is a handler that does not return; the provider adapter's results are not used.\<close>

definition chat_completions :: "'v json_api \<Rightarrow> plan_env \<Rightarrow> string \<Rightarrow> nat \<Rightarrow> 'v \<Rightarrow> app_state \<Rightarrow> (http_error + chat_response) option \<times> app_state" where
  "chat_completions js env uuid created request st =
     (case classify js request of None \<Rightarrow> (None, st)
      | Some classified \<Rightarrow>
          (let model_id = (case get_str js request ''model'' of Some m \<Rightarrow> m | None \<Rightarrow> ''unknown'');
               session_id = get_str js request ''session_id''
           in case plan env (as_router st) classified (as_credentials st) session_id of
                None \<Rightarrow> (None, st)
              | Some (route_plan, router) \<Rightarrow>
                  (let st' = st\<lparr>as_router := router\<rparr>
                   in case plan_primary route_plan of
                        None \<Rightarrow> (Some (Inl NoRouteAvailable), st')
                      | Some primary \<Rightarrow>
                          (case find (\<lambda>c. cc_id c = pi_credential_id primary) (gc_credentials (as_config st')) of
                             None \<Rightarrow> (Some (Inl (CredentialNotFound (pi_credential_id primary))), st')
                           | Some credential \<Rightarrow>
                               (Some (Inr (mock_response uuid created model_id primary classified)), st')))))"

section \<open>The router of handlers\<close>

datatype endpoint = Root | HealthEndpoint | Models | RouteEndpoint | ChatCompletions

definition protected_endpoint :: "endpoint \<Rightarrow> bool" where
  "protected_endpoint e \<longleftrightarrow> e \<in> {Models, RouteEndpoint, ChatCompletions}"

text \<open>The layers around a handler: the rate limit on every endpoint, then authentication on the
  protected ones; a handler runs exactly if this is \<open>Inr\<close>.\<close>

definition admit :: "(string \<Rightarrow> string option) \<Rightarrow> (string \<Rightarrow> string \<Rightarrow> 8 word) \<Rightarrow> env_vars \<Rightarrow> time \<Rightarrow> endpoint \<Rightarrow> http_request \<Rightarrow> app_state
    \<Rightarrow> (http_error + unit) \<times> app_state" where
  "admit parse_ip ct_eq env now e req st = (case rate_limit_middleware parse_ip now req st of
     (Inl err, st') \<Rightarrow> (Inl err, st')
   | (Inr _, st') \<Rightarrow> (if protected_endpoint e then auth_middleware ct_eq env st' req else Inr (), st'))"

section \<open>Admission\<close>

lemma strip_prefix_Some: "strip_prefix pat s = Some t \<longleftrightarrow> s = pat @ t"
  by (auto simp: strip_prefix_def prefix_def)

definition development :: "env_vars \<Rightarrow> bool" where
  "development env \<longleftrightarrow> (case env ''GATEWAY_ENV'' of Some v \<Rightarrow> to_lowercase v = ''development'' | None \<Rightarrow> False)"

lemma auth_status:
  assumes "ct_eq_ok ct_eq"
  shows "auth_middleware ct_eq env st req =
    (let tokens = sv_auth_tokens (gc_server (as_config st)) in
     if tokens = [] then (if development env then Inr () else Inl Forbidden)
     else case rq_authorization req of None \<Rightarrow> Inl MissingAuthorization
       | Some _ \<Rightarrow> (if list_ex (\<lambda>t. rq_authorization req = Some (bearer @ t)) tokens then Inr () else Inl InvalidToken))"
proof (cases "rq_authorization req")
  case None
  then show ?thesis by (simp add: auth_middleware_def development_def Let_def)
next
  case (Some header)
  show ?thesis
  proof (cases "strip_prefix bearer header")
    case None
    then have "header \<noteq> bearer @ t" for t using strip_prefix_Some[of bearer header t] by (metis option.distinct(1))
    then show ?thesis using Some None by (simp add: auth_middleware_def development_def Let_def list_ex_iff)
  next
    case tok: (Some t)
    then have "header = bearer @ t" by (simp only: strip_prefix_Some)
    then show ?thesis
      using Some tok by (auto simp: auth_middleware_def development_def Let_def list_ex_iff token_matches[OF assms])
  qed
qed

lemma auth_middleware_Inr:
  assumes "ct_eq_ok ct_eq"
  shows "auth_middleware ct_eq env st req = Inr () \<longleftrightarrow>
    (let tokens = sv_auth_tokens (gc_server (as_config st)) in
     if tokens = [] then development env
     else list_ex (\<lambda>t. rq_authorization req = Some (bearer @ t)) tokens)"
  by (simp add: auth_status[OF assms] Let_def list_ex_iff split: option.split)

text \<open>C9. A handler runs exactly for the requests that may reach it: the rate limiter accepts the client,
  and on a protected endpoint the request carries one of the configured tokens as its bearer token;
  without configured tokens protected endpoints are open in development mode only. Rate limiting
  comes first: a rejected request is counted, an unauthenticated one too.\<close>

theorem admission_exact:
  assumes "ct_eq_ok ct_eq"
  shows "(fst (admit parse_ip ct_eq env now e req st) = Inr () \<longleftrightarrow>
      fst (limiter_check now (client_ip parse_ip st req) (as_rate_limiter st)) \<and>
      (if \<not> protected_endpoint e then True
       else if sv_auth_tokens (gc_server (as_config st)) = [] then development env
       else list_ex (\<lambda>t. rq_authorization req = Some (bearer @ t)) (sv_auth_tokens (gc_server (as_config st)))))
    \<and> as_rate_limiter (snd (admit parse_ip ct_eq env now e req st)) =
        snd (limiter_check now (client_ip parse_ip st req) (as_rate_limiter st))"
proof -
  obtain ok l where chk: "limiter_check now (client_ip parse_ip st req) (as_rate_limiter st) = (ok, l)" by fastforce
  show ?thesis
    using auth_middleware_Inr[OF assms, of env "st\<lparr>as_rate_limiter := l\<rparr>" req] chk
    by (simp add: admit_def rate_limit_middleware_def Let_def)
qed

text \<open>The client is the peer unless proxy headers are trusted, so that a header cannot change it; clients
  with different addresses do not share a bucket.\<close>

lemma client_ip_untrusted:
  "\<not> sv_trust_proxy_headers (gc_server (as_config st)) \<Longrightarrow> client_ip parse_ip st req = rq_peer_ip req"
  by (simp add: client_ip_def)

lemma peers_have_own_buckets:
  assumes "\<not> sv_trust_proxy_headers (gc_server (as_config st))" and "rq_peer_ip req \<noteq> rq_peer_ip req'"
  shows "hm_get (rl_buckets (as_rate_limiter (snd (rate_limit_middleware parse_ip now req st)))) (rq_peer_ip req')
    = hm_get (rl_buckets (as_rate_limiter st)) (rq_peer_ip req')"
proof -
  obtain ok l where chk: "limiter_check now (rq_peer_ip req) (as_rate_limiter st) = (ok, l)" by fastforce
  show ?thesis
    using limiter_check_other[OF assms(2) chk] chk
    by (simp add: rate_limit_middleware_def client_ip_untrusted[OF assms(1)])
qed

section \<open>The assembled gateway\<close>

lemma add_credentials_models:
  "cb_models (r_builder (fold (\<lambda>cred r. router_add_credential (cc_id cred) (cc_allowed_models cred) r) crs r))
    = cb_models (r_builder r)"
  by (induction crs arbitrary: r) (simp_all add: router_add_credential_def builder_add_credential_def)

lemma build_app_state_models: "cb_models (r_builder (as_router (build_app_state now config limit))) = []"
  by (simp add: build_app_state_def Let_def add_credentials_models router_new_def router_with_config_def builder_new_def)

lemma no_models_no_candidates: "cb_models b = [] \<Longrightarrow> build_candidates b request = []"
  by (auto simp: build_candidates_def)

text \<open>The gateway as it is assembled routes nothing: its router is given the credentials but no model,
  so that for every configuration and every finite request the chat endpoint answers 503 and leaves
  the state as it was.\<close>

theorem assembled_gateway_routes_nothing:
  assumes "finite_json js sz"
  shows "chat_completions js env uuid created request (build_app_state now config limit)
      = (Some (Inl NoRouteAvailable), build_app_state now config limit)
    \<and> status_of NoRouteAvailable = 503"
proof -
  let ?st = "build_app_state now config limit"
  obtain c where c: "classify js request = Some c"
    using vision_total[OF assms, of request] by (simp add: classify_def Let_def)
  have "plan env (as_router ?st) c (as_credentials ?st) sid
      = Some (\<lparr>plan_primary = None, plan_fallbacks = [], plan_total_candidates = 0, plan_filtered_candidates = 0\<rparr>, as_router ?st)" for sid
    unfolding plan_def Let_def no_models_no_candidates[OF build_app_state_models] by (simp add: filter_candidates_def)
  then show ?thesis
    by (simp add: chat_completions_def c Let_def)
qed

theorem assembled_gateway_routes_nothing_witness:
  "chat_completions json_tree sample_plan_env ''id'' 0 sample_json_request
      (build_app_state 0 (default_gateway_config\<lparr>gc_credentials := [\<lparr>cc_id = ''c1'', cc_provider = ''openai'', cc_api_key = ''k'',
        cc_base_url = None, cc_organization = None, cc_allowed_models = [''gpt-4o''], cc_priority = 0, cc_daily_quota = None,
        cc_rate_limit = None\<rparr>]\<rparr>) None)
    = (Some (Inl NoRouteAvailable), build_app_state 0 (default_gateway_config\<lparr>gc_credentials := [\<lparr>cc_id = ''c1'',
        cc_provider = ''openai'', cc_api_key = ''k'', cc_base_url = None, cc_organization = None, cc_allowed_models = [''gpt-4o''],
        cc_priority = 0, cc_daily_quota = None, cc_rate_limit = None\<rparr>]\<rparr>) None)"
  using assembled_gateway_routes_nothing[OF finite_json_tree] by blast

text \<open>A chat answer is accounted for: it names the model asked for, its route is the planned primary, with
  a configured credential, its prompt tokens are the exact estimate, and its total is their sum
  unless that passes the 32-bit maximum, where it is smaller than its prompt tokens.\<close>

theorem chat_response_accounts:
  assumes "finite_json js sz" and "fst (chat_completions js env uuid created request st) = Some (Inr resp)"
  shows "cr_model resp = (case get_str js request ''model'' of Some m \<Rightarrow> m | None \<Rightarrow> ''unknown'')
    \<and> pi_credential_id (cr_route resp) \<in> set (map cc_id (gc_credentials (as_config st)))
    \<and> (\<exists>route_plan router. plan env (as_router st) (cr_classified resp) (as_credentials st) (get_str js request ''session_id'')
          = Some (route_plan, router) \<and> plan_primary route_plan = Some (cr_route resp))
    \<and> cr_prompt_tokens resp = token_bound js request
    \<and> (if token_bound js request + 50 \<le> u32_max then cr_total_tokens resp = cr_prompt_tokens resp + 50
       else cr_total_tokens resp < cr_prompt_tokens resp)"
proof -
  obtain c where c: "classify js request = Some c" and tok: "estimated_tokens c = token_bound js request"
    using vision_total[OF assms(1), of request] by (simp add: classify_def Let_def estimate_tokens_exact)
  obtain route_plan router primary where p: "plan env (as_router st) c (as_credentials st) (get_str js request ''session_id'') = Some (route_plan, router)"
      "plan_primary route_plan = Some primary"
    and cred: "find (\<lambda>cr. cc_id cr = pi_credential_id primary) (gc_credentials (as_config st)) \<noteq> None"
    and resp: "resp = mock_response uuid created (case get_str js request ''model'' of Some m \<Rightarrow> m | None \<Rightarrow> ''unknown'') primary c"
    using assms(2) c by (auto simp: chat_completions_def Let_def split: option.splits prod.splits)
  have "pi_credential_id primary \<in> cc_id ` set (gc_credentials (as_config st))"
    using cred by (auto simp: find_Some_iff) (metis nth_mem image_eqI)
  moreover have "if n + 50 \<le> u32_max then wrap_add_u32 n 50 = n + 50 else wrap_add_u32 n 50 < n" if "n \<le> u32_max" for n
    using that by (simp add: wrap_add_u32_def u32_max_def mod_if)
  moreover have "token_bound js request \<le> u32_max" by (simp add: token_bound_def)
  ultimately show ?thesis
    using p tok by (simp add: resp mock_response_def)
qed

text \<open>A gateway whose router knows a model, and a request without text and tokens.\<close>

definition routing_state :: app_state where
  "routing_state = (build_app_state 0 (default_gateway_config\<lparr>gc_credentials := [\<lparr>cc_id = ''c1'', cc_provider = ''openai'',
     cc_api_key = ''k'', cc_base_url = None, cc_organization = None, cc_allowed_models = [''m''], cc_priority = 0,
     cc_daily_quota = None, cc_rate_limit = None\<rparr>]\<rparr>) None)\<lparr>as_router := sample_router, as_credentials := []\<rparr>"

definition empty_chat :: json where
  "empty_chat = JObj [(''messages'', JArr []), (''max_tokens'', JNum 0), (''session_id'', JStr ''s'')]"

lemma classify_empty_chat: "classify json_tree empty_chat = Some sample_request"
  by (simp add: classify_def detect_vision_required_def detect_tools_required_def extract_streaming_preference_def get_bool_def
      detect_format_def is_gemini_format_def is_anthropic_format_def is_openai_format_def estimate_tokens_exact token_bound_def
      request_texts_def estimate_output_def get_array_def get_str_def json_tree_def empty_chat_def sample_request_def)

theorem chat_response_accounts_witness:
  "\<exists>resp. fst (chat_completions json_tree sample_plan_env ''id'' 0 empty_chat routing_state) = Some (Inr resp)
    \<and> cr_total_tokens resp = 50"
proof -
  obtain p it where p: "plan sample_plan_env sample_router sample_request [] (Some ''s'')
      = Some (p, remember_session sample_plan_env (Some ''s'') (Some it) sample_router)"
    "plan_primary p = Some it" "pi_credential_id it = ''c1''" using sample_plan by blast
  have fields: "as_router routing_state = sample_router" "as_credentials routing_state = []"
    "map cc_id (gc_credentials (as_config routing_state)) = [''c1'']"
    "find (\<lambda>c. cc_id c = ''c1'') (gc_credentials (as_config routing_state)) \<noteq> None"
    by (simp_all add: routing_state_def build_app_state_def Let_def)
  have sid: "get_str json_tree empty_chat ''session_id'' = Some ''s''"
    by (simp add: get_str_def json_tree_def empty_chat_def)
  obtain resp where r: "fst (chat_completions json_tree sample_plan_env ''id'' 0 empty_chat routing_state) = Some (Inr resp)"
    using p fields by (auto simp: chat_completions_def classify_empty_chat sid Let_def split: option.split)
  have "token_bound json_tree empty_chat = 0"
    using classify_empty_chat by (simp add: classify_def Let_def estimate_tokens_exact sample_request_def split: Option.bind_splits)
  then have "cr_total_tokens resp = 50"
    using chat_response_accounts[OF finite_json_tree r] by (simp add: u32_max_def)
  with r show ?thesis by blast
qed

text \<open>The constant-time comparison as the crate documents it.\<close>

definition byte_eq :: "string \<Rightarrow> string \<Rightarrow> 8 word" where "byte_eq a b = (if a = b then 1 else 0)"

theorem admission_exact_witness:
  "fst (admit (\<lambda>_. None) byte_eq (\<lambda>_. None) 5 ChatCompletions
      \<lparr>rq_authorization = Some ''Bearer t'', rq_forwarded_for = Some ''1.2.3.4'', rq_real_ip = None, rq_peer_ip = ''10.0.0.1''\<rparr>
      (build_app_state 0 (default_gateway_config\<lparr>gc_server := default_server_config\<lparr>sv_auth_tokens := [''s'', ''t'']\<rparr>\<rparr>) (Some 1))) = Inr ()"
proof -
  have "ct_eq_ok byte_eq" by (simp add: ct_eq_ok_def byte_eq_def)
  from admission_exact[OF this, THEN conjunct1] show ?thesis
    by (simp add: build_app_state_def Let_def bearer_def client_ip_def default_gateway_config_def default_server_config_def
        limiter_check_def limiter_new_def protected_endpoint_def secs_since_def)
qed

end
