(* ===== verification/Tracing.thy ===== *)
theory Tracing
  imports Prelude
begin

text \<open>
  Tracing of requests (src/tracing): spans (trace.rs), the bounded in-memory collector
  (collector.rs), the middleware (middleware.rs) and the aggregated metrics (metrics.rs). A header map is
  a function from names: no header, or the text \<open>to_str\<close> gives of it if it is visible ASCII.
  Generated identifiers and clock readings are arguments; times are in nanoseconds.
\<close>

section \<open>Spans\<close>

record trace_span =
  ts_trace_id :: string
  ts_request_id :: string
  ts_provider :: string
  ts_model :: string
  ts_auth_id :: "string option"
  ts_start_time :: time
  ts_end_time :: "time option"
  ts_input_tokens :: "nat option"
  ts_prompt :: "string option"
  ts_output_tokens :: "nat option"
  ts_status_code :: "nat option"
  ts_latency_ms :: "u64 option"
  ts_error_message :: "string option"
  ts_is_streaming :: bool

definition or_unknown :: "string \<Rightarrow> string" where "or_unknown s = (if s = [] then ''unknown'' else s)"

definition span_new :: "string \<Rightarrow> time \<Rightarrow> string \<Rightarrow> string \<Rightarrow> string \<Rightarrow> string option \<Rightarrow> trace_span" where
  "span_new uuid now request_id provider model auth_id =
     \<lparr>ts_trace_id = uuid, ts_request_id = request_id, ts_provider = or_unknown provider, ts_model = or_unknown model,
      ts_auth_id = auth_id, ts_start_time = now, ts_end_time = None, ts_input_tokens = None, ts_prompt = None,
      ts_output_tokens = None, ts_status_code = None, ts_latency_ms = None, ts_error_message = None, ts_is_streaming = False\<rparr>"

text \<open>\<open>num_milliseconds\<close> truncates towards zero; what is below zero is then cut off.\<close>

definition span_complete :: "time \<Rightarrow> nat \<Rightarrow> trace_span \<Rightarrow> trace_span" where
  "span_complete now status_code s =
     (if ts_end_time s \<noteq> None then s
      else s\<lparr>ts_end_time := Some now, ts_status_code := Some status_code,
             ts_latency_ms := Some (nat (max 0 (now - ts_start_time s) div 1000000))\<rparr>)"

definition span_set_error :: "time \<Rightarrow> string \<Rightarrow> trace_span \<Rightarrow> trace_span" where
  "span_set_error now error s =
     (let s = s\<lparr>ts_error_message := Some error\<rparr>;
          s = (if ts_status_code s = None then s\<lparr>ts_status_code := Some 500\<rparr> else s)
      in span_complete now (case ts_status_code s of Some c \<Rightarrow> c | None \<Rightarrow> 500) s)"

definition is_success :: "trace_span \<Rightarrow> bool" where
  "is_success s = (case ts_status_code s of Some c \<Rightarrow> 200 \<le> c \<and> c < 300 | None \<Rightarrow> False)"

section \<open>The collector\<close>

record memory_collector =
  mt_traces :: "trace_span list"
  mt_max_size :: nat

definition collector_new :: "nat \<Rightarrow> memory_collector" where
  "collector_new max_size = \<lparr>mt_traces = [], mt_max_size = max_size\<rparr>"

definition collector_with_default_size :: memory_collector where
  "collector_with_default_size = collector_new 1000"

definition record_trace :: "trace_span \<Rightarrow> memory_collector \<Rightarrow> memory_collector" where
  "record_trace trace c =
     (if mt_max_size c = 0 then c
      else
        let traces = (if mt_max_size c \<le> length (mt_traces c) then tl (mt_traces c) else mt_traces c)
        in c\<lparr>mt_traces := traces @ [trace]\<rparr>)"

definition get_traces :: "memory_collector \<Rightarrow> trace_span list" where "get_traces c = mt_traces c"
definition trace_count :: "memory_collector \<Rightarrow> nat" where "trace_count c = length (mt_traces c)"
definition collector_clear :: "memory_collector \<Rightarrow> memory_collector" where "collector_clear c = c\<lparr>mt_traces := []\<rparr>"

section \<open>The middleware\<close>

type_synonym header_map = "string \<Rightarrow> string option option"

definition header_text :: "header_map \<Rightarrow> string \<Rightarrow> string option" where
  "header_text headers name = Option.bind (headers name) (\<lambda>v. v)"

definition extract_request_id :: "string \<Rightarrow> header_map \<Rightarrow> string" where
  "extract_request_id uuid headers =
     (let header = (case headers ''x-request-id'' of Some v \<Rightarrow> Some v | None \<Rightarrow> headers ''x-trace-id'')
      in case Option.bind header (\<lambda>v. v) of
           Some s \<Rightarrow> (if trim s \<noteq> [] then trim s else uuid)
         | None \<Rightarrow> uuid)"

definition extract_provider_header :: "header_map \<Rightarrow> string option" where
  "extract_provider_header headers = header_text headers ''x-llm-provider''"

definition extract_model :: "header_map \<Rightarrow> string option" where
  "extract_model headers = header_text headers ''x-llm-model''"

definition extract_auth_id :: "header_map \<Rightarrow> string option" where
  "extract_auth_id headers = Option.bind (header_text headers ''authorization'') (\<lambda>v.
     if starts_with v ''Bearer '' \<or> starts_with v ''ApiKey '' then Some ''authenticated''
     else if v \<noteq> [] then Some ''authenticated'' else None)"

text \<open>\<open>str::parse::<u32>\<close>: digits after an optional plus sign, within the range.\<close>

definition parse_u32 :: "string \<Rightarrow> nat option" where
  "parse_u32 s = Option.bind (parse_nat (if starts_with s ''+'' then tl s else s)) (\<lambda>n. if n \<le> u32_max then Some n else None)"

definition trace_request :: "string \<Rightarrow> string \<Rightarrow> time \<Rightarrow> header_map \<Rightarrow> trace_span" where
  "trace_request trace_uuid request_uuid now headers =
     (let request_id = extract_request_id request_uuid headers;
          provider = (case extract_provider_header headers of Some p \<Rightarrow> p | None \<Rightarrow> ''unknown'');
          model = (case extract_model headers of Some m \<Rightarrow> m | None \<Rightarrow> ''unknown'');
          auth_id = extract_auth_id headers;
          span = span_new trace_uuid now request_id provider model auth_id;
          span = (case header_text headers ''x-input-tokens'' of
              Some token_str \<Rightarrow> span\<lparr>ts_input_tokens := parse_u32 token_str\<rparr> | None \<Rightarrow> span)
      in span\<lparr>ts_is_streaming := (case header_text headers ''x-streaming'' of Some v \<Rightarrow> v = ''true'' \<or> v = ''1'' | None \<Rightarrow> False)\<rparr>)"

text \<open>The handler's answer is its status and headers; \<open>elapsed\<close> is the reading of the monotonic clock.\<close>

definition tracing_middleware :: "string \<Rightarrow> string \<Rightarrow> time \<Rightarrow> time \<Rightarrow> time \<Rightarrow> header_map \<Rightarrow> nat \<times> header_map \<Rightarrow> memory_collector \<Rightarrow> memory_collector" where
  "tracing_middleware trace_uuid request_uuid start elapsed end_time headers response c =
     (case response of (status, response_headers) \<Rightarrow>
       (let span = trace_request trace_uuid request_uuid start headers;
            millis = nat (elapsed div 1000000);
            span = span\<lparr>ts_status_code := Some status,
              ts_latency_ms := (if millis \<le> u64_max then Some millis else None), ts_end_time := Some end_time\<rparr>;
            span = (case header_text response_headers ''x-output-tokens'' of
                Some token_str \<Rightarrow> span\<lparr>ts_output_tokens := parse_u32 token_str\<rparr> | None \<Rightarrow> span)
        in record_trace span c))"

section \<open>Aggregated metrics\<close>

record provider_metrics =
  pm_total_requests :: u64
  pm_successful_requests :: u64
  pm_latency_count :: u64
  pm_avg_latency_ms :: f64
  pm_ewma_latency_ms :: f64

record model_metrics =
  mm_total_requests :: u64
  mm_successful_requests :: u64
  mm_latency_count :: u64
  mm_avg_latency_ms :: f64
  mm_total_input_tokens :: u64
  mm_total_output_tokens :: u64

record trace_metrics =
  tm_total_requests :: u64
  tm_successful_requests :: u64
  tm_failed_requests :: u64
  tm_latency_count :: u64
  tm_avg_latency_ms :: f64
  tm_ewma_latency_ms :: f64
  tm_success_rate :: f64
  tm_provider_metrics :: "provider_metrics hmap"
  tm_model_metrics :: "model_metrics hmap"

definition default_provider_metrics :: provider_metrics where
  "default_provider_metrics = \<lparr>pm_total_requests = 0, pm_successful_requests = 0, pm_latency_count = 0,
     pm_avg_latency_ms = f64_0, pm_ewma_latency_ms = f64_0\<rparr>"

definition default_model_metrics :: model_metrics where
  "default_model_metrics = \<lparr>mm_total_requests = 0, mm_successful_requests = 0, mm_latency_count = 0,
     mm_avg_latency_ms = f64_0, mm_total_input_tokens = 0, mm_total_output_tokens = 0\<rparr>"

definition trace_metrics_new :: trace_metrics where
  "trace_metrics_new = \<lparr>tm_total_requests = 0, tm_successful_requests = 0, tm_failed_requests = 0, tm_latency_count = 0,
     tm_avg_latency_ms = f64_0, tm_ewma_latency_ms = f64_0, tm_success_rate = f64_0, tm_provider_metrics = [],
     tm_model_metrics = []\<rparr>"

definition calculate_ewma :: "f64 \<Rightarrow> f64 \<Rightarrow> f64 \<Rightarrow> f64" where
  "calculate_ewma prev_ewma new_value alpha =
     (if \<not> is_finite new_value then prev_ewma
      else if feq prev_ewma f64_0 then new_value
      else fma alpha new_value (fmul (fsub f64_1 alpha) prev_ewma))"

definition max_providers :: nat where "max_providers = 50"
definition max_models :: nat where "max_models = 200"

text \<open>\<open>avg.mul_add((count - 1) as f64, latency) / count as f64\<close>\<close>

definition running_average :: "f64 \<Rightarrow> u64 \<Rightarrow> f64 \<Rightarrow> f64" where
  "running_average avg cnt latency = fdiv (fma avg (f64_nat (cnt - 1)) latency) (f64_nat cnt)"

definition trace_alpha :: f64 where "trace_alpha = f64_of (1 / 10)"

definition sat_add_u64 :: "u64 \<Rightarrow> u64 \<Rightarrow> u64" where "sat_add_u64 a b = min u64_max (a + b)"

definition provider_update :: "trace_span \<Rightarrow> provider_metrics \<Rightarrow> provider_metrics" where
  "provider_update trace m =
     (let m = m\<lparr>pm_total_requests := sat_inc_u64 (pm_total_requests m)\<rparr>;
          m = (if is_success trace then m\<lparr>pm_successful_requests := sat_inc_u64 (pm_successful_requests m)\<rparr> else m)
      in case ts_latency_ms trace of
           None \<Rightarrow> m
         | Some latency \<Rightarrow>
             (let cnt = sat_inc_u64 (pm_latency_count m)
              in m\<lparr>pm_latency_count := cnt,
                   pm_avg_latency_ms := running_average (pm_avg_latency_ms m) cnt (f64_nat latency),
                   pm_ewma_latency_ms := calculate_ewma (pm_ewma_latency_ms m) (f64_nat latency) trace_alpha\<rparr>))"

definition model_update :: "trace_span \<Rightarrow> model_metrics \<Rightarrow> model_metrics" where
  "model_update trace m =
     (let m = m\<lparr>mm_total_requests := sat_inc_u64 (mm_total_requests m)\<rparr>;
          m = (if is_success trace then m\<lparr>mm_successful_requests := sat_inc_u64 (mm_successful_requests m)\<rparr> else m);
          m = (case ts_latency_ms trace of
              None \<Rightarrow> m
            | Some latency \<Rightarrow>
                (let cnt = sat_inc_u64 (mm_latency_count m)
                 in m\<lparr>mm_latency_count := cnt,
                      mm_avg_latency_ms := running_average (mm_avg_latency_ms m) cnt (f64_nat latency)\<rparr>));
          m = (case ts_input_tokens trace of
              Some tokens \<Rightarrow> m\<lparr>mm_total_input_tokens := sat_add_u64 (mm_total_input_tokens m) tokens\<rparr> | None \<Rightarrow> m)
      in case ts_output_tokens trace of
           Some tokens \<Rightarrow> m\<lparr>mm_total_output_tokens := sat_add_u64 (mm_total_output_tokens m) tokens\<rparr> | None \<Rightarrow> m)"

text \<open>An entry of a bounded map: updated if present, added if there is room, else left out.\<close>

definition update_bounded :: "nat \<Rightarrow> 'm \<Rightarrow> ('m \<Rightarrow> 'm) \<Rightarrow> string \<Rightarrow> 'm hmap \<Rightarrow> 'm hmap" where
  "update_bounded limit empty_entry f k m = (case hm_get m k of
       Some x \<Rightarrow> hm_insert k (f x) m
     | None \<Rightarrow> (if length m < limit then hm_insert k (f empty_entry) m else m))"

definition metrics_update :: "trace_span \<Rightarrow> trace_metrics \<Rightarrow> trace_metrics" where
  "metrics_update trace m =
     (let m = m\<lparr>tm_total_requests := sat_inc_u64 (tm_total_requests m)\<rparr>;
          m = (if is_success trace then m\<lparr>tm_successful_requests := sat_inc_u64 (tm_successful_requests m)\<rparr>
               else m\<lparr>tm_failed_requests := sat_inc_u64 (tm_failed_requests m)\<rparr>);
          m = (case ts_latency_ms trace of
              None \<Rightarrow> m
            | Some latency \<Rightarrow>
                (let cnt = sat_inc_u64 (tm_latency_count m)
                 in m\<lparr>tm_latency_count := cnt,
                      tm_avg_latency_ms := running_average (tm_avg_latency_ms m) cnt (f64_nat latency),
                      tm_ewma_latency_ms := calculate_ewma (tm_ewma_latency_ms m) (f64_nat latency) trace_alpha\<rparr>));
          m = m\<lparr>tm_success_rate := fdiv (f64_nat (tm_successful_requests m)) (f64_nat (tm_total_requests m))\<rparr>
      in m\<lparr>tm_provider_metrics := update_bounded max_providers default_provider_metrics (provider_update trace)
              (ts_provider trace) (tm_provider_metrics m),
           tm_model_metrics := update_bounded max_models default_model_metrics (model_update trace)
              (ts_model trace) (tm_model_metrics m)\<rparr>)"

definition aggregate :: "trace_span list \<Rightarrow> trace_metrics" where
  "aggregate traces = fold metrics_update traces trace_metrics_new"

definition provider_success_rate :: "provider_metrics \<Rightarrow> f64" where
  "provider_success_rate m = (if pm_total_requests m = 0 then f64_0
     else fdiv (f64_nat (pm_successful_requests m)) (f64_nat (pm_total_requests m)))"

definition model_success_rate :: "model_metrics \<Rightarrow> f64" where
  "model_success_rate m = (if mm_total_requests m = 0 then f64_0
     else fdiv (f64_nat (mm_successful_requests m)) (f64_nat (mm_total_requests m)))"

definition avg_total_tokens :: "model_metrics \<Rightarrow> f64" where
  "avg_total_tokens m = (if mm_total_requests m = 0 then f64_0
     else fdiv (f64_nat (wrap_add_u64 (mm_total_input_tokens m) (mm_total_output_tokens m))) (f64_nat (mm_total_requests m)))"

text \<open>Percentiles are a placeholder; building a middleware panics without a collector.\<close>

definition get_percentile :: "f64 \<Rightarrow> trace_metrics \<Rightarrow> f64 option" where "get_percentile percentile m = None"

record tracing_builder =
  tb_collector :: "memory_collector option"

definition tracing_builder_new :: tracing_builder where "tracing_builder_new = \<lparr>tb_collector = None\<rparr>"

definition with_collector :: "memory_collector \<Rightarrow> tracing_builder \<Rightarrow> tracing_builder" where
  "with_collector c b = b\<lparr>tb_collector := Some c\<rparr>"

definition build_middleware :: "tracing_builder \<Rightarrow> string + memory_collector" where
  "build_middleware b = (case tb_collector b of
       None \<Rightarrow> Inl ''Collector must be set to build TracingMiddleware''
     | Some c \<Rightarrow> Inr c)"

section \<open>The collector keeps the latest traces\<close>

lemma record_trace_max [simp]: "mt_max_size (record_trace t c) = mt_max_size c"
  by (simp add: record_trace_def Let_def)

lemma record_trace_none: "mt_max_size c = 0 \<Longrightarrow> record_trace t c = c"
  by (simp add: record_trace_def)

text \<open>The collector is a sliding window: after any traces it holds exactly the latest ones, up to its
  size, in the order in which they were recorded.\<close>

theorem collector_keeps_latest:
  "get_traces (fold record_trace traces (collector_new n)) = drop (length traces - n) traces
   \<and> trace_count (fold record_trace traces (collector_new n)) = min n (length traces)"
proof -
  have "mt_traces (fold record_trace traces (collector_new n)) = drop (length traces - n) traces
      \<and> mt_max_size (fold record_trace traces (collector_new n)) = n"
  proof (induction traces rule: rev_induct)
    case Nil
    then show ?case by (simp add: collector_new_def)
  next
    case (snoc t ts)
    let ?c = "fold record_trace ts (collector_new n)"
    have c: "mt_traces ?c = drop (length ts - n) ts" "mt_max_size ?c = n" using snoc by simp_all
    consider "n = 0" | "0 < n" "length ts < n" | "0 < n" "n \<le> length ts" by linarith
    then show ?case
    proof cases
      case 3
      then have "tl (drop (length ts - n) ts) = drop (Suc (length ts) - n) ts"
        by (simp add: drop_Suc drop_tl Suc_diff_le)
      then show ?thesis using c 3 by (simp add: record_trace_def[of t ?c] Let_def)
    next
      case 1
      then show ?thesis using c by (simp add: record_trace_none)
    qed (use c in \<open>simp add: record_trace_def[of t ?c]\<close>)
  qed
  then show ?thesis by (auto simp: get_traces_def trace_count_def)
qed

section \<open>Metrics count the traces\<close>

definition of_provider :: "string \<Rightarrow> trace_span list \<Rightarrow> trace_span list" where
  "of_provider p ts = filter (\<lambda>t. ts_provider t = p) ts"

definition of_model :: "string \<Rightarrow> trace_span list \<Rightarrow> trace_span list" where
  "of_model p ts = filter (\<lambda>t. ts_model t = p) ts"

definition successes :: "trace_span list \<Rightarrow> nat" where "successes ts = length (filter is_success ts)"
definition timed :: "trace_span list \<Rightarrow> nat" where "timed ts = length (filter (\<lambda>t. ts_latency_ms t \<noteq> None) ts)"

text \<open>A bounded map over keyed events holds, for each of the keys that came first, the fold over all
  events of that key.\<close>

lemma update_bounded_get:
  "hm_get (update_bounded limit e f k m) k' = (if k' = k then (case hm_get m k of Some x \<Rightarrow> Some (f x)
     | None \<Rightarrow> if length m < limit then Some (f e) else None) else hm_get m k')"
  by (simp add: update_bounded_def store_simps split: option.split)

lemma update_bounded_size: "length m \<le> limit \<Longrightarrow> length (update_bounded limit e f k m) \<le> limit"
  by (auto simp: update_bounded_def length_hm_insert map_of_eq_None_iff[symmetric] split: option.split dest: map_of_SomeD)

definition bounded_fold :: "nat \<Rightarrow> 'm \<Rightarrow> ('t \<Rightarrow> 'm \<Rightarrow> 'm) \<Rightarrow> ('t \<Rightarrow> string) \<Rightarrow> 't list \<Rightarrow> 'm hmap" where
  "bounded_fold limit e f key ts = fold (\<lambda>t. update_bounded limit e (f t) (key t)) ts []"

lemma bounded_fold_spec:
  "length (bounded_fold limit e f key ts) \<le> limit
    \<and> (\<forall>k. case hm_get (bounded_fold limit e f key ts) k of
          Some x \<Rightarrow> x = fold f (filter (\<lambda>t. key t = k) ts) e
        | None \<Rightarrow> filter (\<lambda>t. key t = k) ts \<noteq> [] \<longrightarrow> length (bounded_fold limit e f key ts) = limit)"
proof (induction ts rule: rev_induct)
  case Nil
  show ?case by (simp add: bounded_fold_def)
next
  case (snoc t ts)
  let ?m = "bounded_fold limit e f key ts"
  have step: "bounded_fold limit e f key (ts @ [t]) = update_bounded limit e (f t) (key t) ?m"
    by (simp add: bounded_fold_def)
  have len: "length ?m \<le> limit" and old: "\<And>k. case hm_get ?m k of
          Some x \<Rightarrow> x = fold f (filter (\<lambda>t. key t = k) ts) e
        | None \<Rightarrow> filter (\<lambda>t. key t = k) ts \<noteq> [] \<longrightarrow> length ?m = limit"
    using snoc by simp_all
  have grows: "length ?m = limit \<Longrightarrow> length (update_bounded limit e (f t) (key t) ?m) = limit"
    by (auto simp: update_bounded_def length_hm_insert map_of_eq_None_iff split: option.split dest: map_of_SomeD intro: rev_image_eqI)
  have "case hm_get (update_bounded limit e (f t) (key t) ?m) k of
          Some x \<Rightarrow> x = fold f (filter (\<lambda>t. key t = k) (ts @ [t])) e
        | None \<Rightarrow> filter (\<lambda>t. key t = k) (ts @ [t]) \<noteq> [] \<longrightarrow> length (update_bounded limit e (f t) (key t) ?m) = limit" for k
  proof (cases "k = key t")
    case True
    show ?thesis
    proof (cases "hm_get ?m k")
      case None
      show ?thesis
      proof (cases "length ?m < limit")
        case room: True
        then have "filter (\<lambda>t. key t = k) ts = []" using old[of k] None by auto
        then show ?thesis using True None room by (simp add: update_bounded_get)
      next
        case False
        then show ?thesis using True None len grows by (simp add: update_bounded_get)
      qed
    next
      case (Some x)
      then show ?thesis using True old[of k] by (simp add: update_bounded_get)
    qed
  next
    case False
    then show ?thesis using old[of k] grows by (auto simp: update_bounded_get split: option.splits)
  qed
  then show ?case
    using update_bounded_size[OF len] unfolding step by blast
qed

text \<open>The entries of a provider and of a model are the fold of the updates over the traces that name it.\<close>

lemma metrics_update_maps:
  "tm_provider_metrics (metrics_update t m) =
     update_bounded max_providers default_provider_metrics (provider_update t) (ts_provider t) (tm_provider_metrics m)"
  "tm_model_metrics (metrics_update t m) =
     update_bounded max_models default_model_metrics (model_update t) (ts_model t) (tm_model_metrics m)"
  by (simp_all add: metrics_update_def Let_def split: option.split)

lemma aggregate_maps:
  "tm_provider_metrics (aggregate ts) = bounded_fold max_providers default_provider_metrics provider_update ts_provider ts"
  "tm_model_metrics (aggregate ts) = bounded_fold max_models default_model_metrics model_update ts_model ts"
  by (induction ts rule: rev_induct)
    (simp_all add: aggregate_def bounded_fold_def trace_metrics_new_def metrics_update_maps)

lemma metrics_update_counts:
  "tm_total_requests (metrics_update t m) = sat_inc_u64 (tm_total_requests m)"
  "tm_successful_requests (metrics_update t m) = (if is_success t then sat_inc_u64 (tm_successful_requests m) else tm_successful_requests m)"
  "tm_failed_requests (metrics_update t m) = (if is_success t then tm_failed_requests m else sat_inc_u64 (tm_failed_requests m))"
  "tm_latency_count (metrics_update t m) = (if ts_latency_ms t = None then tm_latency_count m else sat_inc_u64 (tm_latency_count m))"
  by (simp_all add: metrics_update_def Let_def split: option.split)

lemma provider_update_counts:
  "pm_total_requests (provider_update t m) = sat_inc_u64 (pm_total_requests m)"
  "pm_successful_requests (provider_update t m) = (if is_success t then sat_inc_u64 (pm_successful_requests m) else pm_successful_requests m)"
  "pm_latency_count (provider_update t m) = (if ts_latency_ms t = None then pm_latency_count m else sat_inc_u64 (pm_latency_count m))"
  by (simp_all add: provider_update_def Let_def split: option.split)

lemma model_update_counts:
  "mm_total_requests (model_update t m) = sat_inc_u64 (mm_total_requests m)"
  "mm_successful_requests (model_update t m) = (if is_success t then sat_inc_u64 (mm_successful_requests m) else mm_successful_requests m)"
  "mm_latency_count (model_update t m) = (if ts_latency_ms t = None then mm_latency_count m else sat_inc_u64 (mm_latency_count m))"
  "mm_total_input_tokens (model_update t m) = sat_add_u64 (mm_total_input_tokens m) (case ts_input_tokens t of Some n \<Rightarrow> n | None \<Rightarrow> 0)
     \<or> ts_input_tokens t = None \<and> mm_total_input_tokens (model_update t m) = mm_total_input_tokens m"
  by (simp_all add: model_update_def Let_def split: option.split)

lemma sat_inc_min: "sat_inc_u64 (min u64_max n) = min u64_max (Suc n)"
  by (simp add: sat_inc_u64_def min_def)

lemma provider_fold_counts:
  "pm_total_requests (fold provider_update ts default_provider_metrics) = min u64_max (length ts)
   \<and> pm_successful_requests (fold provider_update ts default_provider_metrics) = min u64_max (successes ts)
   \<and> pm_latency_count (fold provider_update ts default_provider_metrics) = min u64_max (timed ts)"
  by (induction ts rule: rev_induct)
    (simp_all add: provider_update_counts default_provider_metrics_def successes_def timed_def sat_inc_min)

lemma model_fold_counts:
  "mm_total_requests (fold model_update ts default_model_metrics) = min u64_max (length ts)
   \<and> mm_successful_requests (fold model_update ts default_model_metrics) = min u64_max (successes ts)
   \<and> mm_latency_count (fold model_update ts default_model_metrics) = min u64_max (timed ts)"
  by (induction ts rule: rev_induct)
    (simp_all add: model_update_counts default_model_metrics_def successes_def timed_def sat_inc_min)

lemma aggregate_counts:
  "tm_total_requests (aggregate ts) = min u64_max (length ts)
   \<and> tm_successful_requests (aggregate ts) = min u64_max (successes ts)
   \<and> tm_failed_requests (aggregate ts) = min u64_max (length ts - successes ts)
   \<and> tm_latency_count (aggregate ts) = min u64_max (timed ts)"
proof (induction ts rule: rev_induct)
  case Nil
  show ?case by (simp add: aggregate_def trace_metrics_new_def successes_def timed_def)
next
  case (snoc t ts)
  have step: "aggregate (ts @ [t]) = metrics_update t (aggregate ts)" by (simp add: aggregate_def)
  have le: "successes ts \<le> length ts" by (simp add: successes_def)
  show ?case using snoc le
    by (simp add: step metrics_update_counts sat_inc_min successes_def timed_def Suc_diff_le)
qed

text \<open>Aggregation counts the traces, per provider and per model too: of any traces, the total, the
  successes, the failures and the timed ones are counted, up to the largest 64-bit number; each provider that
  has an entry has the counts of exactly its own traces, and a provider whose traces have no entry was left out
  because fifty others came before it (two hundred, for models).\<close>

theorem aggregate_counts_traces:
  "tm_total_requests (aggregate ts) = min u64_max (length ts)
   \<and> tm_successful_requests (aggregate ts) = min u64_max (successes ts)
   \<and> tm_failed_requests (aggregate ts) = min u64_max (length ts - successes ts)
   \<and> tm_latency_count (aggregate ts) = min u64_max (timed ts)
   \<and> length (tm_provider_metrics (aggregate ts)) \<le> 50 \<and> length (tm_model_metrics (aggregate ts)) \<le> 200
   \<and> (case hm_get (tm_provider_metrics (aggregate ts)) p of
        Some m \<Rightarrow> pm_total_requests m = min u64_max (length (of_provider p ts))
          \<and> pm_successful_requests m = min u64_max (successes (of_provider p ts))
          \<and> pm_latency_count m = min u64_max (timed (of_provider p ts))
      | None \<Rightarrow> of_provider p ts = [] \<or> length (tm_provider_metrics (aggregate ts)) = 50)
   \<and> (case hm_get (tm_model_metrics (aggregate ts)) q of
        Some m \<Rightarrow> mm_total_requests m = min u64_max (length (of_model q ts))
          \<and> mm_successful_requests m = min u64_max (successes (of_model q ts))
          \<and> mm_latency_count m = min u64_max (timed (of_model q ts))
      | None \<Rightarrow> of_model q ts = [] \<or> length (tm_model_metrics (aggregate ts)) = 200)"
proof -
  note spec_p = bounded_fold_spec[of max_providers default_provider_metrics provider_update ts_provider ts,
      folded aggregate_maps, unfolded max_providers_def]
  note spec_m = bounded_fold_spec[of max_models default_model_metrics model_update ts_model ts,
      folded aggregate_maps, unfolded max_models_def]
  have "case hm_get (tm_provider_metrics (aggregate ts)) p of
        Some m \<Rightarrow> pm_total_requests m = min u64_max (length (of_provider p ts))
          \<and> pm_successful_requests m = min u64_max (successes (of_provider p ts))
          \<and> pm_latency_count m = min u64_max (timed (of_provider p ts))
      | None \<Rightarrow> of_provider p ts = [] \<or> length (tm_provider_metrics (aggregate ts)) = 50"
    using spec_p provider_fold_counts[of "of_provider p ts"]
    by (auto simp: of_provider_def split: option.split dest!: spec[where x = p])
  moreover have "case hm_get (tm_model_metrics (aggregate ts)) q of
        Some m \<Rightarrow> mm_total_requests m = min u64_max (length (of_model q ts))
          \<and> mm_successful_requests m = min u64_max (successes (of_model q ts))
          \<and> mm_latency_count m = min u64_max (timed (of_model q ts))
      | None \<Rightarrow> of_model q ts = [] \<or> length (tm_model_metrics (aggregate ts)) = 200"
    using spec_m model_fold_counts[of "of_model q ts"]
    by (auto simp: of_model_def split: option.split dest!: spec[where x = q])
  ultimately show ?thesis using aggregate_counts[of ts] spec_p spec_m by blast
qed

section \<open>Identifiers of requests\<close>

text \<open>A request id header that is present decides: when it is blank or not visible ASCII, a new
  identifier is generated even if the request has a usable trace id, which only counts when there is no
  request id header at all.\<close>

theorem unusable_request_id_hides_trace_id:
  "headers ''x-request-id'' = Some v \<Longrightarrow>
   extract_request_id uuid headers = (case v of Some s \<Rightarrow> if trim s = [] then uuid else trim s | None \<Rightarrow> uuid)"
  by (simp add: extract_request_id_def split: option.split)

theorem unusable_request_id_hides_trace_id_witness:
  "extract_request_id ''new'' [''x-request-id'' \<mapsto> None, ''x-trace-id'' \<mapsto> Some ''t1''] = ''new''"
  using unusable_request_id_hides_trace_id[of "[''x-request-id'' \<mapsto> None, ''x-trace-id'' \<mapsto> Some ''t1'']" None "''new''"]
  by simp

end
