(* ===== verification/ProviderTypes.thy ===== *)
theory ProviderTypes
  imports Classification
begin

text \<open>
  The normalized requests and responses of the provider adapters (src/providers/types) and what the three
  adapters share. The JSON values they build are serde_json's: \<open>'v json_builder\<close> extends the accessors of
  the classification by the constructors of \<open>json!\<close>, the assignment \<open>value["key"] = \<dots>\<close> and
  \<open>serde_json::to_string\<close>. What the library documents of them is the predicate \<open>json_builder_ok\<close>.
  An \<open>f32\<close> is among the values of \<open>f64\<close>, to which serde_json converts it.
\<close>

section \<open>Messages and tools\<close>

record image_url =
  iu_url :: string
  iu_detail :: "string option"

record image_data =
  id_mime_type :: string
  id_data :: string

record content_part =
  cp_part_type :: string
  cp_text :: "string option"
  cp_image_url :: "image_url option"
  cp_image_data :: "image_data option"

datatype message_content = Text string | Parts "content_part list"

definition as_text :: "message_content \<Rightarrow> string option" where
  "as_text c = (case c of Text t \<Rightarrow> Some t | Parts _ \<Rightarrow> None)"

definition text_part :: "string \<Rightarrow> content_part" where
  "text_part t = \<lparr>cp_part_type = ''text'', cp_text = Some t, cp_image_url = None, cp_image_data = None\<rparr>"

definition image_url_part :: "string \<Rightarrow> content_part" where
  "image_url_part url = \<lparr>cp_part_type = ''image_url'', cp_text = None,
     cp_image_url = Some \<lparr>iu_url = url, iu_detail = None\<rparr>, cp_image_data = None\<rparr>"

record message =
  msg_role :: string
  msg_content :: message_content
  msg_name :: "string option"

record 'v function_def =
  fd_name :: string
  fd_description :: "string option"
  fd_parameters :: "'v option"

record 'v tool =
  tool_type :: string
  tool_function :: "'v function_def"

definition tool_of_function :: "string \<Rightarrow> string \<Rightarrow> 'v tool" where
  "tool_of_function name description = \<lparr>tool_type = ''function'',
     tool_function = \<lparr>fd_name = name, fd_description = Some description, fd_parameters = None\<rparr>\<rparr>"

definition with_parameters :: "'v \<Rightarrow> 'v tool \<Rightarrow> 'v tool" where
  "with_parameters ps t = t\<lparr>tool_function := (tool_function t)\<lparr>fd_parameters := Some ps\<rparr>\<rparr>"

datatype tool_choice = ChoiceAuto | ChoiceNone | ChoiceRequired | ChoiceFunction string

section \<open>Requests and their builder\<close>

record 'v provider_request =
  pr_messages :: "message list"
  pr_model :: string
  pr_max_tokens :: "nat option"
  pr_temperature :: "f64 option"
  pr_top_p :: "f64 option"
  pr_stop :: "string list option"
  pr_stream :: bool
  pr_system :: "string option"
  pr_tools :: "'v tool list option"
  pr_tool_choice :: "tool_choice option"

record 'v request_builder =
  rb_messages :: "message list"
  rb_model :: "string option"
  rb_max_tokens :: "nat option"
  rb_temperature :: "f64 option"
  rb_top_p :: "f64 option"
  rb_stop :: "string list option"
  rb_stream :: bool
  rb_system :: "string option"
  rb_tools :: "'v tool list option"
  rb_tool_choice :: "tool_choice option"

definition request_builder_new :: "'v request_builder" where
  "request_builder_new = \<lparr>rb_messages = [], rb_model = None, rb_max_tokens = None, rb_temperature = None, rb_top_p = None,
     rb_stop = None, rb_stream = False, rb_system = None, rb_tools = None, rb_tool_choice = None\<rparr>"

definition set_messages :: "message list \<Rightarrow> 'v request_builder \<Rightarrow> 'v request_builder" where "set_messages x b = b\<lparr>rb_messages := x\<rparr>"
definition set_model :: "string \<Rightarrow> 'v request_builder \<Rightarrow> 'v request_builder" where "set_model x b = b\<lparr>rb_model := Some x\<rparr>"
definition set_max_tokens :: "nat \<Rightarrow> 'v request_builder \<Rightarrow> 'v request_builder" where "set_max_tokens x b = b\<lparr>rb_max_tokens := Some x\<rparr>"
definition set_temperature :: "f64 \<Rightarrow> 'v request_builder \<Rightarrow> 'v request_builder" where "set_temperature x b = b\<lparr>rb_temperature := Some x\<rparr>"
definition set_stream :: "bool \<Rightarrow> 'v request_builder \<Rightarrow> 'v request_builder" where "set_stream x b = b\<lparr>rb_stream := x\<rparr>"
definition set_system :: "string \<Rightarrow> 'v request_builder \<Rightarrow> 'v request_builder" where "set_system x b = b\<lparr>rb_system := Some x\<rparr>"
definition set_tools :: "'v tool list \<Rightarrow> 'v request_builder \<Rightarrow> 'v request_builder" where "set_tools x b = b\<lparr>rb_tools := Some x\<rparr>"

definition build_request :: "'v request_builder \<Rightarrow> string + 'v provider_request" where
  "build_request b = (case rb_model b of
       None \<Rightarrow> Inl ''model is required''
     | Some model \<Rightarrow> Inr \<lparr>pr_messages = rb_messages b, pr_model = model, pr_max_tokens = rb_max_tokens b,
         pr_temperature = rb_temperature b, pr_top_p = rb_top_p b, pr_stop = rb_stop b, pr_stream = rb_stream b,
         pr_system = rb_system b, pr_tools = rb_tools b, pr_tool_choice = rb_tool_choice b\<rparr>)"

section \<open>Responses\<close>

record token_usage =
  tu_prompt :: nat
  tu_completion :: nat
  tu_total :: nat

definition token_usage_new :: "nat \<Rightarrow> nat \<Rightarrow> token_usage" where
  "token_usage_new prompt completion = \<lparr>tu_prompt = prompt, tu_completion = completion, tu_total = sat_add_u32 prompt completion\<rparr>"

record function_call =
  fc_name :: string
  fc_arguments :: string

record tool_call =
  tc_id :: string
  tc_call_type :: string
  tc_function :: function_call

record provider_response =
  rs_id :: string
  rs_model :: string
  rs_content :: string
  rs_finish_reason :: string
  rs_usage :: token_usage
  rs_tool_calls :: "tool_call list option"

definition has_tool_calls :: "provider_response \<Rightarrow> bool" where
  "has_tool_calls r = (case rs_tool_calls r of Some t \<Rightarrow> t \<noteq> [] | None \<Rightarrow> False)"

record provider_error =
  pe_error_type :: string
  pe_message :: string
  pe_code :: "string option"

definition provider_error_display :: "provider_error \<Rightarrow> string" where
  "provider_error_display e = ''['' @ pe_error_type e @ ''] '' @ pe_message e"

section \<open>Building JSON\<close>

record 'v json_builder = "'v json_api" +
  jb_null :: 'v
  jb_bool :: "bool \<Rightarrow> 'v"
  jb_u32 :: "nat \<Rightarrow> 'v"
  jb_f32 :: "f64 \<Rightarrow> 'v"
  jb_str :: "string \<Rightarrow> 'v"
  jb_array :: "'v list \<Rightarrow> 'v"
  jb_object :: "(string \<times> 'v) list \<Rightarrow> 'v"
  jb_set :: "string \<Rightarrow> 'v \<Rightarrow> 'v \<Rightarrow> 'v"
  jb_to_string :: "'v \<Rightarrow> string"

text \<open>\<open>value["a"]["b"]\<close> is null where there is no such field, so that a typed accessor then gives none.\<close>

definition str_at :: "('v, 'z) json_builder_scheme \<Rightarrow> 'v \<Rightarrow> string \<Rightarrow> string option" where
  "str_at js v k = Option.bind (js_get js v k) (js_str js)"

definition u64_at :: "('v, 'z) json_builder_scheme \<Rightarrow> 'v \<Rightarrow> string \<Rightarrow> u64 option" where
  "u64_at js v k = Option.bind (js_get js v k) (js_u64 js)"

definition array_at :: "('v, 'z) json_builder_scheme \<Rightarrow> 'v \<Rightarrow> string \<Rightarrow> 'v list option" where
  "array_at js v k = Option.bind (js_get js v k) (js_array js)"

definition field_at :: "('v, 'z) json_builder_scheme \<Rightarrow> 'v \<Rightarrow> string \<Rightarrow> 'v" where
  "field_at js v k = (case js_get js v k of Some w \<Rightarrow> w | None \<Rightarrow> jb_null js)"

definition or_else :: "'a option \<Rightarrow> 'a \<Rightarrow> 'a" where
  "or_else x d = (case x of Some a \<Rightarrow> a | None \<Rightarrow> d)"

definition opt_str :: "'v json_builder \<Rightarrow> string option \<Rightarrow> 'v" where
  "opt_str js x = (case x of Some s \<Rightarrow> jb_str js s | None \<Rightarrow> jb_null js)"

text \<open>\<open>if let Some(x) = option { request[key] = json!(x) }\<close>\<close>

definition set_some :: "'v json_builder \<Rightarrow> string \<Rightarrow> ('a \<Rightarrow> 'v) \<Rightarrow> 'a option \<Rightarrow> 'v \<Rightarrow> 'v" where
  "set_some js k f x v = (case x of Some a \<Rightarrow> jb_set js k (f a) v | None \<Rightarrow> v)"

text \<open>\<open>tokens.unwrap_or(0).min(u32::MAX)\<close>\<close>

definition token_field :: "u64 option \<Rightarrow> nat" where
  "token_field x = min (or_else x 0) u32_max"

lemma token_field_le [simp]: "token_field x \<le> u32_max"
  by (simp add: token_field_def)

section \<open>System messages\<close>

definition last_some :: "'a option list \<Rightarrow> 'a option" where
  "last_some xs = (let ys = List.map_filter id xs in if ys = [] then None else Some (last ys))"

lemma last_some_snoc: "last_some (xs @ [x]) = (case x of Some y \<Rightarrow> Some y | None \<Rightarrow> last_some xs)"
  by (simp add: last_some_def List.map_filter_def split: option.split)

definition is_system :: "message \<Rightarrow> bool" where "is_system msg \<longleftrightarrow> msg_role msg = ''system''"

lemma those_None: "those xs = None \<longleftrightarrow> None \<in> set xs"
  by (induction xs) (auto split: option.split)

section \<open>Base URLs\<close>

definition trim_end_slashes :: "string \<Rightarrow> string" where
  "trim_end_slashes s = rev (dropWhile (\<lambda>c. c = CHR ''/'') (rev s))"

definition resolve_base :: "string \<Rightarrow> string option \<Rightarrow> string" where
  "resolve_base default_base base_url =
     trim_end_slashes (case base_url of Some url \<Rightarrow> (if url \<noteq> [] then url else default_base) | None \<Rightarrow> default_base)"

lemma trim_end_slashes_snoc [simp]: "trim_end_slashes (s @ ''/'') = trim_end_slashes s"
  by (simp add: trim_end_slashes_def)

section \<open>What is documented of JSON values\<close>

definition is_object :: "('v, 'z) json_builder_scheme \<Rightarrow> 'v \<Rightarrow> bool" where
  "is_object js v \<longleftrightarrow> js_object js v \<noteq> None"

definition json_builder_ok :: "'v json_builder \<Rightarrow> bool" where
  "json_builder_ok js \<longleftrightarrow>
     (\<forall>kvs. distinct (map fst kvs) \<longrightarrow> is_object js (jb_object js kvs) \<and> js_get js (jb_object js kvs) = map_of kvs)
   \<and> (\<forall>v k w. is_object js v \<longrightarrow> is_object js (jb_set js k w v) \<and> js_get js (jb_set js k w v) = (js_get js v)(k \<mapsto> w))
   \<and> (\<forall>s. js_str js (jb_str js s) = Some s) \<and> (\<forall>vs. js_array js (jb_array js vs) = Some vs)
   \<and> (\<forall>b. js_bool js (jb_bool js b) = Some b) \<and> (\<forall>n. js_u64 js (jb_u32 js n) = Some n)
   \<and> (\<forall>s. js_array js (jb_str js s) = None) \<and> (\<forall>vs. js_str js (jb_array js vs) = None)
   \<and> (\<forall>k. js_get js (jb_null js) k = None) \<and> js_str js (jb_null js) = None
   \<and> js_array js (jb_null js) = None \<and> js_u64 js (jb_null js) = None"

named_theorems json_simps \<open>reading what was built\<close>

lemma json_builder_okD [json_simps]:
  assumes "json_builder_ok js"
  shows "distinct (map fst kvs) \<Longrightarrow> is_object js (jb_object js kvs)"
    and "distinct (map fst kvs) \<Longrightarrow> js_get js (jb_object js kvs) k = map_of kvs k"
    and "is_object js v \<Longrightarrow> is_object js (jb_set js k w v)"
    and "is_object js v \<Longrightarrow> js_get js (jb_set js k w v) k' = (if k' = k then Some w else js_get js v k')"
    and "js_str js (jb_str js s) = Some s" and "js_array js (jb_array js vs) = Some vs"
    and "js_bool js (jb_bool js b) = Some b" and "js_u64 js (jb_u32 js n) = Some n"
    and "js_array js (jb_str js s) = None" and "js_str js (jb_array js vs) = None"
    and "js_get js (jb_null js) k = None" and "js_str js (jb_null js) = None"
    and "js_array js (jb_null js) = None" and "js_u64 js (jb_null js) = None"
  using assms by (auto simp: json_builder_ok_def)

lemma set_some_simps [json_simps]:
  assumes "json_builder_ok js"
  shows "is_object js v \<Longrightarrow> is_object js (set_some js k f x v)"
    and "is_object js v \<Longrightarrow> js_get js (set_some js k f x v) k' =
      (if k' = k \<and> x \<noteq> None then map_option f x else js_get js v k')"
  using assms by (auto simp: set_some_def json_builder_okD split: option.split)

text \<open>The trees of the classification satisfy them.\<close>

definition tree_set :: "string \<Rightarrow> json \<Rightarrow> json \<Rightarrow> json" where
  "tree_set k w v = (case v of JObj fs \<Rightarrow> JObj (AList.update k w fs) | _ \<Rightarrow> v)"

definition tree_builder :: "json json_builder" where
  "tree_builder = json_api.extend json_tree \<lparr>jb_null = JNull, jb_bool = JBool, jb_u32 = JNum, jb_f32 = JFloat, jb_str = JStr,
     jb_array = JArr, jb_object = JObj, jb_set = tree_set, jb_to_string = (\<lambda>_. ''{}'')\<rparr>"

lemmas tree_builder_defs = tree_builder_def json_tree_def json_api.defs json_builder.defs tree_set_def

lemma json_builder_ok_tree: "json_builder_ok tree_builder"
  by (auto simp: json_builder_ok_def is_object_def tree_builder_defs update_conv' split: json.split json.split_asm)

end
