(* ===== verification/OpenAI.thy ===== *)
theory OpenAI
  imports ProviderTypes
begin

text \<open>
  The OpenAI adapter (src/providers/openai.rs): the request it builds for the Chat Completions API and the
  response it reads. An adapter is its default base URL; an \<open>anyhow\<close> error is its message.
\<close>

record openai_adapter =
  oa_base_url :: string

definition openai_default :: openai_adapter where
  "openai_default = \<lparr>oa_base_url = ''https://api.openai.com/v1''\<rparr>"

definition openai_with_base_url :: "string \<Rightarrow> openai_adapter" where
  "openai_with_base_url base_url = \<lparr>oa_base_url = base_url\<rparr>"

definition openai_provider_name :: string where "openai_provider_name = ''openai''"

section \<open>Requests\<close>

definition openai_part :: "'v json_builder \<Rightarrow> content_part \<Rightarrow> 'v" where
  "openai_part js p =
     (let detail = opt_str js (Option.bind (cp_image_url p) iu_detail) in
      if cp_part_type p = ''text'' then
        jb_object js [(''type'', jb_str js ''text''), (''text'', jb_str js (or_else (cp_text p) []))]
      else if cp_part_type p = ''image_url'' then
        (case cp_image_data p of
           Some img_data \<Rightarrow> jb_object js [(''type'', jb_str js ''image_url''),
             (''image_url'', jb_object js
                [(''url'', jb_str js (''data:'' @ id_mime_type img_data @ '';base64,'' @ id_data img_data)), (''detail'', detail)])]
         | None \<Rightarrow> jb_object js [(''type'', jb_str js ''image_url''),
             (''image_url'', jb_object js
                [(''url'', jb_str js (case cp_image_url p of Some u \<Rightarrow> iu_url u | None \<Rightarrow> [])), (''detail'', detail)])])
      else jb_object js [(''type'', jb_str js (cp_part_type p))])"

definition openai_message :: "'v json_builder \<Rightarrow> message \<Rightarrow> 'v" where
  "openai_message js msg =
     (let content = (case msg_content msg of
          Text t \<Rightarrow> jb_str js t
        | Parts parts \<Rightarrow> jb_array js (map (openai_part js) parts))
      in jb_object js [(''role'', jb_str js (msg_role msg)), (''content'', content)])"

definition openai_tool :: "'v json_builder \<Rightarrow> 'v tool \<Rightarrow> 'v" where
  "openai_tool js t =
     (let f = tool_function t in
      jb_object js [(''type'', jb_str js (tool_type t)),
        (''function'', jb_object js [(''name'', jb_str js (fd_name f)), (''description'', opt_str js (fd_description f)),
           (''parameters'', or_else (fd_parameters f) (jb_object js []))])])"

definition openai_choice :: "'v json_builder \<Rightarrow> tool_choice \<Rightarrow> 'v" where
  "openai_choice js choice = (case choice of
       ChoiceAuto \<Rightarrow> jb_str js ''auto''
     | ChoiceNone \<Rightarrow> jb_str js ''none''
     | ChoiceRequired \<Rightarrow> jb_str js ''required''
     | ChoiceFunction name \<Rightarrow> jb_object js [(''type'', jb_str js ''function''),
         (''function'', jb_object js [(''name'', jb_str js name)])])"

definition openai_transform_request :: "'v json_builder \<Rightarrow> 'v provider_request \<Rightarrow> 'v" where
  "openai_transform_request js request =
     (let messages = map (openai_message js) (pr_messages request);
          r = jb_object js [(''model'', jb_str js (pr_model request)), (''messages'', jb_array js messages)];
          r = (case pr_system request of
              None \<Rightarrow> r
            | Some system \<Rightarrow> (case array_at js r ''messages'' of
                None \<Rightarrow> r
              | Some msgs \<Rightarrow> jb_set js ''messages'' (jb_array js
                  (jb_object js [(''role'', jb_str js ''system''), (''content'', jb_str js system)] # msgs)) r));
          r = set_some js ''max_tokens'' (jb_u32 js) (pr_max_tokens request) r;
          r = set_some js ''temperature'' (jb_f32 js) (pr_temperature request) r;
          r = set_some js ''top_p'' (jb_f32 js) (pr_top_p request) r;
          r = set_some js ''stop'' (\<lambda>stop. jb_array js (map (jb_str js) stop)) (pr_stop request) r;
          r = (if pr_stream request then jb_set js ''stream'' (jb_bool js True) r else r)
      in case pr_tools request of
           None \<Rightarrow> r
         | Some tools \<Rightarrow> set_some js ''tool_choice'' (openai_choice js) (pr_tool_choice request)
             (jb_set js ''tools'' (jb_array js (map (openai_tool js) tools)) r))"

section \<open>Responses\<close>

definition openai_tool_call :: "'v json_builder \<Rightarrow> 'v \<Rightarrow> tool_call option" where
  "openai_tool_call js c =
     (let f = field_at js c ''function'' in
      Option.bind (str_at js c ''id'') (\<lambda>call_id.
      Option.bind (str_at js f ''name'') (\<lambda>name.
      Option.bind (str_at js f ''arguments'') (\<lambda>arguments.
        Some \<lparr>tc_id = call_id, tc_call_type = or_else (str_at js c ''type'') ''function'',
              tc_function = \<lparr>fc_name = name, fc_arguments = arguments\<rparr>\<rparr>))))"

definition openai_usage :: "'v json_builder \<Rightarrow> 'v \<Rightarrow> token_usage" where
  "openai_usage js response =
     (let usage = field_at js response ''usage''
      in \<lparr>tu_prompt = token_field (u64_at js usage ''prompt_tokens''),
          tu_completion = token_field (u64_at js usage ''completion_tokens''),
          tu_total = token_field (u64_at js usage ''total_tokens'')\<rparr>)"

definition openai_transform_response :: "'v json_builder \<Rightarrow> 'v \<Rightarrow> string + provider_response" where
  "openai_transform_response js response =
     (case array_at js response ''choices'' of
        None \<Rightarrow> Inl ''No choices in OpenAI response''
      | Some [] \<Rightarrow> Inl ''Empty choices array''
      | Some (first_choice # _) \<Rightarrow>
          (let msg = field_at js first_choice ''message''
           in Inr \<lparr>rs_id = or_else (str_at js response ''id'') ''unknown'', rs_model = or_else (str_at js response ''model'') ''unknown'',
                rs_content = or_else (str_at js msg ''content'') [],
                rs_finish_reason = or_else (str_at js first_choice ''finish_reason'') ''unknown'',
                rs_usage = openai_usage js response,
                rs_tool_calls = map_option (List.map_filter (openai_tool_call js)) (array_at js msg ''tool_calls'')\<rparr>))"

definition openai_get_endpoint :: "openai_adapter \<Rightarrow> string option \<Rightarrow> string \<Rightarrow> string" where
  "openai_get_endpoint a base_url model_id = resolve_base (oa_base_url a) base_url @ ''/chat/completions''"

definition openai_build_headers :: "string \<Rightarrow> (string \<times> string) list" where
  "openai_build_headers api_key =
     [(''Authorization'', ''Bearer '' @ api_key), (''Content-Type'', ''application/json'')]"

section \<open>What a request holds\<close>

lemma openai_request_fields:
  assumes "json_builder_ok js"
  shows "js_get js (openai_transform_request js r) ''model'' = Some (jb_str js (pr_model r))"
    and "array_at js (openai_transform_request js r) ''messages'' = Some
      ((case pr_system r of Some s \<Rightarrow> [jb_object js [(''role'', jb_str js ''system''), (''content'', jb_str js s)]] | None \<Rightarrow> [])
       @ map (openai_message js) (pr_messages r))"
    and "js_get js (openai_transform_request js r) ''system'' = None"
    and "js_get js (openai_transform_request js r) ''contents'' = None"
    and "js_get js (openai_transform_request js r) ''max_tokens'' = map_option (jb_u32 js) (pr_max_tokens r)"
    and "js_get js (openai_transform_request js r) ''tools'' = map_option (\<lambda>ts. jb_array js (map (openai_tool js) ts)) (pr_tools r)"
    and "js_get js (openai_transform_request js r) ''tool_choice'' =
      (if pr_tools r = None then None else map_option (openai_choice js) (pr_tool_choice r))"
    and "js_get js (openai_transform_request js r) ''stream'' = (if pr_stream r then Some (jb_bool js True) else None)"
  by (simp_all add: openai_transform_request_def Let_def array_at_def json_simps[OF assms] split: option.split)

lemma openai_response_error:
  "openai_transform_response js v = Inl e \<longleftrightarrow>
     array_at js v ''choices'' = None \<and> e = ''No choices in OpenAI response''
     \<or> array_at js v ''choices'' = Some [] \<and> e = ''Empty choices array''"
  by (auto simp: openai_transform_response_def Let_def split: option.split list.split)

lemma openai_response_usage:
  "openai_transform_response js v = Inr r \<Longrightarrow> rs_usage r = openai_usage js v"
  by (auto simp: openai_transform_response_def Let_def split: option.splits list.splits)

end
