(* ===== verification/Anthropic.thy ===== *)
theory Anthropic
  imports ProviderTypes
begin

text \<open>
  The Anthropic adapter (src/providers/anthropic.rs): the request it builds for the Messages API, whose
  system prompt is a field and not a message, and the response it reads.
\<close>

record anthropic_adapter =
  aa_base_url :: string

definition anthropic_default :: anthropic_adapter where
  "anthropic_default = \<lparr>aa_base_url = ''https://api.anthropic.com/v1''\<rparr>"

definition anthropic_with_base_url :: "string \<Rightarrow> anthropic_adapter" where
  "anthropic_with_base_url base_url = \<lparr>aa_base_url = base_url\<rparr>"

definition anthropic_provider_name :: string where "anthropic_provider_name = ''anthropic''"

section \<open>Requests\<close>

definition anthropic_part :: "'v json_builder \<Rightarrow> content_part \<Rightarrow> 'v" where
  "anthropic_part js p =
     (if cp_part_type p = ''text'' then
        jb_object js [(''type'', jb_str js ''text''), (''text'', jb_str js (or_else (cp_text p) []))]
      else if cp_part_type p = ''image_url'' then
        (case cp_image_data p of
           Some img_data \<Rightarrow> jb_object js [(''type'', jb_str js ''image''),
             (''source'', jb_object js [(''type'', jb_str js ''base64''), (''media_type'', jb_str js (id_mime_type img_data)),
                (''data'', jb_str js (id_data img_data))])]
         | None \<Rightarrow> (case cp_image_url p of
             None \<Rightarrow> jb_object js [(''type'', jb_str js ''text''), (''text'', jb_str js ''[malformed image content]'')]
           | Some image_url \<Rightarrow> jb_object js [(''type'', jb_str js ''image''),
               (''source'', jb_object js [(''type'', jb_str js ''url''), (''url'', jb_str js (iu_url image_url))])]))
      else jb_object js [(''type'', jb_str js (cp_part_type p))])"

definition anthropic_message :: "'v json_builder \<Rightarrow> message \<Rightarrow> 'v" where
  "anthropic_message js msg =
     (let content = (case msg_content msg of
          Text t \<Rightarrow> jb_array js [jb_object js [(''type'', jb_str js ''text''), (''text'', jb_str js t)]]
        | Parts parts \<Rightarrow> jb_array js (map (anthropic_part js) parts))
      in jb_object js [(''role'', jb_str js (msg_role msg)), (''content'', content)])"

text \<open>A system message replaces the system prompt found before, unless it consists of parts without text.\<close>

fun join_lines :: "string list \<Rightarrow> string" where
  "join_lines [] = []"
| "join_lines [t] = t"
| "join_lines (t # ts) = t @ CHR 0x0A # join_lines ts"

definition system_text :: "message \<Rightarrow> string option" where
  "system_text msg = (case msg_content msg of
       Text t \<Rightarrow> Some t
     | Parts parts \<Rightarrow> (let texts = List.map_filter cp_text parts in if texts \<noteq> [] then Some (join_lines texts) else None))"

definition anthropic_collect :: "'v json_builder \<Rightarrow> message \<Rightarrow> 'v list \<times> string option \<Rightarrow> 'v list \<times> string option" where
  "anthropic_collect js msg acc = (case acc of (messages, system) \<Rightarrow>
     (if msg_role msg = ''system''
      then (messages, case system_text msg of Some t \<Rightarrow> Some t | None \<Rightarrow> system)
      else (messages @ [anthropic_message js msg], system)))"

definition anthropic_tool :: "'v json_builder \<Rightarrow> 'v tool \<Rightarrow> 'v" where
  "anthropic_tool js t =
     (let f = tool_function t in
      jb_object js [(''name'', jb_str js (fd_name f)), (''description'', opt_str js (fd_description f)),
        (''input_schema'', or_else (fd_parameters f) (jb_object js []))])"

definition anthropic_choice :: "'v json_builder \<Rightarrow> tool_choice \<Rightarrow> 'v" where
  "anthropic_choice js choice = (case choice of
       ChoiceAuto \<Rightarrow> jb_object js [(''type'', jb_str js ''auto'')]
     | ChoiceNone \<Rightarrow> jb_object js [(''type'', jb_str js ''none'')]
     | ChoiceRequired \<Rightarrow> jb_object js [(''type'', jb_str js ''any'')]
     | ChoiceFunction name \<Rightarrow> jb_object js [(''type'', jb_str js ''tool''), (''name'', jb_str js name)])"

definition anthropic_transform_request :: "'v json_builder \<Rightarrow> 'v provider_request \<Rightarrow> 'v" where
  "anthropic_transform_request js request =
     (case fold (anthropic_collect js) (pr_messages request) ([], None) of (messages, system) \<Rightarrow>
       (let r = jb_object js [(''model'', jb_str js (pr_model request)), (''messages'', jb_array js messages),
              (''max_tokens'', jb_u32 js (or_else (pr_max_tokens request) 4096))];
            r = set_some js ''system'' (jb_str js) (case system of Some s \<Rightarrow> Some s | None \<Rightarrow> pr_system request) r;
            r = set_some js ''temperature'' (jb_f32 js) (pr_temperature request) r;
            r = set_some js ''top_p'' (jb_f32 js) (pr_top_p request) r;
            r = set_some js ''stop_sequences'' (\<lambda>stop. jb_array js (map (jb_str js) stop)) (pr_stop request) r;
            r = (if pr_stream request then jb_set js ''stream'' (jb_bool js True) r else r)
        in case pr_tools request of
             None \<Rightarrow> r
           | Some tools \<Rightarrow> set_some js ''tool_choice'' (anthropic_choice js) (pr_tool_choice request)
               (jb_set js ''tools'' (jb_array js (map (anthropic_tool js) tools)) r)))"

section \<open>Responses\<close>

definition anthropic_tool_call :: "'v json_builder \<Rightarrow> 'v \<Rightarrow> tool_call option" where
  "anthropic_tool_call js b =
     Option.bind (str_at js b ''id'') (\<lambda>call_id.
     Option.bind (str_at js b ''name'') (\<lambda>name.
       Some \<lparr>tc_id = call_id, tc_call_type = ''function'',
             tc_function = \<lparr>fc_name = name, fc_arguments = jb_to_string js (field_at js b ''input'')\<rparr>\<rparr>))"

definition anthropic_usage :: "'v json_builder \<Rightarrow> 'v \<Rightarrow> token_usage" where
  "anthropic_usage js response =
     (let usage = field_at js response ''usage'';
          prompt = or_else (u64_at js usage ''input_tokens'') 0;
          completion = or_else (u64_at js usage ''output_tokens'') 0
      in \<lparr>tu_prompt = min prompt u32_max, tu_completion = min completion u32_max,
          tu_total = min (min u64_max (prompt + completion)) u32_max\<rparr>)"

text \<open>Collecting the calls into an option gives none as soon as one block is malformed.\<close>

definition anthropic_transform_response :: "'v json_builder \<Rightarrow> 'v \<Rightarrow> string + provider_response" where
  "anthropic_transform_response js response =
     (case array_at js response ''content'' of
        None \<Rightarrow> Inl ''No content in Anthropic response''
      | Some content_blocks \<Rightarrow> Inr
          \<lparr>rs_id = or_else (str_at js response ''id'') ''unknown'', rs_model = or_else (str_at js response ''model'') ''unknown'',
           rs_content = concat (List.map_filter
             (\<lambda>b. if str_at js b ''type'' = Some ''text'' then str_at js b ''text'' else None) content_blocks),
           rs_finish_reason = or_else (str_at js response ''stop_reason'') ''unknown'',
           rs_usage = anthropic_usage js response,
           rs_tool_calls = those (map (anthropic_tool_call js)
             (filter (\<lambda>b. str_at js b ''type'' = Some ''tool_use'') content_blocks))\<rparr>)"

definition anthropic_get_endpoint :: "anthropic_adapter \<Rightarrow> string option \<Rightarrow> string \<Rightarrow> string" where
  "anthropic_get_endpoint a base_url model_id = resolve_base (aa_base_url a) base_url @ ''/messages''"

definition anthropic_build_headers :: "string \<Rightarrow> (string \<times> string) list" where
  "anthropic_build_headers api_key =
     [(''x-api-key'', api_key), (''anthropic-version'', ''2023-06-01''), (''content-type'', ''application/json'')]"

section \<open>What a request holds\<close>

text \<open>The messages are those that are no system messages, in their order; the system prompt is the last
  one that a system message holds.\<close>

lemma anthropic_collect_spec:
  "fold (anthropic_collect js) msgs ([], None) =
     (map (anthropic_message js) (filter (\<lambda>m. \<not> is_system m) msgs), last_some (map system_text (filter is_system msgs)))"
  by (induction msgs rule: rev_induct)
    (simp_all add: anthropic_collect_def is_system_def last_some_snoc last_some_def[of "[]"])

lemma anthropic_request_fields:
  assumes "json_builder_ok js"
  shows "js_get js (anthropic_transform_request js r) ''model'' = Some (jb_str js (pr_model r))"
    and "array_at js (anthropic_transform_request js r) ''messages'' =
      Some (map (anthropic_message js) (filter (\<lambda>m. \<not> is_system m) (pr_messages r)))"
    and "js_get js (anthropic_transform_request js r) ''system'' = map_option (jb_str js)
      (case last_some (map system_text (filter is_system (pr_messages r))) of Some s \<Rightarrow> Some s | None \<Rightarrow> pr_system r)"
    and "js_get js (anthropic_transform_request js r) ''contents'' = None"
    and "js_get js (anthropic_transform_request js r) ''max_tokens'' = Some (jb_u32 js (or_else (pr_max_tokens r) 4096))"
    and "js_get js (anthropic_transform_request js r) ''tools'' = map_option (\<lambda>ts. jb_array js (map (anthropic_tool js) ts)) (pr_tools r)"
    and "js_get js (anthropic_transform_request js r) ''stream'' = (if pr_stream r then Some (jb_bool js True) else None)"
  by (simp_all add: anthropic_transform_request_def anthropic_collect_spec Let_def array_at_def json_simps[OF assms] split: option.split)

lemma anthropic_response_error:
  "anthropic_transform_response js v = Inl e \<longleftrightarrow> array_at js v ''content'' = None \<and> e = ''No content in Anthropic response''"
  by (auto simp: anthropic_transform_response_def split: option.split)

lemma anthropic_response_usage:
  "anthropic_transform_response js v = Inr r \<Longrightarrow> rs_usage r = anthropic_usage js v"
  by (auto simp: anthropic_transform_response_def split: option.splits)

end
