(* ===== verification/Google.thy ===== *)
theory Google
  imports ProviderTypes
begin

text \<open>
  The Google adapter (src/providers/google.rs): the request it builds for the Gemini API, the response it
  reads and the endpoint, into whose path the model identifier goes. \<open>Uuid::new_v4\<close> is a supply of
  identifiers, taken in the order of the calls.
\<close>

record google_adapter =
  ga_base_url :: string

definition google_default :: google_adapter where
  "google_default = \<lparr>ga_base_url = ''https://generativelanguage.googleapis.com/v1beta''\<rparr>"

definition google_with_base_url :: "string \<Rightarrow> google_adapter" where
  "google_with_base_url base_url = \<lparr>ga_base_url = base_url\<rparr>"

definition google_provider_name :: string where "google_provider_name = ''google''"

section \<open>Requests\<close>

text \<open>\<open>str::trim_end_matches\<close> takes off every repetition of the suffix.\<close>

function trim_end_matches :: "string \<Rightarrow> string \<Rightarrow> string" where
  "trim_end_matches pat s = (if pat \<noteq> [] \<and> suffix pat s then trim_end_matches pat (take (length s - length pat) s) else s)"
  by pat_completeness auto
termination by (relation "measure (\<lambda>(pat, s). length s)") (auto dest: suffix_length_le simp: suffix_def)

definition inline_data :: "'v json_builder \<Rightarrow> string \<Rightarrow> string \<Rightarrow> 'v" where
  "inline_data js mime payload =
     jb_object js [(''inlineData'', jb_object js [(''mimeType'', jb_str js mime), (''data'', jb_str js payload)])]"

text \<open>The type and the data of a data URI; without a comma the whole address is taken for the data.\<close>

definition data_uri :: "string \<Rightarrow> string \<times> string" where
  "data_uri url = (case splitn2 (CHR '','') (drop (length ''data:'') url) of
       [mime, payload] \<Rightarrow> (trim_end_matches '';base64'' mime, payload)
     | _ \<Rightarrow> (''image/jpeg'', url))"

definition google_part :: "'v json_builder \<Rightarrow> content_part \<Rightarrow> 'v" where
  "google_part js p =
     (if cp_part_type p = ''text'' then jb_object js [(''text'', jb_str js (or_else (cp_text p) []))]
      else if cp_part_type p = ''image_url'' then
        (case cp_image_data p of
           Some img_data \<Rightarrow> inline_data js (id_mime_type img_data) (id_data img_data)
         | None \<Rightarrow> (case cp_image_url p of
             Some img_url \<Rightarrow>
               (if starts_with (iu_url img_url) ''data:'' then
                  (case data_uri (iu_url img_url) of (mime, payload) \<Rightarrow> inline_data js mime payload)
                else jb_object js [(''fileData'', jb_object js [(''fileUri'', jb_str js (iu_url img_url))])])
           | None \<Rightarrow> jb_object js []))
      else jb_object js [])"

definition text_object :: "'v json_builder \<Rightarrow> string \<Rightarrow> 'v" where
  "text_object js t = jb_object js [(''text'', jb_str js t)]"

definition instruction :: "'v json_builder \<Rightarrow> 'v list \<Rightarrow> 'v" where
  "instruction js parts = jb_object js [(''parts'', jb_array js parts)]"

definition google_message :: "'v json_builder \<Rightarrow> message \<Rightarrow> 'v" where
  "google_message js msg =
     (let gemini_role = (if msg_role msg = ''assistant'' then ''model'' else ''user'');
          parts = (case msg_content msg of
              Text t \<Rightarrow> [text_object js t]
            | Parts parts \<Rightarrow> map (google_part js) parts)
      in jb_object js [(''role'', jb_str js gemini_role), (''parts'', jb_array js parts)])"

definition system_instruction :: "'v json_builder \<Rightarrow> message \<Rightarrow> 'v option" where
  "system_instruction js msg = (case msg_content msg of
       Text t \<Rightarrow> Some (instruction js [text_object js t])
     | Parts parts \<Rightarrow>
         (let texts = List.map_filter (\<lambda>p. map_option (text_object js) (cp_text p)) parts
          in if texts \<noteq> [] then Some (instruction js texts) else None))"

definition google_collect :: "'v json_builder \<Rightarrow> message \<Rightarrow> 'v list \<times> 'v option \<Rightarrow> 'v list \<times> 'v option" where
  "google_collect js msg acc = (case acc of (contents, system) \<Rightarrow>
     (if msg_role msg = ''system''
      then (contents, case system_instruction js msg of Some i \<Rightarrow> Some i | None \<Rightarrow> system)
      else (contents @ [google_message js msg], system)))"

definition google_tool :: "'v json_builder \<Rightarrow> 'v tool \<Rightarrow> 'v" where
  "google_tool js t =
     (let f = tool_function t in
      jb_object js [(''name'', jb_str js (fd_name f)), (''description'', opt_str js (fd_description f)),
        (''parameters'', or_else (fd_parameters f) (jb_object js []))])"

definition google_choice :: "'v json_builder \<Rightarrow> tool_choice \<Rightarrow> 'v" where
  "google_choice js choice =
     (let config = (\<lambda>fields. jb_object js [(''function_calling_config'', jb_object js fields)])
      in case choice of
           ChoiceAuto \<Rightarrow> config [(''mode'', jb_str js ''AUTO'')]
         | ChoiceNone \<Rightarrow> config [(''mode'', jb_str js ''NONE'')]
         | ChoiceRequired \<Rightarrow> config [(''mode'', jb_str js ''ANY'')]
         | ChoiceFunction name \<Rightarrow> config [(''mode'', jb_str js ''ANY''), (''allowed_function_names'', jb_array js [jb_str js name])])"

definition generation_config :: "'v json_builder \<Rightarrow> 'v provider_request \<Rightarrow> 'v" where
  "generation_config js request =
     (let c = jb_object js [];
          c = set_some js ''maxOutputTokens'' (jb_u32 js) (pr_max_tokens request) c;
          c = set_some js ''temperature'' (jb_f32 js) (pr_temperature request) c;
          c = set_some js ''topP'' (jb_f32 js) (pr_top_p request) c
      in set_some js ''stopSequences'' (\<lambda>stop. jb_array js (map (jb_str js) stop)) (pr_stop request) c)"

definition google_transform_request :: "'v json_builder \<Rightarrow> 'v provider_request \<Rightarrow> 'v" where
  "google_transform_request js request =
     (case fold (google_collect js) (pr_messages request) ([], None) of (contents, system) \<Rightarrow>
       (let r = jb_object js [(''contents'', jb_array js contents), (''generationConfig'', generation_config js request)];
            r = set_some js ''systemInstruction'' (\<lambda>i. i)
              (case system of Some i \<Rightarrow> Some i | None \<Rightarrow> map_option (\<lambda>s. instruction js [text_object js s]) (pr_system request)) r
        in case pr_tools request of
             None \<Rightarrow> r
           | Some tools \<Rightarrow> set_some js ''tool_config'' (google_choice js) (pr_tool_choice request)
               (jb_set js ''tools'' (jb_array js [jb_object js [(''functionDeclarations'',
                  jb_array js (map (google_tool js) tools))]]) r)))"

section \<open>Responses\<close>

text \<open>The identifier of a call is made before its name is read, so a call without a name uses one up.\<close>

definition google_tool_call :: "'v json_builder \<Rightarrow> string \<Rightarrow> 'v \<Rightarrow> tool_call option" where
  "google_tool_call js uuid p =
     Option.bind (js_get js p ''functionCall'') (\<lambda>fc.
     Option.bind (str_at js fc ''name'') (\<lambda>name.
       Some \<lparr>tc_id = ''call_'' @ uuid, tc_call_type = ''function'',
             tc_function = \<lparr>fc_name = name, fc_arguments = jb_to_string js (field_at js fc ''args'')\<rparr>\<rparr>))"

definition google_tool_calls :: "'v json_builder \<Rightarrow> (nat \<Rightarrow> string) \<Rightarrow> 'v list \<Rightarrow> tool_call list \<times> nat" where
  "google_tool_calls js uuids parts =
     (let calls = filter (\<lambda>p. js_get js p ''functionCall'' \<noteq> None) parts
      in (List.map_filter (\<lambda>(i, p). google_tool_call js (uuids i) p) (enumerate 0 calls), length calls))"

definition google_usage :: "'v json_builder \<Rightarrow> 'v \<Rightarrow> token_usage" where
  "google_usage js response =
     (let usage = field_at js response ''usageMetadata''
      in \<lparr>tu_prompt = token_field (u64_at js usage ''promptTokenCount''),
          tu_completion = token_field (u64_at js usage ''candidatesTokenCount''),
          tu_total = token_field (u64_at js usage ''totalTokenCount'')\<rparr>)"

definition google_transform_response :: "'v json_builder \<Rightarrow> (nat \<Rightarrow> string) \<Rightarrow> 'v \<Rightarrow> string + provider_response" where
  "google_transform_response js uuids response =
     (case array_at js response ''candidates'' of
        None \<Rightarrow> Inl ''No candidates in Gemini response''
      | Some [] \<Rightarrow> Inl ''Empty candidates array''
      | Some (first_candidate # _) \<Rightarrow>
          (let parts = array_at js (field_at js first_candidate ''content'') ''parts'';
               calls = map_option (google_tool_calls js uuids) parts
           in Inr \<lparr>rs_id = ''gemini-'' @ uuids (case calls of Some (_, n) \<Rightarrow> n | None \<Rightarrow> 0),
                rs_model = or_else (str_at js response ''modelVersion'') ''gemini'',
                rs_content = (case parts of Some ps \<Rightarrow> concat (List.map_filter (\<lambda>p. str_at js p ''text'') ps) | None \<Rightarrow> []),
                rs_finish_reason = or_else (str_at js first_candidate ''finishReason'') ''UNKNOWN'',
                rs_usage = google_usage js response,
                rs_tool_calls = map_option fst calls\<rparr>))"

definition sanitize_model_id :: "string \<Rightarrow> string" where
  "sanitize_model_id model_id = filter (\<lambda>c. c \<noteq> CHR ''/'' \<and> c \<noteq> CHR 0x5C) model_id"

definition google_get_endpoint :: "google_adapter \<Rightarrow> string option \<Rightarrow> string \<Rightarrow> string" where
  "google_get_endpoint a base_url model_id =
     resolve_base (ga_base_url a) base_url @ ''/models/'' @ sanitize_model_id model_id @ '':generateContent''"

definition google_build_headers :: "string \<Rightarrow> (string \<times> string) list" where
  "google_build_headers api_key = [(''Content-Type'', ''application/json''), (''x-goog-api-key'', api_key)]"

section \<open>What a request holds\<close>

lemma google_collect_spec:
  "fold (google_collect js) msgs ([], None) =
     (map (google_message js) (filter (\<lambda>m. \<not> is_system m) msgs), last_some (map (system_instruction js) (filter is_system msgs)))"
  by (induction msgs rule: rev_induct)
    (simp_all add: google_collect_def is_system_def last_some_snoc last_some_def[of "[]"])

lemma google_request_fields:
  assumes "json_builder_ok js"
  shows "array_at js (google_transform_request js r) ''contents'' =
      Some (map (google_message js) (filter (\<lambda>m. \<not> is_system m) (pr_messages r)))"
    and "js_get js (google_transform_request js r) ''systemInstruction'' =
      (case last_some (map (system_instruction js) (filter is_system (pr_messages r))) of Some s \<Rightarrow> Some s
       | None \<Rightarrow> map_option (\<lambda>s. instruction js [text_object js s]) (pr_system r))"
    and "js_get js (google_transform_request js r) ''messages'' = None"
    and "js_get js (google_transform_request js r) ''model'' = None"
    and "js_get js (google_transform_request js r) ''stream'' = None"
    and "js_get js (google_transform_request js r) ''generationConfig'' = Some (generation_config js r)"
  by (simp_all add: google_transform_request_def google_collect_spec Let_def array_at_def json_simps[OF assms] option.map_ident
      split: option.split)

lemma google_response_error:
  "google_transform_response js uuids v = Inl e \<longleftrightarrow>
     array_at js v ''candidates'' = None \<and> e = ''No candidates in Gemini response''
     \<or> array_at js v ''candidates'' = Some [] \<and> e = ''Empty candidates array''"
  by (auto simp: google_transform_response_def Let_def split: option.split list.split)

lemma google_response_usage:
  "google_transform_response js uuids v = Inr r \<Longrightarrow> rs_usage r = google_usage js v"
  by (auto simp: google_transform_response_def Let_def split: option.splits list.splits)

end
