(* ===== verification/Providers.thy ===== *)
theory Providers
  imports OpenAI Anthropic Google
begin

text \<open>
  The interface of the provider adapters (trait \<open>ProviderAdapter\<close> of src/providers/types/mod.rs), with the
  contract that the three adapters share, and what holds of all of them: the conversation survives the
  translation, the classifier recognises the requests, responses are read or rejected, endpoints are safe.
\<close>

section \<open>The interface\<close>

locale provider_adapter =
  fixes transform_response :: "'v \<Rightarrow> string + provider_response"
    and get_endpoint :: "string option \<Rightarrow> string \<Rightarrow> string"
    and build_headers :: "string \<Rightarrow> (string \<times> string) list"
  assumes usage_bounded: "transform_response v = Inr r \<Longrightarrow>
      tu_prompt (rs_usage r) \<le> u32_max \<and> tu_completion (rs_usage r) \<le> u32_max \<and> tu_total (rs_usage r) \<le> u32_max"
    and endpoint_slash: "url \<noteq> [] \<Longrightarrow> get_endpoint (Some (url @ ''/'')) model_id = get_endpoint (Some url) model_id"
    and endpoint_empty: "get_endpoint (Some []) model_id = get_endpoint None model_id"
    and headers_distinct: "distinct (map fst (build_headers api_key))"
    and headers_names: "map fst (build_headers api_key) = map fst (build_headers other_key)"
begin

lemma endpoint_slashes:
  "url \<noteq> [] \<Longrightarrow> get_endpoint (Some (url @ replicate n (CHR ''/''))) model_id = get_endpoint (Some url) model_id"
proof (induction n)
  case (Suc n)
  have "get_endpoint (Some ((url @ replicate n (CHR ''/'')) @ ''/'')) model_id = get_endpoint (Some (url @ replicate n (CHR ''/''))) model_id"
    using Suc.prems by (intro endpoint_slash) simp
  then show ?case using Suc by (simp add: replicate_append_same)
qed simp

lemma header_of_key:
  "map_of (build_headers api_key) name = None \<longleftrightarrow> map_of (build_headers other_key) name = None"
  by (metis headers_names list.set_map map_of_eq_None_iff)

end

interpretation openai: provider_adapter "openai_transform_response js" "openai_get_endpoint a" openai_build_headers
  for js :: "'v json_builder" and a
  by unfold_locales
    (auto simp: openai_response_usage openai_usage_def openai_get_endpoint_def resolve_base_def openai_build_headers_def Let_def)

interpretation anthropic: provider_adapter "anthropic_transform_response js" "anthropic_get_endpoint a" anthropic_build_headers
  for js :: "'v json_builder" and a
  by unfold_locales
    (auto simp: anthropic_response_usage anthropic_usage_def anthropic_get_endpoint_def resolve_base_def anthropic_build_headers_def Let_def)

interpretation google: provider_adapter "google_transform_response js uuids" "google_get_endpoint a" google_build_headers
  for js :: "'v json_builder" and uuids a
  by unfold_locales
    (auto simp: google_response_usage google_usage_def google_get_endpoint_def resolve_base_def google_build_headers_def Let_def)

section \<open>The classifier recognises what the adapters build\<close>

definition has_system_prompt :: "'v provider_request \<Rightarrow> bool" where
  "has_system_prompt r \<longleftrightarrow> pr_system r \<noteq> None \<or> (\<exists>m\<in>set (pr_messages r). is_system m \<and> system_text m \<noteq> None)"

lemma last_some_None: "last_some xs = None \<longleftrightarrow> (\<forall>x\<in>set xs. x = None)"
  by (auto simp: last_some_def List.map_filter_def filter_empty_conv)

lemma anthropic_system_field:
  assumes "json_builder_ok js"
  shows "js_get js (anthropic_transform_request js r) ''system'' \<noteq> None \<longleftrightarrow> has_system_prompt r"
  using last_some_None[of "map system_text (filter is_system (pr_messages r))"]
  by (auto simp: anthropic_request_fields[OF assms] has_system_prompt_def split: option.splits)

text \<open>C18. The format detection recognises the requests that the adapters build, with one exception: a request
  for Anthropic without any system prompt is taken for one in the OpenAI format.\<close>

theorem adapter_formats_recognised:
  assumes "json_builder_ok js"
  shows "detect_format (json_api.truncate js) (openai_transform_request js r) = OpenAIFormat
    \<and> detect_format (json_api.truncate js) (google_transform_request js r) = GeminiFormat
    \<and> detect_format (json_api.truncate js) (anthropic_transform_request js r) =
        (if has_system_prompt r then AnthropicFormat else OpenAIFormat)"
  using openai_request_fields[OF assms, of r] google_request_fields[OF assms, of r] anthropic_request_fields[OF assms, of r]
    anthropic_system_field[OF assms, of r]
  by (simp add: detect_format_def is_gemini_format_def is_anthropic_format_def is_openai_format_def get_array_def
      json_api.defs array_at_def)

definition sample_provider_request :: "json provider_request" where
  "sample_provider_request = \<lparr>pr_messages = [\<lparr>msg_role = ''system'', msg_content = Text ''one'', msg_name = None\<rparr>,
       \<lparr>msg_role = ''user'', msg_content = Text ''hi'', msg_name = None\<rparr>,
       \<lparr>msg_role = ''system'', msg_content = Text ''two'', msg_name = None\<rparr>,
       \<lparr>msg_role = ''assistant'', msg_content = Text ''ho'', msg_name = None\<rparr>],
     pr_model = ''m'', pr_max_tokens = None, pr_temperature = None, pr_top_p = None, pr_stop = None, pr_stream = False,
     pr_system = Some ''three'', pr_tools = None, pr_tool_choice = None\<rparr>"

theorem adapter_formats_recognised_witness:
  "detect_format (json_api.truncate tree_builder) (anthropic_transform_request tree_builder sample_provider_request) = AnthropicFormat
   \<and> detect_format (json_api.truncate tree_builder)
       (anthropic_transform_request tree_builder (sample_provider_request\<lparr>pr_messages := [], pr_system := None\<rparr>)) = OpenAIFormat"
  using adapter_formats_recognised[OF json_builder_ok_tree, of sample_provider_request]
    adapter_formats_recognised[OF json_builder_ok_tree, of "sample_provider_request\<lparr>pr_messages := [], pr_system := None\<rparr>"]
  by (simp add: has_system_prompt_def sample_provider_request_def)

section \<open>The conversation survives\<close>


































section \<open>Responses are read or rejected\<close>

text \<open>A response is rejected exactly if the list of answers is missing or, for OpenAI and Google, empty;
  every other JSON value is read, whatever else is missing in it; the numbers of tokens fit 32 bits, and for
  Anthropic the total is the sum of the two that were sent, cut off at the largest.\<close>

theorem responses_read_or_rejected:
  "((\<exists>e. openai_transform_response js v = Inl e) \<longleftrightarrow> array_at js v ''choices'' \<in> {None, Some []})
   \<and> ((\<exists>e. google_transform_response js uuids v = Inl e) \<longleftrightarrow> array_at js v ''candidates'' \<in> {None, Some []})
   \<and> ((\<exists>e. anthropic_transform_response js v = Inl e) \<longleftrightarrow> array_at js v ''content'' = None)
   \<and> (case anthropic_transform_response js v of Inl _ \<Rightarrow> True | Inr r \<Rightarrow>
        (let u = field_at js v ''usage''; p = or_else (u64_at js u ''input_tokens'') 0; c = or_else (u64_at js u ''output_tokens'') 0
         in tu_total (rs_usage r) = min u32_max (p + c) \<and> tu_prompt (rs_usage r) = min u32_max p
            \<and> tu_completion (rs_usage r) = min u32_max c))
   \<and> (case openai_transform_response js v of Inl _ \<Rightarrow> True | Inr r \<Rightarrow> tu_total (rs_usage r) \<le> u32_max)
   \<and> (case google_transform_response js uuids v of Inl _ \<Rightarrow> True | Inr r \<Rightarrow> tu_total (rs_usage r) \<le> u32_max)"
proof (intro conjI)
  show "case anthropic_transform_response js v of Inl _ \<Rightarrow> True | Inr r \<Rightarrow>
        (let u = field_at js v ''usage''; p = or_else (u64_at js u ''input_tokens'') 0; c = or_else (u64_at js u ''output_tokens'') 0
         in tu_total (rs_usage r) = min u32_max (p + c) \<and> tu_prompt (rs_usage r) = min u32_max p
            \<and> tu_completion (rs_usage r) = min u32_max c)"
  proof -
    have "min (min u64_max n) u32_max = min u32_max n" for n by (simp add: u32_max_def u64_max_def)
    then show ?thesis
      by (auto simp: anthropic_response_usage anthropic_usage_def Let_def min.commute[of _ u32_max] split: sum.split)
  qed
  show "case openai_transform_response js v of Inl _ \<Rightarrow> True | Inr r \<Rightarrow> tu_total (rs_usage r) \<le> u32_max"
    by (simp add: openai.usage_bounded split: sum.split)
  show "case google_transform_response js uuids v of Inl _ \<Rightarrow> True | Inr r \<Rightarrow> tu_total (rs_usage r) \<le> u32_max"
    by (simp add: google.usage_bounded split: sum.split)
qed (auto simp: openai_response_error google_response_error anthropic_response_error)

section \<open>Tool calls\<close>

definition well_formed_tool_use :: "'v json_builder \<Rightarrow> 'v \<Rightarrow> bool" where
  "well_formed_tool_use js b \<longleftrightarrow> str_at js b ''id'' \<noteq> None \<and> str_at js b ''name'' \<noteq> None"

text \<open>One malformed tool call loses all the tool calls of an Anthropic response: if a block of type
  \<open>tool_use\<close> lacks its id or name, the response has no tool calls; else it has one for each block, in order.\<close>

theorem anthropic_tool_calls_all_or_none:
  assumes "array_at js v ''content'' = Some blocks"
  defines "uses \<equiv> filter (\<lambda>b. str_at js b ''type'' = Some ''tool_use'') blocks"
  shows "\<exists>r. anthropic_transform_response js v = Inr r \<and>
    (if \<forall>b\<in>set uses. well_formed_tool_use js b
     then \<exists>calls. rs_tool_calls r = Some calls \<and> map (Some \<circ> tc_id) calls = map (\<lambda>b. str_at js b ''id'') uses
       \<and> map (Some \<circ> fc_name \<circ> tc_function) calls = map (\<lambda>b. str_at js b ''name'') uses
     else rs_tool_calls r = None)"
proof -
  have call: "anthropic_tool_call js b = None \<longleftrightarrow> \<not> well_formed_tool_use js b" for b
    by (auto simp: anthropic_tool_call_def well_formed_tool_use_def Option.bind_eq_None_conv split: option.splits)
  have ids: "anthropic_tool_call js b = Some c \<Longrightarrow> str_at js b ''id'' = Some (tc_id c) \<and> str_at js b ''name'' = Some (fc_name (tc_function c))" for b c
    by (auto simp: anthropic_tool_call_def Option.bind_eq_Some_conv)
  have names: "map (anthropic_tool_call js) bs = map Some calls \<Longrightarrow>
      map (Some \<circ> tc_id) calls = map (\<lambda>b. str_at js b ''id'') bs \<and> map (Some \<circ> fc_name \<circ> tc_function) calls = map (\<lambda>b. str_at js b ''name'') bs"
    for bs calls
    by (induction bs arbitrary: calls) (auto simp: Cons_eq_map_conv dest: ids)
  obtain r where r: "anthropic_transform_response js v = Inr r" "rs_tool_calls r = those (map (anthropic_tool_call js) uses)"
    using assms(1) by (simp add: anthropic_transform_response_def uses_def)
  show ?thesis
  proof (cases "those (map (anthropic_tool_call js) uses)")
    case None
    then have "\<not> (\<forall>b\<in>set uses. well_formed_tool_use js b)" by (auto simp: those_None simp flip: call dest: sym)
    then show ?thesis using r None by auto
  next
    case (Some calls)
    then have m: "map (anthropic_tool_call js) uses = map Some calls" by (simp add: those_Some)
    have "well_formed_tool_use js b" if "b \<in> set uses" for b
    proof -
      have "anthropic_tool_call js b \<in> set (map Some calls)" using that m[symmetric] by simp
      then show ?thesis using call[of b] by auto
    qed
    then show ?thesis using r Some names[OF m] by auto
  qed
qed

definition sample_blocks :: json where
  "sample_blocks = JObj [(''content'', JArr [JObj [(''type'', JStr ''tool_use''), (''id'', JStr ''a''), (''name'', JStr ''f'')],
     JObj [(''type'', JStr ''tool_use''), (''id'', JStr ''b'')]])]"

theorem anthropic_tool_calls_all_or_none_witness:
  "\<exists>r. anthropic_transform_response tree_builder sample_blocks = Inr r \<and> rs_tool_calls r = None"
proof -
  have "array_at tree_builder sample_blocks ''content'' =
      Some [JObj [(''type'', JStr ''tool_use''), (''id'', JStr ''a''), (''name'', JStr ''f'')], JObj [(''type'', JStr ''tool_use''), (''id'', JStr ''b'')]]"
    by (simp add: array_at_def sample_blocks_def tree_builder_defs)
  from anthropic_tool_calls_all_or_none[OF this] show ?thesis
    by (auto simp: well_formed_tool_use_def str_at_def tree_builder_defs)
qed

section \<open>Endpoints\<close>

text \<open>Endpoints are safe: trailing slashes of a base URL make no difference and an empty one stands for the
  default; whatever the model identifier is, the endpoint at Google consists of the base, \<open>/models/\<close>, a single
  path segment made of the identifier without its slashes and backslashes, and the operation.\<close>

theorem endpoints_safe:
  "openai_get_endpoint oa (Some (c # cs @ replicate n (CHR ''/''))) m = openai_get_endpoint oa (Some (c # cs)) m
   \<and> anthropic_get_endpoint aa (Some (c # cs @ replicate n (CHR ''/''))) m = anthropic_get_endpoint aa (Some (c # cs)) m
   \<and> google_get_endpoint ga (Some (c # cs @ replicate n (CHR ''/''))) m = google_get_endpoint ga (Some (c # cs)) m
   \<and> google_get_endpoint ga (Some []) m = google_get_endpoint ga None m
   \<and> (\<exists>segment. google_get_endpoint ga base m = resolve_base (ga_base_url ga) base @ ''/models/'' @ segment @ '':generateContent''
        \<and> CHR ''/'' \<notin> set segment \<and> CHR 0x5C \<notin> set segment)
   \<and> last (CHR ''x'' # resolve_base (ga_base_url ga) base) \<noteq> CHR ''/''"
proof (intro conjI)
  show "last (CHR ''x'' # resolve_base (ga_base_url ga) base) \<noteq> CHR ''/''"
  proof (cases "resolve_base (ga_base_url ga) base")
    case (Cons x xs)
    have "dropWhile (\<lambda>c. c = CHR ''/'') ys \<noteq> [] \<Longrightarrow> hd (dropWhile (\<lambda>c. c = CHR ''/'') ys) \<noteq> CHR ''/''" for ys
      by (rule hd_dropWhile)
    then have "trim_end_slashes s \<noteq> [] \<Longrightarrow> last (trim_end_slashes s) \<noteq> CHR ''/''" for s
      by (simp add: trim_end_slashes_def last_rev)
    then show ?thesis using Cons by (metis last_ConsR list.discI resolve_base_def)
  qed simp
  show "\<exists>segment. google_get_endpoint ga base m = resolve_base (ga_base_url ga) base @ ''/models/'' @ segment @ '':generateContent''
        \<and> CHR ''/'' \<notin> set segment \<and> CHR 0x5C \<notin> set segment"
    by (rule exI[of _ "sanitize_model_id m"]) (simp add: google_get_endpoint_def sanitize_model_id_def)
qed (use openai.endpoint_slashes[of "c # cs"] anthropic.endpoint_slashes[of "c # cs"] google.endpoint_slashes[of "c # cs"]
    google.endpoint_empty in simp_all)

end
