(* ===== verification/SqliteStore.thy ===== *)
theory SqliteStore
  imports Metrics Health
begin

text \<open>
  Persistence (src/routing/sqlite/store): the tables of the schema as the statements of the code read and
  write them, and the store with its cache. A statement has the meaning SQL gives it: an upsert inserts or
  replaces the row of the key, a text comparison is lexicographic by bytes, a violated CHECK or NOT NULL
  (a NaN is stored as NULL) makes the statement fail. That a statement fails for another reason is an argument,
  the error of sqlx. Formats of chrono, serde_json and of SQLite's \<open>datetime\<close> are the parameter \<open>sql_codec\<close>.
  The pool and the cache are shared by all clones of a store: it is one state, passed on.
\<close>

section \<open>Errors and formats\<close>

datatype sqlx_error = SqlxFault string | ConstraintViolation

datatype sqlite_error = ConnectionError string | QueryError string sqlx_error | SchemaError string | SerializationError string

record sql_codec =
  sc_to_rfc3339 :: "time \<Rightarrow> string"
  sc_parse_rfc3339 :: "string \<Rightarrow> time option"
  sc_counts_to_json :: "(i32 \<times> i32) list \<Rightarrow> string"
  sc_counts_of_json :: "string \<Rightarrow> (i32 \<times> i32) list option"
  sc_sql_now :: "time \<Rightarrow> string"
  sc_sql_datetime :: "string \<Rightarrow> string option"

section \<open>The tables\<close>

record metrics_row =
  mr_total_requests :: i64
  mr_success_count :: i64
  mr_failure_count :: i64
  mr_avg_latency_ms :: f64
  mr_min_latency_ms :: f64
  mr_max_latency_ms :: f64
  mr_success_rate :: f64
  mr_error_rate :: f64
  mr_consecutive_successes :: i32
  mr_consecutive_failures :: i32
  mr_last_request_time :: string
  mr_last_success_time :: "string option"
  mr_last_failure_time :: "string option"

record health_row =
  hr_status :: string
  hr_consecutive_successes :: i32
  hr_consecutive_failures :: i32
  hr_last_status_change :: string
  hr_last_check_time :: string
  hr_unavailable_until :: "string option"
  hr_error_counts :: string

record history_row =
  sh_auth_id :: string
  sh_status_code :: i32
  sh_latency_ms :: f64
  sh_success :: i32
  sh_timestamp :: string

record weight_row =
  wr_weight :: f64
  wr_calculated_at :: string
  wr_strategy :: string

record database =
  db_metrics :: "metrics_row hmap"
  db_health :: "health_row hmap"
  db_history :: "history_row list"
  db_weights :: "weight_row hmap"

definition empty_database :: database where
  "empty_database = \<lparr>db_metrics = [], db_health = [], db_history = [], db_weights = []\<rparr>"

definition metrics_checks :: "metrics_row \<Rightarrow> bool" where
  "metrics_checks r \<longleftrightarrow> 0 \<le> mr_total_requests r \<and> 0 \<le> mr_success_count r \<and> 0 \<le> mr_failure_count r
     \<and> f64_0 \<le> mr_avg_latency_ms r \<and> f64_0 \<le> mr_min_latency_ms r \<and> f64_0 \<le> mr_max_latency_ms r
     \<and> f64_0 \<le> mr_success_rate r \<and> mr_success_rate r \<le> f64_1 \<and> f64_0 \<le> mr_error_rate r \<and> mr_error_rate r \<le> f64_1
     \<and> 0 \<le> mr_consecutive_successes r \<and> 0 \<le> mr_consecutive_failures r"

definition health_checks :: "health_row \<Rightarrow> bool" where
  "health_checks r \<longleftrightarrow> hr_status r \<in> {''Healthy'', ''Degraded'', ''Unhealthy''}
     \<and> 0 \<le> hr_consecutive_successes r \<and> 0 \<le> hr_consecutive_failures r"

section \<open>The store\<close>

record cache_entry =
  ce_metrics :: "auth_metrics option"
  ce_health :: "auth_health option"
  ce_timestamp :: time

record sqlite_store =
  st_db_path :: string
  st_cache_enabled :: bool
  st_cache :: "cache_entry hmap"
  st_db :: database

record sqlite_config =
  sq_database_path :: string
  sq_enable_wal :: bool
  sq_cache_size_mb :: i64
  sq_busy_timeout_ms :: i64
  sq_batch_size :: nat
  sq_enable_cache :: bool

definition default_sqlite_config :: sqlite_config where
  "default_sqlite_config = \<lparr>sq_database_path = '':memory:'', sq_enable_wal = True, sq_cache_size_mb = 10,
     sq_busy_timeout_ms = 5000, sq_batch_size = 100, sq_enable_cache = True\<rparr>"

datatype journal_mode = Wal | DeleteJournal
datatype synchronous_mode = SyncNormal

record connect_options =
  co_uri :: string
  co_create_if_missing :: bool
  co_journal_mode :: "journal_mode option"
  co_busy_timeout_ms :: nat
  co_foreign_keys :: bool
  co_synchronous :: synchronous_mode
  co_pragmas :: "(string \<times> string) list"
  co_acquire_timeout_ms :: nat
  co_max_connections :: nat

definition wrap_i64 :: "int \<Rightarrow> i64" where "wrap_i64 a = (a + 2 ^ 63) mod 2 ^ 64 - 2 ^ 63"
definition i64_as_u64 :: "i64 \<Rightarrow> nat" where "i64_as_u64 a = nat (a mod 2 ^ 64)"

definition strip_sqlite_prefix :: "string \<Rightarrow> string" where
  "strip_sqlite_prefix p = (if starts_with p ''sqlite:'' then drop (length ''sqlite:'') p else p)"

definition connection_of :: "sqlite_config \<Rightarrow> connect_options" where
  "connection_of cfg =
     (let cache_size = ''-'' @ show_int (wrap_i64 (max (sq_cache_size_mb cfg) 1 * 1024));
          busy = i64_as_u64 (sq_busy_timeout_ms cfg)
      in if sq_database_path cfg = '':memory:'' then
           \<lparr>co_uri = ''sqlite::memory:'', co_create_if_missing = False, co_journal_mode = None, co_busy_timeout_ms = busy,
            co_foreign_keys = True, co_synchronous = SyncNormal, co_pragmas = [(''cache_size'', cache_size), (''temp_store'', ''MEMORY'')],
            co_acquire_timeout_ms = busy, co_max_connections = 1\<rparr>
         else
           \<lparr>co_uri = ''sqlite:'' @ strip_sqlite_prefix (sq_database_path cfg), co_create_if_missing = True,
            co_journal_mode = Some (if sq_enable_wal cfg then Wal else DeleteJournal), co_busy_timeout_ms = busy,
            co_foreign_keys = True, co_synchronous = SyncNormal,
            co_pragmas = [(''cache_size'', cache_size), (''temp_store'', ''MEMORY''), (''mmap_size'', ''268435456'')],
            co_acquire_timeout_ms = busy, co_max_connections = 4\<rparr>)"

definition from_pool :: "database \<Rightarrow> string \<Rightarrow> bool \<Rightarrow> sqlite_store" where
  "from_pool db path enable_cache = \<lparr>st_db_path = path, st_cache_enabled = enable_cache, st_cache = [], st_db = db\<rparr>"

text \<open>Connecting and migrating are sqlx's: they give the database that is there or an error.\<close>

definition store_new ::
  "(connect_options \<Rightarrow> string + database) \<Rightarrow> (database \<Rightarrow> string + database) \<Rightarrow> sqlite_config \<Rightarrow> sqlite_error + sqlite_store" where
  "store_new connect migrate cfg = (case connect (connection_of cfg) of
       Inl e \<Rightarrow> Inl (ConnectionError e)
     | Inr db \<Rightarrow> (case migrate db of
         Inl e \<Rightarrow> Inl (SchemaError e)
       | Inr db \<Rightarrow> Inr \<lparr>st_db_path = sq_database_path cfg, st_cache_enabled = sq_enable_cache cfg, st_cache = [], st_db = db\<rparr>))"

section \<open>Rows and records\<close>

definition metrics_to_row :: "sql_codec \<Rightarrow> auth_metrics \<Rightarrow> metrics_row" where
  "metrics_to_row cd m =
     \<lparr>mr_total_requests = total_requests m, mr_success_count = success_count m, mr_failure_count = failure_count m,
      mr_avg_latency_ms = avg_latency_ms m, mr_min_latency_ms = min_latency_ms m, mr_max_latency_ms = max_latency_ms m,
      mr_success_rate = success_rate m, mr_error_rate = error_rate m,
      mr_consecutive_successes = m_consecutive_successes m, mr_consecutive_failures = m_consecutive_failures m,
      mr_last_request_time = sc_to_rfc3339 cd (last_request_time m),
      mr_last_success_time = map_option (sc_to_rfc3339 cd) (last_success_time m),
      mr_last_failure_time = map_option (sc_to_rfc3339 cd) (last_failure_time m)\<rparr>"

definition parse_datetime :: "sql_codec \<Rightarrow> time \<Rightarrow> string \<Rightarrow> time" where
  "parse_datetime cd now s = (case sc_parse_rfc3339 cd s of Some t \<Rightarrow> t | None \<Rightarrow> now)"

definition parse_datetime_opt :: "sql_codec \<Rightarrow> string option \<Rightarrow> time option" where
  "parse_datetime_opt cd s = Option.bind s (sc_parse_rfc3339 cd)"

definition metrics_of_row :: "sql_codec \<Rightarrow> time \<Rightarrow> metrics_row \<Rightarrow> auth_metrics" where
  "metrics_of_row cd now r =
     \<lparr>total_requests = mr_total_requests r, success_count = mr_success_count r, failure_count = mr_failure_count r,
      avg_latency_ms = mr_avg_latency_ms r, min_latency_ms = mr_min_latency_ms r, max_latency_ms = mr_max_latency_ms r,
      success_rate = mr_success_rate r, error_rate = mr_error_rate r,
      m_consecutive_successes = mr_consecutive_successes r, m_consecutive_failures = mr_consecutive_failures r,
      last_request_time = parse_datetime cd now (mr_last_request_time r),
      last_success_time = parse_datetime_opt cd (mr_last_success_time r),
      last_failure_time = parse_datetime_opt cd (mr_last_failure_time r)\<rparr>"

fun show_health_status :: "health_status \<Rightarrow> string" where
  "show_health_status Healthy = ''Healthy''"
| "show_health_status Degraded = ''Degraded''"
| "show_health_status Unhealthy = ''Unhealthy''"

definition parse_health_status :: "string \<Rightarrow> health_status" where
  "parse_health_status s = (if s = ''Degraded'' then Degraded else if s = ''Unhealthy'' then Unhealthy else Healthy)"

definition parse_error_counts :: "sql_codec \<Rightarrow> string \<Rightarrow> (i32 \<times> i32) list" where
  "parse_error_counts cd s = (case sc_counts_of_json cd s of Some m \<Rightarrow> m | None \<Rightarrow> [])"

definition health_to_row :: "sql_codec \<Rightarrow> auth_health \<Rightarrow> health_row" where
  "health_to_row cd h =
     \<lparr>hr_status = show_health_status (ah_status h), hr_consecutive_successes = ah_consecutive_successes h,
      hr_consecutive_failures = ah_consecutive_failures h,
      hr_last_status_change = sc_to_rfc3339 cd (last_status_change h),
      hr_last_check_time = sc_to_rfc3339 cd (last_check_time h),
      hr_unavailable_until = map_option (sc_to_rfc3339 cd) (unavailable_until h),
      hr_error_counts = sc_counts_to_json cd (error_counts h)\<rparr>"

definition health_of_row :: "sql_codec \<Rightarrow> time \<Rightarrow> health_row \<Rightarrow> auth_health" where
  "health_of_row cd now r =
     \<lparr>ah_status = parse_health_status (hr_status r), ah_consecutive_successes = hr_consecutive_successes r,
      ah_consecutive_failures = hr_consecutive_failures r,
      last_status_change = parse_datetime cd now (hr_last_status_change r),
      last_check_time = parse_datetime cd now (hr_last_check_time r),
      unavailable_until = parse_datetime_opt cd (hr_unavailable_until r),
      error_counts = parse_error_counts cd (hr_error_counts r)\<rparr>"

section \<open>Operations\<close>

text \<open>Running a statement: the injected fault, else the constraints, else the change.\<close>

definition run_statement :: "string \<Rightarrow> string option \<Rightarrow> bool \<Rightarrow> sqlite_error option" where
  "run_statement operation fault constraints = (case fault of
       Some e \<Rightarrow> Some (QueryError operation (SqlxFault e))
     | None \<Rightarrow> (if constraints then None else Some (QueryError operation ConstraintViolation)))"

definition cache_entry_of :: "time \<Rightarrow> string \<Rightarrow> sqlite_store \<Rightarrow> cache_entry" where
  "cache_entry_of now auth_id s = (case hm_get (st_cache s) auth_id of
       Some entry \<Rightarrow> entry
     | None \<Rightarrow> \<lparr>ce_metrics = None, ce_health = None, ce_timestamp = now\<rparr>)"

definition cache_metrics :: "time \<Rightarrow> string \<Rightarrow> auth_metrics \<Rightarrow> sqlite_store \<Rightarrow> sqlite_store" where
  "cache_metrics now auth_id m s = (if st_cache_enabled s
     then s\<lparr>st_cache := hm_insert auth_id ((cache_entry_of now auth_id s)\<lparr>ce_metrics := Some m, ce_timestamp := now\<rparr>) (st_cache s)\<rparr>
     else s)"

definition cache_health :: "time \<Rightarrow> string \<Rightarrow> auth_health \<Rightarrow> sqlite_store \<Rightarrow> sqlite_store" where
  "cache_health now auth_id h s = (if st_cache_enabled s
     then s\<lparr>st_cache := hm_insert auth_id ((cache_entry_of now auth_id s)\<lparr>ce_health := Some h, ce_timestamp := now\<rparr>) (st_cache s)\<rparr>
     else s)"

definition write_metrics ::
  "sql_codec \<Rightarrow> time \<Rightarrow> string option \<Rightarrow> string \<Rightarrow> auth_metrics \<Rightarrow> sqlite_store \<Rightarrow> (sqlite_error + unit) \<times> sqlite_store" where
  "write_metrics cd now fault auth_id m s =
     (let row = metrics_to_row cd m in
      case run_statement ''write_metrics'' fault (metrics_checks row) of
        Some e \<Rightarrow> (Inl e, s)
      | None \<Rightarrow> (Inr (), cache_metrics now auth_id m
          (s\<lparr>st_db := (st_db s)\<lparr>db_metrics := hm_insert auth_id row (db_metrics (st_db s))\<rparr>\<rparr>)))"

definition write_health ::
  "sql_codec \<Rightarrow> time \<Rightarrow> string option \<Rightarrow> string \<Rightarrow> auth_health \<Rightarrow> sqlite_store \<Rightarrow> (sqlite_error + unit) \<times> sqlite_store" where
  "write_health cd now fault auth_id h s =
     (let row = health_to_row cd h in
      case run_statement ''write_health'' fault (health_checks row) of
        Some e \<Rightarrow> (Inl e, s)
      | None \<Rightarrow> (Inr (), cache_health now auth_id h
          (s\<lparr>st_db := (st_db s)\<lparr>db_health := hm_insert auth_id row (db_health (st_db s))\<rparr>\<rparr>)))"

text \<open>A latency may be null (a NaN), else it must not be negative.\<close>

definition write_status_history ::
  "sql_codec \<Rightarrow> time \<Rightarrow> string option \<Rightarrow> string \<Rightarrow> i32 \<Rightarrow> f64 \<Rightarrow> bool \<Rightarrow> sqlite_store \<Rightarrow> (sqlite_error + unit) \<times> sqlite_store" where
  "write_status_history cd now fault auth_id status_code latency_ms success s =
     (case run_statement ''write_status_history'' fault (latency_ms = FNaN \<or> f64_0 \<le> latency_ms) of
        Some e \<Rightarrow> (Inl e, s)
      | None \<Rightarrow> (Inr (), s\<lparr>st_db := (st_db s)\<lparr>db_history := db_history (st_db s) @
          [\<lparr>sh_auth_id = auth_id, sh_status_code = status_code, sh_latency_ms = latency_ms,
            sh_success = (if success then 1 else 0), sh_timestamp = sc_sql_now cd now\<rparr>]\<rparr>\<rparr>))"

definition cached_metrics :: "string \<Rightarrow> sqlite_store \<Rightarrow> auth_metrics option" where
  "cached_metrics auth_id s = (if st_cache_enabled s then Option.bind (hm_get (st_cache s) auth_id) ce_metrics else None)"

definition cached_health :: "string \<Rightarrow> sqlite_store \<Rightarrow> auth_health option" where
  "cached_health auth_id s = (if st_cache_enabled s then Option.bind (hm_get (st_cache s) auth_id) ce_health else None)"

definition load_metrics ::
  "sql_codec \<Rightarrow> time \<Rightarrow> string option \<Rightarrow> string \<Rightarrow> sqlite_store \<Rightarrow> (sqlite_error + auth_metrics option) \<times> sqlite_store" where
  "load_metrics cd now fault auth_id s = (case cached_metrics auth_id s of
       Some m \<Rightarrow> (Inr (Some m), s)
     | None \<Rightarrow> (case run_statement ''load_metrics'' fault True of
         Some e \<Rightarrow> (Inl e, s)
       | None \<Rightarrow> (case hm_get (db_metrics (st_db s)) auth_id of
           None \<Rightarrow> (Inr None, s)
         | Some row \<Rightarrow> (let m = metrics_of_row cd now row in (Inr (Some m), cache_metrics now auth_id m s)))))"

definition load_health ::
  "sql_codec \<Rightarrow> time \<Rightarrow> string option \<Rightarrow> string \<Rightarrow> sqlite_store \<Rightarrow> (sqlite_error + auth_health option) \<times> sqlite_store" where
  "load_health cd now fault auth_id s = (case cached_health auth_id s of
       Some h \<Rightarrow> (Inr (Some h), s)
     | None \<Rightarrow> (case run_statement ''load_health'' fault True of
         Some e \<Rightarrow> (Inl e, s)
       | None \<Rightarrow> (case hm_get (db_health (st_db s)) auth_id of
           None \<Rightarrow> (Inr None, s)
         | Some row \<Rightarrow> (let h = health_of_row cd now row in (Inr (Some h), cache_health now auth_id h s)))))"

definition load_all_metrics ::
  "sql_codec \<Rightarrow> time \<Rightarrow> string option \<Rightarrow> sqlite_store \<Rightarrow> sqlite_error + auth_metrics hmap" where
  "load_all_metrics cd now fault s = (case run_statement ''load_all_metrics'' fault True of
       Some e \<Rightarrow> Inl e
     | None \<Rightarrow> Inr (map (\<lambda>(auth_id, row). (auth_id, metrics_of_row cd now row)) (db_metrics (st_db s))))"

definition load_all_health ::
  "sql_codec \<Rightarrow> time \<Rightarrow> string option \<Rightarrow> sqlite_store \<Rightarrow> sqlite_error + auth_health hmap" where
  "load_all_health cd now fault s = (case run_statement ''load_all_health'' fault True of
       Some e \<Rightarrow> Inl e
     | None \<Rightarrow> Inr (map (\<lambda>(auth_id, row). (auth_id, health_of_row cd now row)) (db_health (st_db s))))"

text \<open>\<open>Duration::seconds\<close> panics beyond the range of a duration and the subtraction before the earliest
  date: none. The number of deleted rows is given back.\<close>

definition cleanup_old_history ::
  "sql_codec \<Rightarrow> time \<Rightarrow> time \<Rightarrow> string option \<Rightarrow> i64 \<Rightarrow> sqlite_store \<Rightarrow> ((sqlite_error + i64) \<times> sqlite_store) option" where
  "cleanup_old_history cd earliest now fault max_age_seconds s =
     (let age = max max_age_seconds 0; cutoff = now - seconds age in
      if i64_max div 1000 < age \<or> cutoff < earliest then None
      else case run_statement ''cleanup_old_history'' fault True of
        Some e \<Rightarrow> Some (Inl e, s)
      | None \<Rightarrow>
          (let cutoff_str = sc_to_rfc3339 cd cutoff; rows = db_history (st_db s);
               kept = filter (\<lambda>r. \<not> sh_timestamp r < cutoff_str) rows
           in Some (Inr (min i64_max (int (length rows - length kept))), s\<lparr>st_db := (st_db s)\<lparr>db_history := kept\<rparr>\<rparr>)))"

definition min_text :: "string list \<Rightarrow> string option" where
  "min_text ts = (case ts of [] \<Rightarrow> None | t # ts \<Rightarrow> Some (fold min ts t))"

definition get_history_stats ::
  "sql_codec \<Rightarrow> string option \<Rightarrow> sqlite_store \<Rightarrow> sqlite_error + i64 \<times> time option" where
  "get_history_stats cd fault s = (case run_statement ''get_history_stats'' fault True of
       Some e \<Rightarrow> Inl e
     | None \<Rightarrow> (let rows = db_history (st_db s)
         in Inr (int (length rows), parse_datetime_opt cd (min_text (map sh_timestamp rows)))))"

section \<open>What is written is what is read\<close>

text \<open>What chrono and serde_json promise: a time printed is the time parsed, and so for the counts, as a map.\<close>

definition codec_ok :: "sql_codec \<Rightarrow> bool" where
  "codec_ok cd \<longleftrightarrow> (\<forall>t. sc_parse_rfc3339 cd (sc_to_rfc3339 cd t) = Some t)
     \<and> (\<forall>m. \<exists>m'. sc_counts_of_json cd (sc_counts_to_json cd m) = Some m' \<and> map_of m' = map_of m)"

lemma parse_health_status_show [simp]: "parse_health_status (show_health_status h) = h"
  by (cases h) (simp_all add: parse_health_status_def)

lemma parse_datetime_opt_show:
  "codec_ok cd \<Longrightarrow> parse_datetime_opt cd (map_option (sc_to_rfc3339 cd) t) = t"
  by (cases t) (simp_all add: parse_datetime_opt_def codec_ok_def)

lemma metrics_of_to_row: "codec_ok cd \<Longrightarrow> metrics_of_row cd now (metrics_to_row cd m) = m"
  by (simp add: metrics_of_row_def metrics_to_row_def parse_datetime_opt_show) (simp add: parse_datetime_def codec_ok_def)

text \<open>Health up to the order of the error counts.\<close>

definition same_health :: "auth_health \<Rightarrow> auth_health \<Rightarrow> bool" where
  "same_health a b \<longleftrightarrow> a\<lparr>error_counts := []\<rparr> = b\<lparr>error_counts := []\<rparr> \<and> map_of (error_counts a) = map_of (error_counts b)"

lemma same_health_refl [simp]: "same_health h h"
  by (simp add: same_health_def)

lemma health_of_to_row: "codec_ok cd \<Longrightarrow> same_health (health_of_row cd now (health_to_row cd h)) h"
proof -
  assume cd: "codec_ok cd"
  then obtain m' where "sc_counts_of_json cd (sc_counts_to_json cd (error_counts h)) = Some m'" "map_of m' = map_of (error_counts h)"
    by (meson codec_ok_def)
  moreover have "parse_datetime cd now (sc_to_rfc3339 cd t) = t" for t
    using cd by (simp add: parse_datetime_def codec_ok_def)
  ultimately show ?thesis
    by (simp add: same_health_def health_of_row_def health_to_row_def parse_datetime_opt_show[OF cd] parse_error_counts_def)
qed

section \<open>The store reads what was written last\<close>

text \<open>The cache agrees with the tables, whose rows all come from records.\<close>

definition store_ok :: "sql_codec \<Rightarrow> sqlite_store \<Rightarrow> bool" where
  "store_ok cd s \<longleftrightarrow>
     (\<forall>i row. hm_get (db_metrics (st_db s)) i = Some row \<longrightarrow> (\<exists>m. row = metrics_to_row cd m))
   \<and> (\<forall>i row. hm_get (db_health (st_db s)) i = Some row \<longrightarrow> (\<exists>h. row = health_to_row cd h))
   \<and> (\<forall>i m. cached_metrics i s = Some m \<longrightarrow> hm_get (db_metrics (st_db s)) i = Some (metrics_to_row cd m))
   \<and> (\<forall>i h. cached_health i s = Some h \<longrightarrow>
        (\<exists>g. hm_get (db_health (st_db s)) i = Some (health_to_row cd g) \<and> same_health h g))"

definition stored_metrics :: "sql_codec \<Rightarrow> sqlite_store \<Rightarrow> string \<Rightarrow> auth_metrics option" where
  "stored_metrics cd s i = map_option (metrics_of_row cd 0) (hm_get (db_metrics (st_db s)) i)"

definition stored_health :: "sql_codec \<Rightarrow> sqlite_store \<Rightarrow> string \<Rightarrow> auth_health option" where
  "stored_health cd s i = map_option (health_of_row cd 0) (hm_get (db_health (st_db s)) i)"

lemma cache_db [simp]:
  "st_db (cache_metrics now i m s) = st_db s" "st_db (cache_health now i h s) = st_db s"
  by (simp_all add: cache_metrics_def cache_health_def)

lemma cached_after [simp]:
  "cached_metrics j (cache_metrics now i m s) = (if j = i \<and> st_cache_enabled s then Some m else cached_metrics j s)"
  "cached_health j (cache_health now i h s) = (if j = i \<and> st_cache_enabled s then Some h else cached_health j s)"
  "cached_health j (cache_metrics now i m s) = cached_health j s"
  "cached_metrics j (cache_health now i h s) = cached_metrics j s"
  by (auto simp: cached_metrics_def cached_health_def cache_metrics_def cache_health_def cache_entry_of_def store_simps
      split: option.split)

lemma cached_enabled:
  "cached_metrics i s = Some m \<Longrightarrow> st_cache_enabled s" "cached_health i s = Some h \<Longrightarrow> st_cache_enabled s"
  by (simp_all add: cached_metrics_def cached_health_def split: if_splits)

lemma cached_db_update [simp]:
  "cached_metrics j (s\<lparr>st_db := d\<rparr>) = cached_metrics j s" "cached_health j (s\<lparr>st_db := d\<rparr>) = cached_health j s"
  by (simp_all add: cached_metrics_def cached_health_def)

lemma health_of_row_now: "codec_ok cd \<Longrightarrow> health_of_row cd now (health_to_row cd h) = health_of_row cd now' (health_to_row cd h)"
  by (simp add: health_of_row_def health_to_row_def parse_datetime_def codec_ok_def)

text \<open>The calls that change a store. A clean-up that panics has not reached its statement.\<close>

datatype store_op =
    WriteMetrics time "string option" string auth_metrics
  | WriteHealth time "string option" string auth_health
  | LoadMetrics time "string option" string
  | LoadHealth time "string option" string
  | WriteHistory time "string option" string i32 f64 bool
  | CleanupHistory time time "string option" i64

fun store_call :: "sql_codec \<Rightarrow> store_op \<Rightarrow> sqlite_store \<Rightarrow> sqlite_store" where
  "store_call cd (WriteMetrics now fault i m) s = snd (write_metrics cd now fault i m s)"
| "store_call cd (WriteHealth now fault i h) s = snd (write_health cd now fault i h s)"
| "store_call cd (LoadMetrics now fault i) s = snd (load_metrics cd now fault i s)"
| "store_call cd (LoadHealth now fault i) s = snd (load_health cd now fault i s)"
| "store_call cd (WriteHistory now fault i code lat ok) s = snd (write_status_history cd now fault i code lat ok s)"
| "store_call cd (CleanupHistory earliest now fault age) s = (case cleanup_old_history cd earliest now fault age s of
     None \<Rightarrow> s | Some (_, s') \<Rightarrow> s')"

text \<open>The specification: for each credential the record of the last write that succeeded.\<close>

fun last_metrics :: "sql_codec \<Rightarrow> store_op \<Rightarrow> (string \<Rightarrow> auth_metrics option) \<Rightarrow> string \<Rightarrow> auth_metrics option" where
  "last_metrics cd (WriteMetrics now fault i m) w =
     (if fault = None \<and> metrics_checks (metrics_to_row cd m) then w(i \<mapsto> m) else w)"
| "last_metrics cd _ w = w"

fun last_health :: "sql_codec \<Rightarrow> store_op \<Rightarrow> (string \<Rightarrow> auth_health option) \<Rightarrow> string \<Rightarrow> auth_health option" where
  "last_health cd (WriteHealth now fault i h) w =
     (if fault = None \<and> health_checks (health_to_row cd h) then w(i \<mapsto> h) else w)"
| "last_health cd _ w = w"

lemma history_calls [simp]:
  assumes "c = WriteHistory now fault i code lat ok \<or> c = CleanupHistory earliest now fault age"
  shows "db_metrics (st_db (store_call cd c s)) = db_metrics (st_db s)" "db_health (st_db (store_call cd c s)) = db_health (st_db s)"
    "cached_metrics j (store_call cd c s) = cached_metrics j s" "cached_health j (store_call cd c s) = cached_health j s"
  using assms by (auto simp: write_status_history_def cleanup_old_history_def Let_def split: option.split)

lemma store_ok_call:
  assumes cd: "codec_ok cd" and ok: "store_ok cd s"
  shows "store_ok cd (store_call cd c s)"
proof (cases c)
  case (WriteMetrics now fault i m)
  then show ?thesis using ok
    by (auto simp: write_metrics_def Let_def store_ok_def store_simps split: option.split dest: cached_enabled)
next
  case (WriteHealth now fault i h)
  then show ?thesis using ok
    by (auto simp: write_health_def Let_def store_ok_def store_simps split: option.split dest: cached_enabled)
next
  case (LoadMetrics now fault i)
  show ?thesis
  proof (cases "hm_get (db_metrics (st_db s)) i")
    case (Some row)
    then obtain m where "row = metrics_to_row cd m" using ok unfolding store_ok_def by blast
    then show ?thesis using LoadMetrics Some ok metrics_of_to_row[OF cd]
      by (auto simp: load_metrics_def Let_def store_ok_def split: option.split)
  qed (use LoadMetrics ok in \<open>auto simp: load_metrics_def split: option.split\<close>)
next
  case (LoadHealth now fault i)
  show ?thesis
  proof (cases "hm_get (db_health (st_db s)) i")
    case (Some row)
    then obtain h where "row = health_to_row cd h" using ok unfolding store_ok_def by blast
    then show ?thesis using LoadHealth Some ok health_of_to_row[OF cd, of now h]
      by (auto simp: load_health_def Let_def store_ok_def split: option.split)
  qed (use LoadHealth ok in \<open>auto simp: load_health_def split: option.split\<close>)
qed (use ok history_calls[where c = c and cd = cd and s = s] in \<open>simp_all add: store_ok_def del: store_call.simps\<close>)

lemma load_snd_db [simp]:
  "st_db (snd (load_metrics cd now fault i s)) = st_db s" "st_db (snd (load_health cd now fault i s)) = st_db s"
  by (auto simp: load_metrics_def load_health_def Let_def split: option.split)

lemma stored_after_call:
  assumes "codec_ok cd"
  shows "stored_metrics cd (store_call cd c s) = last_metrics cd c (stored_metrics cd s)"
    and "rel_fun (=) (rel_option same_health) (stored_health cd s) w \<Longrightarrow>
      rel_fun (=) (rel_option same_health) (stored_health cd (store_call cd c s)) (last_health cd c w)"
  using health_of_to_row[OF assms]
  using history_calls[where c = c and cd = cd and s = s]
  by (cases c; auto simp: stored_metrics_def stored_health_def write_metrics_def write_health_def Let_def run_statement_def
      store_simps metrics_of_to_row[OF assms] rel_fun_def split: option.split)+

lemma store_okD:
  assumes "store_ok cd s"
  shows "hm_get (db_metrics (st_db s)) i = Some row \<Longrightarrow> \<exists>m. row = metrics_to_row cd m"
    and "hm_get (db_health (st_db s)) i = Some hrow \<Longrightarrow> \<exists>h. hrow = health_to_row cd h"
    and "cached_metrics i s = Some m \<Longrightarrow> hm_get (db_metrics (st_db s)) i = Some (metrics_to_row cd m)"
    and "cached_health i s = Some h \<Longrightarrow>
      \<exists>g. hm_get (db_health (st_db s)) i = Some (health_to_row cd g) \<and> same_health h g"
  using assms unfolding store_ok_def by blast+

lemma load_metrics_stored:
  assumes "codec_ok cd" and "store_ok cd s"
  shows "fst (load_metrics cd now None i s) = Inr (stored_metrics cd s i)"
proof (cases "cached_metrics i s")
  case None
  show ?thesis
  proof (cases "hm_get (db_metrics (st_db s)) i")
    case (Some row)
    then show ?thesis using None store_okD(1)[OF assms(2) Some] metrics_of_to_row[OF assms(1)]
      by (auto simp: load_metrics_def run_statement_def stored_metrics_def Let_def)
  qed (use None in \<open>simp add: load_metrics_def run_statement_def stored_metrics_def\<close>)
next
  case (Some m)
  then show ?thesis using store_okD(3)[OF assms(2) Some] metrics_of_to_row[OF assms(1)]
    by (simp add: load_metrics_def stored_metrics_def)
qed

lemma same_health_sym: "same_health a b \<Longrightarrow> same_health b a"
  by (simp add: same_health_def)

lemma same_health_trans: "same_health a b \<Longrightarrow> same_health b c \<Longrightarrow> same_health a c"
  by (simp add: same_health_def)

lemma rel_same_health_trans:
  "rel_option same_health x y \<Longrightarrow> rel_option same_health y z \<Longrightarrow> rel_option same_health x z"
  by (cases x; cases y; cases z) (auto intro: same_health_trans)

lemma load_health_stored:
  assumes "codec_ok cd" and "store_ok cd s"
  shows "\<exists>h. fst (load_health cd now None i s) = Inr h \<and> rel_option same_health h (stored_health cd s i)"
proof (cases "cached_health i s")
  case None
  show ?thesis
  proof (cases "hm_get (db_health (st_db s)) i")
    case (Some row)
    then show ?thesis using None store_okD(2)[OF assms(2) Some] health_of_row_now[OF assms(1), of now _ 0]
      by (auto simp: load_health_def run_statement_def stored_health_def Let_def)
  qed (use None in \<open>simp add: load_health_def run_statement_def stored_health_def\<close>)
next
  case (Some h)
  obtain g where g: "hm_get (db_health (st_db s)) i = Some (health_to_row cd g)" "same_health h g"
    using store_okD(4)[OF assms(2) Some] by blast
  have "same_health h (health_of_row cd 0 (health_to_row cd g))"
    using g(2) health_of_to_row[OF assms(1), of 0 g] by (rule same_health_trans[OF _ same_health_sym])
  then show ?thesis using Some g by (simp add: load_health_def stored_health_def)
qed

text \<open>C24. The store is a map that remembers: after any calls that write or load metrics and health, record
  the history or clean it up, whatever statements fail and whether or not there is a cache, loading a credential gives exactly what the last
  successful write for it stored (for health up to the order of the error counts), or nothing if there was none.\<close>

theorem store_reads_last_write:
  fixes calls path enable_cache
  assumes "codec_ok cd"
  defines "s \<equiv> fold (store_call cd) calls (from_pool empty_database path enable_cache)"
  shows "fst (load_metrics cd now None i s) = Inr (fold (last_metrics cd) calls Map.empty i)
    \<and> (\<exists>h. fst (load_health cd now None i s) = Inr h \<and> rel_option same_health h (fold (last_health cd) calls Map.empty i))"
proof -
  have start: "store_ok cd (from_pool empty_database path enable_cache)"
    by (simp add: store_ok_def from_pool_def empty_database_def cached_metrics_def cached_health_def)
  have "store_ok cd s \<and> stored_metrics cd s = fold (last_metrics cd) calls Map.empty
      \<and> rel_fun (=) (rel_option same_health) (stored_health cd s) (fold (last_health cd) calls Map.empty)"
    unfolding s_def
  proof (induction calls rule: rev_induct)
    case Nil
    show ?case using start
      by (auto simp: stored_metrics_def stored_health_def from_pool_def empty_database_def rel_fun_def)
  next
    case (snoc c cs)
    then show ?case using store_ok_call[OF assms(1)] stored_after_call[OF assms(1)] by simp
  qed
  then show ?thesis
    using load_metrics_stored[OF assms(1)] load_health_stored[OF assms(1), of s now i]
    by (auto simp: rel_fun_def dest!: spec[where x = i] intro: rel_same_health_trans)
qed

text \<open>A codec in unary, to see that there is one.\<close>

definition unary :: "int \<Rightarrow> string" where
  "unary i = (if i < 0 then CHR ''n'' else CHR ''p'') # replicate (nat \<bar>i\<bar>) (CHR ''1'')"

definition of_unary :: "string \<Rightarrow> int option" where
  "of_unary s = (case s of [] \<Rightarrow> None
     | c # cs \<Rightarrow> Some (if c = CHR ''n'' then - int (length cs) else int (length cs)))"

definition or_zero :: "int option \<Rightarrow> int" where "or_zero x = (case x of Some i \<Rightarrow> i | None \<Rightarrow> 0)"

fun of_unary_pairs :: "string list \<Rightarrow> (i32 \<times> i32) list" where
  "of_unary_pairs (a # b # ss) = (or_zero (of_unary a), or_zero (of_unary b)) # of_unary_pairs ss"
| "of_unary_pairs _ = []"

definition unary_codec :: sql_codec where
  "unary_codec = \<lparr>sc_to_rfc3339 = unary, sc_parse_rfc3339 = of_unary,
     sc_counts_to_json = (\<lambda>m. concat (map (\<lambda>(a, b). unary a @ '';'' @ unary b @ '';'') m)),
     sc_counts_of_json = (\<lambda>s. Some (of_unary_pairs (split_on (CHR '';'') s))),
     sc_sql_now = unary, sc_sql_datetime = Some\<rparr>"

lemma of_unary [simp]: "of_unary (unary i) = Some i"
  by (simp add: of_unary_def unary_def)

lemma split_on_piece: "c \<notin> set p \<Longrightarrow> split_on c (p @ c # s) = p # split_on c s"
  by (induction p) auto

lemma semicolon_unary: "CHR '';'' \<notin> set (unary i)"
  by (simp add: unary_def)

lemma codec_ok_unary: "codec_ok unary_codec"
proof -
  have "of_unary_pairs (split_on (CHR '';'') (concat (map (\<lambda>(a, b). unary a @ '';'' @ unary b @ '';'') m))) = m" for m
    by (induction m) (auto simp: split_on_piece[OF semicolon_unary] or_zero_def)
  then show ?thesis by (simp add: codec_ok_def unary_codec_def)
qed

definition sample_metrics :: auth_metrics where
  "sample_metrics = (fresh_metrics 0)\<lparr>total_requests := 1, success_count := 1\<rparr>"

theorem store_reads_last_write_witness:
  "fst (load_metrics unary_codec 5 None ''a'' (fold (store_call unary_codec)
     [WriteMetrics 1 None ''a'' sample_metrics, WriteMetrics 2 (Some ''disk full'') ''a'' (fresh_metrics 2),
      LoadMetrics 3 None ''b'', WriteHistory 3 None ''a'' 200 f64_1 True, CleanupHistory 0 4 None 2] (from_pool empty_database ''db'' False))) = Inr (Some sample_metrics)"
proof -
  have "metrics_checks (metrics_to_row unary_codec sample_metrics)"
    by (simp add: metrics_checks_def metrics_to_row_def sample_metrics_def fresh_metrics_def f64_max_value_def)
  then show ?thesis
    using store_reads_last_write[OF codec_ok_unary, of 5 "''a''" "[WriteMetrics 1 None ''a'' sample_metrics,
      WriteMetrics 2 (Some ''disk full'') ''a'' (fresh_metrics 2), LoadMetrics 3 None ''b'',
      WriteHistory 3 None ''a'' 200 f64_1 True, CleanupHistory 0 4 None 2]" "''db''" False]
    by simp
qed

section \<open>The cleanup of the history works by days\<close>

lemma datetime_before_rfc3339:
  "length d = length e \<Longrightarrow> d @ CHR '' '' # h < e @ CHR ''T'' # k \<longleftrightarrow> d \<le> (e :: string)"
  by (induction d e rule: list_induct2) auto

text \<open>SQLite writes the times of the history with a space between date and time, chrono the cutoff with a
  \<open>T\<close>, and they are compared as texts: so the cleanup deletes every entry of the cutoff's day and of the days
  before, those of that day after the cutoff included, and keeps exactly the entries of later days.\<close>

theorem cleanup_deletes_whole_days:
  assumes "\<forall>r\<in>set (db_history (st_db s)). \<exists>d t. sh_timestamp r = d @ CHR '' '' # t \<and> length d = 10"
    and "sc_to_rfc3339 cd (now - seconds (max age 0)) = date @ CHR ''T'' # clock" and "length date = 10"
    and "earliest \<le> now - seconds (max age 0)" and "age \<le> i64_max div 1000"
  shows "\<exists>n s'. cleanup_old_history cd earliest now None age s = Some (Inr n, s')
    \<and> db_history (st_db s') = filter (\<lambda>r. date < take 10 (sh_timestamp r)) (db_history (st_db s))"
proof -
  have "\<not> sh_timestamp r < date @ CHR ''T'' # clock \<longleftrightarrow> date < take 10 (sh_timestamp r)"
    if "r \<in> set (db_history (st_db s))" for r
    using assms(1,3) that by (auto simp: datetime_before_rfc3339 not_le)
  then have "filter (\<lambda>r. \<not> sh_timestamp r < date @ CHR ''T'' # clock) (db_history (st_db s)) =
      filter (\<lambda>r. date < take 10 (sh_timestamp r)) (db_history (st_db s))"
    by (simp cong: filter_cong)
  moreover have "\<not> (i64_max div 1000 < max age 0)" using assms(5) by (simp add: i64_max_def)
  ultimately show ?thesis using assms(2,4) by (simp add: cleanup_old_history_def run_statement_def Let_def)
qed

definition sample_history :: sqlite_store where
  "sample_history = from_pool (empty_database\<lparr>db_history := [\<lparr>sh_auth_id = ''a'', sh_status_code = 200, sh_latency_ms = f64_1,
     sh_success = 1, sh_timestamp = ''2026-03-01 11:59:00''\<rparr>]\<rparr>) ''db'' False"

theorem cleanup_deletes_whole_days_witness:
  "\<exists>n s'. cleanup_old_history (unary_codec\<lparr>sc_to_rfc3339 := \<lambda>_. ''2026-03-01T11:00:00+00:00''\<rparr>) 0
     (seconds 3600) None 3600 sample_history = Some (Inr n, s') \<and> db_history (st_db s') = []"
proof -
  have "\<exists>n s'. cleanup_old_history (unary_codec\<lparr>sc_to_rfc3339 := \<lambda>_. ''2026-03-01T11:00:00+00:00''\<rparr>) 0
     (seconds 3600) None 3600 sample_history = Some (Inr n, s')
    \<and> db_history (st_db s') = filter (\<lambda>r. ''2026-03-01'' < take 10 (sh_timestamp r)) (db_history (st_db sample_history))"
  proof (rule cleanup_deletes_whole_days)
    show "\<forall>r\<in>set (db_history (st_db sample_history)). \<exists>d t. sh_timestamp r = d @ CHR '' '' # t \<and> length d = 10"
    proof
      fix r assume "r \<in> set (db_history (st_db sample_history))"
      then have "sh_timestamp r = ''2026-03-01'' @ CHR '' '' # ''11:59:00'' \<and> length ''2026-03-01'' = 10"
        by (simp add: sample_history_def from_pool_def)
      then show "\<exists>d t. sh_timestamp r = d @ CHR '' '' # t \<and> length d = 10" by blast
    qed
  qed (simp_all add: i64_max_def)
  then show ?thesis by (simp add: sample_history_def from_pool_def)
qed

end
