(* ===== verification/SqliteCollectors.thy ===== *)
theory SqliteCollectors
  imports SqliteStore
begin

text \<open>
  The write-behind collectors over the store (src/routing/sqlite/collectors.rs): a cache in memory, a flag per
  credential that tells whether its record was changed since it was written, and a flush that writes the changed
  ones. The two collectors differ in their records; what they share is polymorphic here. The store is passed on;
  that a statement of a flush fails, and the clock it reads, depend on the credential.
\<close>

section \<open>The cache and its flush\<close>

record 'e write_behind =
  wb_cache :: "'e hmap"
  wb_dirty :: "bool hmap"
  wb_flush_interval :: time

definition collector_with_interval :: "time \<Rightarrow> 'e write_behind" where
  "collector_with_interval flush_interval = \<lparr>wb_cache = [], wb_dirty = [], wb_flush_interval = flush_interval\<rparr>"

definition sqlite_collector_new :: "'e write_behind" where
  "sqlite_collector_new = collector_with_interval (seconds 1)"

definition mark_dirty :: "string \<Rightarrow> 'e write_behind \<Rightarrow> 'e write_behind" where
  "mark_dirty i c = c\<lparr>wb_dirty := hm_insert i True (wb_dirty c)\<rparr>"

definition update_cached :: "string \<Rightarrow> 'e \<Rightarrow> 'e write_behind \<Rightarrow> 'e write_behind" where
  "update_cached i e c = c\<lparr>wb_cache := hm_insert i e (wb_cache c)\<rparr>"

definition cached_or :: "'e \<Rightarrow> string \<Rightarrow> 'e write_behind \<Rightarrow> 'e" where
  "cached_or e i c = (case hm_get (wb_cache c) i of Some x \<Rightarrow> x | None \<Rightarrow> e)"

definition to_flush :: "'e write_behind \<Rightarrow> string list" where
  "to_flush c = map fst (filter snd (wb_dirty c))"

type_synonym ('e, 's) writer = "string \<Rightarrow> 'e \<Rightarrow> 's \<Rightarrow> (sqlite_error + unit) \<times> 's"

definition flush_one :: "('e, 's) writer \<Rightarrow> string \<Rightarrow> 'e write_behind \<times> 's \<Rightarrow> 'e write_behind \<times> 's" where
  "flush_one write i cs = (case cs of (c, s) \<Rightarrow> (case hm_get (wb_cache c) i of
       None \<Rightarrow> (c, s)
     | Some e \<Rightarrow> (case write i e s of
         (Inl _, s) \<Rightarrow> (c, s)
       | (Inr _, s) \<Rightarrow> (c\<lparr>wb_dirty := hm_insert i False (wb_dirty c)\<rparr>, s))))"

text \<open>The result is always success: errors of single writes are printed.\<close>

definition flush_all :: "('e, 's) writer \<Rightarrow> 'e write_behind \<times> 's \<Rightarrow> (sqlite_error + unit) \<times> 'e write_behind \<times> 's" where
  "flush_all write cs = (Inr (), fold (flush_one write) (to_flush (fst cs)) cs)"

definition load_into :: "sqlite_error + 'e hmap \<Rightarrow> 'e write_behind \<Rightarrow> (sqlite_error + unit) \<times> 'e write_behind" where
  "load_into loaded c = (case loaded of
       Inl e \<Rightarrow> (Inl e, c)
     | Inr all \<Rightarrow> (Inr (), fold (\<lambda>(i, e). update_cached i e) all c))"

section \<open>The metrics collector\<close>

definition sql_fresh_metrics :: "time \<Rightarrow> auth_metrics" where
  "sql_fresh_metrics now = \<lparr>total_requests = 0, success_count = 0, failure_count = 0,
     avg_latency_ms = f64_0, min_latency_ms = f64_0, max_latency_ms = f64_0, success_rate = f64_1, error_rate = f64_0,
     m_consecutive_successes = 0, m_consecutive_failures = 0, last_request_time = now, last_success_time = None,
     last_failure_time = None\<rparr>"

definition sql_initialize_auth :: "time \<Rightarrow> string \<Rightarrow> auth_metrics write_behind \<Rightarrow> auth_metrics write_behind" where
  "sql_initialize_auth now i c = (if i = [] then c else update_cached i (sql_fresh_metrics now) c)"

definition sat_inc_i64 :: "i64 \<Rightarrow> i64" where "sat_inc_i64 a = min i64_max (a + 1)"

definition sql_alpha :: f64 where "sql_alpha = f64_of (1 / 10)"

definition sql_record_entry :: "time \<Rightarrow> time \<Rightarrow> f64 \<Rightarrow> bool \<Rightarrow> auth_metrics \<Rightarrow> auth_metrics" where
  "sql_record_entry t_req t_out latency_ms success m =
     (let m = m\<lparr>total_requests := sat_inc_i64 (total_requests m), last_request_time := t_req\<rparr>;
          m = (if success then
                m\<lparr>success_count := sat_inc_i64 (success_count m), m_consecutive_successes := sat_inc_i32 (m_consecutive_successes m),
                  m_consecutive_failures := 0, last_success_time := Some t_out\<rparr>
              else
                m\<lparr>failure_count := sat_inc_i64 (failure_count m), m_consecutive_failures := sat_inc_i32 (m_consecutive_failures m),
                  m_consecutive_successes := 0, last_failure_time := Some t_out\<rparr>);
          m = (if feq (min_latency_ms m) f64_0 \<or> latency_ms < min_latency_ms m then m\<lparr>min_latency_ms := latency_ms\<rparr> else m);
          m = (if max_latency_ms m < latency_ms then m\<lparr>max_latency_ms := latency_ms\<rparr> else m);
          m = m\<lparr>avg_latency_ms := fadd (fmul sql_alpha latency_ms) (fmul (fsub f64_1 sql_alpha) (avg_latency_ms m))\<rparr>
      in if 0 < total_requests m then
           m\<lparr>success_rate := fdiv (f64_int (success_count m)) (f64_int (total_requests m)),
             error_rate := fdiv (f64_int (failure_count m)) (f64_int (total_requests m))\<rparr>
         else m)"

definition record_request ::
  "sql_codec \<Rightarrow> time \<Rightarrow> time \<Rightarrow> time \<Rightarrow> string option \<Rightarrow> string \<Rightarrow> f64 \<Rightarrow> bool \<Rightarrow> i32
    \<Rightarrow> auth_metrics write_behind \<times> sqlite_store \<Rightarrow> auth_metrics write_behind \<times> sqlite_store" where
  "record_request cd t_req t_out t_hist fault i latency_ms success status_code cs = (case cs of (c, s) \<Rightarrow>
     (if i = [] then (c, s)
      else if \<not> is_finite latency_ms \<or> latency_ms < f64_0 then (c, s)
      else
        (let c = update_cached i (sql_record_entry t_req t_out latency_ms success (cached_or (sql_fresh_metrics t_req) i c)) c;
             c = mark_dirty i c
         in (c, snd (write_status_history cd t_hist fault i status_code latency_ms success s)))))"

definition sql_get_metrics :: "auth_metrics write_behind \<Rightarrow> string \<Rightarrow> auth_metrics option" where
  "sql_get_metrics c i = hm_get (wb_cache c) i"

definition sql_get_all_metrics :: "auth_metrics write_behind \<Rightarrow> auth_metrics hmap" where
  "sql_get_all_metrics c = wb_cache c"

definition metrics_writer :: "sql_codec \<Rightarrow> (string \<Rightarrow> time) \<Rightarrow> (string \<Rightarrow> string option) \<Rightarrow> (auth_metrics, sqlite_store) writer" where
  "metrics_writer cd now fault i m s = write_metrics cd (now i) (fault i) i m s"

definition metrics_flush ::
  "sql_codec \<Rightarrow> (string \<Rightarrow> time) \<Rightarrow> (string \<Rightarrow> string option) \<Rightarrow> auth_metrics write_behind \<times> sqlite_store
    \<Rightarrow> (sqlite_error + unit) \<times> auth_metrics write_behind \<times> sqlite_store" where
  "metrics_flush cd now fault cs =
     (if to_flush (fst cs) = [] then (Inr (), cs) else flush_all (metrics_writer cd now fault) cs)"

definition metrics_load_from_db ::
  "sql_codec \<Rightarrow> time \<Rightarrow> string option \<Rightarrow> sqlite_store \<Rightarrow> auth_metrics write_behind \<Rightarrow> (sqlite_error + unit) \<times> auth_metrics write_behind" where
  "metrics_load_from_db cd now fault s c = load_into (load_all_metrics cd now fault s) c"

section \<open>The health manager\<close>

definition sql_record_success :: "time \<Rightarrow> time \<Rightarrow> time \<Rightarrow> string \<Rightarrow> auth_health write_behind \<Rightarrow> auth_health write_behind" where
  "sql_record_success t_new t_check t_change i c =
     (if i = [] then c
      else
        (let h = cached_or (fresh_health t_new t_new) i c;
             h = h\<lparr>ah_consecutive_successes := sat_inc_i32 (ah_consecutive_successes h), ah_consecutive_failures := 0,
                   last_check_time := t_check\<rparr>;
             h = (if 3 \<le> ah_consecutive_successes h then
                   (if ah_status h \<noteq> Healthy then h\<lparr>ah_status := Healthy, last_status_change := t_change\<rparr> else h)\<lparr>unavailable_until := None\<rparr>
                  else h)
         in mark_dirty i (update_cached i h c)))"

definition blame :: "time \<Rightarrow> time \<Rightarrow> auth_health \<Rightarrow> auth_health" where
  "blame t_change t_until h = h\<lparr>ah_status := Unhealthy, last_status_change := t_change, unavailable_until := Some (t_until + seconds 60)\<rparr>"

definition failed_health :: "time \<Rightarrow> time \<Rightarrow> time \<Rightarrow> i32 \<Rightarrow> auth_health \<Rightarrow> auth_health" where
  "failed_health t_check t_change t_until status_code h =
     (let h = h\<lparr>ah_consecutive_failures := sat_inc_i32 (ah_consecutive_failures h), ah_consecutive_successes := 0,
                last_check_time := t_check\<rparr>;
          err_count = (case map_of (error_counts h) status_code of Some n \<Rightarrow> n | None \<Rightarrow> 0);
          h = h\<lparr>error_counts := AList.update status_code (sat_inc_i32 err_count) (error_counts h)\<rparr>
      in if 500 \<le> status_code \<and> status_code \<le> 599 \<or> status_code = 401 \<or> status_code = 403 then
           (if 3 \<le> ah_consecutive_failures h then blame t_change t_until h else h)
         else if status_code = 429 then h\<lparr>ah_status := Degraded, last_status_change := t_change\<rparr>
         else (if 5 \<le> ah_consecutive_failures h then blame t_change t_until h else h))"

definition sql_record_failure ::
  "time \<Rightarrow> time \<Rightarrow> time \<Rightarrow> time \<Rightarrow> string \<Rightarrow> i32 \<Rightarrow> auth_health write_behind \<Rightarrow> auth_health write_behind" where
  "sql_record_failure t_new t_check t_change t_until i status_code c =
     (if i = [] then c
      else mark_dirty i (update_cached i
        (failed_health t_check t_change t_until status_code (cached_or (fresh_health t_new t_new) i c)) c))"

definition sql_get_status :: "auth_health write_behind \<Rightarrow> string \<Rightarrow> health_status" where
  "sql_get_status c i = (if i = [] then Healthy else case hm_get (wb_cache c) i of Some h \<Rightarrow> ah_status h | None \<Rightarrow> Healthy)"

definition sql_get_health :: "auth_health write_behind \<Rightarrow> string \<Rightarrow> auth_health option" where
  "sql_get_health c i = (if i = [] then None else hm_get (wb_cache c) i)"

definition sql_is_available :: "time \<Rightarrow> auth_health write_behind \<Rightarrow> string \<Rightarrow> bool" where
  "sql_is_available now c i = (if i = [] then True
     else case hm_get (wb_cache c) i of
       None \<Rightarrow> True
     | Some h \<Rightarrow> (if ah_status h = Unhealthy then False
         else case unavailable_until h of None \<Rightarrow> True | Some until_time \<Rightarrow> until_time \<le> now))"

definition sql_mark_unavailable ::
  "time \<Rightarrow> time \<Rightarrow> time \<Rightarrow> string \<Rightarrow> nat \<Rightarrow> auth_health write_behind \<Rightarrow> auth_health write_behind" where
  "sql_mark_unavailable t_new t_change t_until i duration_secs c =
     (if i = [] then c
      else mark_dirty i (update_cached i ((cached_or (fresh_health t_new t_new) i c)
        \<lparr>ah_status := Unhealthy, last_status_change := t_change,
         unavailable_until := Some (t_until + seconds (int (min duration_secs 86400)))\<rparr>) c))"

definition health_writer :: "sql_codec \<Rightarrow> (string \<Rightarrow> time) \<Rightarrow> (string \<Rightarrow> string option) \<Rightarrow> (auth_health, sqlite_store) writer" where
  "health_writer cd now fault i h s = write_health cd (now i) (fault i) i h s"

definition health_flush ::
  "sql_codec \<Rightarrow> (string \<Rightarrow> time) \<Rightarrow> (string \<Rightarrow> string option) \<Rightarrow> auth_health write_behind \<times> sqlite_store
    \<Rightarrow> (sqlite_error + unit) \<times> auth_health write_behind \<times> sqlite_store" where
  "health_flush cd now fault cs =
     (if to_flush (fst cs) = [] then (Inr (), cs) else flush_all (health_writer cd now fault) cs)"

definition health_load_from_db ::
  "sql_codec \<Rightarrow> time \<Rightarrow> string option \<Rightarrow> sqlite_store \<Rightarrow> auth_health write_behind \<Rightarrow> (sqlite_error + unit) \<times> auth_health write_behind" where
  "health_load_from_db cd now fault s c = load_into (load_all_health cd now fault s) c"

section \<open>Recorded metrics satisfy the schema\<close>

definition sql_metrics_ok :: "auth_metrics \<Rightarrow> bool" where
  "sql_metrics_ok m \<longleftrightarrow> 0 \<le> success_count m \<and> success_count m \<le> total_requests m \<and> 0 \<le> failure_count m
     \<and> failure_count m \<le> total_requests m \<and> total_requests m \<le> i64_max
     \<and> f64_0 \<le> avg_latency_ms m \<and> f64_0 \<le> min_latency_ms m \<and> f64_0 \<le> max_latency_ms m
     \<and> unit_f64 (success_rate m) \<and> unit_f64 (error_rate m)
     \<and> 0 \<le> m_consecutive_successes m \<and> m_consecutive_successes m \<le> i32_max
     \<and> 0 \<le> m_consecutive_failures m \<and> m_consecutive_failures m \<le> i32_max"

lemma sql_metrics_ok_checks: "sql_metrics_ok m \<Longrightarrow> metrics_checks (metrics_to_row cd m)"
  by (auto simp: sql_metrics_ok_def metrics_checks_def metrics_to_row_def unit_f64_def)

lemma sql_fresh_metrics_ok: "sql_metrics_ok (sql_fresh_metrics now)"
  by (simp add: sql_metrics_ok_def sql_fresh_metrics_def i64_max_def i32_max_def)

lemma f64_int_finite:
  assumes "0 \<le> n" and "n \<le> 2 ^ 63"
  shows "is_finite (f64_int n)"
proof -
  have two63: "f64_of (2 ^ 63) = FFin (2 ^ 63)"
    using rnd_scaled_le[of "2 ^ 53" 10] by (simp add: f64_of_def Let_def)
  have "(of_int n :: rat) \<le> 2 ^ 63" using assms(2) by (metis of_int_le_iff of_int_numeral of_int_power)
  then have "f64_int n \<le> FFin (2 ^ 63)" using f64_of_mono two63 by metis
  moreover have "f64_0 \<le> f64_int n" using assms(1) by (intro f64_of_nonneg) simp
  ultimately show ?thesis by (cases "f64_int n") (auto simp: is_finite_def)
qed

lemma ratio_unit:
  assumes "0 \<le> a" and "a \<le> n" and "0 < n" and "n \<le> i64_max"
  shows "unit_f64 (fdiv (f64_int a) (f64_int n))"
proof (rule fdiv_unit)
  show "f64_0 \<le> f64_int a" using assms(1) by (intro f64_of_nonneg) simp
  show "f64_int a \<le> f64_int n" using assms(2) by (intro f64_of_mono) simp
  have "f64_of 1 \<le> f64_int n" using assms(3) by (intro f64_of_mono) simp
  then show "f64_0 < f64_int n" by (cases "f64_int n") (auto simp: less_f64_def)
  show "is_finite (f64_int n)" using assms(3,4) by (intro f64_int_finite) (simp_all add: i64_max_def)
qed

lemma sql_alpha_bounds: "\<exists>a. sql_alpha = FFin a \<and> 1 / 16 \<le> a \<and> a \<le> 1 / 2"
  using f64_of_mono[of "1 / 16" "1 / 10"] f64_of_mono[of "1 / 10" "1 / 2"]
  by (intro f64_between) (simp_all add: sql_alpha_def f64_of_sixteenth f64_of_half)

lemma sql_beta_bounds: "\<exists>b. fsub f64_1 sql_alpha = FFin b \<and> 1 / 2 \<le> b \<and> b \<le> 1"
proof -
  obtain a where a: "sql_alpha = FFin a" "1 / 16 \<le> a" "a \<le> 1 / 2" using sql_alpha_bounds by blast
  have "fsub f64_1 sql_alpha = f64_of (1 - a)" unfolding a(1) by (simp add: fsub_def)
  moreover have "f64_of (1 / 2) \<le> f64_of (1 - a)" "f64_of (1 - a) \<le> f64_of 1"
    using a by (auto simp del: f64_of_1 intro!: f64_of_mono)
  ultimately show ?thesis by (intro f64_between) (simp_all add: f64_of_half)
qed

lemma fmul_pos_nonneg: "0 < r \<Longrightarrow> f64_0 \<le> y \<Longrightarrow> f64_0 \<le> fmul (FFin r) y"
  by (cases y) (auto simp: fmul_def f64_of_nonneg inf_of_sign_def)

lemma sql_average_nonneg:
  "f64_0 \<le> x \<Longrightarrow> f64_0 \<le> avg \<Longrightarrow> f64_0 \<le> fadd (fmul sql_alpha x) (fmul (fsub f64_1 sql_alpha) avg)"
proof -
  assume x: "f64_0 \<le> x" and avg: "f64_0 \<le> avg"
  obtain a b where a: "sql_alpha = FFin a" "1 / 16 \<le> a" and b: "fsub f64_1 sql_alpha = FFin b" "1 / 2 \<le> b"
    using sql_alpha_bounds sql_beta_bounds by blast
  have "0 < a" "0 < b" using a(2) b(2) by linarith+
  then show ?thesis unfolding b(1) unfolding a(1) by (intro fadd_nonneg fmul_pos_nonneg x avg)
qed

lemma sql_record_entry_ok:
  assumes "sql_metrics_ok m" and "is_finite x" and "f64_0 \<le> x"
  shows "sql_metrics_ok (sql_record_entry t t' x ok m)"
proof -
  let ?m = "sql_record_entry t t' x ok m"
  have counts: "total_requests ?m = sat_inc_i64 (total_requests m)"
    "success_count ?m = (if ok then sat_inc_i64 (success_count m) else success_count m)"
    "failure_count ?m = (if ok then failure_count m else sat_inc_i64 (failure_count m))"
    by (simp_all add: sql_record_entry_def Let_def)
  have rest: "0 \<le> m_consecutive_successes ?m \<and> m_consecutive_successes ?m \<le> i32_max"
    "0 \<le> m_consecutive_failures ?m \<and> m_consecutive_failures ?m \<le> i32_max"
    "f64_0 \<le> min_latency_ms ?m" "f64_0 \<le> max_latency_ms ?m" "f64_0 \<le> avg_latency_ms ?m"
    using assms sql_average_nonneg[of x "avg_latency_ms m"]
    by (auto simp: sql_record_entry_def Let_def sql_metrics_ok_def sat_inc_i32_def i32_max_def)
  have total: "0 < sat_inc_i64 (total_requests m)" "sat_inc_i64 (total_requests m) \<le> i64_max"
    using assms(1) by (auto simp: sql_metrics_ok_def sat_inc_i64_def i64_max_def)
  then have rates: "success_rate ?m = fdiv (f64_int (success_count ?m)) (f64_int (total_requests ?m))"
    "error_rate ?m = fdiv (f64_int (failure_count ?m)) (f64_int (total_requests ?m))"
    by (simp_all add: sql_record_entry_def Let_def)
  have le: "0 \<le> success_count ?m \<and> success_count ?m \<le> total_requests ?m \<and> 0 \<le> failure_count ?m \<and> failure_count ?m \<le> total_requests ?m"
    using assms(1) by (auto simp: counts sql_metrics_ok_def sat_inc_i64_def i64_max_def)
  then have "unit_f64 (success_rate ?m) \<and> unit_f64 (error_rate ?m)"
    unfolding rates using total by (intro conjI ratio_unit) (auto simp: counts)
  then show ?thesis using rest total le by (simp add: sql_metrics_ok_def counts(1))
qed

section \<open>How an unhealthy credential recovers\<close>

lemma cache_after [simp]:
  "hm_get (wb_cache (mark_dirty i c)) j = hm_get (wb_cache c) j"
  "hm_get (wb_cache (update_cached i e c)) j = (if j = i then Some e else hm_get (wb_cache c) j)"
  by (simp_all add: mark_dirty_def update_cached_def store_simps)

definition succeed_at :: "time \<Rightarrow> string \<Rightarrow> auth_health write_behind \<Rightarrow> auth_health write_behind" where
  "succeed_at t i c = sql_record_success t t t i c"

lemma succeed_at_get:
  assumes "i \<noteq> []" and "hm_get (wb_cache c) i = Some h"
  shows "\<exists>h'. hm_get (wb_cache (succeed_at t i c)) i = Some h'
    \<and> ah_consecutive_successes h' = sat_inc_i32 (ah_consecutive_successes h)
    \<and> (3 \<le> ah_consecutive_successes h' \<longrightarrow> ah_status h' = Healthy \<and> unavailable_until h' = None)"
  using assms by (simp add: succeed_at_def sql_record_success_def cached_or_def Let_def)

text \<open>Waiting does not bring an unhealthy credential back, other than its deadline suggests: it is unavailable
  at every time, until three successes in a row make it healthy and available; or a failure with status 429,
  which takes it from unhealthy to degraded, so that it is available as soon as the deadline has passed.\<close>

theorem sql_unhealthy_recovery:
  assumes "sql_get_health c i = Some h" and "ah_status h = Unhealthy" and "0 \<le> ah_consecutive_successes h"
  shows "\<not> sql_is_available t c i
    \<and> sql_get_status (succeed_at t3 i (succeed_at t2 i (succeed_at t1 i c))) i = Healthy
      \<and> sql_is_available t (succeed_at t3 i (succeed_at t2 i (succeed_at t1 i c))) i
    \<and> sql_get_status (sql_record_failure t1 t1 t2 t3 i 429 c) i = Degraded
      \<and> sql_is_available t (sql_record_failure t1 t1 t2 t3 i 429 c) i =
          (case unavailable_until h of Some deadline \<Rightarrow> deadline \<le> t | None \<Rightarrow> True)"
proof -
  have i: "i \<noteq> []" "hm_get (wb_cache c) i = Some h" using assms(1) by (auto simp: sql_get_health_def split: if_splits)
  then have down: "\<not> sql_is_available t c i" using assms(2) by (simp add: sql_is_available_def)
  obtain h1 where 1: "hm_get (wb_cache (succeed_at t1 i c)) i = Some h1"
      "ah_consecutive_successes h1 = sat_inc_i32 (ah_consecutive_successes h)"
    using succeed_at_get[OF i] by blast
  obtain h2 where 2: "hm_get (wb_cache (succeed_at t2 i (succeed_at t1 i c))) i = Some h2"
      "ah_consecutive_successes h2 = sat_inc_i32 (ah_consecutive_successes h1)"
    using succeed_at_get[OF i(1) 1(1)] by blast
  obtain h3 where 3: "hm_get (wb_cache (succeed_at t3 i (succeed_at t2 i (succeed_at t1 i c)))) i = Some h3"
      "ah_consecutive_successes h3 = sat_inc_i32 (ah_consecutive_successes h2)"
      "3 \<le> ah_consecutive_successes h3 \<longrightarrow> ah_status h3 = Healthy \<and> unavailable_until h3 = None"
    using succeed_at_get[OF i(1) 2(1)] by blast
  have "3 \<le> ah_consecutive_successes h3"
    using assms(3) by (simp add: 1 2 3 sat_inc_i32_def i32_max_def)
  then have up: "sql_get_status (succeed_at t3 i (succeed_at t2 i (succeed_at t1 i c))) i = Healthy
      \<and> sql_is_available t (succeed_at t3 i (succeed_at t2 i (succeed_at t1 i c))) i"
    using 3 i(1) by (simp add: sql_get_status_def sql_is_available_def)
  have "sql_get_status (sql_record_failure t1 t1 t2 t3 i 429 c) i = Degraded
      \<and> sql_is_available t (sql_record_failure t1 t1 t2 t3 i 429 c) i =
          (case unavailable_until h of Some deadline \<Rightarrow> deadline \<le> t | None \<Rightarrow> True)"
    using i by (simp add: sql_record_failure_def failed_health_def cached_or_def sql_get_status_def sql_is_available_def Let_def
        split: option.split)
  then show ?thesis using down up by blast
qed

definition down_collector :: "auth_health write_behind" where
  "down_collector = sql_mark_unavailable 0 0 0 ''a'' 60 sqlite_collector_new"

theorem sql_unhealthy_recovery_witness:
  "\<not> sql_is_available (seconds 3600) down_collector ''a''
   \<and> sql_is_available (seconds 3600) (sql_record_failure 0 0 0 0 ''a'' 429 down_collector) ''a''"
proof -
  let ?h = "(fresh_health 0 0)\<lparr>ah_status := Unhealthy, unavailable_until := Some (seconds 60)\<rparr>"
  have "sql_get_health down_collector ''a'' = Some ?h"
    by (simp add: down_collector_def sql_mark_unavailable_def sql_get_health_def cached_or_def sqlite_collector_new_def
        collector_with_interval_def fresh_health_def)
  from sql_unhealthy_recovery[OF this, where t = "seconds 3600" and ?t1.0 = 0 and ?t2.0 = 0 and ?t3.0 = 0] show ?thesis
    by (simp add: fresh_health_def seconds_def nanos_per_second_def)
qed

end
