(* ===== verification/WriteBehind.thy ===== *)
theory WriteBehind
  imports SqliteCollectors
begin

text \<open>
  Correctness of the write-behind collectors. Recording and flushing run concurrently: an update of the cache
  and the setting of its flag are two steps, a flush takes a snapshot of the flagged credentials and then
  writes and unflags one after the other, holding the read lock of the cache in between. The step relation has
  every interleaving of them, of any number of flushes at once; the interface below is what it needs of the store.
\<close>

section \<open>The steps\<close>

record ('e, 's) flush_system =
  fl_collector :: "'e write_behind"
  fl_store :: 's
  fl_pending :: "string list"
  fl_dropped :: "string list"
  fl_todo :: "nat \<Rightarrow> string list"
  fl_locked :: "nat \<Rightarrow> string option"

text \<open>A flush is a number: it has credentials left to write, and holds the read lock for the one it has just written.
  \<open>writers\<close> are the writes, with their faults and clocks; \<open>others\<close> what else happens to the store. A request may be
  dropped between its two steps, which the model notes until the credential is flagged again, and a flush at any of
  its awaits.\<close>

inductive wb_step ::
  "('e, 's) writer set \<Rightarrow> ('s \<Rightarrow> 's) set \<Rightarrow> ('e, 's) flush_system \<Rightarrow> ('e, 's) flush_system \<Rightarrow> bool"
  for writers others where
  update: "(\<And>f. fl_locked x f = None) \<Longrightarrow> wb_step writers others x
    (x\<lparr>fl_collector := update_cached i e (fl_collector x), fl_pending := i # fl_pending x\<rparr>)"
| mark: "i \<in> set (fl_pending x) \<Longrightarrow> wb_step writers others x
    (x\<lparr>fl_collector := mark_dirty i (fl_collector x), fl_pending := remove1 i (fl_pending x),
       fl_dropped := removeAll i (fl_dropped x)\<rparr>)"
| drop_request: "i \<in> set (fl_pending x) \<Longrightarrow> wb_step writers others x
    (x\<lparr>fl_pending := remove1 i (fl_pending x), fl_dropped := i # fl_dropped x\<rparr>)"
| drop_flush: "wb_step writers others x (x\<lparr>fl_todo := (fl_todo x)(f := []), fl_locked := (fl_locked x)(f := None)\<rparr>)"
| snapshot: "fl_locked x f = None \<Longrightarrow> fl_todo x f = [] \<Longrightarrow> wb_step writers others x
    (x\<lparr>fl_todo := (fl_todo x)(f := to_flush (fl_collector x))\<rparr>)"
| skip: "fl_locked x f = None \<Longrightarrow> fl_todo x f = i # ids \<Longrightarrow> hm_get (wb_cache (fl_collector x)) i = None \<Longrightarrow>
    wb_step writers others x (x\<lparr>fl_todo := (fl_todo x)(f := ids)\<rparr>)"
| written: "fl_locked x f = None \<Longrightarrow> fl_todo x f = i # ids \<Longrightarrow> hm_get (wb_cache (fl_collector x)) i = Some e \<Longrightarrow>
    put \<in> writers \<Longrightarrow> put i e (fl_store x) = (Inr u, s') \<Longrightarrow>
    wb_step writers others x (x\<lparr>fl_store := s', fl_todo := (fl_todo x)(f := ids), fl_locked := (fl_locked x)(f := Some i)\<rparr>)"
| failed: "fl_locked x f = None \<Longrightarrow> fl_todo x f = i # ids \<Longrightarrow> hm_get (wb_cache (fl_collector x)) i = Some e \<Longrightarrow>
    put \<in> writers \<Longrightarrow> put i e (fl_store x) = (Inl err, s') \<Longrightarrow>
    wb_step writers others x (x\<lparr>fl_store := s', fl_todo := (fl_todo x)(f := ids)\<rparr>)"
| clean: "fl_locked x f = Some i \<Longrightarrow> wb_step writers others x
    (x\<lparr>fl_collector := (fl_collector x)\<lparr>wb_dirty := hm_insert i False (wb_dirty (fl_collector x))\<rparr>,
       fl_locked := (fl_locked x)(f := None)\<rparr>)"
| elsewhere: "g \<in> others \<Longrightarrow> wb_step writers others x (x\<lparr>fl_store := g (fl_store x)\<rparr>)"

definition flush_start :: "'e write_behind \<Rightarrow> 's \<Rightarrow> ('e, 's) flush_system" where
  "flush_start c s = \<lparr>fl_collector = c, fl_store = s, fl_pending = [], fl_dropped = [], fl_todo = (\<lambda>_. []), fl_locked = (\<lambda>_. None)\<rparr>"

text \<open>A record that is neither flagged nor about to be, and not that of a dropped request, is in the store as it is in the cache.\<close>

definition persisted :: "('s \<Rightarrow> string \<Rightarrow> 'r option) \<Rightarrow> ('e \<Rightarrow> 'r) \<Rightarrow> ('e, 's) flush_system \<Rightarrow> bool" where
  "persisted stored enc x \<longleftrightarrow> (\<forall>i e. hm_get (wb_cache (fl_collector x)) i = Some e \<longrightarrow>
     hm_get (wb_dirty (fl_collector x)) i = Some True \<or> i \<in> set (fl_pending x) \<or> i \<in> set (fl_dropped x)
     \<or> stored (fl_store x) i = Some (enc e))"

definition flush_inv :: "('s \<Rightarrow> string \<Rightarrow> 'r option) \<Rightarrow> ('e \<Rightarrow> 'r) \<Rightarrow> ('e, 's) flush_system \<Rightarrow> bool" where
  "flush_inv stored enc x \<longleftrightarrow> persisted stored enc x
   \<and> (\<forall>f i. fl_locked x f = Some i \<longrightarrow>
        (\<forall>e. hm_get (wb_cache (fl_collector x)) i = Some e \<longrightarrow> stored (fl_store x) i = Some (enc e)))"

section \<open>The interface to the store\<close>

locale write_behind_store =
  fixes writers :: "('e, 's) writer set" and others :: "('s \<Rightarrow> 's) set"
    and stored :: "'s \<Rightarrow> string \<Rightarrow> 'r option" and enc :: "'e \<Rightarrow> 'r"
  assumes write_ok: "put \<in> writers \<Longrightarrow> put i e s = (Inr u, s') \<Longrightarrow> stored s' = (stored s)(i \<mapsto> enc e)"
    and write_failed: "put \<in> writers \<Longrightarrow> put i e s = (Inl err, s') \<Longrightarrow> stored s' = stored s"
    and other: "f \<in> others \<Longrightarrow> stored (f s) = stored s"
begin

lemma step_inv: "wb_step writers others x y \<Longrightarrow> flush_inv stored enc x \<Longrightarrow> flush_inv stored enc y"
proof (induction rule: wb_step.induct)
  case (mark i x)
  then show ?case
    by (auto simp: flush_inv_def persisted_def mark_dirty_def store_simps)
next
  case (drop_request i x)
  have "j \<in> set (remove1 i (fl_pending x)) \<or> j = i" if "j \<in> set (fl_pending x)" for j using that by auto
  with drop_request show ?case by (fastforce simp: flush_inv_def persisted_def)
next
  case (written x f i ids e put u s')
  then show ?case using write_ok[OF written(4,5)] by (auto simp: flush_inv_def persisted_def)
next
  case (failed x f i ids e put err s')
  then show ?case using write_failed[OF failed(4,5)] by (auto simp: flush_inv_def persisted_def)
qed (auto simp: flush_inv_def persisted_def update_cached_def store_simps other)

lemma reachable_inv: "(wb_step writers others)\<^sup>*\<^sup>* x y \<Longrightarrow> flush_inv stored enc x \<Longrightarrow> flush_inv stored enc y"
  by (induction rule: rtranclp_induct) (auto intro: step_inv)

text \<open>A flush with nothing else going on is one of the runs.\<close>

definition flushing :: "'e write_behind \<Rightarrow> 's \<Rightarrow> string list \<Rightarrow> ('e, 's) flush_system" where
  "flushing c s ids = (flush_start c s)\<lparr>fl_todo := (\<lambda>_. [])(0 := ids)\<rparr>"

lemma flushing_fields [simp]:
  "fl_collector (flushing c s ids) = c" "fl_store (flushing c s ids) = s" "fl_pending (flushing c s ids) = []" "fl_dropped (flushing c s ids) = []"
  "fl_todo (flushing c s ids) = (\<lambda>_. [])(0 := ids)" "fl_locked (flushing c s ids) = (\<lambda>_. None)"
  by (simp_all add: flushing_def flush_start_def)

lemma flush_one_steps:
  assumes "put \<in> writers"
  shows "(wb_step writers others)\<^sup>*\<^sup>* (flushing c s (i # ids)) (case flush_one put i (c, s) of (c', s') \<Rightarrow> flushing c' s' ids)"
proof (cases "hm_get (wb_cache c) i")
  case None
  then show ?thesis using wb_step.skip[of "flushing c s (i # ids)" 0 i ids writers others]
    by (auto simp: flush_one_def flushing_def flush_start_def)
next
  case (Some e)
  let ?x = "flushing c s (i # ids)"
  obtain r s' where w: "put i e s = (r, s')" by fastforce
  show ?thesis
  proof (cases r)
    case (Inl err)
    then show ?thesis using wb_step.failed[of ?x 0 i ids e put writers err s' others] assms Some w
      by (auto simp: flush_one_def flushing_def flush_start_def)
  next
    case (Inr u)
    let ?y = "?x\<lparr>fl_store := s', fl_todo := (\<lambda>_. [])(0 := ids), fl_locked := (\<lambda>_. None)(0 := Some i)\<rparr>"
    have "wb_step writers others ?x ?y"
      using wb_step.written[of ?x 0 i ids e put writers u s' others] assms Some w Inr by simp
    moreover have "wb_step writers others ?y (flushing (c\<lparr>wb_dirty := hm_insert i False (wb_dirty c)\<rparr>) s' ids)"
      using wb_step.clean[of ?y 0 i writers others] by (simp add: flushing_def flush_start_def)
    ultimately show ?thesis using Inr Some w by (auto simp: flush_one_def)
  qed
qed

lemma flush_steps:
  assumes "put \<in> writers"
  shows "(wb_step writers others)\<^sup>*\<^sup>* (flush_start c s) (flush_start (fst (snd (flush_all put (c, s)))) (snd (snd (flush_all put (c, s)))))"
proof -
  have none: "flushing c s [] = flush_start c s" for c :: "'e write_behind" and s :: 's
    by (simp add: flushing_def flush_start_def fun_eq_iff)
  have "(wb_step writers others)\<^sup>*\<^sup>* (flushing c s ids)
      (flush_start (fst (fold (flush_one put) ids (c, s))) (snd (fold (flush_one put) ids (c, s))))" for ids
  proof (induction ids arbitrary: c s)
    case Nil
    then show ?case by (simp add: none)
  next
    case (Cons i ids)
    obtain c' s' where cs: "flush_one put i (c, s) = (c', s')" by fastforce
    then show ?case using rtranclp_trans[OF flush_one_steps[OF assms, of c s i ids, unfolded cs prod.case] Cons.IH]
      by simp
  qed
  moreover have "wb_step writers others (flush_start c s) (flushing c s (to_flush c))"
    using wb_step.snapshot[of "flush_start c s" 0 writers others] by (simp add: flush_start_def flushing_def)
  ultimately show ?thesis
    by (auto simp: flush_all_def intro: converse_rtranclp_into_rtranclp)
qed

text \<open>If no write of a cached record fails, a flush leaves no flag, so every cached record is in the store.\<close>

lemma flush_one_effect:
  "wb_cache (fst (flush_one put i (c, s))) = wb_cache c"
  "j \<noteq> i \<Longrightarrow> hm_get (wb_dirty (fst (flush_one put i (c, s)))) j = hm_get (wb_dirty c) j"
  "hm_get (wb_cache c) i = Some e \<Longrightarrow> fst (put i e s) = Inr () \<Longrightarrow> hm_get (wb_dirty (fst (flush_one put i (c, s)))) i = Some False"
  "hm_get (wb_dirty (fst (flush_one put i (c, s)))) i \<in> {hm_get (wb_dirty c) i, Some False}"
  by (auto simp: flush_one_def store_simps split: option.split prod.split sum.split)

lemma flush_fold_clean:
  assumes "\<And>i e s. hm_get (wb_cache c) i = Some e \<Longrightarrow> fst (put i e s) = Inr ()"
  shows "wb_cache (fst (fold (flush_one put) ids (c, s))) = wb_cache c
    \<and> (\<forall>j. hm_get (wb_dirty (fst (fold (flush_one put) ids (c, s)))) j = Some True \<longrightarrow>
         hm_get (wb_dirty c) j = Some True \<and> (j \<notin> set ids \<or> hm_get (wb_cache c) j = None))"
proof (induction ids rule: rev_induct)
  case (snoc i ids)
  obtain c' s' where cs: "fold (flush_one put) ids (c, s) = (c', s')" by fastforce
  have cache: "wb_cache c' = wb_cache c" using snoc cs by simp
  show ?case
  proof (cases "hm_get (wb_cache c) i")
    case None
    then have "flush_one put i (c', s') = (c', s')" by (simp add: flush_one_def cache)
    then show ?thesis using snoc cs None by auto
  next
    case (Some e)
    then have clean: "hm_get (wb_dirty (fst (flush_one put i (c', s')))) i = Some False"
      using assms cache by (intro flush_one_effect(3)) auto
    have "hm_get (wb_dirty c) j = Some True \<and> (j \<notin> set (ids @ [i]) \<or> hm_get (wb_cache c) j = None)"
      if dirty: "hm_get (wb_dirty (fst (flush_one put i (c', s')))) j = Some True" for j
    proof -
      have "j \<noteq> i" using dirty clean by auto
      then have "hm_get (wb_dirty c') j = Some True" using dirty flush_one_effect(2) by metis
      then show ?thesis using snoc cs \<open>j \<noteq> i\<close> by simp
    qed
    then show ?thesis using cs cache flush_one_effect(1)[of put i c' s'] by simp
  qed
qed simp

lemma flush_complete:
  assumes "put \<in> writers" and "flush_inv stored enc (flush_start c s)"
    and "\<And>i e s. hm_get (wb_cache c) i = Some e \<Longrightarrow> fst (put i e s) = Inr ()"
    and "hm_get (wb_cache c) i = Some e"
  shows "stored (snd (snd (flush_all put (c, s)))) i = Some (enc e)"
proof -
  let ?c = "fst (snd (flush_all put (c, s)))"
  have "flush_inv stored enc (flush_start ?c (snd (snd (flush_all put (c, s)))))"
    using reachable_inv[OF flush_steps[OF assms(1)] assms(2)] .
  moreover have "wb_cache ?c = wb_cache c \<and> hm_get (wb_dirty ?c) i \<noteq> Some True"
  proof -
    have "hm_get (wb_dirty c) i = Some True \<Longrightarrow> i \<in> set (to_flush c)"
      by (force simp: to_flush_def dest: map_of_SomeD)
    then show ?thesis using flush_fold_clean[of c put "to_flush c" s] assms(3,4) by (auto simp: flush_all_def)
  qed
  ultimately show ?thesis using assms(4) by (auto simp: flush_inv_def persisted_def flush_start_def)
qed

end

section \<open>Both collectors satisfy it\<close>

definition metrics_writers :: "sql_codec \<Rightarrow> (auth_metrics, sqlite_store) writer set" where
  "metrics_writers cd = {metrics_writer cd now fault | now fault. True}"

definition health_writers :: "sql_codec \<Rightarrow> (auth_health, sqlite_store) writer set" where
  "health_writers cd = {health_writer cd now fault | now fault. True}"

definition metrics_row_of :: "sqlite_store \<Rightarrow> string \<Rightarrow> metrics_row option" where
  "metrics_row_of s = hm_get (db_metrics (st_db s))"

definition health_row_of :: "sqlite_store \<Rightarrow> string \<Rightarrow> health_row option" where
  "health_row_of s = hm_get (db_health (st_db s))"

definition elsewhere_metrics :: "(sqlite_store \<Rightarrow> sqlite_store) set" where
  "elsewhere_metrics = {f. \<forall>s. db_metrics (st_db (f s)) = db_metrics (st_db s)}"

definition elsewhere_health :: "(sqlite_store \<Rightarrow> sqlite_store) set" where
  "elsewhere_health = {f. \<forall>s. db_health (st_db (f s)) = db_health (st_db s)}"

interpretation metrics_wb: write_behind_store "metrics_writers cd" elsewhere_metrics metrics_row_of "metrics_to_row cd" for cd
  by unfold_locales
    (auto simp: metrics_writers_def metrics_writer_def write_metrics_def metrics_row_of_def elsewhere_metrics_def Let_def
      update_conv' split: option.splits)

interpretation health_wb: write_behind_store "health_writers cd" elsewhere_health health_row_of "health_to_row cd" for cd
  by unfold_locales
    (auto simp: health_writers_def health_writer_def write_health_def health_row_of_def elsewhere_health_def Let_def
      update_conv' split: option.splits)

text \<open>What else the collectors and the store do is elsewhere.\<close>

lemma history_elsewhere:
  "(\<lambda>s. snd (write_status_history cd now fault i code latency ok s)) \<in> elsewhere_metrics \<inter> elsewhere_health"
  "(\<lambda>s. snd (load_metrics cd now fault i s)) \<in> elsewhere_metrics \<inter> elsewhere_health"
  "(\<lambda>s. snd (load_health cd now fault i s)) \<in> elsewhere_metrics \<inter> elsewhere_health"
  by (simp_all add: elsewhere_metrics_def elsewhere_health_def write_status_history_def split: option.split)

text \<open>C19. No update is lost: in every interleaving of requests being recorded, any number of flushes and other uses of the
  store, whichever writes fail and wherever flushes are dropped, a record in the cache whose flag is not set (and is not
  about to be set by the request that changed it) is in the database as it is in the cache. The only exception are
  the requests that were themselves dropped after their update and before they set the flag, until the flag of their
  credential is set the next time.\<close>

theorem no_update_lost:
  assumes "(wb_step (metrics_writers cd) elsewhere_metrics)\<^sup>*\<^sup>* (flush_start sqlite_collector_new s) x"
    and "sql_get_metrics (fl_collector x) i = Some m"
    and "hm_get (wb_dirty (fl_collector x)) i \<noteq> Some True" and "i \<notin> set (fl_pending x)"
    and "i \<notin> set (fl_dropped x)"
  shows "hm_get (db_metrics (st_db (fl_store x))) i = Some (metrics_to_row cd m)"
proof -
  have "flush_inv metrics_row_of (metrics_to_row cd) (flush_start sqlite_collector_new s)"
    by (simp add: flush_inv_def persisted_def flush_start_def sqlite_collector_new_def collector_with_interval_def)
  from metrics_wb.reachable_inv[OF assms(1) this] show ?thesis
    using assms(2-5) by (auto simp: flush_inv_def persisted_def metrics_row_of_def sql_get_metrics_def)
qed

text \<open>The exception is real: without another request for it, the record of a dropped request is never written.\<close>

theorem dropped_update_unsaved:
  "\<exists>x. (wb_step (metrics_writers cd) elsewhere_metrics)\<^sup>*\<^sup>* (flush_start sqlite_collector_new s) x
    \<and> sql_get_metrics (fl_collector x) i = Some m \<and> fl_pending x = [] \<and> to_flush (fl_collector x) = []
    \<and> metrics_flush cd now fault (fl_collector x, fl_store x) = (Inr (), fl_collector x, s)"
proof -
  let ?x = "flush_start sqlite_collector_new s"
  let ?y = "?x\<lparr>fl_collector := update_cached i m sqlite_collector_new, fl_pending := [i]\<rparr>"
  let ?z = "?x\<lparr>fl_collector := update_cached i m sqlite_collector_new, fl_dropped := [i]\<rparr>"
  let ?step = "wb_step (metrics_writers cd) elsewhere_metrics"
  have "?step ?x ?y" using wb_step.update[of ?x "metrics_writers cd" elsewhere_metrics i m] by (simp add: flush_start_def)
  moreover have "?step ?y ?z"
    using wb_step.drop_request[of i ?y "metrics_writers cd" elsewhere_metrics] by (simp add: flush_start_def)
  ultimately have "?step\<^sup>*\<^sup>* ?x ?z" by (meson converse_rtranclp_into_rtranclp rtranclp.rtrancl_refl)
  then show ?thesis
    by (intro exI[of _ ?z]) (simp add: flush_start_def sql_get_metrics_def update_cached_def to_flush_def metrics_flush_def
        flush_all_def sqlite_collector_new_def collector_with_interval_def)
qed

definition sample_flush :: "(auth_metrics, sqlite_store) flush_system" where
  "sample_flush = flush_start sqlite_collector_new (from_pool empty_database ''db'' False)"

theorem no_update_lost_witness:
  "\<exists>x. (wb_step (metrics_writers unary_codec) elsewhere_metrics)\<^sup>*\<^sup>* sample_flush x
    \<and> hm_get (db_metrics (st_db (fl_store x))) ''a'' = Some (metrics_to_row unary_codec (sql_fresh_metrics 0))"
proof -
  let ?step = "wb_step (metrics_writers unary_codec) elsewhere_metrics"
  let ?put = "metrics_writer unary_codec (\<lambda>_. 0) (\<lambda>_. None)"
  let ?c = "mark_dirty ''a'' (update_cached ''a'' (sql_fresh_metrics 0) sqlite_collector_new) :: auth_metrics write_behind"
  let ?s = "from_pool empty_database ''db'' False"
  have "?step sample_flush (sample_flush\<lparr>fl_collector := update_cached ''a'' (sql_fresh_metrics 0) sqlite_collector_new,
      fl_pending := [''a'']\<rparr>)"
    using wb_step.update[of sample_flush "metrics_writers unary_codec" elsewhere_metrics "''a''" "sql_fresh_metrics 0"]
    by (simp add: sample_flush_def flush_start_def)
  moreover have "?step (sample_flush\<lparr>fl_collector := update_cached ''a'' (sql_fresh_metrics 0) sqlite_collector_new,
      fl_pending := [''a'']\<rparr>) (flush_start ?c ?s)"
    using wb_step.mark[of "''a''" "sample_flush\<lparr>fl_collector := update_cached ''a'' (sql_fresh_metrics 0) sqlite_collector_new,
      fl_pending := [''a'']\<rparr>" "metrics_writers unary_codec" elsewhere_metrics]
    by (simp add: sample_flush_def flush_start_def)
  moreover have "?step\<^sup>*\<^sup>* (flush_start ?c ?s) (flush_start (fst (snd (flush_all ?put (?c, ?s)))) (snd (snd (flush_all ?put (?c, ?s)))))"
    by (rule metrics_wb.flush_steps) (auto simp: metrics_writers_def)
  ultimately have run: "?step\<^sup>*\<^sup>* sample_flush (flush_start (fst (snd (flush_all ?put (?c, ?s)))) (snd (snd (flush_all ?put (?c, ?s)))))"
    by (meson converse_rtranclp_into_rtranclp)
  have checks: "metrics_checks (metrics_to_row unary_codec (sql_fresh_metrics 0))"
    by (rule sql_metrics_ok_checks[OF sql_fresh_metrics_ok])
  have "fst (snd (flush_all ?put (?c, ?s))) = ?c\<lparr>wb_dirty := [(''a'', False)]\<rparr>"
    using checks by (simp add: flush_all_def to_flush_def flush_one_def mark_dirty_def update_cached_def sqlite_collector_new_def
        collector_with_interval_def metrics_writer_def write_metrics_def run_statement_def Let_def)
  then show ?thesis
    using no_update_lost[OF run[unfolded sample_flush_def], of "''a''" "sql_fresh_metrics 0"] run
    by (intro exI[of _ "flush_start (fst (snd (flush_all ?put (?c, ?s)))) (snd (snd (flush_all ?put (?c, ?s))))"])
      (simp add: flush_start_def mark_dirty_def update_cached_def sql_get_metrics_def store_simps)
qed

section \<open>A restart recovers what was flushed\<close>

datatype request_result = Request time time time "string option" string f64 bool i32

fun record_one :: "sql_codec \<Rightarrow> request_result \<Rightarrow> auth_metrics write_behind \<times> sqlite_store \<Rightarrow> auth_metrics write_behind \<times> sqlite_store" where
  "record_one cd (Request t_req t_out t_hist fault i latency ok code) = record_request cd t_req t_out t_hist fault i latency ok code"

text \<open>Every record in the cache is flagged and satisfies the schema; the tables of metrics is not touched.\<close>

definition recorded :: "sqlite_store \<Rightarrow> auth_metrics write_behind \<times> sqlite_store \<Rightarrow> bool" where
  "recorded s0 cs \<longleftrightarrow> db_metrics (st_db (snd cs)) = db_metrics (st_db s0)
     \<and> (\<forall>i m. hm_get (wb_cache (fst cs)) i = Some m \<longrightarrow> sql_metrics_ok m \<and> hm_get (wb_dirty (fst cs)) i = Some True)"

lemma recorded_step: "recorded s0 cs \<Longrightarrow> recorded s0 (record_one cd r cs)"
proof (cases r)
  case (Request t_req t_out t_hist fault i latency ok code)
  assume rec: "recorded s0 cs"
  obtain c s where cs: "cs = (c, s)" by fastforce
  have db: "db_metrics (st_db (snd (write_status_history cd t_hist fault i code latency ok s))) = db_metrics (st_db s)"
    by (simp add: write_status_history_def split: option.split)
  have "sql_metrics_ok (cached_or (sql_fresh_metrics t_req) i c)"
    using rec by (auto simp: recorded_def cs cached_or_def sql_fresh_metrics_ok split: option.split)
  then have "is_finite latency \<Longrightarrow> \<not> latency < f64_0 \<Longrightarrow>
      sql_metrics_ok (sql_record_entry t_req t_out latency ok (cached_or (sql_fresh_metrics t_req) i c))"
    by (intro sql_record_entry_ok) (auto elim!: is_finiteE simp: less_f64_def)
  then show ?thesis using rec db
    by (auto simp: Request cs record_request_def recorded_def Let_def mark_dirty_def update_cached_def store_simps)
qed

lemma recorded_run: "recorded s0 (fold (record_one cd) requests (sqlite_collector_new, s0))"
proof (induction requests rule: rev_induct)
  case Nil
  show ?case by (simp add: recorded_def sqlite_collector_new_def collector_with_interval_def)
qed (simp add: recorded_step)

abbreviation rows_checked :: "sqlite_store \<Rightarrow> bool" where
  "rows_checked s \<equiv> list_all (\<lambda>(i, row). metrics_checks row) (db_metrics (st_db s))"

lemma flush_one_checked: "rows_checked s \<Longrightarrow> rows_checked (snd (flush_one (metrics_writer cd now fault) j (c, s)))"
proof -
  have insert: "list_all P (hm_insert k v m)" if "list_all P m" "P (k, v)" for P k m and v :: metrics_row
    using that by (induction m) auto
  assume "rows_checked s"
  then show ?thesis
    by (auto simp: flush_one_def metrics_writer_def write_metrics_def run_statement_def Let_def insert split: option.split)
qed

lemma flush_rows_checked: "rows_checked s \<Longrightarrow> rows_checked (snd (fold (flush_one (metrics_writer cd now fault)) ids (c, s)))"
  by (induction ids arbitrary: c s) (use flush_one_checked in \<open>auto, metis prod.collapse\<close>)

text \<open>C21. The numbers of the collector stay what their types say, saturation included: after any requests, with
  whatever latencies (also none, negative or infinite ones), every record in the cache has its counts within \<open>i64\<close>
  and its streaks within \<open>i32\<close>, both not negative, rates between 0 and 1 and latencies that are no NaN and not
  negative; and what a flush puts into the table, whatever fails, satisfies the checks of the schema.\<close>

theorem records_well_typed:
  fixes cd requests path enable_cache
  defines "before \<equiv> fold (record_one cd) requests (sqlite_collector_new, from_pool empty_database path enable_cache)"
  shows "(case sql_get_metrics (fst before) i of None \<Rightarrow> True | Some m \<Rightarrow> sql_metrics_ok m)
    \<and> list_all (\<lambda>(i, row). metrics_checks row) (db_metrics (st_db (snd (snd (metrics_flush cd now fault before)))))"
proof -
  let ?s0 = "from_pool empty_database path enable_cache"
  have rec: "recorded ?s0 before" unfolding before_def by (rule recorded_run)
  obtain c s where cs: "before = (c, s)" by fastforce
  have "db_metrics (st_db s) = []" using rec by (simp add: recorded_def cs from_pool_def empty_database_def)
  then have "list_all (\<lambda>(i, row). metrics_checks row) (db_metrics (st_db s))" by simp
  from flush_rows_checked[OF this] rec show ?thesis
    by (auto simp: metrics_flush_def flush_all_def recorded_def sql_get_metrics_def cs \<open>db_metrics (st_db s) = []\<close> split: option.split)
qed

lemma flush_rows_cached:
  assumes "\<And>i e s. db_metrics (st_db (snd (put i e s))) = db_metrics (st_db s)
      \<or> (\<exists>row. db_metrics (st_db (snd (put i e s))) = hm_insert i row (db_metrics (st_db s)))"
    and "hm_ok (db_metrics (st_db s))"
  shows "hm_ok (db_metrics (st_db (snd (fold (flush_one put) ids (c, s)))))
    \<and> (metrics_row_of (snd (fold (flush_one put) ids (c, s))) i \<noteq> None \<longrightarrow>
        metrics_row_of s i \<noteq> None \<or> hm_get (wb_cache c) i \<noteq> None)
    \<and> wb_cache (fst (fold (flush_one put) ids (c, s))) = wb_cache c"
proof (induction ids rule: rev_induct)
  case (snoc j ids)
  obtain c' s' where cs: "fold (flush_one put) ids (c, s) = (c', s')" by fastforce
  have "st_db (snd (flush_one put j (c', s'))) = st_db s'
      \<or> (\<exists>e. hm_get (wb_cache c') j = Some e \<and> snd (flush_one put j (c', s')) = snd (put j e s'))"
    by (auto simp: flush_one_def split: option.split prod.split sum.split)
  then show ?case
  proof
    assume "st_db (snd (flush_one put j (c', s'))) = st_db s'"
    then show ?thesis using snoc cs metrics_wb.flush_one_effect(1)[of put j c' s'] by (simp add: metrics_row_of_def)
  next
    assume "\<exists>e. hm_get (wb_cache c') j = Some e \<and> snd (flush_one put j (c', s')) = snd (put j e s')"
    then obtain e where e: "hm_get (wb_cache c') j = Some e" "snd (flush_one put j (c', s')) = snd (put j e s')" by blast
    then show ?thesis using snoc cs metrics_wb.flush_one_effect(1)[of put j c' s'] assms(1)[of j e s']
      by (auto simp: metrics_row_of_def store_simps split: if_splits)
  qed
qed (use assms in simp)

lemma load_into_get:
  "hm_ok all \<Longrightarrow> hm_get (wb_cache (snd (load_into (Inr all) c))) i =
     (case hm_get all i of Some e \<Rightarrow> Some e | None \<Rightarrow> hm_get (wb_cache c) i)"
proof (induction all arbitrary: c)
  case (Cons a all)
  obtain k b where a: "a = (k, b)" by fastforce
  have "hm_ok all" "hm_get all k = None" using Cons.prems by (simp_all add: hm_ok_def a map_of_eq_None_iff)
  then show ?case using Cons.IH[of "update_cached k b c"]
    by (simp add: a load_into_def update_cached_def store_simps split: option.split)
qed (simp add: load_into_def)

lemma load_into_ok [simp]: "fst (load_into (Inr all) c) = Inr ()"
  by (simp add: load_into_def)

text \<open>C20. What was recorded survives a restart: after any requests recorded over an empty database, with whatever
  latencies, a flush whose writes meet no fault stores every record (no record ever violates the schema), and a
  new collector that loads the database has exactly the records of the old one.\<close>

theorem restart_recovers_metrics:
  fixes requests path enable_cache now fault
  assumes "codec_ok cd" and "\<forall>i. fault i = None"
  defines "before \<equiv> fold (record_one cd) requests (sqlite_collector_new, from_pool empty_database path enable_cache)"
  defines "after \<equiv> snd (snd (metrics_flush cd now fault before))"
  shows "fst (metrics_load_from_db cd t None after sqlite_collector_new) = Inr ()
    \<and> sql_get_metrics (snd (metrics_load_from_db cd t None after sqlite_collector_new)) i = sql_get_metrics (fst before) i"
proof -
  let ?s0 = "from_pool empty_database path enable_cache"
  let ?put = "metrics_writer cd now fault"
  have rec: "recorded ?s0 before" unfolding before_def by (rule recorded_run)
  obtain c s where cs: "before = (c, s)" by fastforce
  have empty: "db_metrics (st_db s) = []" using rec by (simp add: recorded_def cs from_pool_def empty_database_def)
  have inv: "flush_inv metrics_row_of (metrics_to_row cd) (flush_start c s)"
    using rec by (auto simp: flush_inv_def persisted_def flush_start_def recorded_def cs)
  have after: "after = snd (snd (flush_all ?put (c, s)))"
    by (simp add: after_def metrics_flush_def cs flush_all_def)
  have ok: "fst (?put i e s) = Inr ()" if "hm_get (wb_cache c) i = Some e" for i e s
  proof -
    have "sql_metrics_ok e" using rec that by (auto simp: recorded_def cs)
    then show ?thesis using assms(2) sql_metrics_ok_checks
      by (simp add: metrics_writer_def write_metrics_def run_statement_def Let_def)
  qed
  have put_rows: "db_metrics (st_db (snd (?put i e s))) = db_metrics (st_db s)
      \<or> (\<exists>row. db_metrics (st_db (snd (?put i e s))) = hm_insert i row (db_metrics (st_db s)))" for i e s
    by (cases "run_statement ''write_metrics'' (fault i) (metrics_checks (metrics_to_row cd e))")
      (auto simp: metrics_writer_def write_metrics_def Let_def)
  have rows: "hm_ok (db_metrics (st_db after)) \<and> (metrics_row_of after i \<noteq> None \<longrightarrow> hm_get (wb_cache c) i \<noteq> None)" for i
    using flush_rows_cached[where put = ?put and s = s and ids = "to_flush c" and c = c and i = i, OF put_rows] empty
    by (simp add: after flush_all_def metrics_row_of_def hm_ok_def)
  have stored: "hm_get (wb_cache c) i = Some m \<Longrightarrow> hm_get (db_metrics (st_db after)) i = Some (metrics_to_row cd m)" for m
    using metrics_wb.flush_complete[where put = ?put and i = i and e = m, OF _ inv ok] by (auto simp: after metrics_row_of_def metrics_writers_def)
  have "hm_get (db_metrics (st_db after)) i = map_option (metrics_to_row cd) (hm_get (wb_cache c) i)"
    using stored rows[of i] by (cases "hm_get (wb_cache c) i") (auto simp: metrics_row_of_def)
  moreover have "hm_ok (map (\<lambda>(i, row). (i, metrics_of_row cd t row)) (db_metrics (st_db after)))"
    using rows by (auto simp: hm_ok_def comp_def case_prod_beta)
  ultimately show ?thesis
    by (auto simp: metrics_load_from_db_def load_all_metrics_def run_statement_def load_into_get sql_get_metrics_def cs
        map_of_map sqlite_collector_new_def collector_with_interval_def metrics_of_to_row[OF assms(1)] split: option.split)
qed

theorem restart_recovers_metrics_witness:
  "sql_get_metrics (snd (metrics_load_from_db unary_codec 9 None (snd (snd (metrics_flush unary_codec (\<lambda>_. 5) (\<lambda>_. None)
       (record_one unary_codec (Request 1 2 3 (Some ''busy'') ''a'' f64_1 True 200) (sqlite_collector_new, from_pool empty_database ''db'' True)))))
     sqlite_collector_new)) ''a'' = Some (sql_record_entry 1 2 f64_1 True (sql_fresh_metrics 1))"
  using restart_recovers_metrics[OF codec_ok_unary, of "\<lambda>_. None" 9 "\<lambda>_. 5" "[Request 1 2 3 (Some ''busy'') ''a'' f64_1 True 200]" "''db''" True "''a''"]
  by (simp add: record_request_def sqlite_collector_new_def collector_with_interval_def cached_or_def is_finite_def less_f64_def
      Let_def mark_dirty_def update_cached_def sql_get_metrics_def)

end
