(* ===== verification/SqliteSelector.thy ===== *)
theory SqliteSelector
  imports SqliteStore Selector
begin

text \<open>
  The selector over the database (src/routing/sqlite/selector.rs). Its query joins the given credentials with
  the tables of metrics and health; the clock of \<open>datetime('now')\<close>, the random draws and the faults of the
  statements are arguments. The rows come in the order of the given credentials.
\<close>

record selector_stats =
  sel_select_count :: i64
  sel_cache_hits :: i64
  sel_db_queries :: i64

record sqlite_selector =
  sl_config :: smart_routing_config
  sl_stats :: selector_stats

definition sqlite_selector_new :: "smart_routing_config \<Rightarrow> sqlite_selector" where
  "sqlite_selector_new config = \<lparr>sl_config = config, sl_stats = \<lparr>sel_select_count = 0, sel_cache_hits = 0, sel_db_queries = 0\<rparr>\<rparr>"

record auth_weight_row =
  aw_auth_id :: string
  aw_success_rate :: f64
  aw_latency :: f64
  aw_health_factor :: f64
  aw_available :: i32

section \<open>The query\<close>

definition hundredth :: f64 where "hundredth = f64_of (1 / 100)"

text \<open>A missing row of the left join is NULL: it equals no status and is no time.\<close>

definition health_factor_of :: "health_row option \<Rightarrow> f64" where
  "health_factor_of h = (case h of
       Some row \<Rightarrow> (if hr_status row = ''Healthy'' then f64_1 else if hr_status row = ''Degraded'' then half else hundredth)
     | None \<Rightarrow> hundredth)"

definition available_of :: "sql_codec \<Rightarrow> time \<Rightarrow> health_row option \<Rightarrow> i32" where
  "available_of cd now h =
     (case Option.bind (Option.bind h hr_unavailable_until) (sc_sql_datetime cd) of
        Some until_text \<Rightarrow> (if sc_sql_now cd now < until_text then 0 else 1)
      | None \<Rightarrow> 1)"

definition weight_query :: "sql_codec \<Rightarrow> time \<Rightarrow> database \<Rightarrow> string list \<Rightarrow> auth_weight_row list" where
  "weight_query cd now db ids = map (\<lambda>i.
     (let m = hm_get (db_metrics db) i; h = hm_get (db_health db) i in
      \<lparr>aw_auth_id = i, aw_success_rate = (case m of Some row \<Rightarrow> mr_success_rate row | None \<Rightarrow> f64_1),
       aw_latency = (case m of Some row \<Rightarrow> mr_avg_latency_ms row | None \<Rightarrow> f64_0),
       aw_health_factor = health_factor_of h, aw_available = available_of cd now h\<rparr>)) ids"

section \<open>Weights\<close>

definition sql_calculate_weight :: "weight_config \<Rightarrow> f64 \<Rightarrow> f64 \<Rightarrow> f64 \<Rightarrow> auth_info \<Rightarrow> f64" where
  "sql_calculate_weight cfg rate latency health_factor auth =
     (let latency_score = fsub f64_1 (fmin (fdiv latency (f64_nat 500)) f64_1);
          load_score = (if ai_quota_exceeded auth then f64_0 else f64_1);
          priority_score = (case ai_priority auth of None \<Rightarrow> half
            | Some p \<Rightarrow> fclamp (fdiv (fadd (f64_int p) (f64_nat 100)) (f64_nat 200)) f64_0 f64_1);
          weight = fma (priority_weight cfg) priority_score
            (fma (load_weight cfg) load_score
              (fma (health_weight cfg) health_factor
                (fma (success_rate_weight cfg) rate (fmul (latency_weight cfg) latency_score))));
          weight = (if health_factor < f64_of (1 / 10) then fmul weight (unhealthy_penalty cfg)
            else if health_factor < half then fmul weight (degraded_penalty cfg) else weight);
          weight = (if ai_quota_exceeded auth then fmul weight (quota_exceeded_penalty cfg) else weight);
          weight = (if ai_unavailable auth then fmul weight (unavailable_penalty cfg) else weight)
      in fmax weight f64_0)"

section \<open>Picking\<close>

text \<open>Of credentials with one identifier the last one is in the map.\<close>

definition usable_auths :: "auth_info list \<Rightarrow> auth_info list" where
  "usable_auths auths = filter (\<lambda>a. \<not> ai_unavailable a) auths"

definition auth_map :: "auth_info list \<Rightarrow> string \<Rightarrow> auth_info option" where
  "auth_map auths = map_of (rev (map (\<lambda>a. (ai_id a, a)) (usable_auths auths)))"

fun weigh_rows :: "weight_config \<Rightarrow> (string \<Rightarrow> auth_info option) \<Rightarrow> auth_weight_row list \<Rightarrow> weighted_auth list option" where
  "weigh_rows cfg auths [] = Some []"
| "weigh_rows cfg auths (row # rows) =
     (if aw_available row = 0 then weigh_rows cfg auths rows
      else case auths (aw_auth_id row) of
        None \<Rightarrow> None
      | Some auth \<Rightarrow>
          (let weight = sql_calculate_weight cfg (aw_success_rate row) (aw_latency row) (aw_health_factor row) auth
           in map_option (\<lambda>rest. if f64_0 < weight then \<lparr>wa_id = aw_auth_id row, wa_weight = weight\<rparr> # rest else rest)
                (weigh_rows cfg auths rows)))"

definition query_available_auths ::
  "sql_codec \<Rightarrow> time \<Rightarrow> string option \<Rightarrow> sqlite_store \<Rightarrow> smart_routing_config \<Rightarrow> auth_info list \<Rightarrow> weighted_auth list option" where
  "query_available_auths cd now fault s config auths =
     (let ids = map ai_id (usable_auths auths) in
      if ids = [] then None
      else case run_statement ''query_available_auths'' fault True of
        Some e \<Rightarrow> None
      | None \<Rightarrow> weigh_rows (src_weight config) (auth_map auths) (weight_query cd now (st_db s) ids))"

definition sql_select_by_weight :: "(nat \<Rightarrow> nat) \<Rightarrow> f64 \<Rightarrow> weighted_auth list \<Rightarrow> string option" where
  "sql_select_by_weight random_range random available =
     (if length available = 1 then Some (wa_id (hd available))
      else
        (let total_weight = sum_weights available in
         if total_weight \<le> f64_0 \<or> \<not> is_finite total_weight then
           (let idx = random_range (length available)
            in if idx < length available then Some (wa_id (available ! idx)) else None)
         else
           (let r = fmul random total_weight in
            case choose_by_weight r f64_0 available of Some i \<Rightarrow> Some i | None \<Rightarrow> Some (wa_id (last available)))))"

definition count_select :: "sqlite_selector \<Rightarrow> sqlite_selector" where
  "count_select sel = sel\<lparr>sl_stats := (sl_stats sel)\<lparr>sel_select_count := wrap_inc_i64 (sel_select_count (sl_stats sel))\<rparr>\<rparr>"

definition count_query :: "sqlite_selector \<Rightarrow> sqlite_selector" where
  "count_query sel = sel\<lparr>sl_stats := (sl_stats sel)\<lparr>sel_db_queries := wrap_inc_i64 (sel_db_queries (sl_stats sel))\<rparr>\<rparr>"

definition sql_pick ::
  "sql_codec \<Rightarrow> time \<Rightarrow> string option \<Rightarrow> (nat \<Rightarrow> nat) \<Rightarrow> f64 \<Rightarrow> sqlite_store \<Rightarrow> auth_info list \<Rightarrow> sqlite_selector
    \<Rightarrow> string option \<times> sqlite_selector" where
  "sql_pick cd now fault random_range random s auths sel =
     (let sel = count_select sel in
      if \<not> src_enabled (sl_config sel) then (case auths of a # _ \<Rightarrow> Some (ai_id a) | [] \<Rightarrow> None, sel)
      else if auths = [] then (None, sel)
      else
        (let sel = count_query sel in
         case query_available_auths cd now fault s (sl_config sel) auths of
           None \<Rightarrow> (None, sel)
         | Some available \<Rightarrow>
             (if available = [] then None else sql_select_by_weight random_range random available, sel)))"

section \<open>Precomputed weights\<close>

definition bare_auth :: "string \<Rightarrow> auth_info" where
  "bare_auth i = \<lparr>ai_id = i, ai_priority = None, ai_quota_exceeded = False, ai_unavailable = False, ai_model_states = []\<rparr>"

definition precomputed_weight :: "weight_config \<Rightarrow> auth_weight_row \<Rightarrow> f64" where
  "precomputed_weight cfg row =
     (if aw_available row = 0 then f64_0
      else
        (let weight = sql_calculate_weight cfg (aw_success_rate row) (aw_latency row) (aw_health_factor row) (bare_auth (aw_auth_id row))
         in if is_finite weight \<and> f64_0 \<le> weight then weight else f64_0))"

text \<open>One transaction: if its beginning, an insert or the commit fails nothing is changed. Every insert reads the
  clock of the database, as the one query before them does.\<close>

fun insert_weights :: "(string \<Rightarrow> string option) \<Rightarrow> (string \<Rightarrow> string) \<Rightarrow> string \<Rightarrow> (string \<times> f64) list \<Rightarrow> weight_row hmap \<Rightarrow> sqlite_error + weight_row hmap" where
  "insert_weights fault now_text strategy [] rows = Inr rows"
| "insert_weights fault now_text strategy ((i, weight) # ws) rows =
     (let sanitized = (if is_finite weight then weight else f64_0) in
      case run_statement ''execute_weight_insert'' (fault i) True of
        Some e \<Rightarrow> Inl e
      | None \<Rightarrow> insert_weights fault now_text strategy ws
          (hm_insert i \<lparr>wr_weight = sanitized, wr_calculated_at = now_text i, wr_strategy = strategy\<rparr> rows))"

record weight_faults =
  wf_query :: "string option"
  wf_begin :: "string option"
  wf_insert :: "string \<Rightarrow> string option"
  wf_commit :: "string option"

definition update_weights ::
  "sql_codec \<Rightarrow> (string \<Rightarrow> time) \<Rightarrow> weight_faults \<Rightarrow> string \<Rightarrow> f64 hmap \<Rightarrow> sqlite_store \<Rightarrow> (sqlite_error + unit) \<times> sqlite_store" where
  "update_weights cd clock faults strategy weights s = (case run_statement ''begin_transaction'' (wf_begin faults) True of
       Some e \<Rightarrow> (Inl e, s)
     | None \<Rightarrow> (case insert_weights (wf_insert faults) (\<lambda>i. sc_sql_now cd (clock i)) strategy weights (db_weights (st_db s)) of
         Inl e \<Rightarrow> (Inl e, s)
       | Inr rows \<Rightarrow> (case run_statement ''commit_weight_transaction'' (wf_commit faults) True of
           Some e \<Rightarrow> (Inl e, s)
         | None \<Rightarrow> (Inr (), s\<lparr>st_db := (st_db s)\<lparr>db_weights := rows\<rparr>\<rparr>))))"

definition precompute_weights ::
  "sql_codec \<Rightarrow> time \<Rightarrow> (string \<Rightarrow> time) \<Rightarrow> weight_faults \<Rightarrow> string list \<Rightarrow> sqlite_selector \<Rightarrow> sqlite_store \<Rightarrow> (sqlite_error + unit) \<times> sqlite_store" where
  "precompute_weights cd now clock faults ids sel s =
     (if ids = [] then (Inr (), s)
      else case run_statement ''precompute_weights_query'' (wf_query faults) True of
        Some e \<Rightarrow> (Inl e, s)
      | None \<Rightarrow>
          (let cfg = src_weight (sl_config sel);
               weights = fold (\<lambda>row. hm_insert (aw_auth_id row) (precomputed_weight cfg row)) (weight_query cd now (st_db s) ids) []
           in update_weights cd clock faults (src_strategy (sl_config sel)) weights s))"

definition get_top_auths :: "string option \<Rightarrow> nat \<Rightarrow> sqlite_selector \<Rightarrow> sqlite_store \<Rightarrow> sqlite_error + string list" where
  "get_top_auths fault limit sel s =
     (if limit = 0 then Inr []
      else case run_statement ''query_top_auths'' fault True of
        Some e \<Rightarrow> Inl e
      | None \<Rightarrow> Inr (map fst (take limit (sort_by (\<lambda>a b. wr_weight (snd b) < wr_weight (snd a))
          (filter (\<lambda>(i, row). wr_strategy row = src_strategy (sl_config sel)) (db_weights (st_db s)))))))"

definition selector_get_stats :: "sqlite_selector \<Rightarrow> selector_stats" where "selector_get_stats sel = sl_stats sel"

section \<open>Picking is exact\<close>

lemma sql_weight_nonneg: "f64_0 \<le> sql_calculate_weight cfg rate latency health_factor auth"
  by (simp add: sql_calculate_weight_def Let_def fmax_0_nonneg)

text \<open>The repeated code of the draw is that of the selector in memory.\<close>

lemma sql_select_by_weight_eq: "ws \<noteq> [] \<Longrightarrow> sql_select_by_weight random_range u ws = select_by_weight random_range u ws"
proof (cases "length ws = 1")
  case True
  then obtain a where "ws = [a]" by (auto simp: length_Suc_conv)
  then show ?thesis by (simp add: sql_select_by_weight_def select_by_weight_def)
next
  case False
  assume "ws \<noteq> []"
  with False have "2 \<le> length ws" by (cases ws; cases "tl ws") auto
  then show ?thesis using False by (simp add: select_by_weight_many sql_select_by_weight_def Let_def)
qed

definition row_weight :: "weight_config \<Rightarrow> auth_weight_row \<Rightarrow> auth_info \<Rightarrow> f64" where
  "row_weight cfg row auth = sql_calculate_weight cfg (aw_success_rate row) (aw_latency row) (aw_health_factor row) auth"

lemma weigh_rows_spec:
  assumes "\<forall>row\<in>set rows. auths (aw_auth_id row) \<noteq> None"
  shows "\<exists>ws. weigh_rows cfg auths rows = Some ws \<and> wa_id ` set ws =
    {aw_auth_id row | row a. row \<in> set rows \<and> aw_available row \<noteq> 0 \<and> auths (aw_auth_id row) = Some a \<and> f64_0 < row_weight cfg row a}"
  using assms
proof (induction rows)
  case (Cons row rows)
  then obtain ws where ws: "weigh_rows cfg auths rows = Some ws" "wa_id ` set ws =
      {aw_auth_id row | row a. row \<in> set rows \<and> aw_available row \<noteq> 0 \<and> auths (aw_auth_id row) = Some a \<and> f64_0 < row_weight cfg row a}"
    by auto
  obtain a where "auths (aw_auth_id row) = Some a" using Cons.prems by auto
  then show ?case using ws by (auto simp: row_weight_def Let_def)
qed simp

definition the_row :: "sql_codec \<Rightarrow> time \<Rightarrow> database \<Rightarrow> string \<Rightarrow> auth_weight_row" where
  "the_row cd now db i = hd (weight_query cd now db [i])"

lemma weight_query_eq: "weight_query cd now db ids = map (the_row cd now db) ids"
  by (simp add: weight_query_def the_row_def)

lemma the_row_id [simp]: "aw_auth_id (the_row cd now db i) = i"
  by (simp add: the_row_def weight_query_def Let_def)

text \<open>Eligible: not marked unavailable by the caller, not made unavailable in the database, of positive weight.\<close>

definition sql_eligible :: "sql_codec \<Rightarrow> time \<Rightarrow> database \<Rightarrow> weight_config \<Rightarrow> auth_info list \<Rightarrow> string \<Rightarrow> bool" where
  "sql_eligible cd now db cfg auths i \<longleftrightarrow> (\<exists>a. auth_map auths i = Some a
     \<and> available_of cd now (hm_get (db_health db) i) \<noteq> 0 \<and> f64_0 < row_weight cfg (the_row cd now db i) a)"

lemma auth_map_dom: "auth_map auths i \<noteq> None \<longleftrightarrow> i \<in> ai_id ` set (usable_auths auths)"
  by (force simp: auth_map_def map_of_eq_None_iff image_image)

lemma query_spec:
  assumes "usable_auths auths \<noteq> []"
  shows "\<exists>ws. query_available_auths cd now None s config auths = Some ws
    \<and> wa_id ` set ws = {i. sql_eligible cd now (st_db s) (src_weight config) auths i}"
proof -
  let ?rows = "weight_query cd now (st_db s) (map ai_id (usable_auths auths))"
  have dom: "\<forall>row\<in>set ?rows. auth_map auths (aw_auth_id row) \<noteq> None"
    by (auto simp: weight_query_eq auth_map_dom simp del: not_None_eq)
  have available: "aw_available (the_row cd now (st_db s) i) = available_of cd now (hm_get (db_health (st_db s)) i)" for i
    by (simp add: the_row_def weight_query_def Let_def)
  obtain ws where "weigh_rows (src_weight config) (auth_map auths) ?rows = Some ws" "wa_id ` set ws =
      {aw_auth_id row | row a. row \<in> set ?rows \<and> aw_available row \<noteq> 0 \<and> auth_map auths (aw_auth_id row) = Some a
        \<and> f64_0 < row_weight (src_weight config) row a}"
    using weigh_rows_spec[OF dom] by blast
  moreover have "{aw_auth_id row | row a. row \<in> set ?rows \<and> aw_available row \<noteq> 0 \<and> auth_map auths (aw_auth_id row) = Some a
        \<and> f64_0 < row_weight (src_weight config) row a} = {i. sql_eligible cd now (st_db s) (src_weight config) auths i}"
    (is "?left = ?right")
  proof (intro equalityI subsetI)
    fix i assume "i \<in> ?right"
    then obtain a where a: "auth_map auths i = Some a" "available_of cd now (hm_get (db_health (st_db s)) i) \<noteq> 0"
        "f64_0 < row_weight (src_weight config) (the_row cd now (st_db s) i) a"
      by (auto simp: sql_eligible_def)
    then have "i \<in> ai_id ` set (usable_auths auths)" using auth_map_dom[of auths i] by simp
    then have "the_row cd now (st_db s) i \<in> set ?rows" by (auto simp: weight_query_eq)
    then show "i \<in> ?left" using a available[of i] the_row_id[of cd now "st_db s" i] by (metis (mono_tags, lifting) mem_Collect_eq)
  qed (auto simp: weight_query_eq sql_eligible_def available)
  ultimately show ?thesis using assms by (simp add: query_available_auths_def run_statement_def)
qed

text \<open>C22. With routing enabled, picking over the database gives a credential exactly if the query succeeds and
  some credential is eligible (not unavailable for the caller or in the database, of positive weight), and what it
  gives is eligible; with routing disabled it gives the first credential, even an unavailable one.\<close>

theorem sql_pick_exact:
  assumes "\<forall>n>0. random_range n < n"
  shows "if src_enabled (sl_config sel)
    then (case fst (sql_pick cd now fault random_range u s auths sel) of
         Some i \<Rightarrow> fault = None \<and> sql_eligible cd now (st_db s) (src_weight (sl_config sel)) auths i
       | None \<Rightarrow> fault \<noteq> None \<or> \<not> (\<exists>i. sql_eligible cd now (st_db s) (src_weight (sl_config sel)) auths i))
    else fst (sql_pick cd now fault random_range u s auths sel) = (case auths of a # _ \<Rightarrow> Some (ai_id a) | [] \<Rightarrow> None)"
proof (cases "src_enabled (sl_config sel)")
  case False
  then show ?thesis by (simp add: sql_pick_def count_select_def Let_def)
next
  case enabled: True
  let ?eligible = "sql_eligible cd now (st_db s) (src_weight (sl_config sel)) auths"
  show ?thesis
  proof (cases "usable_auths auths = [] \<or> fault \<noteq> None")
    case True
    have "usable_auths auths = [] \<Longrightarrow> \<not> ?eligible i" for i by (simp add: sql_eligible_def auth_map_def)
    then show ?thesis using True enabled
      by (auto simp: sql_pick_def count_select_def count_query_def query_available_auths_def run_statement_def Let_def)
  next
    case False
    then have fault: "fault = None" by simp
    obtain ws where ws: "query_available_auths cd now None s (sl_config sel) auths = Some ws" "wa_id ` set ws = {i. ?eligible i}"
      using query_spec False by blast
    have auths: "auths \<noteq> []" using False by (auto simp: usable_auths_def)
    show ?thesis
    proof (cases "ws = []")
      case True
      then show ?thesis using ws enabled auths by (auto simp: sql_pick_def count_select_def count_query_def fault Let_def)
    next
      case nonempty: False
      then obtain a where "a \<in> set ws" "select_by_weight random_range u ws = Some (wa_id a)"
        using select_by_weight_returns assms by metis
      moreover have "?eligible (wa_id a)" using calculation(1) ws(2) by blast
      ultimately show ?thesis using nonempty ws(1) enabled auths
        by (simp add: sql_pick_def count_select_def count_query_def fault Let_def sql_select_by_weight_eq)
    qed
  qed
qed

definition away_auth :: auth_info where
  "away_auth = (bare_auth ''a'')\<lparr>ai_unavailable := True\<rparr>"

definition sample_selector :: "bool \<Rightarrow> sqlite_selector" where
  "sample_selector enabled = sqlite_selector_new (default_smart_routing_config\<lparr>src_enabled := enabled\<rparr>)"

theorem sql_pick_exact_witness:
  "\<not> (\<exists>i. sql_eligible unary_codec 0 empty_database (src_weight default_smart_routing_config) [away_auth] i)
   \<and> fst (sql_pick unary_codec 0 None (\<lambda>_. 0) f64_0 (from_pool empty_database ''db'' False) [away_auth] (sample_selector False)) = Some ''a''"
proof -
  have "fst (sql_pick unary_codec 0 None (\<lambda>_. 0) f64_0 (from_pool empty_database ''db'' False) [away_auth] (sample_selector True)) = None"
    by (simp add: sql_pick_def query_available_auths_def usable_auths_def away_auth_def sample_selector_def sqlite_selector_new_def
        count_select_def count_query_def Let_def)
  then show ?thesis
    using sql_pick_exact[where random_range = "\<lambda>_. 0" and sel = "sample_selector True" and cd = unary_codec and now = 0
        and fault = None and u = f64_0 and s = "from_pool empty_database ''db'' False" and auths = "[away_auth]"]
      sql_pick_exact[where random_range = "\<lambda>_. 0" and sel = "sample_selector False" and cd = unary_codec and now = 0
        and fault = None and u = f64_0 and s = "from_pool empty_database ''db'' False" and auths = "[away_auth]"]
    by (simp add: sample_selector_def sqlite_selector_new_def from_pool_def away_auth_def bare_auth_def)
qed

section \<open>Health factors\<close>

lemma factor_order: "hundredth < f64_of (1 / 10)" "\<not> half < f64_of (1 / 10)" "\<not> half < half" "\<not> f64_1 < f64_of (1 / 10)" "\<not> f64_1 < half"
proof -
  have "hundredth \<le> FFin (1 / 64)" "FFin (1 / 16) \<le> f64_of (1 / 10)"
    using f64_of_mono[of "1 / 100" "1 / 64"] f64_of_powi[of "- 6"] f64_of_mono[of "1 / 16" "1 / 10"] f64_of_sixteenth
    by (simp_all add: hundredth_def power_int_def field_simps)
  moreover have "x \<le> FFin (1 / 64) \<Longrightarrow> FFin (1 / 16) \<le> y \<Longrightarrow> x < y" for x y
    by (cases x; cases y) (auto simp: less_f64_def)
  ultimately show "hundredth < f64_of (1 / 10)" by blast
  have half: "half = FFin (1 / 2)" using f64_of_half by (simp add: half_def)
  have "f64_of (1 / 10) \<le> half" using f64_of_mono[of "1 / 10" "1 / 2"] by (simp add: half_def)
  then show "\<not> half < f64_of (1 / 10)" "\<not> f64_1 < f64_of (1 / 10)"
    unfolding half by (auto simp: less_f64_def dest: f64_le_trans)
  show "\<not> half < half" "\<not> f64_1 < half" unfolding half by (simp_all add: less_f64_def)
qed

text \<open>Of the health of a credential the weight over the database knows less than it should: the penalty of
  degraded credentials is never applied, whatever the row of the credential says, and a credential without a row
  (of which nothing bad is known) has the health factor, and so the penalty, of an unhealthy one.\<close>

theorem sql_weight_health:
  "sql_calculate_weight (cfg\<lparr>degraded_penalty := p\<rparr>) rate latency (health_factor_of h) auth =
     sql_calculate_weight cfg rate latency (health_factor_of h) auth
   \<and> health_factor_of None = health_factor_of (Some (row\<lparr>hr_status := ''Unhealthy''\<rparr>))"
  by (auto simp: sql_calculate_weight_def health_factor_of_def factor_order Let_def split: option.split)

section \<open>Precomputing is atomic\<close>

lemma insert_weights_rows:
  "hm_ok ws \<Longrightarrow> insert_weights fault now_text strategy ws rows = Inr rows' \<Longrightarrow>
   hm_get rows' i = (case hm_get ws i of
     Some w \<Rightarrow> Some \<lparr>wr_weight = (if is_finite w then w else f64_0), wr_calculated_at = now_text i, wr_strategy = strategy\<rparr>
   | None \<Rightarrow> hm_get rows i)"
proof (induction fault now_text strategy ws rows rule: insert_weights.induct)
  case (2 fault now_text strategy i' weight ws rows)
  have "hm_ok ws" "hm_get ws i' = None" using "2.prems"(1) by (simp_all add: hm_ok_def map_of_eq_None_iff)
  then show ?case using 2 by (auto simp: Let_def store_simps split: option.splits)
qed simp

lemma fold_weights_ok:
  "hm_ok m \<Longrightarrow> hm_ok (fold (\<lambda>row. hm_insert (aw_auth_id row) (g row)) (map (the_row cd now db) ids) m)"
  by (induction ids arbitrary: m) (simp_all add: store_simps)

lemma fold_weights_get:
  "hm_get (fold (\<lambda>row. hm_insert (aw_auth_id row) (g row)) (map (the_row cd now db) ids) m) i =
     (if i \<in> set ids then Some (g (the_row cd now db i)) else hm_get m i)"
  by (induction ids arbitrary: m) (auto simp: store_simps)

lemma precomputed_weight_finite: "is_finite (precomputed_weight cfg row)"
  by (simp add: precomputed_weight_def Let_def is_finite_def)

text \<open>C23. Precomputing weights is all or nothing: when it fails, at its query, its transaction, any insert or the
  commit, the database is as it was; when it succeeds the row of every given credential holds its weight, finite
  and under the selector's strategy, and no other row has changed.\<close>

theorem precompute_atomic:
  "case precompute_weights cd now clock faults ids sel s of
     (Inl e, s') \<Rightarrow> s' = s
   | (Inr _, s') \<Rightarrow> hm_get (db_weights (st_db s')) i =
      (if i \<in> set ids
       then Some \<lparr>wr_weight = precomputed_weight (src_weight (sl_config sel)) (the_row cd now (st_db s) i),
                  wr_calculated_at = sc_sql_now cd (clock i), wr_strategy = src_strategy (sl_config sel)\<rparr>
       else hm_get (db_weights (st_db s)) i)"
proof (cases "ids = [] \<or> isl (fst (precompute_weights cd now clock faults ids sel s))")
  case True
  then show ?thesis
    by (auto simp: precompute_weights_def update_weights_def Let_def split: if_splits option.splits sum.splits)
next
  case False
  let ?g = "precomputed_weight (src_weight (sl_config sel))"
  let ?ws = "fold (\<lambda>row. hm_insert (aw_auth_id row) (?g row)) (map (the_row cd now (st_db s)) ids) []"
  obtain s' where s': "precompute_weights cd now clock faults ids sel s = (Inr (), s')"
    using False by (cases "precompute_weights cd now clock faults ids sel s"; cases "fst (precompute_weights cd now clock faults ids sel s)") auto
  then obtain rows where rows: "insert_weights (wf_insert faults) (\<lambda>i. sc_sql_now cd (clock i)) (src_strategy (sl_config sel)) ?ws
      (db_weights (st_db s)) = Inr rows" "db_weights (st_db s') = rows"
    using False by (auto simp: precompute_weights_def update_weights_def weight_query_eq Let_def
        split: if_splits option.splits sum.splits)
  have "hm_ok ?ws" by (rule fold_weights_ok) (simp add: hm_ok_def)
  from insert_weights_rows[OF this rows(1), of i] rows(2) show ?thesis
    by (simp add: s' fold_weights_get precomputed_weight_finite)
qed

abbreviation lighter_row :: "string \<times> weight_row \<Rightarrow> string \<times> weight_row \<Rightarrow> bool" where
  "lighter_row a b \<equiv> wr_weight (snd b) < wr_weight (snd a)"

interpretation row_order: sort_order lighter_row "\<lambda>r. wr_weight (snd r) \<noteq> FNaN"
proof
  fix a b c :: "string \<times> weight_row"
  assume "wr_weight (snd a) \<noteq> FNaN" "wr_weight (snd b) \<noteq> FNaN" "wr_weight (snd c) \<noteq> FNaN"
  then show "lighter_row a b \<Longrightarrow> \<not> lighter_row b a" and "\<not> lighter_row a b \<Longrightarrow> \<not> lighter_row b c \<Longrightarrow> \<not> lighter_row a c"
    by (simp_all add: f64_not_less f64_less_le) (metis f64_le_trans)
qed

text \<open>The precomputed ranking: over weights that are numbers (a real column of SQLite stores no NaN) what the
  selector calls the top credentials are rows of its own strategy, at most as many as asked for, heaviest first.\<close>

theorem top_auths_ranked:
  assumes "hm_ok (db_weights (st_db s))" "get_top_auths fault limit sel s = Inr ids"
    and "\<forall>(i, row)\<in>set (db_weights (st_db s)). wr_weight row \<noteq> FNaN"
  defines "weight_of \<equiv> \<lambda>i. wr_weight (the (hm_get (db_weights (st_db s)) i))"
  shows "length ids \<le> limit"
    and "\<forall>i\<in>set ids. \<exists>row. hm_get (db_weights (st_db s)) i = Some row \<and> wr_strategy row = src_strategy (sl_config sel)"
    and "sorted_wrt (\<lambda>i j. weight_of j \<le> weight_of i) ids"
proof -
  let ?rows = "filter (\<lambda>(i, row). wr_strategy row = src_strategy (sl_config sel)) (db_weights (st_db s))"
  have ids: "limit = 0 \<and> ids = [] \<or> ids = map fst (take limit (sort_by lighter_row ?rows))"
    using assms(2) by (auto simp: get_top_auths_def split: if_splits option.splits)
  show "length ids \<le> limit" using ids by auto
  have rows: "r \<in> set ?rows" if "r \<in> set (take limit (sort_by lighter_row ?rows))" for r
    using that by (metis in_set_takeD set_sort_by)
  have get: "hm_get (db_weights (st_db s)) (fst r) = Some (snd r)" if "r \<in> set ?rows" for r
    unfolding hm_get_in_set[OF assms(1)] using that by simp
  have strategy: "wr_strategy (snd r) = src_strategy (sl_config sel)" if "r \<in> set ?rows" for r
    using that by (simp add: case_prod_unfold)
  show "\<forall>i\<in>set ids. \<exists>row. hm_get (db_weights (st_db s)) i = Some row \<and> wr_strategy row = src_strategy (sl_config sel)"
  proof
    fix i assume "i \<in> set ids"
    then obtain r where r: "r \<in> set (take limit (sort_by lighter_row ?rows))" "i = fst r" using ids by auto
    then have "r \<in> set ?rows" using rows by blast
    then show "\<exists>row. hm_get (db_weights (st_db s)) i = Some row \<and> wr_strategy row = src_strategy (sl_config sel)"
      using get[of r] strategy[of r] r(2) by (simp del: set_filter)
  qed
  have numbers: "\<forall>r\<in>set ?rows. wr_weight (snd r) \<noteq> FNaN" using assms(3) by (simp add: case_prod_unfold)
  have "sorted_wrt (\<lambda>a b. \<not> lighter_row b a) (take limit (sort_by lighter_row ?rows))"
    by (intro sorted_wrt_take row_order.sorted_sort_by numbers)
  then have "sorted_wrt (\<lambda>a b. weight_of (fst b) \<le> weight_of (fst a)) (take limit (sort_by lighter_row ?rows))"
  proof (rule sorted_wrt_mono_rel[rotated])
    fix a b
    assume "a \<in> set (take limit (sort_by lighter_row ?rows))" "b \<in> set (take limit (sort_by lighter_row ?rows))" "\<not> lighter_row b a"
    moreover from this have "a \<in> set ?rows" "b \<in> set ?rows" using rows by blast+
    ultimately show "weight_of (fst b) \<le> weight_of (fst a)"
      using get numbers by (simp add: weight_of_def f64_not_less del: set_filter)
  qed
  then show "sorted_wrt (\<lambda>i j. weight_of j \<le> weight_of i) ids" using ids by (auto simp: sorted_wrt_map)
qed

definition ranked_store :: sqlite_store where
  "ranked_store = (let row = (\<lambda>w strategy. \<lparr>wr_weight = w, wr_calculated_at = ''now'', wr_strategy = strategy\<rparr>) in
     from_pool (empty_database\<lparr>db_weights := [(''a'', row half ''weighted''), (''b'', row f64_1 ''weighted''), (''c'', row f64_1 ''adaptive'')]\<rparr>)
       ''db'' False)"

lemma half_value: "half = FFin (1 / 2)"
  using f64_of_half by (simp add: half_def)

lemma top_sample: "get_top_auths None 2 (sample_selector True) ranked_store = Inr [''b'', ''a'']"
  by (simp add: get_top_auths_def run_statement_def ranked_store_def from_pool_def sample_selector_def sqlite_selector_new_def
      default_smart_routing_config_def sort_by_def half_value less_f64_def)

theorem top_auths_ranked_witness:
  "length [''b'', ''a''] \<le> 2 \<and> (\<exists>row. hm_get (db_weights (st_db ranked_store)) ''b'' = Some row)"
  using top_auths_ranked(1)[OF _ top_sample] top_auths_ranked(2)[OF _ top_sample]
  by (auto simp: ranked_store_def from_pool_def hm_ok_def half_value)

end
