(* ===== verification/Templates.thy ===== *)
theory Templates
  imports Policy
begin

text \<open>
  The predefined policies (src/registry/policy/templates/mod.rs), and what they do: which models and contexts
  each of them is about, that they can all be loaded together, and which of them cannot prefer any model.
\<close>

definition cost_optimization :: routing_policy where
  "cost_optimization = with_weight_factor (f64_of (15 / 10)) (with_action ''weight'' (with_priority 10
     (policy_new ''cost_optimization'' ''Cost Optimization'')))"

definition performance_first :: routing_policy where
  "performance_first = with_action ''prefer'' (with_tier Fast (with_priority 20
     (policy_new ''performance_first'' ''Performance First'')))"

definition quality_first :: routing_policy where
  "quality_first = with_action ''prefer'' (with_tier Flagship (with_priority 20
     (policy_new ''quality_first'' ''Quality First'')))"

definition vision_required :: routing_policy where
  "vision_required = with_action ''prefer'' (with_capability Vision ''require'' (with_priority 30
     (policy_new ''vision_required'' ''Vision Required'')))"

definition thinking_required :: routing_policy where
  "thinking_required = with_action ''prefer'' (with_capability Thinking ''require'' (with_priority 30
     (policy_new ''thinking_required'' ''Extended Thinking Required'')))"

definition large_context :: routing_policy where
  "large_context = with_action ''prefer'' (with_priority 25 (policy_new ''large_context'' ''Large Context Required''))"

text \<open>The derived \<open>Debug\<close> of the category: the name of its constructor.\<close>

fun debug_provider :: "provider_category \<Rightarrow> string" where
  "debug_provider Anthropic = ''Anthropic''"
| "debug_provider OpenAI = ''OpenAI''"
| "debug_provider Google = ''Google''"
| "debug_provider XAI = ''XAI''"
| "debug_provider DeepSeek = ''DeepSeek''"
| "debug_provider Mistral = ''Mistral''"
| "debug_provider Cohere = ''Cohere''"
| "debug_provider Perplexity = ''Perplexity''"
| "debug_provider Alibaba = ''Alibaba''"
| "debug_provider Zhipu = ''Zhipu''"
| "debug_provider Baidu = ''Baidu''"
| "debug_provider Moonshot = ''Moonshot''"
| "debug_provider ByteDance = ''ByteDance''"
| "debug_provider Meta = ''Meta''"
| "debug_provider MetaLlama = ''MetaLlama''"
| "debug_provider Databricks = ''Databricks''"
| "debug_provider Stability = ''Stability''"
| "debug_provider Amazon = ''Amazon''"
| "debug_provider Azure = ''Azure''"
| "debug_provider VertexAI = ''VertexAI''"
| "debug_provider OtherProvider = ''Other''"

definition prefer_provider :: "provider_category \<Rightarrow> routing_policy" where
  "prefer_provider provider = with_action ''prefer'' (with_provider provider (with_priority 15
     (policy_new (to_lowercase (''prefer_'' @ debug_provider provider)) (''Prefer '' @ debug_provider provider))))"

definition off_peak_hours :: routing_policy where
  "off_peak_hours =
     (let policy = with_weight_factor (f64_of (8 / 10)) (with_action ''weight'' (with_priority 5
            (policy_new ''off_peak_hours'' ''Off-Peak Hours'')))
      in policy\<lparr>rp_conditions := rp_conditions policy @
           [\<lparr>pc_condition_type = TimeOfDay, pc_value = ''22,23,0,1,2,3,4,5,6'', pc_operator = ''in''\<rparr>]\<rparr>)"

lemmas template_defs = cost_optimization_def performance_first_def quality_first_def vision_required_def thinking_required_def
  large_context_def prefer_provider_def off_peak_hours_def Let_def
  with_weight_factor_def with_action_def with_priority_def with_tier_def with_capability_def with_provider_def
  policy_new_def default_filters_def default_action_def

section \<open>What they are about\<close>

text \<open>A template filters by one dimension or by none.\<close>

lemma templates_match:
  "matches_model performance_first m \<longleftrightarrow> get_tier m = Fast"
  "matches_model quality_first m \<longleftrightarrow> get_tier m = Flagship"
  "matches_model vision_required m \<longleftrightarrow> has_capability m Vision"
  "matches_model thinking_required m \<longleftrightarrow> has_capability m Thinking"
  "matches_model (prefer_provider p) m \<longleftrightarrow> get_provider_category m = p"
  "matches_model cost_optimization m" "matches_model large_context m" "matches_model off_peak_hours m"
  by (simp_all add: template_defs matches_model_def capability_filter_ok_def)

lemma show_int_inj: "show_int a = show_int b \<longleftrightarrow> a = b"
proof -
  have minus: "CHR ''-'' # s \<noteq> show_nat n" for s n using show_nat_digit[of n] by (auto simp: digit_val_def Let_def)
  have nat_inj: "show_nat m = show_nat n \<longleftrightarrow> m = n" for m n by (metis parse_nat_show option.inject)
  show ?thesis by (auto simp: show_int_def minus minus[symmetric] nat_inj)
qed

definition off_peak :: "i32 \<Rightarrow> bool" where "off_peak h \<longleftrightarrow> h \<in> {22, 23, 0, 1, 2, 3, 4, 5, 6}"

lemma in_condition:
  "evaluate_condition \<lparr>pc_condition_type = TimeOfDay, pc_value = v, pc_operator = ''in''\<rparr> ctx \<longleftrightarrow>
     (case hour_of_day ctx of Some h \<Rightarrow> show_int h \<in> set (map trim (split_on CHR '','' v)) | None \<Rightarrow> False)"
  by (auto simp: evaluate_condition_def actual_value_def compare_strings_def compare_op_def list_ex_iff image_iff split: option.split) metis

lemma off_peak_condition:
  "evaluate_condition \<lparr>pc_condition_type = TimeOfDay, pc_value = ''22,23,0,1,2,3,4,5,6'', pc_operator = ''in''\<rparr> ctx \<longleftrightarrow>
     (case hour_of_day ctx of Some h \<Rightarrow> off_peak h | None \<Rightarrow> False)"
proof -
  have digits: "[''22'', ''23'', ''0'', ''1'', ''2'', ''3'', ''4'', ''5'', ''6''] = map show_int [22, 23, 0, 1, 2, 3, 4, 5, 6]"
    by (simp add: show_int_def show_nat.simps char_of_def bit_0)
  have "map trim (split_on CHR '','' ''22,23,0,1,2,3,4,5,6'') = map show_int [22, 23, 0, 1, 2, 3, 4, 5, 6]"
    unfolding digits[symmetric] by (simp add: trim_def is_white_def Let_def)
  then show ?thesis unfolding in_condition
    by (simp only: set_map list.set image_insert image_empty) (simp add: show_int_inj off_peak_def split: option.split)
qed

text \<open>What each template is about: a tier, a capability, a provider, the hours from 22 up to and including 6;
  cost optimization and large context are about every model, of whatever cost and window.\<close>

theorem templates_scope:
  "matches_model performance_first m = (get_tier m = Fast) \<and> matches_model quality_first m = (get_tier m = Flagship)
   \<and> matches_model vision_required m = has_capability m Vision \<and> matches_model thinking_required m = has_capability m Thinking
   \<and> matches_model (prefer_provider p) m = (get_provider_category m = p)
   \<and> matches_model cost_optimization m \<and> matches_model large_context m \<and> matches_model off_peak_hours m
   \<and> policy_matches off_peak_hours ctx = (case hour_of_day ctx of Some h \<Rightarrow> off_peak h | None \<Rightarrow> False)
   \<and> list_all (\<lambda>t. policy_matches t ctx) [performance_first, quality_first, vision_required, thinking_required, prefer_provider p,
        cost_optimization, large_context]"
  using off_peak_condition[of ctx] by (simp add: templates_match) (simp add: template_defs policy_matches_def)

section \<open>What they do to weights\<close>

definition unfiltered_templates :: "routing_policy list" where
  "unfiltered_templates = [cost_optimization, large_context, off_peak_hours]"

definition all_templates :: "routing_policy list" where
  "all_templates = unfiltered_templates @ [performance_first, quality_first, vision_required, thinking_required]
     @ map prefer_provider [Anthropic, OpenAI, Google, XAI, DeepSeek, Mistral, Cohere, Perplexity, Alibaba, Zhipu, Baidu,
         Moonshot, ByteDance, Meta, MetaLlama, Databricks, Stability, Amazon, Azure, VertexAI, OtherProvider]"

lemma unfiltered_same_score:
  "p \<in> set unfiltered_templates \<Longrightarrow> calculate_score p m ctx = calculate_score p m' ctx \<and> matches_model p m"
  by (auto simp: unfiltered_templates_def templates_match calculate_score_def) (simp_all add: template_defs)

lemma template_never_blocks: "p \<in> set all_templates \<Longrightarrow> pa_action_type (rp_action p) \<noteq> ''block''"
  by (auto simp: all_templates_def unfiltered_templates_def template_defs)

text \<open>No choice of templates ever blocks a model, also not the ones that are called required; and cost
  optimization, large context and off-peak hours give every model the same factor, so that they cannot prefer a
  cheaper model or one with a larger window.\<close>

theorem templates_prefer_only:
  assumes "set (pr_policies r) \<subseteq> set all_templates"
  shows "\<not> is_blocked r m ctx
    \<and> (set (pr_policies r) \<subseteq> set unfiltered_templates \<longrightarrow> calculate_weight_factor r m ctx = calculate_weight_factor r m' ctx)"
proof (intro conjI impI)
  show "\<not> is_blocked r m ctx"
    using template_never_blocks assms by (auto simp: is_blocked_def list_ex_iff)
  assume "set (pr_policies r) \<subseteq> set unfiltered_templates"
  then have "evaluate r m ctx = evaluate r m' ctx"
    using unfiltered_same_score[of _ m ctx m'] unfiltered_same_score[of _ m' ctx m]
    by (auto simp: evaluate_def intro!: map_cong filter_cong)
  then show "calculate_weight_factor r m ctx = calculate_weight_factor r m' ctx"
    by (simp add: calculate_weight_factor_def)
qed

text \<open>All templates can be loaded together: their identifiers differ, so that a registry to which they are
  added keeps every one of them.\<close>

theorem templates_coexist:
  "mset (pr_policies (fold registry_add all_templates registry_empty)) = mset all_templates"
proof -
  have keep: "mset (pr_policies (fold registry_add ps r)) = mset (pr_policies r) + mset ps"
    if "distinct (map rp_id (pr_policies r) @ map rp_id ps)" for ps r
    using that
  proof (induction ps arbitrary: r)
    case (Cons p ps)
    have "\<not> list_ex (\<lambda>q. rp_id q = rp_id p) (pr_policies r)" using Cons.prems by (force simp: list_ex_iff image_iff)
    then have step: "mset (pr_policies (registry_add p r)) = add_mset p (mset (pr_policies r))"
      by (simp add: registry_add_def sort_by_priority_def Let_def)
    then have "mset (map rp_id (pr_policies (registry_add p r))) = add_mset (rp_id p) (mset (map rp_id (pr_policies r)))" by simp
    then have "distinct (map rp_id (pr_policies (registry_add p r)) @ map rp_id ps)"
      using Cons.prems distinct_by_mset[of "map rp_id (pr_policies (registry_add p r)) @ map rp_id ps"
        "map rp_id (pr_policies r) @ map rp_id (p # ps)" id] by simp
    then show ?case using Cons.IH[of "registry_add p r"] step by simp
  qed simp
  have "distinct (map rp_id all_templates)"
    by (simp add: all_templates_def unfiltered_templates_def template_defs to_lowercase_def char_lower_def)
  then show ?thesis using keep[of registry_empty all_templates] by (simp add: registry_empty_def)
qed

theorem templates_prefer_only_witness:
  "calculate_weight_factor \<lparr>pr_policies = [cost_optimization]\<rparr> sample_model sample_context =
   calculate_weight_factor \<lparr>pr_policies = [cost_optimization]\<rparr> (sample_model\<lparr>input_price_per_million := f64_0\<rparr>) sample_context"
  using templates_prefer_only[of "\<lparr>pr_policies = [cost_optimization]\<rparr>" sample_model sample_context
      "sample_model\<lparr>input_price_per_million := f64_0\<rparr>"]
  by (simp add: all_templates_def unfiltered_templates_def)

end
