(* ===== verification/Http.thy ===== *)
theory Http
  imports Routes Providers Tracing
begin

text \<open>
  The gateway as a function from requests to responses (src/routes.rs and \<open>build_app_router\<close> of src/lib.rs):
  the JSON of every response, the security headers, the layers in their order and the trace each request
  leaves. Matching of method and path, and what the \<open>Json\<close> extractor makes of a body, are axum's: a request
  here has been matched to an endpoint and carries the value of its body, or the status axum rejects it with.
  The JSON of a response is the tree that the \<open>json!\<close> of the source writes.
\<close>

section \<open>The JSON of the responses\<close>

text \<open>A float that is not finite becomes null.\<close>

definition json_f64 :: "f64 \<Rightarrow> json" where
  "json_f64 x = (if is_finite x then JFloat x else JNull)"

definition root_json :: json where
  "root_json = JObj
     [(''name'', JStr ''Gateway API''), (''version'', JStr ''0.1.0''),
      (''description'', JStr ''Smart routing gateway for LLM requests''),
      (''features'', JArr [JStr ''Smart Routing'', JStr ''Model Registry'', JStr ''LLM Tracing'', JStr ''Health Management'']),
      (''endpoints'', JObj [(''health'', JStr ''/health''), (''models'', JStr ''/api/models''), (''route'', JStr ''/api/route'')])]"

definition error_object :: "string \<Rightarrow> string \<Rightarrow> json" where
  "error_object error_type msg = JObj [(''error'', JObj [(''type'', JStr error_type), (''message'', JStr msg)])]"

fun error_json :: "http_error \<Rightarrow> json" where
  "error_json Forbidden = error_object ''config_error''
     ''Gateway is improperly configured: No authentication tokens available.''"
| "error_json InvalidToken = error_object ''invalid_request_error'' ''Invalid or expired API token''"
| "error_json MissingAuthorization = error_object ''invalid_request_error''
     ''Missing Authorization header. Use: Authorization: Bearer <token>''"
| "error_json TooManyRequests = error_object ''rate_limit_error'' ''Too many requests. Please try again later.''"
| "error_json NoRouteAvailable = error_object ''no_route_available''
     ''No suitable routes found. Configure credentials in gateway.yaml''"
| "error_json (CredentialNotFound i) = error_object ''credential_not_found'' (''Credential '' @ i @ '' not found in configuration'')"

definition health_json :: "health_report \<Rightarrow> json" where
  "health_json h = JObj
     [(''status'', JStr (hs_status h)), (''uptime_secs'', JNum (nat (hs_uptime_secs h))),
      (''credential_count'', JNum (hs_credential_count h)), (''healthy_count'', JNum (hs_healthy_count h)),
      (''degraded_count'', JNum (hs_degraded_count h)), (''unhealthy_count'', JNum (hs_unhealthy_count h))]"

definition model_json :: "model_entry \<Rightarrow> json" where
  "model_json m = JObj
     [(''id'', JStr (me_id m)), (''provider'', JStr (me_provider m)), (''capabilities'', JArr (map JStr (me_capabilities m))),
      (''context_window'', JNum (me_context_window m))]"

definition models_json :: "model_entry list \<times> nat \<times> string \<Rightarrow> json" where
  "models_json r = (case r of (models, n, msg) \<Rightarrow>
     JObj [(''models'', JArr (map model_json models)), (''count'', JNum n), (''message'', JStr msg)])"

fun show_format :: "request_format \<Rightarrow> string" where
  "show_format OpenAIFormat = ''OpenAI''"
| "show_format AnthropicFormat = ''Anthropic''"
| "show_format GeminiFormat = ''Gemini''"
| "show_format GenericFormat = ''Generic''"

fun show_preference :: "quality_preference \<Rightarrow> string" where
  "show_preference Speed = ''Speed''"
| "show_preference Balanced = ''Balanced''"
| "show_preference Quality = ''Quality''"

definition primary_json :: "route_plan_item option \<Rightarrow> json" where
  "primary_json p = (case p of None \<Rightarrow> JNull
     | Some primary \<Rightarrow> JObj
         [(''credential_id'', JStr (pi_credential_id primary)), (''model_id'', JStr (pi_model_id primary)),
          (''provider'', JStr (pi_provider primary)), (''utility'', json_f64 (pi_utility primary)),
          (''weight'', json_f64 (pi_weight primary))])"

definition fallback_json :: "fallback_route \<Rightarrow> json" where
  "fallback_json fb = JObj
     [(''credential_id'', JStr (fr_auth_id fb)), (''position'', JNum (fr_position fb)), (''weight'', json_f64 (fr_weight fb)),
      (''provider'', case fr_provider fb of Some p \<Rightarrow> JStr p | None \<Rightarrow> JNull)]"

definition route_json :: "route_plan \<times> classified_request \<times> string \<Rightarrow> json" where
  "route_json r = (case r of (route_plan, classified, msg) \<Rightarrow>
     (let caps = required_caps classified in JObj
       [(''route_plan'', JObj
          [(''primary'', primary_json (plan_primary route_plan)),
           (''fallbacks'', JArr (map fallback_json (plan_fallbacks route_plan))),
           (''total_candidates'', JNum (plan_total_candidates route_plan)),
           (''filtered_candidates'', JNum (plan_filtered_candidates route_plan))]),
        (''classification'', JObj
          [(''required_capabilities'', JObj
             [(''vision'', JBool (rc_vision caps)), (''tools'', JBool (rc_tools caps)),
              (''streaming'', JBool (rc_streaming caps)), (''thinking'', JBool (rc_thinking caps))]),
           (''estimated_tokens'', JNum (estimated_tokens classified)),
           (''format'', JStr (show_format (request_format classified))),
           (''quality_preference'', JStr (show_preference (quality_pref classified)))]),
        (''message'', JStr msg)]))"

definition chat_json :: "chat_response \<Rightarrow> json" where
  "chat_json r =
     (let caps = required_caps (cr_classified r) in JObj
       [(''id'', JStr (cr_id r)), (''object'', JStr ''chat.completion''), (''created'', JNum (cr_created r)),
        (''model'', JStr (cr_model r)),
        (''choices'', JArr [JObj
           [(''index'', JNum 0),
            (''message'', JObj [(''role'', JStr ''assistant''), (''content'', JStr (cr_content r))]),
            (''finish_reason'', JStr ''stop'')]]),
        (''usage'', JObj
           [(''prompt_tokens'', JNum (cr_prompt_tokens r)), (''completion_tokens'', JNum (cr_completion_tokens r)),
            (''total_tokens'', JNum (cr_total_tokens r))]),
        (''_gateway'', JObj
           [(''route'', JObj
              [(''credential_id'', JStr (pi_credential_id (cr_route r))), (''provider'', JStr (pi_provider (cr_route r))),
               (''utility'', json_f64 (pi_utility (cr_route r)))]),
            (''classification'', JObj
              [(''format'', JStr (show_format (request_format (cr_classified r)))),
               (''capabilities'', JObj
                  [(''vision'', JBool (rc_vision caps)), (''tools'', JBool (rc_tools caps)),
                   (''streaming'', JBool (rc_streaming caps))])])])])"

section \<open>Requests, responses and headers\<close>

record wire_request =
  wq_headers :: header_map
  wq_peer_ip :: string
  wq_body :: "nat + json"

record wire_response =
  ws_status :: nat
  ws_headers :: header_map
  ws_body :: "json option"

text \<open>The text of a rejection of the extractor is axum's: it is no JSON.\<close>

definition json_response :: "nat \<Rightarrow> json \<Rightarrow> wire_response" where
  "json_response status v = \<lparr>ws_status = status, ws_headers = [''content-type'' \<mapsto> Some ''application/json''], ws_body = Some v\<rparr>"

definition rejection :: "nat \<Rightarrow> wire_response" where
  "rejection status = \<lparr>ws_status = status, ws_headers = [''content-type'' \<mapsto> Some ''text/plain; charset=utf-8''], ws_body = None\<rparr>"

definition http_request_of :: "wire_request \<Rightarrow> http_request" where
  "http_request_of rq = \<lparr>rq_authorization = header_text (wq_headers rq) ''authorization'',
     rq_forwarded_for = header_text (wq_headers rq) ''x-forwarded-for'',
     rq_real_ip = header_text (wq_headers rq) ''x-real-ip'', rq_peer_ip = wq_peer_ip rq\<rparr>"

definition none_source :: string where "none_source = CHR 0x27 # ''none'' @ [CHR 0x27]"

definition security_header_list :: "(string \<times> string) list" where
  "security_header_list =
     [(''x-content-type-options'', ''nosniff''), (''x-frame-options'', ''DENY''),
      (''referrer-policy'', ''strict-origin-when-cross-origin''),
      (''content-security-policy'', ''default-src '' @ none_source @ ''; frame-ancestors '' @ none_source)]"

definition security_headers_middleware :: "wire_response \<Rightarrow> wire_response" where
  "security_headers_middleware response =
     response\<lparr>ws_headers := fold (\<lambda>(name, value) headers. headers(name \<mapsto> Some value)) security_header_list (ws_headers response)\<rparr>"

section \<open>Serving a request\<close>

text \<open>The method and path of each endpoint.\<close>

fun endpoint_route :: "endpoint \<Rightarrow> string \<times> string" where
  "endpoint_route Root = (''GET'', ''/'')"
| "endpoint_route HealthEndpoint = (''GET'', ''/health'')"
| "endpoint_route Models = (''GET'', ''/api/models'')"
| "endpoint_route RouteEndpoint = (''GET'', ''/api/route'')"
| "endpoint_route ChatCompletions = (''POST'', ''/v1/chat/completions'')"

text \<open>What serving one request reads of its surroundings: clocks, variables, draws, identifiers.\<close>

record request_env =
  re_now :: time
  re_vars :: env_vars
  re_parse_ip :: "string \<Rightarrow> string option"
  re_ct_eq :: "string \<Rightarrow> string \<Rightarrow> 8 word"
  re_plan :: plan_env
  re_uuid :: string
  re_created :: nat
  re_trace_uuid :: string
  re_request_uuid :: string
  re_elapsed :: time
  re_end :: time

definition sample_route_request :: json where
  "sample_route_request = JObj
     [(''messages'', JArr [JObj [(''role'', JStr ''user''), (''content'', JStr ''Hello, how are you?'')]]),
      (''model'', JStr ''unknown'')]"

definition run_handler :: "request_env \<Rightarrow> endpoint \<Rightarrow> wire_request \<Rightarrow> app_state \<Rightarrow> wire_response option \<times> app_state" where
  "run_handler env e rq st = (case e of
       Root \<Rightarrow> (Some (json_response 200 root_json), st)
     | HealthEndpoint \<Rightarrow> (Some (json_response 200 (health_json (health_check (re_now env) st))), st)
     | Models \<Rightarrow> (Some (json_response 200 (models_json (list_models st))), st)
     | RouteEndpoint \<Rightarrow> (case route_request json_tree sample_route_request (re_plan env) st of
         (r, st) \<Rightarrow> (map_option (\<lambda>r. json_response 200 (route_json r)) r, st))
     | ChatCompletions \<Rightarrow> (case wq_body rq of
         Inl status \<Rightarrow> (Some (rejection status), st)
       | Inr request \<Rightarrow> (case chat_completions json_tree (re_plan env) (re_uuid env) (re_created env) request st of
           (None, st) \<Rightarrow> (None, st)
         | (Some (Inl err), st) \<Rightarrow> (Some (json_response (status_of err) (error_json err)), st)
         | (Some (Inr r), st) \<Rightarrow> (Some (json_response 200 (chat_json r)), st))))"

record gateway =
  gw_state :: app_state
  gw_traces :: memory_collector

definition build_gateway :: "time \<Rightarrow> gateway_config \<Rightarrow> u64 option \<Rightarrow> gateway" where
  "build_gateway now config limit = \<lparr>gw_state = build_app_state now config limit, gw_traces = collector_with_default_size\<rparr>"

text \<open>From the outside in: tracing, security headers, rate limit, on protected endpoints authentication, the
  handler. Without an answer (\<open>None\<close>) nothing is traced.\<close>

definition serve :: "request_env \<Rightarrow> endpoint \<Rightarrow> wire_request \<Rightarrow> gateway \<Rightarrow> wire_response option \<times> gateway" where
  "serve env e rq g =
     (let inner = (case admit (re_parse_ip env) (re_ct_eq env) (re_vars env) (re_now env) e (http_request_of rq) (gw_state g) of
            (Inl err, st) \<Rightarrow> (Some (json_response (status_of err) (error_json err)), st)
          | (Inr _, st) \<Rightarrow> run_handler env e rq st)
      in case inner of
        (None, st) \<Rightarrow> (None, g\<lparr>gw_state := st\<rparr>)
      | (Some response, st) \<Rightarrow>
          (let response = security_headers_middleware response
           in (Some response, g\<lparr>gw_state := st,
                gw_traces := tracing_middleware (re_trace_uuid env) (re_request_uuid env) (re_now env) (re_elapsed env) (re_end env)
                  (wq_headers rq) (ws_status response, ws_headers response) (gw_traces g)\<rparr>)))"

section \<open>The upstream of a chat request\<close>

text \<open>The adapter, endpoint and headers that the chat handler prepares for the planned route.\<close>

definition chat_upstream :: "route_plan_item \<Rightarrow> credential_config \<Rightarrow> string \<Rightarrow> string \<times> (string \<times> string) list" where
  "chat_upstream primary credential model_id =
     (if pi_provider primary = ''google''
      then (google_get_endpoint google_default (cc_base_url credential) model_id, google_build_headers (cc_api_key credential))
      else (openai_get_endpoint openai_default (cc_base_url credential) model_id, openai_build_headers (cc_api_key credential)))"

section \<open>Every request is answered, secured and traced\<close>

lemma classify_total: "\<exists>c. classify json_tree v = Some c"
  using vision_total[OF finite_json_tree, of v] by (simp add: classify_def Let_def)

lemma security_header:
  "(name, value) \<in> set security_header_list \<Longrightarrow> ws_headers (security_headers_middleware r) name = Some (Some value)"
  by (auto simp: security_headers_middleware_def security_header_list_def)

lemma security_headers_keep [simp]:
  "ws_status (security_headers_middleware r) = ws_status r" "ws_body (security_headers_middleware r) = ws_body r"
  by (simp_all add: security_headers_middleware_def)

lemma admit_eq:
  assumes "limiter_check now (client_ip parse_ip st req) (as_rate_limiter st) = (ok, l)"
  shows "admit parse_ip ct_eq vars now e req st =
    (if \<not> ok then Inl TooManyRequests
     else if protected_endpoint e then auth_middleware ct_eq vars (st\<lparr>as_rate_limiter := l\<rparr>) req else Inr (),
     st\<lparr>as_rate_limiter := l\<rparr>)"
  using assms by (simp add: admit_def rate_limit_middleware_def)

lemma serve_response:
  "fst (serve env e rq g) = map_option security_headers_middleware
    (fst (case admit (re_parse_ip env) (re_ct_eq env) (re_vars env) (re_now env) e (http_request_of rq) (gw_state g) of
       (Inl err, st) \<Rightarrow> (Some (json_response (status_of err) (error_json err)), st)
     | (Inr _, st) \<Rightarrow> run_handler env e rq st))"
  by (simp add: serve_def Let_def split: prod.split option.split)

lemma route_request_returns:
  "classify js sample = Some c \<Longrightarrow> plan env (as_router st) c (as_credentials st) None = Some (p, r') \<Longrightarrow>
   fst (route_request js sample env st) \<noteq> None"
  by (simp add: route_request_def)

lemma chat_returns:
  "classify js request = Some c \<Longrightarrow> plan env (as_router st) c (as_credentials st) (get_str js request ''session_id'') = Some (p, r') \<Longrightarrow>
   fst (chat_completions js env uuid created request st) \<noteq> None"
  by (simp add: chat_completions_def Let_def split: option.split)

lemma run_handler_route:
  "fst (run_handler env RouteEndpoint rq st) = None \<longleftrightarrow> fst (route_request json_tree sample_route_request (re_plan env) st) = None"
  by (simp add: run_handler_def split: prod.split)

lemma run_handler_chat:
  "wq_body rq = Inr request \<Longrightarrow> fst (run_handler env ChatCompletions rq st) = None \<longleftrightarrow>
     fst (chat_completions json_tree (re_plan env) (re_uuid env) (re_created env) request st) = None"
  by (simp add: run_handler_def split: prod.split option.split sum.split)

text \<open>Every route of the gateway returns an answer: whatever the request and the state, there are draws on
  which planning stops.\<close>

lemma plan_returns_updated:
  "sqrt_ok (pe_math env) \<Longrightarrow> \<exists>draws. \<forall>rest. \<exists>p r'. plan (env\<lparr>pe_draws := draws @ rest\<rparr>) r request auths session = Some (p, r')"
  using plan_returns[of env r request auths session] by fastforce

lemma run_handler_returns:
  assumes "sqrt_ok (pe_math (re_plan env))"
  shows "\<exists>draws. \<forall>rest. fst (run_handler (env\<lparr>re_plan := (re_plan env)\<lparr>pe_draws := draws @ rest\<rparr>\<rparr>) e rq st) \<noteq> None"
proof (cases e)
  case RouteEndpoint
  obtain c where c: "classify json_tree sample_route_request = Some c" using classify_total by blast
  obtain draws where "\<forall>rest. \<exists>p r'. plan ((re_plan env)\<lparr>pe_draws := draws @ rest\<rparr>) (as_router st) c (as_credentials st) None = Some (p, r')"
    using plan_returns_updated[OF assms] by blast
  then have "\<forall>rest. fst (route_request json_tree sample_route_request ((re_plan env)\<lparr>pe_draws := draws @ rest\<rparr>) st) \<noteq> None"
    using route_request_returns[OF c] by meson
  then show ?thesis by (intro exI[of _ draws]) (simp add: RouteEndpoint run_handler_route)
next
  case ChatCompletions
  show ?thesis
  proof (cases "wq_body rq")
    case (Inr request)
    obtain c where c: "classify json_tree request = Some c" using classify_total by blast
    obtain draws where "\<forall>rest. \<exists>p r'. plan ((re_plan env)\<lparr>pe_draws := draws @ rest\<rparr>) (as_router st) c (as_credentials st)
        (get_str json_tree request ''session_id'') = Some (p, r')"
      using plan_returns_updated[OF assms] by blast
    then have "\<forall>rest. fst (chat_completions json_tree ((re_plan env)\<lparr>pe_draws := draws @ rest\<rparr>) (re_uuid env) (re_created env) request st) \<noteq> None"
      using chat_returns[OF c] by meson
    then show ?thesis by (intro exI[of _ draws]) (simp add: ChatCompletions run_handler_chat[OF Inr])
  qed (simp add: ChatCompletions run_handler_def)
qed (simp_all add: run_handler_def)

text \<open>C5. The gateway answers every request, to every endpoint and in every state: there are random draws on which
  it gives a response, and further draws do not change that.\<close>

theorem gateway_answers:
  assumes "sqrt_ok (pe_math (re_plan env))"
  shows "\<exists>draws. \<forall>rest. fst (serve (env\<lparr>re_plan := (re_plan env)\<lparr>pe_draws := draws @ rest\<rparr>\<rparr>) e rq g) \<noteq> None"
proof -
  obtain r st where admitted: "admit (re_parse_ip env) (re_ct_eq env) (re_vars env) (re_now env) e (http_request_of rq) (gw_state g) = (r, st)"
    by fastforce
  obtain draws where "\<forall>rest. fst (run_handler (env\<lparr>re_plan := (re_plan env)\<lparr>pe_draws := draws @ rest\<rparr>\<rparr>) e rq st) \<noteq> None"
    using run_handler_returns[OF assms] by blast
  then show ?thesis
    by (intro exI[of _ draws]) (cases r; simp add: serve_response admitted)
qed

text \<open>C6. Whatever the answer, of a handler, a refusal of a middleware or a rejected body: it carries the four
  security headers, and exactly one trace of it is recorded, with its status and the identifier of the request;
  the trace of a refused request too.\<close>

theorem responses_secured_and_traced:
  "case serve env e rq g of
     (None, g') \<Rightarrow> gw_traces g' = gw_traces g
   | (Some r, g') \<Rightarrow>
       list_all (\<lambda>(name, value). ws_headers r name = Some (Some value)) security_header_list
       \<and> (\<exists>span. gw_traces g' = record_trace span (gw_traces g) \<and> ts_status_code span = Some (ws_status r)
            \<and> ts_request_id span = extract_request_id (re_request_uuid env) (wq_headers rq))"
proof (cases "serve env e rq g")
  case (Pair r g')
  show ?thesis
  proof (cases r)
    case None
    then show ?thesis using Pair by (auto simp: serve_def Let_def split: prod.splits option.splits)
  next
    case (Some response)
    obtain inner st where inner: "response = security_headers_middleware inner"
        "g' = g\<lparr>gw_state := st, gw_traces := tracing_middleware (re_trace_uuid env) (re_request_uuid env) (re_now env) (re_elapsed env)
          (re_end env) (wq_headers rq) (ws_status response, ws_headers response) (gw_traces g)\<rparr>"
      using Pair Some by (auto simp: serve_def Let_def split: prod.splits option.splits)
    have "list_all (\<lambda>(name, value). ws_headers response name = Some (Some value)) security_header_list"
      using security_header[of _ _ inner] by (auto simp: inner(1) list_all_iff)
    moreover have "\<exists>span. gw_traces g' = record_trace span (gw_traces g) \<and> ts_status_code span = Some (ws_status response)
        \<and> ts_request_id span = extract_request_id (re_request_uuid env) (wq_headers rq)"
      by (auto simp: inner(2) tracing_middleware_def trace_request_def span_new_def Let_def split: option.split)
    ultimately show ?thesis using Pair Some by simp
  qed
qed

lemma handler_status:
  "fst (run_handler env e rq st) = Some h \<Longrightarrow> ws_status h = (if e \<noteq> ChatCompletions then 200 else case wq_body rq of Inl status \<Rightarrow> status
     | Inr request \<Rightarrow> (case fst (chat_completions json_tree (re_plan env) (re_uuid env) (re_created env) request st) of
            Some (Inl err) \<Rightarrow> status_of err | _ \<Rightarrow> 200))"
  by (auto simp: run_handler_def json_response_def rejection_def split: endpoint.splits sum.splits prod.splits option.splits)

text \<open>C7. The status of every answer: 429 if the rate limiter refuses the client, whatever else the request is;
  then on the protected endpoints 403 without configured tokens outside development mode, 401 without a
  configured bearer token; then the rejection of the body; then 503 or 500 where the chat has no route or its
  credential is not configured; else 200.\<close>

theorem status_exact:
  fixes env e rq g
  defines "st \<equiv> gw_state g" and "req \<equiv> http_request_of rq"
  defines "tokens \<equiv> sv_auth_tokens (gc_server (as_config st))"
    and "limited \<equiv> limiter_check (re_now env) (client_ip (re_parse_ip env) st req) (as_rate_limiter st)"
  assumes "ct_eq_ok (re_ct_eq env)" and "fst (serve env e rq g) = Some r"
  shows "ws_status r =
    (if \<not> fst limited then 429
     else if protected_endpoint e \<and> tokens = [] \<and> \<not> development (re_vars env) then 403
     else if protected_endpoint e \<and> tokens \<noteq> [] \<and> \<not> list_ex (\<lambda>t. rq_authorization req = Some (bearer @ t)) tokens then 401
     else if e \<noteq> ChatCompletions then 200
     else case wq_body rq of
       Inl status \<Rightarrow> status
     | Inr request \<Rightarrow>
         (case fst (chat_completions json_tree (re_plan env) (re_uuid env) (re_created env) request (st\<lparr>as_rate_limiter := snd limited\<rparr>)) of
            Some (Inl err) \<Rightarrow> status_of err | _ \<Rightarrow> 200))"
proof -
  let ?st = "st\<lparr>as_rate_limiter := snd limited\<rparr>"
  let ?auth = "auth_middleware (re_ct_eq env) (re_vars env) ?st req"
  have admitted: "admit (re_parse_ip env) (re_ct_eq env) (re_vars env) (re_now env) e req st =
      (if \<not> fst limited then Inl TooManyRequests else if protected_endpoint e then ?auth else Inr (), ?st)"
    using admit_eq[of "re_now env" "re_parse_ip env" st req "fst limited" "snd limited"] by (simp add: limited_def)
  have auth: "?auth = (if tokens = [] then (if development (re_vars env) then Inr () else Inl Forbidden)
      else case rq_authorization req of None \<Rightarrow> Inl MissingAuthorization
        | Some _ \<Rightarrow> (if list_ex (\<lambda>t. rq_authorization req = Some (bearer @ t)) tokens then Inr () else Inl InvalidToken))"
    using auth_status[OF assms(5)] by (simp add: tokens_def)
  have handler: "ws_status h = (if e \<noteq> ChatCompletions then 200 else case wq_body rq of Inl status \<Rightarrow> status
     | Inr request \<Rightarrow> (case fst (chat_completions json_tree (re_plan env) (re_uuid env) (re_created env) request ?st) of
            Some (Inl err) \<Rightarrow> status_of err | _ \<Rightarrow> 200))" if "fst (run_handler env e rq ?st) = Some h" for h
    using that handler_status by blast
  let ?adm = "if \<not> fst limited then Inl TooManyRequests else if protected_endpoint e then ?auth else Inr ()"
  have "ws_status r = (case ?adm of Inl err \<Rightarrow> status_of err | Inr _ \<Rightarrow>
      (if e \<noteq> ChatCompletions then 200 else case wq_body rq of Inl status \<Rightarrow> status
       | Inr request \<Rightarrow> (case fst (chat_completions json_tree (re_plan env) (re_uuid env) (re_created env) request ?st) of
            Some (Inl err) \<Rightarrow> status_of err | _ \<Rightarrow> 200)))"
  proof (cases ?adm)
    case (Inl err)
    have "fst (serve env e rq g) = Some (security_headers_middleware (json_response (status_of err) (error_json err)))"
      using admitted unfolding Inl by (simp add: serve_response req_def st_def)
    then show ?thesis using assms(6) unfolding Inl by (auto simp: json_response_def)
  next
    case (Inr u)
    have "fst (serve env e rq g) = map_option security_headers_middleware (fst (run_handler env e rq ?st))"
      using admitted unfolding Inr by (simp add: serve_response req_def st_def)
    then obtain h where "fst (run_handler env e rq ?st) = Some h" "r = security_headers_middleware h"
      using assms(6) by (auto simp: map_option_case split: option.splits)
    then show ?thesis unfolding Inr using handler[of h] by simp
  qed
  then show ?thesis unfolding auth by (auto simp: list_ex_iff split: option.split)
qed

text \<open>The answer of the chat endpoint is one that a client of the OpenAI API can read: the OpenAI adapter reads
  its identifier, model, content, finish reason and usage back as they are, and no tool calls.\<close>

theorem chat_answer_openai_readable:
  "openai_transform_response tree_builder (chat_json r) =
     Inr \<lparr>rs_id = cr_id r, rs_model = cr_model r, rs_content = cr_content r, rs_finish_reason = ''stop'',
       rs_usage = \<lparr>tu_prompt = min (cr_prompt_tokens r) u32_max, tu_completion = min (cr_completion_tokens r) u32_max,
         tu_total = min (cr_total_tokens r) u32_max\<rparr>, rs_tool_calls = None\<rparr>"
  by (simp add: openai_transform_response_def openai_usage_def chat_json_def Let_def array_at_def str_at_def u64_at_def field_at_def
      tree_builder_defs or_else_def token_field_def)

section \<open>A gateway\<close>

definition sample_request_env :: request_env where
  "sample_request_env = \<lparr>re_now = 5, re_vars = (\<lambda>_. None), re_parse_ip = (\<lambda>_. None), re_ct_eq = byte_eq, re_plan = sample_plan_env,
     re_uuid = ''id'', re_created = 0, re_trace_uuid = ''t'', re_request_uuid = ''r'', re_elapsed = 1, re_end = 6\<rparr>"

definition sample_wire :: "(string \<times> string) list \<Rightarrow> wire_request" where
  "sample_wire headers = \<lparr>wq_headers = (\<lambda>name. map_option Some (map_of headers name)), wq_peer_ip = ''10.0.0.1'',
     wq_body = Inr sample_json_request\<rparr>"

definition guarded_gateway :: gateway where
  "guarded_gateway = build_gateway 0 (default_gateway_config\<lparr>gc_server := default_server_config\<lparr>sv_auth_tokens := [''t'']\<rparr>\<rparr>) None"

theorem gateway_answers_witness:
  "\<exists>draws. fst (serve (sample_request_env\<lparr>re_plan := sample_plan_env\<lparr>pe_draws := draws\<rparr>\<rparr>) ChatCompletions (sample_wire []) guarded_gateway) \<noteq> None"
proof -
  have "sqrt_ok (pe_math (re_plan sample_request_env))"
    by (simp add: sample_request_env_def sample_plan_env_def environment.defs sqrt_ok_def)
  from gateway_answers[OF this, of ChatCompletions "sample_wire []" guarded_gateway] show ?thesis
    by (simp add: sample_request_env_def) (metis append_Nil2)
qed

theorem status_exact_witness:
  "\<exists>r. fst (serve sample_request_env Models (sample_wire []) guarded_gateway) = Some r \<and> ws_status r = 401"
proof -
  have ct: "ct_eq_ok (re_ct_eq sample_request_env)" by (simp add: sample_request_env_def ct_eq_ok_def byte_eq_def)
  obtain a st where "admit (re_parse_ip sample_request_env) (re_ct_eq sample_request_env) (re_vars sample_request_env)
      (re_now sample_request_env) Models (http_request_of (sample_wire [])) (gw_state guarded_gateway) = (a, st)" by fastforce
  then have "fst (serve sample_request_env Models (sample_wire []) guarded_gateway) \<noteq> None"
    by (cases a) (simp_all add: serve_response run_handler_def)
  then obtain r where r: "fst (serve sample_request_env Models (sample_wire []) guarded_gateway) = Some r" by blast
  then show ?thesis using status_exact[OF ct r]
    by (simp add: sample_request_env_def sample_wire_def guarded_gateway_def build_gateway_def build_app_state_def Let_def bearer_def
        client_ip_def default_gateway_config_def default_server_config_def limiter_check_def limiter_new_def protected_endpoint_def
        secs_since_def http_request_of_def header_text_def default_rate_limit_def)
qed

end
