(* ===== verification/Cli.thy ===== *)
theory Cli
  imports Http
begin

text \<open>
  The command-line tool (src/bin/cli.rs): its three commands, what they print and how they end. The HTTP
  client, the file system, the environment, the YAML parser and the colours of the terminal are parameters;
  structures are read from and written to JSON trees the way serde derives it from their declarations. A
  pretty-printed value and a table are kept as what is printed.
\<close>

section \<open>Configurations as the tool reads them\<close>

record cli_server =
  cs_port :: nat
  cs_host :: "string option"
  cs_timeout_secs :: "u64 option"

record cli_credential =
  cy_id :: string
  cy_provider :: string
  cy_api_key :: string
  cy_base_url :: "string option"
  cy_allowed_models :: "string list"
  cy_priority :: i32

record cli_routing =
  cg_strategy :: string
  cg_session_affinity :: bool

record cli_config =
  cv_server :: "cli_server option"
  cv_credentials :: "cli_credential list"
  cv_routing :: "cli_routing option"

section \<open>Validation\<close>

fun trim_start_matches :: "string \<Rightarrow> string \<Rightarrow> string" where
  "trim_start_matches pat [] = []"
| "trim_start_matches pat (c # cs) =
     (if pat \<noteq> [] \<and> prefix pat (c # cs) then trim_start_matches pat (drop (length pat - 1) cs) else c # cs)"

definition trim_end_char :: "char \<Rightarrow> string \<Rightarrow> string" where
  "trim_end_char c s = rev (dropWhile (\<lambda>x. x = c) (rev s))"

definition join_with :: "string \<Rightarrow> string list \<Rightarrow> string" where
  "join_with sep xs = (case xs of [] \<Rightarrow> [] | x # xs \<Rightarrow> x @ concat (map (\<lambda>y. sep @ y) xs))"

text \<open>\<open>{:?}\<close> of a list of strings without characters to escape.\<close>

definition debug_strings :: "string list \<Rightarrow> string" where
  "debug_strings xs = ''['' @ join_with '', '' (map (\<lambda>x. CHR 0x22 # x @ [CHR 0x22]) xs) @ '']''"

definition quoted :: "string \<Rightarrow> string" where "quoted s = CHR 0x27 # s @ [CHR 0x27]"

fun duplicate_errors :: "string set \<Rightarrow> cli_credential list \<Rightarrow> string list" where
  "duplicate_errors seen_ids [] = []"
| "duplicate_errors seen_ids (cred # rest) =
     (if cy_id cred \<in> seen_ids then [''Duplicate credential ID: '' @ cy_id cred] else [])
     @ duplicate_errors (insert (cy_id cred) seen_ids) rest"

definition credential_errors :: "nat \<Rightarrow> cli_credential \<Rightarrow> string list" where
  "credential_errors i cred =
     (if cy_id cred = [] then [''Credential '' @ show_nat i @ '': '' @ quoted ''id'' @ '' field is empty''] else [])
     @ (if cy_provider cred = [] then [''Credential '' @ show_nat i @ '': '' @ quoted ''provider'' @ '' field is empty''] else [])
     @ (if cy_api_key cred = [] then [''Credential '' @ show_nat i @ '': '' @ quoted ''api_key'' @ '' field is empty''] else [])"

definition credential_warnings :: "env_vars \<Rightarrow> cli_credential \<Rightarrow> string list" where
  "credential_warnings env cred =
     (if starts_with (cy_api_key cred) ''${'' \<and> \<not> str_contains (cy_api_key cred) '':-''
      then (let var_name = trim_end_char (CHR ''}'') (trim_start_matches ''${'' (cy_api_key cred))
            in if env var_name = None
               then [''Credential '' @ quoted (cy_id cred) @ '': environment variable '' @ quoted var_name @ '' not set'']
               else [])
      else [])"

definition cli_strategies :: "string list" where
  "cli_strategies = [''weighted'', ''adaptive'', ''round_robin'', ''time_aware'', ''quota_aware'', ''policy_aware'']"

definition routing_errors :: "cli_routing option \<Rightarrow> string list" where
  "routing_errors r = (case r of None \<Rightarrow> [] | Some routing \<Rightarrow>
     (if cg_strategy routing \<notin> set cli_strategies
      then [''Invalid routing strategy: '' @ quoted (cg_strategy routing) @ ''. Valid options: '' @ debug_strings cli_strategies]
      else []))"

definition config_errors :: "cli_config \<Rightarrow> string list" where
  "config_errors cfg = duplicate_errors {} (cv_credentials cfg)
     @ concat (map (\<lambda>(i, cred). credential_errors i cred) (enumerate 0 (cv_credentials cfg)))
     @ routing_errors (cv_routing cfg)"

definition config_warnings :: "env_vars \<Rightarrow> cli_config \<Rightarrow> string list" where
  "config_warnings env cfg = concat (map (credential_warnings env) (cv_credentials cfg))"

definition validate_config_content ::
  "(string \<Rightarrow> string + cli_config) \<Rightarrow> env_vars \<Rightarrow> string \<Rightarrow> string + cli_config \<times> string list \<times> string list" where
  "validate_config_content parse_yaml env content = (case parse_yaml content of
       Inl e \<Rightarrow> Inl e
     | Inr cfg \<Rightarrow> Inr (cfg, config_errors cfg, config_warnings env cfg))"

section \<open>Commands and their output\<close>

datatype cli_command = HealthCommand string | ModelsCommand string | ValidateCommand string

record model_row =
  row_id :: string
  row_provider :: string
  row_context :: string
  row_capabilities :: string

datatype printed = Line string | Pretty json | ModelTable "model_row list"

text \<open>Errors end the process: with their message (\<open>bail!\<close>) or with the context of a failed call.\<close>

datatype cli_error = Bail string | Failed string

record http_reply =
  ry_status :: nat
  ry_body :: "json option"

record terminal =
  tm_green :: "string \<Rightarrow> string"
  tm_yellow :: "string \<Rightarrow> string"
  tm_red :: "string \<Rightarrow> string"
  tm_bold :: "string \<Rightarrow> string"
  tm_status :: "nat \<Rightarrow> string"

definition is_success_status :: "nat \<Rightarrow> bool" where "is_success_status s \<longleftrightarrow> 200 \<le> s \<and> s < 300"

text \<open>What serde derives: a missing field is an error, or the default where there is one.\<close>

definition read_health :: "json \<Rightarrow> health_report option" where
  "read_health v =
     Option.bind (str_at tree_builder v ''status'') (\<lambda>status.
     Option.bind (u64_at tree_builder v ''uptime_secs'') (\<lambda>uptime.
     Option.bind (u64_at tree_builder v ''credential_count'') (\<lambda>total.
     Option.bind (u64_at tree_builder v ''healthy_count'') (\<lambda>healthy.
     Option.bind (u64_at tree_builder v ''degraded_count'') (\<lambda>degraded.
     Option.bind (u64_at tree_builder v ''unhealthy_count'') (\<lambda>unhealthy.
       Some \<lparr>hs_status = status, hs_uptime_secs = int uptime, hs_credential_count = total, hs_healthy_count = healthy,
             hs_degraded_count = degraded, hs_unhealthy_count = unhealthy\<rparr>))))))"

definition with_default :: "'a \<Rightarrow> (json \<Rightarrow> 'a option) \<Rightarrow> json option \<Rightarrow> 'a option" where
  "with_default d f v = (case v of None \<Rightarrow> Some d | Some w \<Rightarrow> f w)"

definition read_strings :: "json \<Rightarrow> string list option" where
  "read_strings v = Option.bind (js_array tree_builder v) (\<lambda>vs. those (map (js_str tree_builder) vs))"

definition read_model :: "json \<Rightarrow> model_entry option" where
  "read_model v =
     Option.bind (str_at tree_builder v ''id'') (\<lambda>i.
     Option.bind (str_at tree_builder v ''provider'') (\<lambda>provider.
     Option.bind (with_default [] read_strings (js_get tree_builder v ''capabilities'')) (\<lambda>capabilities.
     Option.bind (with_default 0 (js_u64 tree_builder) (js_get tree_builder v ''context_window'')) (\<lambda>window.
       Some \<lparr>me_id = i, me_provider = provider, me_capabilities = capabilities, me_context_window = window\<rparr>))))"

record models_list =
  ml_models :: "model_entry list"
  ml_count :: nat
  ml_message :: "string option"

definition read_message :: "json \<Rightarrow> string option option" where
  "read_message v = (if js_is_null tree_builder v then Some None else map_option Some (js_str tree_builder v))"

definition read_models :: "json \<Rightarrow> models_list option" where
  "read_models v =
     Option.bind (Option.bind (array_at tree_builder v ''models'') (\<lambda>vs. those (map read_model vs))) (\<lambda>models.
     Option.bind (u64_at tree_builder v ''count'') (\<lambda>n.
     Option.bind (with_default None read_message (js_get tree_builder v ''message'')) (\<lambda>msg.
       Some \<lparr>ml_models = models, ml_count = n, ml_message = msg\<rparr>)))"

section \<open>Health\<close>

definition show_health :: "terminal \<Rightarrow> nat \<Rightarrow> health_report \<Rightarrow> printed list" where
  "show_health tm latency_ms h =
     [Line (tm_bold tm (tm_green tm ''GATEWAY HEALTH'')), Line (replicate 50 (CHR ''='')),
      Line (''Status:           '' @ tm_green tm (hs_status h)),
      Line (''Uptime:           '' @ show_nat (nat (hs_uptime_secs h)) @ ''s''),
      Line (''Latency:          '' @ show_nat latency_ms @ ''ms''), Line [], Line ''Credentials:'',
      Line (''  Total:          '' @ show_nat (hs_credential_count h)),
      Line (''  Healthy:        '' @ tm_green tm (show_nat (hs_healthy_count h)))]
     @ (if 0 < hs_degraded_count h then [Line (''  Degraded:       '' @ tm_yellow tm (show_nat (hs_degraded_count h)))] else [])
     @ (if 0 < hs_unhealthy_count h then [Line (''  Unhealthy:      '' @ tm_red tm (show_nat (hs_unhealthy_count h)))] else [])"

definition health_output_json :: "nat \<Rightarrow> health_report \<Rightarrow> json" where
  "health_output_json latency_ms h = JObj
     [(''status'', JStr (hs_status h)), (''uptime_secs'', JNum (nat (hs_uptime_secs h))), (''latency_ms'', JNum latency_ms),
      (''credential_count'', JNum (hs_credential_count h)), (''healthy_count'', JNum (hs_healthy_count h)),
      (''degraded_count'', JNum (hs_degraded_count h)), (''unhealthy_count'', JNum (hs_unhealthy_count h))]"

definition in_quotes :: "string \<Rightarrow> string" where "in_quotes s = CHR 0x22 # s @ [CHR 0x22]"

definition error_status_line :: "nat \<Rightarrow> nat \<Rightarrow> string" where
  "error_status_line status latency_ms =
     ''{'' @ in_quotes ''status'' @ '': '' @ in_quotes ''error'' @ '', '' @ in_quotes ''code'' @ '': '' @ show_nat status
       @ '', '' @ in_quotes ''latency_ms'' @ '': '' @ show_nat latency_ms @ ''}''"

definition health_command :: "bool \<Rightarrow> terminal \<Rightarrow> (string \<Rightarrow> http_reply option) \<Rightarrow> nat \<Rightarrow> string \<Rightarrow> printed list \<times> (cli_error + unit)" where
  "health_command format_json tm get latency_ms url =
     (let health_url = trim_end_slashes url @ ''/health'' in
      case get health_url of
        None \<Rightarrow> ([], Inl (Failed ''Failed to connect to gateway''))
      | Some response \<Rightarrow>
          (if \<not> is_success_status (ry_status response) then
             ([Line (if format_json then error_status_line (ry_status response) latency_ms
                else tm_bold tm (tm_red tm ''UNHEALTHY'') @ '': Gateway returned status '' @ tm_status tm (ry_status response))],
              Inl (Bail (''UNHEALTHY: Gateway returned status '' @ tm_status tm (ry_status response))))
           else case Option.bind (ry_body response) read_health of
             None \<Rightarrow> ([], Inl (Failed ''Failed to parse health response''))
           | Some health \<Rightarrow>
               (if format_json then [Pretty (health_output_json latency_ms health)] else show_health tm latency_ms health,
                if hs_status health \<noteq> ''healthy'' \<or> 0 < hs_unhealthy_count health
                then Inl (Bail (''UNHEALTHY: status='' @ hs_status health @ '', unhealthy='' @ show_nat (hs_unhealthy_count health)))
                else Inr ())))"

section \<open>Models\<close>

definition model_row_of :: "model_entry \<Rightarrow> model_row" where
  "model_row_of m = \<lparr>row_id = me_id m, row_provider = me_provider m,
     row_context = show_nat (me_context_window m div 1000) @ ''K'', row_capabilities = join_with '', '' (me_capabilities m)\<rparr>"

definition models_output_json :: "models_list \<Rightarrow> json" where
  "models_output_json ms = JObj
     [(''models'', JArr (map model_json (ml_models ms))), (''count'', JNum (ml_count ms)),
      (''message'', case ml_message ms of Some m \<Rightarrow> JStr m | None \<Rightarrow> JNull)]"

definition models_command :: "bool \<Rightarrow> terminal \<Rightarrow> (string \<Rightarrow> http_reply option) \<Rightarrow> string \<Rightarrow> printed list \<times> (cli_error + unit)" where
  "models_command format_json tm get url =
     (let models_url = trim_end_slashes url @ ''/api/models'' in
      case get models_url of
        None \<Rightarrow> ([], Inl (Failed ''Failed to connect to gateway''))
      | Some response \<Rightarrow>
          (if \<not> is_success_status (ry_status response)
           then ([], Inl (Bail (''Gateway returned status '' @ tm_status tm (ry_status response))))
           else case Option.bind (ry_body response) read_models of
             None \<Rightarrow> ([], Inl (Failed ''Failed to parse models response''))
           | Some models \<Rightarrow>
               (if format_json then [Pretty (models_output_json models)]
                else if ml_models models = [] then
                  Line ''No models configured.'' # (case ml_message models of Some msg \<Rightarrow> [Line (tm_yellow tm msg)] | None \<Rightarrow> [])
                else [ModelTable (map model_row_of (ml_models models)), Line [],
                      Line (''Total: '' @ show_nat (ml_count models) @ '' models'')],
                Inr ())))"

section \<open>Validate\<close>

text \<open>The marks of the output, in UTF-8.\<close>

definition check_mark :: string where "check_mark = [CHR 0xE2, CHR 0x9C, CHR 0x93]"
definition cross_mark :: string where "cross_mark = [CHR 0xE2, CHR 0x9C, CHR 0x97]"
definition warning_mark :: string where "warning_mark = [CHR 0xE2, CHR 0x9A, CHR 0xA0]"

definition opt_json :: "('a \<Rightarrow> json) \<Rightarrow> 'a option \<Rightarrow> json" where
  "opt_json f x = (case x of Some a \<Rightarrow> f a | None \<Rightarrow> JNull)"

definition validation_json :: "string \<Rightarrow> cli_config \<Rightarrow> string list \<Rightarrow> string list \<Rightarrow> json" where
  "validation_json path cfg errors warnings = JObj
     [(''valid'', JBool (errors = [])), (''errors'', JArr (map JStr errors)), (''warnings'', JArr (map JStr warnings)),
      (''file'', JStr path), (''credentials_count'', JNum (length (cv_credentials cfg))),
      (''server'', opt_json (\<lambda>s. JObj [(''port'', JNum (cs_port s)), (''host'', opt_json JStr (cs_host s)),
         (''timeout_secs'', opt_json JNum (cs_timeout_secs s))]) (cv_server cfg)),
      (''routing'', opt_json (\<lambda>r. JStr (cg_strategy r)) (cv_routing cfg))]"

definition invalid_json :: "string \<Rightarrow> json" where
  "invalid_json e = JObj [(''valid'', JBool False), (''error'', JStr e)]"

definition credential_lines :: "cli_credential \<Rightarrow> printed list" where
  "credential_lines cred =
     Line (''    - '' @ cy_id cred @ '' ('' @ cy_provider cred @ ''): priority='' @ show_int (cy_priority cred)
       @ '', models='' @ show_nat (length (cy_allowed_models cred)))
     # (case cy_base_url cred of Some base_url \<Rightarrow> [Line (''      base_url: '' @ base_url)] | None \<Rightarrow> [])"

definition bool_text :: "bool \<Rightarrow> string" where "bool_text b = (if b then ''true'' else ''false'')"

definition valid_lines :: "terminal \<Rightarrow> string \<Rightarrow> cli_config \<Rightarrow> string list \<Rightarrow> printed list" where
  "valid_lines tm path cfg warnings =
     [Line (tm_green tm check_mark @ '' Configuration is valid''), Line (''  File: '' @ path)]
     @ (case cv_server cfg of None \<Rightarrow> [] | Some server \<Rightarrow>
          [Line (''  Server: port='' @ show_nat (cs_port server) @ '', host=''
             @ (case cs_host server of Some h \<Rightarrow> h | None \<Rightarrow> ''default''))])
     @ [Line (''  Credentials: '' @ show_nat (length (cv_credentials cfg)) @ '' defined'')]
     @ concat (map credential_lines (cv_credentials cfg))
     @ (case cv_routing cfg of None \<Rightarrow> [] | Some routing \<Rightarrow>
          [Line (''  Strategy: '' @ cg_strategy routing @ '' (session_affinity='' @ bool_text (cg_session_affinity routing) @ '')'')])
     @ (if warnings = [] then []
        else [Line [], Line (tm_yellow tm ''Warnings:'')] @ map (\<lambda>w. Line (''  '' @ warning_mark @ '' '' @ w)) warnings)"

definition validate_command ::
  "bool \<Rightarrow> terminal \<Rightarrow> (string \<Rightarrow> bool) \<Rightarrow> (string \<Rightarrow> string option) \<Rightarrow> (string \<Rightarrow> string + cli_config) \<Rightarrow> env_vars \<Rightarrow> string
    \<Rightarrow> printed list \<times> (cli_error + unit)" where
  "validate_command format_json tm exists read parse_yaml env path =
     (if \<not> exists path then
        ([if format_json then Pretty (invalid_json (''File not found: '' @ path))
          else Line (tm_bold tm (tm_red tm ''ERROR'') @ '': File not found: '' @ path)],
         Inl (Bail (''File not found: '' @ path)))
      else case read path of
        None \<Rightarrow> ([], Inl (Failed ''Failed to read configuration file''))
      | Some content \<Rightarrow> (case validate_config_content parse_yaml env content of
          Inr (cfg, errors, warnings) \<Rightarrow>
            (if format_json then [Pretty (validation_json path cfg errors warnings)]
             else if errors = [] then valid_lines tm path cfg warnings
             else [Line (tm_red tm cross_mark @ '' Configuration has errors''), Line []]
               @ map (\<lambda>e. Line (''  '' @ cross_mark @ '' '' @ e)) errors,
             if errors \<noteq> [] then Inl (Bail (''Configuration validation failed with '' @ show_nat (length errors) @ '' errors''))
             else Inr ())
        | Inl e \<Rightarrow>
            (if format_json then [Pretty (invalid_json e)]
             else [Line (tm_bold tm (tm_red tm ''ERROR'') @ '': Invalid YAML syntax''), Line (''  '' @ e)],
             Inl (Bail (''Invalid YAML syntax: '' @ e)))))"

definition cli_main ::
  "string \<Rightarrow> terminal \<Rightarrow> (string \<Rightarrow> http_reply option) \<Rightarrow> nat \<Rightarrow> (string \<Rightarrow> bool) \<Rightarrow> (string \<Rightarrow> string option)
    \<Rightarrow> (string \<Rightarrow> string + cli_config) \<Rightarrow> env_vars \<Rightarrow> cli_command \<Rightarrow> printed list \<times> (cli_error + unit)" where
  "cli_main output_format tm get latency_ms exists read parse_yaml env command =
     (let format_json = (output_format = ''json'') in
      case command of
        HealthCommand url \<Rightarrow> health_command format_json tm get latency_ms url
      | ModelsCommand url \<Rightarrow> models_command format_json tm get url
      | ValidateCommand path \<Rightarrow> validate_command format_json tm exists read parse_yaml env path)"

section \<open>The verdict of validation\<close>

lemma duplicate_errors_Nil:
  "duplicate_errors seen cs = [] \<longleftrightarrow> distinct (map cy_id cs) \<and> seen \<inter> cy_id ` set cs = {}"
  by (induction seen cs rule: duplicate_errors.induct) auto

lemma config_errors_Nil:
  "config_errors cfg = [] \<longleftrightarrow> distinct (map cy_id (cv_credentials cfg))
     \<and> list_all (\<lambda>c. cy_id c \<noteq> [] \<and> cy_provider c \<noteq> [] \<and> cy_api_key c \<noteq> []) (cv_credentials cfg)
     \<and> (case cv_routing cfg of None \<Rightarrow> True | Some r \<Rightarrow> cg_strategy r \<in> set cli_strategies)"
proof -
  have "concat (map (\<lambda>(i, cred). credential_errors i cred) (enumerate n cs)) = [] \<longleftrightarrow>
      list_all (\<lambda>c. cy_id c \<noteq> [] \<and> cy_provider c \<noteq> [] \<and> cy_api_key c \<noteq> []) cs" for n cs
    by (induction cs arbitrary: n) (auto simp: credential_errors_def)
  then show ?thesis
    by (auto simp: config_errors_def duplicate_errors_Nil routing_errors_def split: option.split)
qed

text \<open>The command succeeds exactly if the file can be read and parsed, the identifiers of its credentials are
  distinct, every credential has an identifier, a provider and a key, and the strategy, if there is one, is of
  the list; warnings never make it fail, and the output format does not matter.\<close>

theorem validate_verdict:
  "snd (validate_command format_json tm exists read parse_yaml env path) = Inr () \<longleftrightarrow>
     exists path \<and> (\<exists>content cfg. read path = Some content \<and> parse_yaml content = Inr cfg
       \<and> distinct (map cy_id (cv_credentials cfg))
       \<and> list_all (\<lambda>c. cy_id c \<noteq> [] \<and> cy_provider c \<noteq> [] \<and> cy_api_key c \<noteq> []) (cv_credentials cfg)
       \<and> (case cv_routing cfg of None \<Rightarrow> True | Some r \<Rightarrow> cg_strategy r \<in> set cli_strategies))"
  unfolding config_errors_Nil[symmetric]
  by (auto simp: validate_command_def validate_config_content_def split: option.split sum.split)

section \<open>The tool and the gateway on one configuration\<close>

text \<open>What both read from one file: the tool leaves fields out, and a missing routing section is the default.\<close>

definition same_file :: "gateway_config \<Rightarrow> cli_config \<Rightarrow> bool" where
  "same_file g c \<longleftrightarrow> map (\<lambda>x. (cy_id x, cy_provider x, cy_api_key x)) (cv_credentials c)
       = map (\<lambda>x. (cc_id x, cc_provider x, cc_api_key x)) (gc_credentials g)
     \<and> rp_strategy (gc_routing g) = (case cv_routing c of None \<Rightarrow> ''weighted'' | Some r \<Rightarrow> cg_strategy r)"

lemma same_file_lists:
  assumes "same_file g c"
  shows "map cy_id (cv_credentials c) = map cc_id (gc_credentials g)"
    and "list_all (\<lambda>x. P (cy_id x) (cy_provider x) (cy_api_key x)) (cv_credentials c)
      = list_all (\<lambda>x. P (cc_id x) (cc_provider x) (cc_api_key x)) (gc_credentials g)"
proof -
  let ?cli = "map (\<lambda>x. (cy_id x, cy_provider x, cy_api_key x)) (cv_credentials c)"
  let ?gw = "map (\<lambda>x. (cc_id x, cc_provider x, cc_api_key x)) (gc_credentials g)"
  have eq: "?cli = ?gw" using assms by (simp add: same_file_def)
  have "map fst ?cli = map fst ?gw" by (simp only: eq)
  then show "map cy_id (cv_credentials c) = map cc_id (gc_credentials g)" by (simp add: comp_def)
  have "list_all (\<lambda>(i, p, k). P i p k) ?cli = list_all (\<lambda>(i, p, k). P i p k) ?gw" by (simp only: eq)
  then show "list_all (\<lambda>x. P (cy_id x) (cy_provider x) (cy_api_key x)) (cv_credentials c)
      = list_all (\<lambda>x. P (cc_id x) (cc_provider x) (cc_api_key x)) (gc_credentials g)"
    by (simp add: list_all_iff)
qed

lemma expand_empty: "expand_env_var env [] = []"
  by (simp add: expand_env_var_def expand_loop.simps)

text \<open>C10. Two validators of one file: what the gateway accepts, after expanding variables, the tool rejects only for
  an empty identifier; what the tool accepts the gateway rejects exactly for the strategy \<open>round_robin\<close> or a
  credential whose expanded key is empty, whose base URL is private, or whose quota or rate limit is zero.\<close>

theorem validators_compared:
  assumes "same_file g c"
  shows "(gateway_validate parse_url (expand_env_vars env g) = Inr () \<longrightarrow>
            (config_errors c = [] \<longleftrightarrow> list_all (\<lambda>x. cc_id x \<noteq> []) (gc_credentials g)))
    \<and> (config_errors c = [] \<longrightarrow>
            (gateway_validate parse_url (expand_env_vars env g) = Inr () \<longleftrightarrow> rp_strategy (gc_routing g) \<noteq> ''round_robin''
               \<and> list_all (credential_ok parse_url) (map (expand_credential env) (gc_credentials g))))"
proof -
  let ?creds = "gc_credentials g"
  have ids: "map cc_id (map (expand_credential env) ?creds) = map cc_id ?creds" by (simp add: expand_credential_def comp_def)
  have gateway: "gateway_validate parse_url (expand_env_vars env g) = Inr () \<longleftrightarrow> distinct (map cc_id ?creds)
      \<and> list_all (credential_ok parse_url) (map (expand_credential env) ?creds) \<and> rp_strategy (gc_routing g) \<in> set gateway_strategies"
    using gateway_validate_parts[of parse_url "expand_env_vars env g"]
      credentials_checked[of "map (expand_credential env) ?creds" parse_url]
    unfolding ids by (auto simp: expand_env_vars_def)
  have kept: "credential_ok parse_url (expand_credential env x) \<Longrightarrow> cc_provider x \<noteq> [] \<and> cc_api_key x \<noteq> []" for x
    by (cases "cc_api_key x") (auto simp: credential_ok_def expand_credential_def expand_empty)
  have tool: "config_errors c = [] \<longleftrightarrow> distinct (map cc_id ?creds)
      \<and> list_all (\<lambda>x. cc_id x \<noteq> [] \<and> cc_provider x \<noteq> [] \<and> cc_api_key x \<noteq> []) ?creds
      \<and> rp_strategy (gc_routing g) \<in> set cli_strategies"
    using same_file_lists(1)[OF assms] same_file_lists(2)[OF assms, of "\<lambda>i p k. i \<noteq> [] \<and> p \<noteq> [] \<and> k \<noteq> []"] assms
    by (auto simp: config_errors_Nil same_file_def cli_strategies_def split: option.splits)
  have "rp_strategy (gc_routing g) \<in> set gateway_strategies \<longleftrightarrow>
      rp_strategy (gc_routing g) \<in> set cli_strategies \<and> rp_strategy (gc_routing g) \<noteq> ''round_robin''"
    by (auto simp: gateway_strategies_def cli_strategies_def)
  then show ?thesis unfolding gateway tool using kept by (auto simp: list_all_iff)
qed

theorem validators_compared_witness:
  "config_errors \<lparr>cv_server = None, cv_credentials = [], cv_routing = Some \<lparr>cg_strategy = ''round_robin'', cg_session_affinity = True\<rparr>\<rparr> = []
   \<and> gateway_validate (\<lambda>url. Inr None) (expand_env_vars (\<lambda>name. None) (default_gateway_config
       \<lparr>gc_routing := default_routing_policy_config\<lparr>rp_strategy := ''round_robin''\<rparr>\<rparr>)) \<noteq> Inr ()"
proof -
  let ?g = "default_gateway_config\<lparr>gc_routing := default_routing_policy_config\<lparr>rp_strategy := ''round_robin''\<rparr>\<rparr>"
  let ?c = "\<lparr>cv_server = None, cv_credentials = [], cv_routing = Some \<lparr>cg_strategy = ''round_robin'', cg_session_affinity = True\<rparr>\<rparr>"
  have "same_file ?g ?c" by (simp add: same_file_def default_gateway_config_def)
  from validators_compared[OF this, of "\<lambda>url. Inr None" "\<lambda>name. None"] show ?thesis
    by (simp add: config_errors_def routing_errors_def cli_strategies_def)
qed

section \<open>The tool against the gateway\<close>

text \<open>A \<open>GET\<close> without any header, as the tool sends it, to a gateway that serves under a base URL; a path that
  is not routed gets axum's 404.\<close>

definition bare_request :: "string \<Rightarrow> wire_request" where
  "bare_request peer = \<lparr>wq_headers = (\<lambda>_. None), wq_peer_ip = peer, wq_body = Inl 415\<rparr>"

definition gateway_get :: "request_env \<Rightarrow> string \<Rightarrow> gateway \<Rightarrow> string \<Rightarrow> string \<Rightarrow> http_reply option" where
  "gateway_get env peer g base url =
     (case List.find (\<lambda>e. url = base @ snd (endpoint_route e)) [Root, HealthEndpoint, Models, RouteEndpoint] of
        None \<Rightarrow> Some \<lparr>ry_status = 404, ry_body = None\<rparr>
      | Some e \<Rightarrow> map_option (\<lambda>r. \<lparr>ry_status = ws_status r, ry_body = ws_body r\<rparr>) (fst (serve env e (bare_request peer) g)))"

lemma tree_get [simp]: "js_get tree_builder (JObj fs) k = map_of fs k"
  and tree_str [simp]: "js_str tree_builder (JStr s) = Some s"
  and tree_u64 [simp]: "js_u64 tree_builder (JNum n) = Some n"
  and tree_array [simp]: "js_array tree_builder (JArr vs) = Some vs"
  and tree_null [simp]: "js_is_null tree_builder (JStr s) = False"
  by (simp_all add: tree_builder_defs)

lemma read_health_json: "0 \<le> hs_uptime_secs h \<Longrightarrow> read_health (health_json h) = Some h"
  by (simp add: read_health_def health_json_def str_at_def u64_at_def)

lemma read_model_json: "read_model (model_json m) = Some m"
  by (simp add: read_model_def model_json_def str_at_def with_default_def read_strings_def comp_def)

lemma read_models_json: "read_models (models_json (ms, n, msg)) = Some \<lparr>ml_models = ms, ml_count = n, ml_message = Some msg\<rparr>"
  by (simp add: read_models_def models_json_def array_at_def u64_at_def with_default_def read_message_def comp_def
      read_model_json)

lemma trim_base: "base = [] \<or> last base \<noteq> CHR ''/'' \<Longrightarrow> trim_end_slashes (base @ replicate n (CHR ''/'')) = base"
proof (induction n)
  case 0
  then show ?case by (cases base rule: rev_cases) (auto simp: trim_end_slashes_def)
next
  case (Suc n)
  then show ?case using trim_end_slashes_snoc[of "base @ replicate n (CHR ''/'')"] by (simp add: replicate_append_same)
qed

lemma serve_bare:
  assumes "ct_eq_ok (re_ct_eq env)" and "e \<in> {HealthEndpoint, Models}"
  shows "fst (serve env e (bare_request peer) g) = Some (security_headers_middleware
    (let st = gw_state g; limited = limiter_check (re_now env) (client_ip (re_parse_ip env) st (http_request_of (bare_request peer))) (as_rate_limiter st);
         tokens = sv_auth_tokens (gc_server (as_config st)) in
     if \<not> fst limited then json_response 429 (error_json TooManyRequests)
     else if e = HealthEndpoint then json_response 200 (health_json (health_check (re_now env) (st\<lparr>as_rate_limiter := snd limited\<rparr>)))
     else if tokens \<noteq> [] then json_response 401 (error_json MissingAuthorization)
     else if \<not> development (re_vars env) then json_response 403 (error_json Forbidden)
     else json_response 200 (models_json (list_models (st\<lparr>as_rate_limiter := snd limited\<rparr>)))))"
proof -
  let ?req = "http_request_of (bare_request peer)"
  obtain ok l where lim: "limiter_check (re_now env) (client_ip (re_parse_ip env) (gw_state g) ?req) (as_rate_limiter (gw_state g)) = (ok, l)"
    by fastforce
  have "rq_authorization ?req = None" by (simp add: http_request_of_def bare_request_def header_text_def)
  then show ?thesis
    using assms(2) admit_eq[OF lim, of "re_ct_eq env" "re_vars env" e] auth_status[OF assms(1)]
    by (auto simp: serve_response lim run_handler_def protected_endpoint_def Let_def)
qed

text \<open>C11. The tool against the gateway itself, whatever its configuration and history: the health command succeeds
  whenever the rate limiter accepts it, no health of any credential makes it fail; the models command, which
  sends no token, succeeds only in development mode without configured tokens.\<close>

theorem tool_against_gateway:
  fixes env peer g base n
  assumes "ct_eq_ok (re_ct_eq env)" and "base = [] \<or> last base \<noteq> CHR ''/''" and "as_start_time (gw_state g) \<le> re_now env"
  defines "get \<equiv> gateway_get env peer g base" and "url \<equiv> base @ replicate n (CHR ''/'')"
    and "accepted \<equiv> fst (limiter_check (re_now env) (client_ip (re_parse_ip env) (gw_state g) (http_request_of (bare_request peer)))
      (as_rate_limiter (gw_state g)))"
  shows "(snd (health_command format_json tm get latency url) = Inr () \<longleftrightarrow> accepted)
    \<and> (snd (models_command format_json tm get url) = Inr () \<longleftrightarrow>
         accepted \<and> sv_auth_tokens (gc_server (as_config (gw_state g))) = [] \<and> development (re_vars env))"
proof -
  have url: "trim_end_slashes url = base" using trim_base[OF assms(2)] by (simp add: url_def)
  have "get (base @ ''/health'') = map_option (\<lambda>r. \<lparr>ry_status = ws_status r, ry_body = ws_body r\<rparr>) (fst (serve env HealthEndpoint (bare_request peer) g))"
    and "get (base @ ''/api/models'') = map_option (\<lambda>r. \<lparr>ry_status = ws_status r, ry_body = ws_body r\<rparr>) (fst (serve env Models (bare_request peer) g))"
    by (simp_all add: get_def gateway_get_def)
  moreover have "read_health (health_json (health_check (re_now env) st)) = Some (health_check (re_now env) st)"
    if "as_start_time st \<le> re_now env" for st
    by (rule read_health_json) (use that in \<open>simp add: health_check_def secs_since_def nanos_per_second_def Let_def\<close>)
  moreover have "hs_status (health_check t st) = ''healthy'' \<and> hs_unhealthy_count (health_check t st) = 0" for t st
    by (simp add: health_check_def Let_def)
  moreover have "read_models (models_json (list_models st)) = (case list_models st of (ms, n, msg) \<Rightarrow>
      Some \<lparr>ml_models = ms, ml_count = n, ml_message = Some msg\<rparr>)" for st
    by (cases "list_models st") (simp add: read_models_json)
  ultimately show ?thesis
    using assms(3) by (auto simp: health_command_def models_command_def url serve_bare[OF assms(1)] is_success_status_def
        json_response_def accepted_def Let_def split: option.split prod.split)
qed

definition plain_terminal :: terminal where
  "plain_terminal = \<lparr>tm_green = id, tm_yellow = id, tm_red = id, tm_bold = id, tm_status = show_nat\<rparr>"

theorem tool_against_gateway_witness:
  "snd (health_command True plain_terminal (gateway_get sample_request_env ''10.0.0.9'' guarded_gateway ''http://gw'') 3 ''http://gw//'') = Inr ()
   \<and> snd (models_command True plain_terminal (gateway_get sample_request_env ''10.0.0.9'' guarded_gateway ''http://gw'') ''http://gw//'') \<noteq> Inr ()"
proof -
  have ct: "ct_eq_ok (re_ct_eq sample_request_env)" by (simp add: sample_request_env_def ct_eq_ok_def byte_eq_def)
  have "as_start_time (gw_state guarded_gateway) \<le> re_now sample_request_env"
    by (simp add: guarded_gateway_def build_gateway_def build_app_state_def sample_request_env_def Let_def)
  from tool_against_gateway[OF ct _ this, of "''http://gw''" True plain_terminal "''10.0.0.9''" 3 2] show ?thesis
    by (simp add: numeral_2_eq_2 sample_request_env_def guarded_gateway_def build_gateway_def build_app_state_def Let_def bare_request_def
        client_ip_def default_gateway_config_def default_server_config_def limiter_check_def limiter_new_def
        secs_since_def http_request_of_def default_rate_limit_def)
qed

end
