(* ===== verification/Startup.thy ===== *)
theory Startup
  imports Http
begin

text \<open>
  Starting the gateway and what it does while it runs (\<open>run\<close> of src/lib.rs): the configuration is loaded,
  the state built, the configured address parsed and bound, in this order, each with its error; then the
  gateway serves requests while a background task sweeps the table of the rate limiter every two minutes.
  Reading a socket address and binding it are the standard library's and the system's, hence parameters.
  Requests are served one at a time; the events of a run carry the clock readings they make.
\<close>

section \<open>Starting\<close>

datatype start_error = ConfigRejected string config_error | InvalidAddress string | BindFailed

definition configured_address :: "gateway_config \<Rightarrow> string" where
  "configured_address cfg = sv_host (gc_server cfg) @ '':'' @ show_nat (sv_port (gc_server cfg))"

definition start_up ::
  "(string \<times> config_error + gateway_config) \<Rightarrow> (string \<Rightarrow> 'a option) \<Rightarrow> ('a \<Rightarrow> bool) \<Rightarrow> time \<Rightarrow> start_error + 'a \<times> gateway" where
  "start_up loaded parse_addr bind now = (case loaded of
       Inl (path, e) \<Rightarrow> Inl (ConfigRejected path e)
     | Inr config \<Rightarrow>
         (let gateway = build_gateway now config None;
              address = configured_address (as_config (gw_state gateway))
          in case parse_addr address of
               None \<Rightarrow> Inl (InvalidAddress address)
             | Some addr \<Rightarrow> (if bind addr then Inr (addr, gateway) else Inl BindFailed)))"

section \<open>Running\<close>

text \<open>What happens to a running gateway: a request is served, or the pruning task ticks.\<close>

datatype gateway_event = Incoming request_env endpoint wire_request | PruneTick time

fun event_time :: "gateway_event \<Rightarrow> time" where
  "event_time (Incoming env e rq) = re_now env"
| "event_time (PruneTick now) = now"

fun is_incoming :: "gateway_event \<Rightarrow> bool" where
  "is_incoming (Incoming env e rq) = True"
| "is_incoming (PruneTick now) = False"

definition prune_tick :: "time \<Rightarrow> gateway \<Rightarrow> gateway" where
  "prune_tick now g = g\<lparr>gw_state := (gw_state g)\<lparr>as_rate_limiter := limiter_prune now (as_rate_limiter (gw_state g))\<rparr>\<rparr>"

fun run_events :: "gateway_event list \<Rightarrow> gateway \<Rightarrow> wire_response option list \<times> gateway" where
  "run_events [] g = ([], g)"
| "run_events (Incoming env e rq # es) g = (case serve env e rq g of
     (r, g') \<Rightarrow> (case run_events es g' of (rs, g'') \<Rightarrow> (r # rs, g'')))"
| "run_events (PruneTick now # es) g = run_events es (prune_tick now g)"

section \<open>A swept table answers like the full one\<close>

text \<open>An entry that is only in the full table is past its window.\<close>

definition swept :: "time \<Rightarrow> rate_limiter \<Rightarrow> rate_limiter \<Rightarrow> bool" where
  "swept now l full \<longleftrightarrow> rl_max_requests l = rl_max_requests full \<and> hm_ok (rl_buckets l) \<and>
     (\<forall>ip. hm_get (rl_buckets l) ip = hm_get (rl_buckets full) ip \<or>
           hm_get (rl_buckets l) ip = None \<and> (\<exists>c s. hm_get (rl_buckets full) ip = Some (c, s) \<and> 60 \<le> secs_since now s))"

lemma secs_since_mono: "t \<le> t' \<Longrightarrow> secs_since t s \<le> secs_since t' s"
  by (auto simp: secs_since_def nanos_per_second_def intro: zdiv_mono1)

lemma secs_since_self [simp]: "secs_since t t = 0"
  by (simp add: secs_since_def)

lemma swept_refl: "hm_ok (rl_buckets l) \<Longrightarrow> swept now l l"
  by (simp add: swept_def)

lemma swept_later: "swept t l full \<Longrightarrow> t \<le> t' \<Longrightarrow> swept t' l full"
  unfolding swept_def using secs_since_mono by (meson order.trans)

lemma swept_prune:
  assumes "swept now l full"
  shows "swept now (limiter_prune now l) full"
proof -
  have "hm_get (rl_buckets (limiter_prune now l)) ip = hm_get (rl_buckets full) ip \<or>
      hm_get (rl_buckets (limiter_prune now l)) ip = None
        \<and> (\<exists>c s. hm_get (rl_buckets full) ip = Some (c, s) \<and> 60 \<le> secs_since now s)" for ip
  proof (cases "hm_get (rl_buckets l) ip")
    case None
    then have "hm_get (rl_buckets (limiter_prune now l)) ip = None"
      using assms by (simp add: swept_def limiter_prune_def hm_get_retain)
    then show ?thesis using assms None unfolding swept_def by metis
  next
    case (Some b)
    then have "hm_get (rl_buckets full) ip = Some b" using assms unfolding swept_def by (metis option.distinct(1))
    then show ?thesis using assms Some by (cases b) (simp add: swept_def limiter_prune_def hm_get_retain)
  qed
  then show ?thesis using assms by (simp add: swept_def limiter_prune_def hm_ok_retain)
qed

lemma swept_check:
  assumes "swept now l full"
  shows "fst (limiter_check now ip l) = fst (limiter_check now ip full)
    \<and> swept now (snd (limiter_check now ip l)) (snd (limiter_check now ip full))"
proof (cases "ip = []")
  case True
  then show ?thesis using assms by (simp add: limiter_check_def)
next
  case False
  have "hm_get (rl_buckets l) ip = hm_get (rl_buckets full) ip \<or>
      hm_get (rl_buckets l) ip = None \<and> (\<exists>c s. hm_get (rl_buckets full) ip = Some (c, s) \<and> 60 \<le> secs_since now s)"
    using assms by (simp add: swept_def)
  then have same: "current_entry now ip l = current_entry now ip full"
    by (auto simp: current_entry_def)
  obtain c s where c: "current_entry now ip l = (c, s)" by fastforce
  show ?thesis
    using assms limiter_check_entry[OF False c] limiter_check_entry[OF False c[unfolded same]]
    by (simp add: swept_def store_simps)
qed

text \<open>The gateway with a swept table beside the one with the full table.\<close>

definition swept_gateway :: "time \<Rightarrow> gateway \<Rightarrow> gateway \<Rightarrow> bool" where
  "swept_gateway now g full \<longleftrightarrow> gw_traces g = gw_traces full
     \<and> swept now (as_rate_limiter (gw_state g)) (as_rate_limiter (gw_state full))
     \<and> gw_state g = (gw_state full)\<lparr>as_rate_limiter := as_rate_limiter (gw_state g)\<rparr>"

lemma swept_gateway_later: "swept_gateway t g full \<Longrightarrow> t \<le> t' \<Longrightarrow> swept_gateway t' g full"
  unfolding swept_gateway_def using swept_later by blast

lemma swept_gateway_prune: "swept_gateway now g full \<Longrightarrow> swept_gateway now (prune_tick now g) full"
  by (simp add: swept_gateway_def prune_tick_def swept_prune) (metis app_state.surjective app_state.update_convs(7))

lemma run_handler_limiter:
  "run_handler env e rq (st\<lparr>as_rate_limiter := l\<rparr>) = apsnd (\<lambda>s. s\<lparr>as_rate_limiter := l\<rparr>) (run_handler env e rq st)"
  by (cases e)
    (auto simp: run_handler_def health_check_def list_models_def route_request_def chat_completions_def Let_def
      split: option.splits sum.splits prod.splits)

lemma auth_ignores_limiter [simp]:
  "auth_middleware ct_eq vars (st\<lparr>as_rate_limiter := l\<rparr>) req = auth_middleware ct_eq vars st req"
  by (simp add: auth_middleware_def)

lemma client_ip_ignores_limiter [simp]: "client_ip parse_ip (st\<lparr>as_rate_limiter := l\<rparr>) req = client_ip parse_ip st req"
  by (simp add: client_ip_def)

text \<open>Serving at a limiter: only the verdict of the check and the new table depend on it.\<close>

definition answer_at :: "request_env \<Rightarrow> endpoint \<Rightarrow> wire_request \<Rightarrow> bool \<Rightarrow> app_state \<Rightarrow> wire_response option \<times> app_state" where
  "answer_at env e rq ok st =
     (case (if \<not> ok then Inl TooManyRequests
            else if protected_endpoint e then auth_middleware (re_ct_eq env) (re_vars env) st (http_request_of rq) else Inr ()) of
        Inl err \<Rightarrow> (Some (json_response (status_of err) (error_json err)), st)
      | Inr _ \<Rightarrow> run_handler env e rq st)"

lemma answer_at_limiter:
  "answer_at env e rq ok (st\<lparr>as_rate_limiter := l\<rparr>) = apsnd (\<lambda>s. s\<lparr>as_rate_limiter := l\<rparr>) (answer_at env e rq ok st)"
  by (simp add: answer_at_def run_handler_limiter split: sum.split)

lemma admit_answer:
  assumes "limiter_check (re_now env) (client_ip (re_parse_ip env) st (http_request_of rq)) (as_rate_limiter st) = (ok, l)"
  shows "(case admit (re_parse_ip env) (re_ct_eq env) (re_vars env) (re_now env) e (http_request_of rq) st of
       (Inl err, st) \<Rightarrow> (Some (json_response (status_of err) (error_json err)), st)
     | (Inr _, st) \<Rightarrow> run_handler env e rq st) = answer_at env e rq ok (st\<lparr>as_rate_limiter := l\<rparr>)"
  using admit_eq[OF assms] by (simp add: answer_at_def split: sum.split)

lemma serve_swept:
  assumes swept: "swept_gateway (re_now env) g full"
  shows "fst (serve env e rq g) = fst (serve env e rq full)
    \<and> swept_gateway (re_now env) (snd (serve env e rq g)) (snd (serve env e rq full))"
proof -
  define st where "st = gw_state full"
  define l where "l = as_rate_limiter (gw_state g)"
  define ip where "ip = client_ip (re_parse_ip env) st (http_request_of rq)"
  have g: "gw_state g = st\<lparr>as_rate_limiter := l\<rparr>" "gw_traces g = gw_traces full"
    and sw: "swept (re_now env) l (as_rate_limiter st)"
    using swept by (simp_all add: swept_gateway_def st_def l_def)
  obtain ok l1 where c1: "limiter_check (re_now env) ip l = (ok, l1)" by fastforce
  obtain l2 where c2: "limiter_check (re_now env) ip (as_rate_limiter st) = (ok, l2)"
    using swept_check[OF sw, of ip] c1 by (cases "limiter_check (re_now env) ip (as_rate_limiter st)") simp
  have l12: "swept (re_now env) l1 l2" using swept_check[OF sw, of ip] c1 c2 by simp
  obtain r s where a: "answer_at env e rq ok st = (r, s)" by fastforce
  have one: "(case admit (re_parse_ip env) (re_ct_eq env) (re_vars env) (re_now env) e (http_request_of rq) (gw_state g) of
       (Inl err, st) \<Rightarrow> (Some (json_response (status_of err) (error_json err)), st)
     | (Inr _, st) \<Rightarrow> run_handler env e rq st) = (r, s\<lparr>as_rate_limiter := l1\<rparr>)"
    using admit_answer[of env "gw_state g" rq ok l1 e] c1 a by (simp add: g ip_def answer_at_limiter)
  have two: "(case admit (re_parse_ip env) (re_ct_eq env) (re_vars env) (re_now env) e (http_request_of rq) (gw_state full) of
       (Inl err, st) \<Rightarrow> (Some (json_response (status_of err) (error_json err)), st)
     | (Inr _, st) \<Rightarrow> run_handler env e rq st) = (r, s\<lparr>as_rate_limiter := l2\<rparr>)"
    using admit_answer[of env "gw_state full" rq ok l2 e] c2 a by (simp add: ip_def answer_at_limiter flip: st_def)
  show ?thesis
    unfolding serve_def one two Let_def using l12 g(2) by (cases r) (simp_all add: swept_gateway_def)
qed

section \<open>A running gateway\<close>

lemma run_events_Incoming:
  "run_events (Incoming env e rq # es) g = (fst (serve env e rq g) # fst (run_events es (snd (serve env e rq g))),
     snd (run_events es (snd (serve env e rq g))))"
  by (simp split: prod.split)

lemma run_events_swept:
  "swept_gateway t g full \<Longrightarrow> \<forall>ev\<in>set es. t \<le> event_time ev \<Longrightarrow> sorted (map event_time es) \<Longrightarrow>
   fst (run_events es g) = fst (run_events (filter is_incoming es) full)"
proof (induction es arbitrary: t g full)
  case (Cons ev es)
  have le: "\<forall>e\<in>set es. event_time ev \<le> event_time e" and s: "sorted (map event_time es)" using Cons.prems(3) by auto
  have now: "swept_gateway (event_time ev) g full" using swept_gateway_later[OF Cons.prems(1)] Cons.prems(2) by simp
  show ?case
  proof (cases ev)
    case (Incoming env e rq)
    then show ?thesis
      using Cons.IH[OF conjunct2[OF serve_swept[of env g full e rq]]] serve_swept[of env g full e rq] now le s
      by (simp add: run_events_Incoming del: run_events.simps(2))
  next
    case (PruneTick now')
    then show ?thesis using Cons.IH[OF swept_gateway_prune] now le s by simp
  qed
qed simp

lemma swept_gateway_refl: "hm_ok (rl_buckets (as_rate_limiter (gw_state g))) \<Longrightarrow> swept_gateway t g g"
  by (simp add: swept_gateway_def swept_refl)

lemma built_table_ok: "hm_ok (rl_buckets (as_rate_limiter (gw_state (build_gateway now cfg limit))))"
  by (simp add: build_gateway_def build_app_state_def Let_def limiter_new_def)

lemma start_up_Inr:
  "start_up loaded parse_addr bind now = Inr (addr, g) \<longleftrightarrow> (\<exists>cfg. loaded = Inr cfg
     \<and> parse_addr (configured_address cfg) = Some addr \<and> bind addr \<and> g = build_gateway now cfg None)"
  by (auto simp: start_up_def Let_def build_gateway_def build_app_state_def split: sum.splits option.splits)

text \<open>C8. Sweeping the table of the rate limiter is invisible: with a monotonic clock a started gateway answers
  every request exactly as it would without the pruning task, whenever its ticks fall.\<close>

theorem pruning_unobservable:
  assumes "start_up loaded parse_addr bind now = Inr (addr, g)" and "sorted (map event_time es)"
  shows "fst (run_events es g) = fst (run_events (filter is_incoming es) g)"
proof (cases es)
  case (Cons ev rest)
  have "swept_gateway (event_time ev) g g"
    using assms(1) built_table_ok by (auto simp: start_up_Inr intro: swept_gateway_refl)
  then show ?thesis using run_events_swept[of "event_time ev" g g es] assms(2) Cons by auto
qed simp

section \<open>What a started gateway keeps\<close>

lemma serve_frame:
  "as_config (gw_state (snd (serve env e rq g))) = as_config (gw_state g)
    \<and> as_credentials (gw_state (snd (serve env e rq g))) = as_credentials (gw_state g)
    \<and> as_registry (gw_state (snd (serve env e rq g))) = as_registry (gw_state g)
    \<and> as_start_time (gw_state (snd (serve env e rq g))) = as_start_time (gw_state g)"
proof -
  have "as_config (snd (run_handler env e rq st)) = as_config st \<and> as_credentials (snd (run_handler env e rq st)) = as_credentials st
      \<and> as_registry (snd (run_handler env e rq st)) = as_registry st \<and> as_start_time (snd (run_handler env e rq st)) = as_start_time st" for st
    by (cases e) (auto simp: run_handler_def route_request_def chat_completions_def Let_def split: option.splits sum.splits prod.splits)
  then have frame: "as_config s = as_config st \<and> as_credentials s = as_credentials st
      \<and> as_registry s = as_registry st \<and> as_start_time s = as_start_time st" if "answer_at env e rq ok st = (r, s)" for ok st r s
    using that by (auto simp: answer_at_def split: sum.splits if_splits) (metis snd_conv)+
  obtain ok l where c: "limiter_check (re_now env) (client_ip (re_parse_ip env) (gw_state g) (http_request_of rq))
      (as_rate_limiter (gw_state g)) = (ok, l)" by fastforce
  obtain r s where a: "answer_at env e rq ok ((gw_state g)\<lparr>as_rate_limiter := l\<rparr>) = (r, s)" by fastforce
  show ?thesis
    unfolding serve_def admit_answer[OF c] a Let_def using frame[OF a] by (cases r) simp_all
qed

lemma run_events_frame:
  "as_config (gw_state (snd (run_events es g))) = as_config (gw_state g)
    \<and> as_credentials (gw_state (snd (run_events es g))) = as_credentials (gw_state g)
    \<and> as_registry (gw_state (snd (run_events es g))) = as_registry (gw_state g)
    \<and> as_start_time (gw_state (snd (run_events es g))) = as_start_time (gw_state g)"
proof (induction es arbitrary: g)
  case (Cons ev es)
  show ?case
  proof (cases ev)
    case (Incoming env e rq)
    then show ?thesis using Cons.IH[of "snd (serve env e rq g)"] serve_frame[of env e rq g]
      by (simp add: run_events_Incoming del: run_events.simps(2))
  next
    case (PruneTick now)
    then show ?thesis using Cons.IH[of "prune_tick now g"] by (simp add: prune_tick_def)
  qed
qed simp

text \<open>Starting fails with the first of: a rejected configuration file, an address that is none, a failing bind.
  Otherwise the configuration is valid, and whatever the gateway then serves, its configuration, credentials,
  model registry and start time stay those it was started with.\<close>

theorem started_gateway:
  "case start_up (load_config exists read parse_yaml env parse_url) parse_addr bind now of
     Inl (ConfigRejected path e) \<Rightarrow> load_config exists read parse_yaml env parse_url = Inl (path, e)
   | Inl (InvalidAddress address) \<Rightarrow> parse_addr address = None
       \<and> (\<exists>cfg. load_config exists read parse_yaml env parse_url = Inr cfg \<and> address = configured_address cfg)
   | Inl BindFailed \<Rightarrow> \<exists>cfg addr. load_config exists read parse_yaml env parse_url = Inr cfg
       \<and> parse_addr (configured_address cfg) = Some addr \<and> \<not> bind addr
   | Inr (addr, g) \<Rightarrow> \<exists>cfg. load_config exists read parse_yaml env parse_url = Inr cfg
       \<and> gateway_validate parse_url cfg = Inr () \<and> parse_addr (configured_address cfg) = Some addr \<and> bind addr
       \<and> (let st = gw_state (snd (run_events es g)) in as_config st = cfg \<and> map ai_id (as_credentials st) = map cc_id (gc_credentials cfg)
            \<and> as_registry st = registry_new \<and> as_start_time st = now)"
  using run_events_frame[of es "build_gateway now cfg None" for cfg] load_config_valid[where exists = exists and read = read and parse_yaml = parse_yaml and env = env and parse_url = parse_url]
  by (auto simp: start_up_def Let_def build_gateway_def build_app_state_def comp_def split: sum.splits option.splits)

lemma default_address: "configured_address default_gateway_config = ''0.0.0.0:3000''"
  by (simp add: configured_address_def default_gateway_config_def default_server_config_def show_nat.simps char_of_def bit_0)

lemma default_loaded:
  "load_config (\<lambda>_. False) read parse_yaml (\<lambda>_. None) parse_url = Inr default_gateway_config"
  by (simp add: load_config_def config_path_def default_paths_def)

theorem pruning_unobservable_witness:
  "\<exists>addr g. start_up (load_config (\<lambda>_. False) (\<lambda>_. None) (\<lambda>_. Inl []) (\<lambda>_. None) (\<lambda>_. Inl [])) Some (\<lambda>_. True) 0 = Inr (addr, g)
    \<and> addr = ''0.0.0.0:3000''
    \<and> fst (run_events [Incoming sample_request_env Models (sample_wire []), PruneTick 500000000000,
        Incoming (sample_request_env\<lparr>re_now := 600000000000\<rparr>) Models (sample_wire [])] g)
      = fst (run_events [Incoming sample_request_env Models (sample_wire []), Incoming (sample_request_env\<lparr>re_now := 600000000000\<rparr>) Models (sample_wire [])] g)"
proof -
  let ?g = "build_gateway 0 default_gateway_config None"
  have "start_up (load_config (\<lambda>_. False) (\<lambda>_. None) (\<lambda>_. Inl []) (\<lambda>_. None) (\<lambda>_. Inl [])) Some (\<lambda>_. True) 0
      = Inr (''0.0.0.0:3000'', ?g)"
    by (simp add: start_up_Inr default_loaded default_address)
  from this pruning_unobservable[OF this, of "[Incoming sample_request_env Models (sample_wire []), PruneTick 500000000000,
      Incoming (sample_request_env\<lparr>re_now := 600000000000\<rparr>) Models (sample_wire [])]"]
  show ?thesis by (simp add: sample_request_env_def del: run_events.simps)
qed

end
