(* ===== verification/Spec2Isabelle.thy ===== *)
theory Spec2Isabelle
  imports RoutingConfig Health Session Metrics Outcome Statistics History ModelInfo Policy Router Interleaving Sweeping Executor RateLimit Ssrf
    Classification Registry Coalesce Lifecycle Reasoning Gateway Routes
    Tracing Providers WriteBehind SqliteSelector
    Templates Cli Startup
begin

text \<open>
  A model of the gateway for language-model requests (the Rust crate under src/): it classifies a
  request, keeps the credentials and models that can serve it, selects one by weight, by utility or by a
  bandit, plans fallbacks, executes attempts within a retry budget, and learns from their results, in
  memory or in a SQLite database. All arithmetic on \<open>f64\<close> is done in binary64 with its rounding,
  machine integers saturate or wrap as the code makes them, and every early return is a branch.

  \<^bold>\<open>The parts and how they interact.\<close> A request enters the HTTP layer (Http, Routes): tracing, security
  headers, the rate limiter and the bearer token of the middleware, then a handler. The chat and route
  handlers classify the body (Classification) and ask the router for a plan. The router (Router) builds
  candidates and filters them (Candidates, which reads Policy and ModelInfo), asks the session manager for
  a preferred provider (Session), estimates utilities (Utility) or samples the bandit (Bandit), and has
  the fallback planner (Fallback) order the rest; both the planner and the selector (Selector) use weights
  (Weight, PolicyWeight) computed from metrics and health (Metrics, Health). The executor (Executor) runs a
  plan and feeds results back into Metrics and Health; Router does the same for the bandit. The database
  variants (SqliteStore, SqliteCollectors, SqliteSelector) stand beside the collectors and the selector in
  memory. Gateway reads and validates the configuration, Cli is the command-line tool over the same file
  and the same endpoints.

  \<^bold>\<open>Theories and sources\<close> (paths under src/):
  \<^item> F64: binary64 as rationals with infinities and NaN; rounding, operations, ranges. Prelude: machine
    integers, strings, sorting by a comparison, hash maps, eviction. Stores: the interfaces of stores that
    evict, stores swept every few operations and bounded logs.
  \<^item> RoutingConfig: routing/config. The records with their defaults, \<open>normalize\<close>, \<open>validate\<close>, \<open>clone_config\<close>.
  \<^item> Health: routing/health (\<open>health_manager\<close>: the map, the operation counter). Metrics: routing/metrics.rs.
    Sweeping: the
    sections of their recording operations when many tasks call them. Session: routing/session.rs. Outcome, Statistics, History: routing/outcome.rs, statistics.rs, history.rs.
  \<^item> ModelInfo: registry/info.rs, categories.rs. Policy: registry/policy/types.rs, registry.rs, matcher.rs.
    Templates: registry/policy/templates.
  \<^item> Weight, PolicyWeight, Selector: routing/weight, policy_weight.rs, selector. Fallback: routing/fallback.
    Candidates: routing/candidate.rs, filtering.rs, classification/mod.rs. Utility, Bandit: routing/utility.rs,
    bandit. Router: routing/router, a plan on one state. Interleaving: \<open>pick\<close> and \<open>plan\<close> when every read of a
    shared store may see it changed by other tasks. Executor: routing/executor.rs. Reasoning: routing/reasoning.rs.
  \<^item> Classification: routing/classification and the default classifier of state.rs.
  \<^item> Registry: registry/registry, registry/fetcher.rs, one operation at a time. Coalesce: the same \<open>get\<close> by
    several tasks at once, with its mutex, its channels and cancellation. Lifecycle: the handles of a registry
    and the background task that one of them owns.
  \<^item> RateLimit: the limiter of state.rs. Ssrf: utils/ssrf.rs. Gateway: config.rs and \<open>load_config\<close> of lib.rs.
    Routes: state.rs, \<open>build_app_state\<close> of lib.rs, routes.rs. Http: the responses and layers of routes.rs,
    lib.rs and tracing/middleware.rs. Startup: \<open>run\<close> of lib.rs. Cli: bin/cli.rs. Tracing: tracing.
  \<^item> ProviderTypes, OpenAI, Anthropic, Google, Providers: providers. Building requests, reading responses, and
    what the three adapters have in common.
  \<^item> SqliteStore: routing/sqlite/store and error.rs. SqliteCollectors, WriteBehind: sqlite/collectors.rs, its
    operations and its correctness under interleaving. SqliteSelector: sqlite/selector.rs.

  A Rust struct is a record, a method a definition over it with the names of the code; a \<open>&mut self\<close> method
  returns the new record. A type behind \<open>Arc\<close> and a lock is one state that is passed on.

  \<^bold>\<open>What the lemmas show.\<close>
  \<^item> Planning: the primary route of a plan is a filtered candidate, the filter is exact, sessions stick to
    their provider (even an unhealthy one), fallbacks are ordered and diverse; whatever the random numbers, a selection is an
    eligible credential, and none exactly if there is none.
  \<^item> Learning: the bandit, the metrics and the health records agree with the reports; health follows an
    abstract state machine, success streaks recover, decay bounds the counts of the bandit; the executor
    ends within its budget and records exactly the calls it made.
  \<^item> Stores: bounds on the number of records (also when many tasks record at once, in terms of the sweeps that dropped calls missed), well-formedness after any calls; the policy registry and the
    database store refine finite maps; no interleaving of recording with flushing loses an update (unless the request itself is dropped), and a
    restart recovers what was flushed; precomputing weights is all or nothing.
  \<^item> Numbers: weights are finite and within \<open>[0, 7]\<close>, rates within the unit interval, the weighted draw is
    proportional up to rounding, token estimates are exact integer arithmetic.
  \<^item> Concurrency of the model registry: one fetch per model, every answer of a \<open>get\<close> is valid, the answers of
    coalesced calls are those of their leader, with the runs in which this fails; a background task ends with the handle that owns
    it, as soon as it yields.
  \<^item> Gateway: every request is answered, secured and traced, with the exact status in the order of the
    layers; configurations are valid exactly as stated; the address check is exact; the rate limiter's bound
    is twice its limit, and pruning its table changes no answer; the tool and the gateway are compared on one configuration file.
  \<^item> Adapters: texts and images of the conversation survive the translation, with the exception of system prompts; the formats
    are recognised by the classifier; responses are read or rejected.

  \<^bold>\<open>Parameters.\<close> What is not in the sources is an argument: the elementary functions of \<open>std\<close> whose precision is
  open (\<open>math_lib\<close>, the logarithm of the load score), the draws of the random number generator, clock
  readings, reading a socket address and binding it, generated identifiers, serde_json (\<open>json_api\<close>, \<open>json_builder\<close>), the formats of the database
  (\<open>sql_codec\<close>) and the fault a statement may have, the URL and the IP address parser, constant-time
  comparison, the fetcher of the registry, the callback of the executor, the YAML parser, the file system,
  the environment, the schema validator, and of axum the matching of paths and the \<open>Json\<close> extractor. Facts
  assumed of them are named predicates such as \<open>json_builder_ok\<close>; instances (\<open>tree_builder\<close>, \<open>json_tree\<close>,
  \<open>unary_codec\<close>) show that they can hold.

  \<^bold>\<open>Bounds and fuel.\<close> The rejection samplers of the bandit consume a list of draws and return \<open>None\<close> when it
  runs out; \<open>Bandit\<close>, \<open>Router\<close> and \<open>Http\<close> prove that some list always suffices and that longer ones give the same
  result. The image search over JSON is a partial function; it is proved to return on every finite value.
  Everything else is total by structural recursion. Integers are those of a release build: where the code
  neither saturates nor checks, they wrap.

  \<^bold>\<open>Not modelled.\<close>
  \<^item> \<open>main.rs\<close> and module files hold declarations only. Opening the socket and the logging set-up are calls of
    libraries; requests to a running gateway are served one after another, except where a theory says otherwise.
  \<^item> In \<open>get_multiple\<close> the spawned calls run one after another (the aborted ones that ran before an error included); that
    they coalesce is the subject of Coalesce.
  \<^item> The instances that serde derives, and \<open>Display\<close> of errors whose text nothing reads.
  \<^item> Panics of chrono on dates out of range, exhaustion of memory, poisoned locks.
  \<^item> \<open>to_lowercase\<close> and the like outside ASCII.
\<close>

end
